(* ===== verification/Prelude.thy ===== *)
theory Prelude
  imports Complex_Main "HOL-Library.Char_ord" "HOL-Library.List_Lexorder"
begin

text \<open>
  Shared vocabulary of the development: the Python exceptions that the services raise, the
  result type of code that may raise, Python values as they appear in JSON documents, the
  operations of the Python standard library that the services use on strings, bytes and
  dictionaries, and the generic lemmas the components share.

  A Python \<^verbatim>\<open>str\<close> is represented by the list of bytes of its UTF-8 encoding and a \<^verbatim>\<open>bytes\<close>
  value by the list of its bytes, so \<^verbatim>\<open>s.encode("utf-8")\<close> is the identity.  The order of
  UTF-8 byte strings is the order of code points, which is the order Python sorts by.
\<close>

named_theorems res_simps
named_theorems json_simps

type_synonym bytes = "char list"

section \<open>Exceptions and results\<close>

datatype exn =
    ValueError | TypeError | KeyError | IndexError | LookupError | OverflowError | IntegrityError | DataError
  | PolicyEngineError string
  | EventSequenceError | InvalidEventTypeError
  | TraceAccessDeniedError | TraceNotFoundError
  | ApprovalNotFoundError | ApprovalAlreadyResolvedError
  | ErasureTargetError | PayloadAlreadyErasedError | PayloadShreddedError
  | NoActivePolicyError | RemediationRefError
  | OfflineSegmentError | AccessReviewError | KeyWrappingError | SigningKeyError
  | PasswordPolicyError | WrongCurrentPasswordError | TsaRequestError
  | AttributeError | RuntimeError | NoResultFound | ProfileError | PackError | InvalidOrgSettingsError | WatchError | RequestException | HTTPException int

type_synonym 'a res = "exn + 'a"

definition bind_res :: "'a res \<Rightarrow> ('a \<Rightarrow> 'b res) \<Rightarrow> 'b res" where
  "bind_res r f = (case r of Inl e \<Rightarrow> Inl e | Inr x \<Rightarrow> f x)"

lemma bind_res_Inl [simp, res_simps]: "bind_res (Inl e) f = Inl e"
  by (simp add: bind_res_def)

lemma bind_res_Inr [simp, res_simps]: "bind_res (Inr x) f = f x"
  by (simp add: bind_res_def)

lemma bind_res_eq_Inr: "bind_res r f = Inr y \<longleftrightarrow> (\<exists>x. r = Inr x \<and> f x = Inr y)"
  by (cases r) auto

lemma bind_res_eq_Inl: "bind_res r f = Inl e \<longleftrightarrow> r = Inl e \<or> (\<exists>x. r = Inr x \<and> f x = Inl e)"
  by (cases r) auto

lemmas bind_res_iff = bind_res_eq_Inr bind_res_eq_Inl

definition res_of_option :: "exn \<Rightarrow> 'a option \<Rightarrow> 'a res" where
  "res_of_option e x = (case x of None \<Rightarrow> Inl e | Some y \<Rightarrow> Inr y)"

lemma res_of_option_simps [simp, res_simps]:
  "res_of_option e None = Inl e" "res_of_option e (Some y) = Inr y"
  by (simp_all add: res_of_option_def)

lemma res_of_option_eq_Inr [simp]: "res_of_option e x = Inr y \<longleftrightarrow> x = Some y"
  by (cases x) auto

lemma res_of_option_eq_Inl [simp]: "res_of_option e x = Inl e' \<longleftrightarrow> x = None \<and> e' = e"
  by (cases x) auto

text \<open>A loop whose body may raise: the first exception ends it.\<close>

fun map_res :: "('a \<Rightarrow> 'b res) \<Rightarrow> 'a list \<Rightarrow> 'b list res" where
  "map_res f [] = Inr []"
| "map_res f (x # xs) = bind_res (f x) (\<lambda>y. bind_res (map_res f xs) (\<lambda>ys. Inr (y # ys)))"

lemma map_res_Inr: "(\<And>x. x \<in> set xs \<Longrightarrow> f x = Inr (g x)) \<Longrightarrow> map_res f xs = Inr (map g xs)"
  by (induction xs) auto

lemma map_res_eq_Inr_length: "map_res f xs = Inr ys \<Longrightarrow> length ys = length xs"
  by (induction xs arbitrary: ys) (auto simp: bind_res_eq_Inr)


section \<open>Strings and bytes\<close>

definition nat_of_char :: "char \<Rightarrow> nat" where
  "nat_of_char c = of_char c"

abbreviation is_ascii_range :: "nat \<Rightarrow> nat \<Rightarrow> char \<Rightarrow> bool" where
  "is_ascii_range lo hi c \<equiv> lo \<le> nat_of_char c \<and> nat_of_char c \<le> hi"

definition is_digit :: "char \<Rightarrow> bool" where
  "is_digit c = is_ascii_range 48 57 c"

text \<open>\<^verbatim>\<open>str.isspace\<close>, \<^verbatim>\<open>str.lower\<close> and the word class \<^verbatim>\<open>\w\<close>, on ASCII.\<close>

definition is_space :: "char \<Rightarrow> bool" where
  "is_space c = (is_ascii_range 9 13 c \<or> is_ascii_range 28 32 c)"

definition is_word_char :: "char \<Rightarrow> bool" where
  "is_word_char c =
     (is_digit c \<or> is_ascii_range 65 90 c \<or> is_ascii_range 97 122 c \<or> nat_of_char c = 95)"

definition lower_char :: "char \<Rightarrow> char" where
  "lower_char c = (if is_ascii_range 65 90 c then char_of (nat_of_char c + 32) else c)"

definition lower :: "string \<Rightarrow> string" where
  "lower s = map lower_char s"

definition strip :: "string \<Rightarrow> string" where
  "strip s = rev (dropWhile is_space (rev (dropWhile is_space s)))"

fun is_prefix :: "string \<Rightarrow> string \<Rightarrow> bool" where
  "is_prefix [] s = True"
| "is_prefix (x # xs) [] = False"
| "is_prefix (x # xs) (y # ys) = (x = y \<and> is_prefix xs ys)"

text \<open>\<^verbatim>\<open>needle in s\<close>\<close>

fun contains :: "string \<Rightarrow> string \<Rightarrow> bool" where
  "contains needle [] = (needle = [])"
| "contains needle (c # s) = (is_prefix needle (c # s) \<or> contains needle s)"

text \<open>\<^verbatim>\<open>s.replace(old, new)\<close> for a non-empty \<^verbatim>\<open>old\<close>\<close>

function replace :: "string \<Rightarrow> string \<Rightarrow> string \<Rightarrow> string" where
  "replace old new [] = []"
| "replace old new (c # s) =
     (if old \<noteq> [] \<and> is_prefix old (c # s)
      then new @ replace old new (drop (length old) (c # s))
      else c # replace old new s)"
  by pat_completeness auto
termination
  by (relation "measure (\<lambda>(old, new, s). length s)") auto

text \<open>\<^verbatim>\<open>sep.join(parts)\<close>\<close>

fun join :: "string \<Rightarrow> string list \<Rightarrow> string" where
  "join sep [] = []"
| "join sep [x] = x"
| "join sep (x # y # xs) = x @ sep @ join sep (y # xs)"

text \<open>Decimal text of an integer.\<close>

fun nat_str :: "nat \<Rightarrow> string" where
  "nat_str n = (if n < 10 then [char_of (48 + n)] else nat_str (n div 10) @ [char_of (48 + n mod 10)])"

declare nat_str.simps [simp del]

definition int_str :: "int \<Rightarrow> string" where
  "int_str i = (if i < 0 then CHR ''-'' # nat_str (nat (- i)) else nat_str (nat i))"

text \<open>Text padded with zeros to a fixed width, \<^verbatim>\<open>f"{n:0wd}"\<close>.\<close>

definition pad0 :: "nat \<Rightarrow> nat \<Rightarrow> string" where
  "pad0 w n = replicate (w - length (nat_str n)) (CHR ''0'') @ nat_str n"

text \<open>\<^verbatim>\<open>bytes.hex()\<close> and \<^verbatim>\<open>bytes.fromhex\<close>; the latter skips white space between bytes and
  raises ValueError (here None) on anything that is not pairs of hexadecimal digits.\<close>

definition hex_digit :: "nat \<Rightarrow> char" where
  "hex_digit n = char_of (if n < 10 then 48 + n else 87 + n)"

definition hex_byte :: "char \<Rightarrow> string" where
  "hex_byte c = [hex_digit (nat_of_char c div 16), hex_digit (nat_of_char c mod 16)]"

definition hex :: "bytes \<Rightarrow> string" where
  "hex bs = concat (map hex_byte bs)"

definition hex_val :: "char \<Rightarrow> nat option" where
  "hex_val c =
     (if is_digit c then Some (nat_of_char c - 48)
      else if is_ascii_range 97 102 c then Some (nat_of_char c - 87)
      else if is_ascii_range 65 70 c then Some (nat_of_char c - 55)
      else None)"

definition is_fromhex_space :: "char \<Rightarrow> bool" where
  "is_fromhex_space c = (is_ascii_range 9 13 c \<or> nat_of_char c = 32)"

fun fromhex :: "string \<Rightarrow> bytes option" where
  "fromhex [] = Some []"
| "fromhex [c] = (if is_fromhex_space c then Some [] else None)"
| "fromhex (c # d # s) =
     (if is_fromhex_space c then fromhex (d # s)
      else case (hex_val c, hex_val d) of
        (Some h, Some l) \<Rightarrow> map_option (\<lambda>bs. char_of (16 * h + l) # bs) (fromhex s)
      | _ \<Rightarrow> None)"

lemma nat_of_char_Char [simp]:
  "nat_of_char (Char b0 b1 b2 b3 b4 b5 b6 b7) = of_char (Char b0 b1 b2 b3 b4 b5 b6 b7)"
  by (simp add: nat_of_char_def)

lemma nat_of_char_less [simp]: "nat_of_char c < 256"
  by (simp add: nat_of_char_def)

lemma char_of_nat_of_char [simp]: "char_of (nat_of_char c) = c"
  by (simp add: nat_of_char_def)

lemma nat_of_char_char_of [simp]: "n < 256 \<Longrightarrow> nat_of_char (char_of n) = n"
  by (simp add: nat_of_char_def)

lemma hex_val_hex_digit [simp]: "n < 16 \<Longrightarrow> hex_val (hex_digit n) = Some n"
  by (auto simp: hex_val_def hex_digit_def is_digit_def)

lemma hex_digit_not_space [simp]: "n < 16 \<Longrightarrow> \<not> is_fromhex_space (hex_digit n)"
  by (auto simp: hex_digit_def is_fromhex_space_def)

lemma fromhex_hex_append: "fromhex (hex bs @ s) = map_option (\<lambda>r. bs @ r) (fromhex s)"
proof (induction bs)
  case Nil
  show ?case by (simp add: hex_def option.map_ident)
next
  case (Cons b bs)
  have "16 * (nat_of_char b div 16) + nat_of_char b mod 16 = nat_of_char b" by simp
  moreover have "nat_of_char b div 16 < 16" using nat_of_char_less [of b] by linarith
  ultimately show ?case using Cons.IH
    by (simp add: hex_def hex_byte_def option.map_comp comp_def)
qed

lemma fromhex_hex [simp]: "fromhex (hex bs) = Some bs"
  using fromhex_hex_append [of bs "[]"] by simp

lemma hex_inject [simp]: "hex a = hex b \<longleftrightarrow> a = b"
  by (metis fromhex_hex option.inject)

section \<open>Decimal numerals\<close>

lemma nat_str_nonempty [simp]: "nat_str n \<noteq> []"
  by (subst nat_str.simps) simp

lemma is_digit_nat_str: "c \<in> set (nat_str n) \<Longrightarrow> is_digit c"
proof (induction n rule: nat_str.induct)
  case (1 n)
  show ?case
  proof (cases "n < 10")
    case True
    with "1.prems" show ?thesis by (subst (asm) nat_str.simps) (auto simp: is_digit_def)
  next
    case False
    with 1 show ?thesis by (subst (asm) nat_str.simps) (auto simp: is_digit_def)
  qed
qed

fun digits_val :: "nat \<Rightarrow> string \<Rightarrow> nat" where
  "digits_val acc [] = acc"
| "digits_val acc (c # s) = digits_val (acc * 10 + (nat_of_char c - 48)) s"

lemma digits_val_append: "digits_val acc (s @ t) = digits_val (digits_val acc s) t"
  by (induction s arbitrary: acc) auto

lemma digits_val_nat_str: "digits_val 0 (nat_str n) = n"
proof (induction n rule: nat_str.induct)
  case (1 n)
  show ?case
  proof (cases "n < 10")
    case True
    then show ?thesis by (subst nat_str.simps) simp
  next
    case False
    with "1.IH" show ?thesis
      by (subst nat_str.simps) (simp add: digits_val_append)
  qed
qed

lemma nat_str_inject [simp]: "nat_str m = nat_str n \<longleftrightarrow> m = n"
  by (metis digits_val_nat_str)

text \<open>A stable sort keeps an order of the input among elements of equal key.\<close>

lemma insort_key_wrt:
  assumes "sorted_wrt (\<lambda>x y. f x < f y \<or> f x = f y \<and> S x y) ys" "\<And>y. y \<in> set ys \<Longrightarrow> S x y"
  shows "sorted_wrt (\<lambda>x y. f x < f y \<or> f x = f y \<and> S x y) (insort_key f x ys)"
  using assms
proof (induction ys)
  case (Cons y ys)
  show ?case
  proof (cases "f x \<le> f y")
    case True
    then show ?thesis using Cons.prems by fastforce
  next
    case False
    then show ?thesis using Cons by (auto simp: set_insort_key)
  qed
qed simp

lemma sort_key_stable_wrt:
  "sorted_wrt S xs \<Longrightarrow> sorted_wrt (\<lambda>x y. f x < f y \<or> f x = f y \<and> S x y) (sort_key f xs)"
  by (induction xs) (auto intro!: insort_key_wrt)

lemma map_res_eq_Inr_nth:
  "map_res f xs = Inr ys \<Longrightarrow> i < length xs \<Longrightarrow> f (xs ! i) = Inr (ys ! i)"
  by (induction xs arbitrary: ys i) (auto simp: bind_res_eq_Inr nth_Cons split: nat.split)

lemma map_res_eq_Inr_set:
  "map_res f xs = Inr ys \<Longrightarrow> y \<in> set ys \<Longrightarrow> \<exists>x \<in> set xs. f x = Inr y"
  by (induction xs arbitrary: ys) (auto simp: bind_res_eq_Inr)

lemma map_res_eq_Inr_elem:
  "map_res f xs = Inr ys \<Longrightarrow> x \<in> set xs \<Longrightarrow> \<exists>y \<in> set ys. f x = Inr y"
  by (induction xs arbitrary: ys) (auto simp: bind_res_eq_Inr)

lemma map_res_eq_Inl: "map_res f xs = Inl e \<Longrightarrow> \<exists>x \<in> set xs. f x = Inl e"
  by (induction xs) (auto simp: bind_res_eq_Inl)

lemma map_res_Inl_ex: "x \<in> set xs \<Longrightarrow> f x = Inl e \<Longrightarrow> \<exists>e'. map_res f xs = Inl e'"
  by (cases "map_res f xs") (auto dest: map_res_eq_Inr_elem)

end
