(* ===== verification/Json.thy ===== *)
theory Json
  imports Prelude
begin

text \<open>
  Python values of the kinds a JSON document holds, with the operations of the Python
  language and of its \<^verbatim>\<open>json\<close> module that the services use: dictionary access and assignment,
  truth value, equality (where \<^verbatim>\<open>1 == True == 1.0\<close>), \<^verbatim>\<open>str()\<close>, \<^verbatim>\<open>json.dumps\<close> and
  \<^verbatim>\<open>json.loads\<close>.  A dictionary is an association list in insertion order with distinct keys.
  A finite \<^verbatim>\<open>float\<close> is the rational number it denotes; infinities, NaN and the negative zero
  are not represented.
\<close>

datatype json =
    JNull
  | JBool bool
  | JInt int
  | JFloat rat
  | JStr string
  | JList "json list"
  | JObj "(string \<times> json) list"

type_synonym dict = "(string \<times> json) list"

section \<open>Dictionaries\<close>

text \<open>\<^verbatim>\<open>d.get(k, default)\<close>, \<^verbatim>\<open>d.get(k)\<close>, \<^verbatim>\<open>k in d\<close>, \<^verbatim>\<open>d[k] = v\<close>\<close>

definition dget_def :: "dict \<Rightarrow> string \<Rightarrow> json \<Rightarrow> json" where
  "dget_def d k v = (case map_of d k of None \<Rightarrow> v | Some w \<Rightarrow> w)"

definition dget :: "dict \<Rightarrow> string \<Rightarrow> json" where
  "dget d k = dget_def d k JNull"

definition dhas :: "dict \<Rightarrow> string \<Rightarrow> bool" where
  "dhas d k = (map_of d k \<noteq> None)"

fun dset :: "dict \<Rightarrow> string \<Rightarrow> json \<Rightarrow> dict" where
  "dset [] k v = [(k, v)]"
| "dset ((k', v') # d) k v = (if k' = k then (k', v) # d else (k', v') # dset d k v)"

definition dict_of_pairs :: "(string \<times> json) list \<Rightarrow> dict" where
  "dict_of_pairs ps = foldl (\<lambda>d (k, v). dset d k v) [] ps"

section \<open>Truth value, numbers, equality\<close>

fun truthy :: "json \<Rightarrow> bool" where
  "truthy JNull = False"
| "truthy (JBool b) = b"
| "truthy (JInt i) = (i \<noteq> 0)"
| "truthy (JFloat x) = (x \<noteq> 0)"
| "truthy (JStr s) = (s \<noteq> [])"
| "truthy (JList xs) = (xs \<noteq> [])"
| "truthy (JObj d) = (d \<noteq> [])"

text \<open>\<^verbatim>\<open>a or b\<close>\<close>

definition py_or :: "json \<Rightarrow> json \<Rightarrow> json" where
  "py_or a b = (if truthy a then a else b)"

text \<open>\<^verbatim>\<open>isinstance(v, (int, float))\<close> and the number: a bool is an int.\<close>

fun num_val :: "json \<Rightarrow> rat option" where
  "num_val (JBool b) = Some (if b then 1 else 0)"
| "num_val (JInt i) = Some (of_int i)"
| "num_val (JFloat x) = Some x"
| "num_val _ = None"

fun is_str :: "json \<Rightarrow> bool" where
  "is_str (JStr s) = True"
| "is_str _ = False"

fun is_obj :: "json \<Rightarrow> bool" where
  "is_obj (JObj d) = True"
| "is_obj _ = False"

fun py_eq :: "json \<Rightarrow> json \<Rightarrow> bool"
  and py_eq_list :: "json list \<Rightarrow> json list \<Rightarrow> bool"
  and py_eq_obj :: "dict \<Rightarrow> dict \<Rightarrow> bool" where
  "py_eq JNull w = (w = JNull)"
| "py_eq (JBool b) w = (num_val w = num_val (JBool b))"
| "py_eq (JInt i) w = (num_val w = num_val (JInt i))"
| "py_eq (JFloat x) w = (num_val w = num_val (JFloat x))"
| "py_eq (JStr s) w = (w = JStr s)"
| "py_eq (JList xs) w = (case w of JList ys \<Rightarrow> py_eq_list xs ys | _ \<Rightarrow> False)"
| "py_eq (JObj d) w =
     (case w of JObj e \<Rightarrow> length d = length e \<and> py_eq_obj d e | _ \<Rightarrow> False)"
| "py_eq_list [] ys = (ys = [])"
| "py_eq_list (x # xs) ys =
     (case ys of [] \<Rightarrow> False | y # ys' \<Rightarrow> py_eq x y \<and> py_eq_list xs ys')"
| "py_eq_obj [] e = True"
| "py_eq_obj ((k, v) # d) e =
     ((case map_of e k of None \<Rightarrow> False | Some w \<Rightarrow> py_eq v w) \<and> py_eq_obj d e)"

section \<open>Floating-point numbers\<close>

text \<open>Rounding to the nearest double (ties to even), and the shortest decimal text that rounds
  back to the double, which is what \<^verbatim>\<open>repr\<close> and \<^verbatim>\<open>json.dumps\<close> print.\<close>

definition round_half_even :: "rat \<Rightarrow> int" where
  "round_half_even x =
     (let f = \<lfloor>x\<rfloor>; r = x - of_int f in
      if r < 1/2 then f else if r > 1/2 then f + 1 else if even f then f else f + 1)"

fun ilog2 :: "nat \<Rightarrow> nat" where
  "ilog2 n = (if n < 2 then 0 else Suc (ilog2 (n div 2)))"

declare ilog2.simps [simp del]

definition floor_log2 :: "rat \<Rightarrow> int" where
  "floor_log2 a =
     (if 1 \<le> a then int (ilog2 (nat \<lfloor>a\<rfloor>)) else - int (ilog2 (nat \<lceil>1 / a\<rceil> - 1) + 1))"

definition floor_log10 :: "rat \<Rightarrow> int" where
  "floor_log10 a =
     (if 1 \<le> a then int (length (nat_str (nat \<lfloor>a\<rfloor>))) - 1
      else - int (length (nat_str (nat \<lceil>1 / a\<rceil> - 1))))"

definition scale :: "rat \<Rightarrow> int \<Rightarrow> rat" where
  "scale b e = (if 0 \<le> e then b ^ nat e else 1 / b ^ nat (- e))"

definition to_double :: "rat \<Rightarrow> rat" where
  "to_double x =
     (if x = 0 then 0
      else let a = \<bar>x\<bar>; e = max (- 1074) (floor_log2 a - 52)
           in sgn x * of_int (round_half_even (a / scale 2 e)) * scale 2 e)"

fun shortest_digits :: "nat \<Rightarrow> nat \<Rightarrow> rat \<Rightarrow> nat \<times> int" where
  "shortest_digits more d a =
     (let s = floor_log10 a - int d + 1;
          m = round_half_even (a / scale 10 s)
      in case more of
           0 \<Rightarrow> (nat m, s)
         | Suc more' \<Rightarrow>
             if to_double (of_int m * scale 10 s) = a then (nat m, s)
             else shortest_digits more' (Suc d) a)"

declare shortest_digits.simps [simp del]

definition float_repr :: "rat \<Rightarrow> string" where
  "float_repr x =
     (if x = 0 then ''0.0''
      else let (m, s) = shortest_digits 16 1 \<bar>x\<bar>;
               ds = rev (dropWhile (\<lambda>c. c = CHR ''0'') (rev (nat_str m)));
               decpt = int (length (nat_str m)) + s;
               n = int (length ds);
               body =
                 (if - 4 < decpt \<and> decpt \<le> 16 then
                    (if decpt \<le> 0 then ''0.'' @ replicate (nat (- decpt)) (CHR ''0'') @ ds
                     else if n \<le> decpt then ds @ replicate (nat (decpt - n)) (CHR ''0'') @ ''.0''
                     else take (nat decpt) ds @ ''.'' @ drop (nat decpt) ds)
                  else
                    take 1 ds @ (if length ds = 1 then [] else ''.'' @ drop 1 ds) @ ''e'' @
                    (if decpt - 1 < 0 then ''-'' else ''+'') @ pad0 2 (nat \<bar>decpt - 1\<bar>))
           in (if x < 0 then ''-'' else []) @ body)"

section \<open>The str function\<close>

definition repr_char :: "char \<Rightarrow> char \<Rightarrow> string" where
  "repr_char q c =
     (if c = q \<or> c = CHR 0x5C then [CHR 0x5C, c]
      else if nat_of_char c = 10 then [CHR 0x5C, CHR ''n'']
      else if nat_of_char c = 13 then [CHR 0x5C, CHR ''r'']
      else if nat_of_char c = 9 then [CHR 0x5C, CHR ''t'']
      else if nat_of_char c < 32 \<or> nat_of_char c = 127 then [CHR 0x5C, CHR ''x''] @ hex_byte c
      else [c])"

definition repr_str :: "string \<Rightarrow> string" where
  "repr_str s =
     (let q = (if CHR 0x27 \<in> set s \<and> CHR 0x22 \<notin> set s then CHR 0x22 else CHR 0x27)
      in [q] @ concat (map (repr_char q) s) @ [q])"

fun py_repr :: "json \<Rightarrow> string"
  and py_repr_list :: "json list \<Rightarrow> string list"
  and py_repr_obj :: "dict \<Rightarrow> string list" where
  "py_repr JNull = ''None''"
| "py_repr (JBool b) = (if b then ''True'' else ''False'')"
| "py_repr (JInt i) = int_str i"
| "py_repr (JFloat x) = float_repr x"
| "py_repr (JStr s) = repr_str s"
| "py_repr (JList xs) = ''['' @ join '', '' (py_repr_list xs) @ '']''"
| "py_repr (JObj d) = ''{'' @ join '', '' (py_repr_obj d) @ ''}''"
| "py_repr_list [] = []"
| "py_repr_list (x # xs) = py_repr x # py_repr_list xs"
| "py_repr_obj [] = []"
| "py_repr_obj ((k, v) # d) = (repr_str k @ '': '' @ py_repr v) # py_repr_obj d"

definition py_str :: "json \<Rightarrow> string" where
  "py_str v = (case v of JStr s \<Rightarrow> s | _ \<Rightarrow> py_repr v)"

text \<open>A \<^verbatim>\<open>for\<close> loop over a JSON value: the items of a list, the keys of an object, the characters of a
  string.\<close>

fun py_iter :: "json \<Rightarrow> json list res" where
  "py_iter (JList xs) = Inr xs"
| "py_iter (JObj d) = Inr (map (\<lambda>(k, v). JStr k) d)"
| "py_iter (JStr s) = Inr (map (\<lambda>c. JStr [c]) s)"
| "py_iter _ = Inl TypeError"

definition as_dict :: "json \<Rightarrow> dict res" where
  "as_dict v = (case v of JObj d \<Rightarrow> Inr d | _ \<Rightarrow> Inl AttributeError)"

section \<open>json.dumps with ensure\_ascii=False\<close>

definition json_escape :: "char \<Rightarrow> string" where
  "json_escape c =
     (if c = CHR 0x22 \<or> c = CHR 0x5C then [CHR 0x5C, c]
      else if nat_of_char c = 10 then [CHR 0x5C, CHR ''n'']
      else if nat_of_char c = 13 then [CHR 0x5C, CHR ''r'']
      else if nat_of_char c = 9 then [CHR 0x5C, CHR ''t'']
      else if nat_of_char c = 8 then [CHR 0x5C, CHR ''b'']
      else if nat_of_char c = 12 then [CHR 0x5C, CHR ''f'']
      else if nat_of_char c < 32 then [CHR 0x5C, CHR ''u'', CHR ''0'', CHR ''0''] @ hex_byte c
      else [c])"

definition json_str :: "string \<Rightarrow> string" where
  "json_str s = [CHR 0x22] @ concat (map json_escape s) @ [CHR 0x22]"

text \<open>The first argument quotes a string; the separators are the item and the key separator; \<^verbatim>\<open>sort_keys=True\<close> is \<open>jnorm\<close>, applied
  first: every dictionary, at every depth, in the order of its keys.\<close>

fun dumps_with :: "(string \<Rightarrow> string) \<Rightarrow> string \<Rightarrow> string \<Rightarrow> json \<Rightarrow> string"
  and dumps_list :: "(string \<Rightarrow> string) \<Rightarrow> string \<Rightarrow> string \<Rightarrow> json list \<Rightarrow> string"
  and dumps_obj :: "(string \<Rightarrow> string) \<Rightarrow> string \<Rightarrow> string \<Rightarrow> dict \<Rightarrow> string" where
  "dumps_with q isep ksep JNull = ''null''"
| "dumps_with q isep ksep (JBool b) = (if b then ''true'' else ''false'')"
| "dumps_with q isep ksep (JInt i) = int_str i"
| "dumps_with q isep ksep (JFloat x) = float_repr x"
| "dumps_with q isep ksep (JStr s) = q s"
| "dumps_with q isep ksep (JList xs) = ''['' @ dumps_list q isep ksep xs @ '']''"
| "dumps_with q isep ksep (JObj d) = ''{'' @ dumps_obj q isep ksep d @ ''}''"
| "dumps_list q isep ksep [] = []"
| "dumps_list q isep ksep (x # xs) =
     dumps_with q isep ksep x @ (case xs of [] \<Rightarrow> [] | _ \<Rightarrow> isep @ dumps_list q isep ksep xs)"
| "dumps_obj q isep ksep [] = []"
| "dumps_obj q isep ksep ((k, v) # d) =
     q k @ ksep @ dumps_with q isep ksep v @ (case d of [] \<Rightarrow> [] | _ \<Rightarrow> isep @ dumps_obj q isep ksep d)"

abbreviation dumps :: "string \<Rightarrow> string \<Rightarrow> json \<Rightarrow> string" where
  "dumps \<equiv> dumps_with json_str"

fun jnorm :: "json \<Rightarrow> json"
  and jnorm_list :: "json list \<Rightarrow> json list"
  and jnorm_obj :: "dict \<Rightarrow> dict" where
  "jnorm (JList xs) = JList (jnorm_list xs)"
| "jnorm (JObj d) = JObj (sort_key fst (jnorm_obj d))"
| "jnorm v = v"
| "jnorm_list [] = []"
| "jnorm_list (x # xs) = jnorm x # jnorm_list xs"
| "jnorm_obj [] = []"
| "jnorm_obj ((k, v) # d) = (k, jnorm v) # jnorm_obj d"

section \<open>json.dumps with ensure\_ascii=True\<close>

text \<open>A Python string is modelled by its UTF-8 bytes; \<open>code_points\<close> reads its characters, \<open>scalar\<close>
  are the code points UTF-8 can encode.\<close>

definition utf8 :: "nat \<Rightarrow> string" where
  "utf8 n =
     (if n < 0x80 then [char_of n]
      else if n < 0x800 then [char_of (0xC0 + n div 64), char_of (0x80 + n mod 64)]
      else if n < 0x10000 then
        [char_of (0xE0 + n div 4096), char_of (0x80 + n div 64 mod 64), char_of (0x80 + n mod 64)]
      else
        [char_of (0xF0 + n div 262144), char_of (0x80 + n div 4096 mod 64),
         char_of (0x80 + n div 64 mod 64), char_of (0x80 + n mod 64)])"

definition continuation :: "char \<Rightarrow> nat" where
  "continuation c = nat_of_char c mod 64"

fun code_points :: "string \<Rightarrow> nat list" where
  "code_points [] = []"
| "code_points (c # s) =
     (let x = nat_of_char c in
      if x < 0x80 then x # code_points s
      else if x < 0xE0 then
        (case s of c1 # s' \<Rightarrow> ((x - 0xC0) * 64 + continuation c1) # code_points s' | _ \<Rightarrow> [])
      else if x < 0xF0 then
        (case s of
           c1 # c2 # s' \<Rightarrow> ((x - 0xE0) * 4096 + continuation c1 * 64 + continuation c2) # code_points s'
         | _ \<Rightarrow> [])
      else
        (case s of
           c1 # c2 # c3 # s' \<Rightarrow>
             ((x - 0xF0) * 262144 + continuation c1 * 4096 + continuation c2 * 64 + continuation c3) #
               code_points s'
         | _ \<Rightarrow> []))"

definition scalar :: "nat \<Rightarrow> bool" where
  "scalar n \<longleftrightarrow> n < 0x110000 \<and> \<not> (0xD800 \<le> n \<and> n < 0xE000)"

definition utf8_ok :: "string \<Rightarrow> bool" where
  "utf8_ok s \<longleftrightarrow> list_all scalar (code_points s) \<and> concat (map utf8 (code_points s)) = s"

definition u_escape :: "nat \<Rightarrow> string" where
  "u_escape n = [CHR 0x5C, CHR ''u'', hex_digit (n div 4096), hex_digit (n div 256 mod 16),
     hex_digit (n div 16 mod 16), hex_digit (n mod 16)]"

definition ascii_escape :: "nat \<Rightarrow> string" where
  "ascii_escape n =
     (if n < 32 \<or> n = 0x22 \<or> n = 0x5C then json_escape (char_of n)
      else if n < 127 then [char_of n]
      else if n < 0x10000 then u_escape n
      else u_escape (0xD800 + (n - 0x10000) div 1024) @ u_escape (0xDC00 + (n - 0x10000) mod 1024))"

definition json_str_ascii :: "string \<Rightarrow> string" where
  "json_str_ascii s = [CHR 0x22] @ concat (map ascii_escape (code_points s)) @ [CHR 0x22]"

abbreviation dumps_ascii :: "string \<Rightarrow> string \<Rightarrow> json \<Rightarrow> string" where
  "dumps_ascii \<equiv> dumps_with json_str_ascii"

section \<open>json.loads\<close>

fun skip_ws :: "string \<Rightarrow> string" where
  "skip_ws [] = []"
| "skip_ws (c # s) = (if nat_of_char c \<in> {9, 10, 13, 32} then skip_ws s else c # s)"

definition hex4 :: "char \<Rightarrow> char \<Rightarrow> char \<Rightarrow> char \<Rightarrow> nat option" where
  "hex4 a b c d =
     (case (hex_val a, hex_val b, hex_val c, hex_val d) of
        (Some w, Some x, Some y, Some z) \<Rightarrow> Some (4096 * w + 256 * x + 16 * y + z)
      | _ \<Rightarrow> None)"

definition simple_escape :: "char \<Rightarrow> char option" where
  "simple_escape c =
     (if c = CHR 0x22 \<or> c = CHR 0x5C \<or> c = CHR ''/'' then Some c
      else if c = CHR ''n'' then Some (char_of (10::nat))
      else if c = CHR ''r'' then Some (char_of (13::nat))
      else if c = CHR ''t'' then Some (char_of (9::nat))
      else if c = CHR ''b'' then Some (char_of (8::nat))
      else if c = CHR ''f'' then Some (char_of (12::nat))
      else None)"

text \<open>The low half of a surrogate pair, when the text goes on with one.\<close>

definition low_surrogate :: "nat \<Rightarrow> string \<Rightarrow> nat option" where
  "low_surrogate n s =
     (if 0xD800 \<le> n \<and> n < 0xDC00 then
        (case s of
           c1 # c2 # g1 # g2 # g3 # g4 # _ \<Rightarrow>
             (case hex4 g1 g2 g3 g4 of
                Some m \<Rightarrow> if c1 = CHR 0x5C \<and> c2 = CHR ''u'' \<and> 0xDC00 \<le> m \<and> m < 0xE000 then Some m
                          else None
              | None \<Rightarrow> None)
         | _ \<Rightarrow> None)
      else None)"

fun parse_str :: "string \<Rightarrow> (string \<times> string) option" where
  "parse_str [] = None"
| "parse_str [c] = (if c = CHR 0x22 then Some ([], []) else None)"
| "parse_str (c # e # s) =
     (if c = CHR 0x22 then Some ([], e # s)
      else if nat_of_char c < 32 then None
      else if c = CHR 0x5C then
        (if e = CHR ''u'' then
           (case s of
              h1 # h2 # h3 # h4 # s' \<Rightarrow>
                (case hex4 h1 h2 h3 h4 of
                   None \<Rightarrow> None
                 | Some n \<Rightarrow>
                     (case low_surrogate n s' of
                        None \<Rightarrow> map_option (\<lambda>(t, r). (utf8 n @ t, r)) (parse_str s')
                      | Some m \<Rightarrow>
                          map_option (\<lambda>(t, r).
                            (utf8 (0x10000 + (n - 0xD800) * 1024 + (m - 0xDC00)) @ t, r))
                            (parse_str (drop 6 s'))))
            | _ \<Rightarrow> None)
         else (case simple_escape e of
                None \<Rightarrow> None
              | Some d \<Rightarrow> map_option (\<lambda>(t, r). (d # t, r)) (parse_str s)))
      else map_option (\<lambda>(t, r). (c # t, r)) (parse_str (e # s)))"

text \<open>A number: an optional sign, digits without superfluous leading zeros, an optional fraction,
  an optional exponent.  With neither fraction nor exponent it is an int.\<close>

definition span_digits :: "string \<Rightarrow> string \<times> string" where
  "span_digits s = (takeWhile is_digit s, dropWhile is_digit s)"

definition int_part :: "string \<Rightarrow> (string \<times> string) option" where
  "int_part s =
     (case span_digits s of
        ([], r) \<Rightarrow> None
      | (d # ds, r) \<Rightarrow> if d = CHR ''0'' then Some ([d], ds @ r) else Some (d # ds, r))"

definition frac_part :: "string \<Rightarrow> string \<times> string" where
  "frac_part s =
     (case s of
        [] \<Rightarrow> ([], s)
      | c # t \<Rightarrow> if c = CHR ''.'' \<and> fst (span_digits t) \<noteq> [] then span_digits t else ([], s))"

definition exp_part :: "string \<Rightarrow> int option \<times> string" where
  "exp_part s =
     (case s of
        [] \<Rightarrow> (None, s)
      | c # t \<Rightarrow>
          if c = CHR ''e'' \<or> c = CHR ''E'' then
            (let (neg, u) = (case t of
                 [] \<Rightarrow> (False, t)
               | g # u \<Rightarrow> if g = CHR ''-'' then (True, u) else if g = CHR ''+'' then (False, u)
                           else (False, t));
                 (ds, r) = span_digits u
             in if ds = [] then (None, s)
                else (Some ((if neg then - 1 else 1) * int (digits_val 0 ds)), r))
          else (None, s))"

definition parse_num :: "string \<Rightarrow> (json \<times> string) option" where
  "parse_num s =
     (let (neg, t) = (case s of [] \<Rightarrow> (False, s)
                        | c # t \<Rightarrow> if c = CHR ''-'' then (True, t) else (False, s))
      in case int_part t of
           None \<Rightarrow> None
         | Some (ds, r) \<Rightarrow>
             (let (fs, r1) = frac_part r; (ex, r2) = exp_part r1;
                  sg = (if neg then - 1 else 1) in
              if fs = [] \<and> ex = None then Some (JInt (sg * int (digits_val 0 ds)), r2)
              else Some (JFloat (to_double (of_int (sg * int (digits_val 0 (ds @ fs))) *
                     scale 10 ((case ex of None \<Rightarrow> 0 | Some e \<Rightarrow> e) - int (length fs)))), r2)))"

fun parse_val :: "nat \<Rightarrow> string \<Rightarrow> (json \<times> string) option"
  and parse_elems :: "nat \<Rightarrow> string \<Rightarrow> (json list \<times> string) option"
  and parse_members :: "nat \<Rightarrow> string \<Rightarrow> (dict \<times> string) option" where
  "parse_val 0 s = None"
| "parse_val (Suc n) s =
     (case s of
        [] \<Rightarrow> None
      | c # t \<Rightarrow>
          if c = CHR 0x22 then map_option (\<lambda>(x, r). (JStr x, r)) (parse_str t)
          else if c = CHR ''['' then
            (case skip_ws t of
               [] \<Rightarrow> None
             | e # u \<Rightarrow> if e = CHR '']'' then Some (JList [], u)
                        else map_option (\<lambda>(xs, r). (JList xs, r)) (parse_elems n (e # u)))
          else if c = CHR ''{'' then
            (case skip_ws t of
               [] \<Rightarrow> None
             | e # u \<Rightarrow> if e = CHR ''}'' then Some (JObj [], u)
                        else map_option (\<lambda>(d, r). (JObj (dict_of_pairs d), r))
                               (parse_members n (e # u)))
          else if is_prefix ''null'' s then Some (JNull, drop 4 s)
          else if is_prefix ''true'' s then Some (JBool True, drop 4 s)
          else if is_prefix ''false'' s then Some (JBool False, drop 5 s)
          else parse_num s)"
| "parse_elems 0 s = None"
| "parse_elems (Suc n) s =
     (case parse_val n s of
        None \<Rightarrow> None
      | Some (v, r) \<Rightarrow>
          (case skip_ws r of
             [] \<Rightarrow> None
           | c # u \<Rightarrow>
               if c = CHR '']'' then Some ([v], u)
               else if c = CHR '','' then
                 map_option (\<lambda>(vs, r'). (v # vs, r')) (parse_elems n (skip_ws u))
               else None))"
| "parse_members 0 s = None"
| "parse_members (Suc n) s =
     (case s of
        [] \<Rightarrow> None
      | q # t \<Rightarrow>
          if q \<noteq> CHR 0x22 then None
          else (case parse_str t of
            None \<Rightarrow> None
          | Some (k, r0) \<Rightarrow>
              (case skip_ws r0 of
                 [] \<Rightarrow> None
               | c # u \<Rightarrow>
                   if c \<noteq> CHR '':'' then None
                   else (case parse_val n (skip_ws u) of
                     None \<Rightarrow> None
                   | Some (v, r) \<Rightarrow>
                       (case skip_ws r of
                          [] \<Rightarrow> None
                        | e # w \<Rightarrow>
                            if e = CHR ''}'' then Some ([(k, v)], w)
                            else if e = CHR '','' then
                              map_option (\<lambda>(d, r'). ((k, v) # d, r')) (parse_members n (skip_ws w))
                            else None)))))"

text \<open>The nesting and the number of elements are bounded by the length of the text, so this fuel
  is never what makes the parser fail (lemma \<open>loads_dumps\<close>, for every text that is the output of
  \<^verbatim>\<open>json.dumps\<close>).\<close>

definition loads :: "string \<Rightarrow> json option" where
  "loads s =
     (case parse_val (Suc (length s)) (skip_ws s) of
        Some (v, r) \<Rightarrow> if skip_ws r = [] then Some v else None
      | None \<Rightarrow> None)"

section \<open>Round trip of dumps and loads\<close>

text \<open>A value is plain if it holds no float and no dictionary with a repeated key; \<open>jstrings\<close> are its
  strings and keys; \<open>need\<close> is the
  fuel the parser spends on it; \<open>delim\<close>, \<open>seps\<close> and \<open>starts\<close> describe what may follow a value, the
  separators the code uses, and how the text of a value begins.\<close>

fun jplain :: "json \<Rightarrow> bool"
  and jplain_list :: "json list \<Rightarrow> bool"
  and jplain_obj :: "dict \<Rightarrow> bool" where
  "jplain (JFloat x) = False"
| "jplain (JList xs) = jplain_list xs"
| "jplain (JObj d) = (distinct (map fst d) \<and> jplain_obj d)"
| "jplain v = True"
| "jplain_list [] = True"
| "jplain_list (x # xs) = (jplain x \<and> jplain_list xs)"
| "jplain_obj [] = True"
| "jplain_obj ((k, v) # d) = (jplain v \<and> jplain_obj d)"

fun jstrings :: "json \<Rightarrow> string list"
  and jstrings_list :: "json list \<Rightarrow> string list"
  and jstrings_obj :: "dict \<Rightarrow> string list" where
  "jstrings (JStr s) = [s]"
| "jstrings (JList xs) = jstrings_list xs"
| "jstrings (JObj d) = jstrings_obj d"
| "jstrings v = []"
| "jstrings_list [] = []"
| "jstrings_list (x # xs) = jstrings x @ jstrings_list xs"
| "jstrings_obj [] = []"
| "jstrings_obj ((k, v) # d) = k # jstrings v @ jstrings_obj d"

fun need :: "json \<Rightarrow> nat"
  and need_list :: "json list \<Rightarrow> nat"
  and need_obj :: "dict \<Rightarrow> nat" where
  "need (JList xs) = Suc (need_list xs)"
| "need (JObj d) = Suc (need_obj d)"
| "need v = 1"
| "need_list [] = 0"
| "need_list (x # xs) = Suc (max (need x) (need_list xs))"
| "need_obj [] = 0"
| "need_obj ((k, v) # d) = Suc (max (need v) (need_obj d))"

definition delim :: "string \<Rightarrow> bool" where
  "delim r = (case r of [] \<Rightarrow> True | c # _ \<Rightarrow> \<not> is_digit c \<and> c \<notin> {CHR ''.'', CHR ''e'', CHR ''E''})"

definition seps :: "string \<Rightarrow> string \<Rightarrow> bool" where
  "seps isep ksep = (isep \<in> {'','', '', ''} \<and> ksep \<in> {'':'', '': ''})"

definition starts :: "string \<Rightarrow> bool" where
  "starts s = (case s of [] \<Rightarrow> False | c # _ \<Rightarrow> nat_of_char c \<notin> {9, 10, 13, 32} \<and> c \<noteq> CHR '']'' \<and> c \<noteq> CHR ''}'')"

lemma parse_str_quote [simp]: "parse_str (CHR 0x22 # s) = Some ([], s)"
  by (cases s) auto

lemma parse_str_plain:
  "c \<noteq> CHR 0x22 \<Longrightarrow> c \<noteq> CHR 0x5C \<Longrightarrow> \<not> nat_of_char c < 32 \<Longrightarrow>
   parse_str (c # s) = map_option (\<lambda>(t, r). (c # t, r)) (parse_str s)"
  by (cases s) auto

lemma parse_str_simple:
  "simple_escape e = Some d \<Longrightarrow>
   parse_str (CHR 0x5C # e # s) = map_option (\<lambda>(t, r). (d # t, r)) (parse_str s)"
  by (auto simp: simple_escape_def nat_of_char_def split: if_splits)

lemma hex_val_0 [simp]: "hex_val (CHR ''0'') = Some 0"
  by (simp add: hex_val_def is_digit_def nat_of_char_def)

lemma hex4_00: "n < 256 \<Longrightarrow>
    hex4 (CHR ''0'') (CHR ''0'') (hex_digit (n div 16)) (hex_digit (n mod 16)) = Some n"
  by (simp add: hex4_def)

lemma parse_str_u00:
  assumes "nat_of_char c < 32"
  shows "parse_str ([CHR 0x5C, CHR ''u'', CHR ''0'', CHR ''0''] @ hex_byte c @ s) =
    map_option (\<lambda>(t, r). (c # t, r)) (parse_str s)"
proof -
  have "utf8 (nat_of_char c) = [c]" using assms by (simp add: utf8_def)
  moreover have "low_surrogate (nat_of_char c) s = None"
    using assms by (simp add: low_surrogate_def)
  moreover have "\<not> nat_of_char (CHR 0x5C) < 32" by (simp add: nat_of_char_def)
  ultimately show ?thesis by (simp add: hex_byte_def hex4_00)
qed

lemma json_escape_chars:
  "nat_of_char c = 10 \<Longrightarrow> c = CHR 0x0A" "nat_of_char c = 13 \<Longrightarrow> c = CHR 0x0D"
  "nat_of_char c = 9 \<Longrightarrow> c = CHR 0x09" "nat_of_char c = 8 \<Longrightarrow> c = CHR 0x08"
  "nat_of_char c = 12 \<Longrightarrow> c = CHR 0x0C"
  by (drule arg_cong [where f = "char_of :: nat \<Rightarrow> char"], simp add: char_of_eq_iff)+

lemma parse_str_json_escape:
  "parse_str (json_escape c @ s) = map_option (\<lambda>(t, r). (c # t, r)) (parse_str s)"
  supply parse_str.simps [simp del]
  using parse_str_u00 [of c s]
  by (auto simp: json_escape_def parse_str_plain parse_str_simple simple_escape_def char_of_eq_iff
      dest!: json_escape_chars)

lemma parse_str_escaped:
  "parse_str (concat (map json_escape s) @ CHR 0x22 # r) = Some (s, r)"
  by (induction s) (auto simp: parse_str_json_escape)

lemma parse_str_json_str: "parse_str (tl (json_str s @ r)) = Some (s, r)"
  by (simp add: json_str_def parse_str_escaped)

lemma hd_nat_str_pos: "0 < n \<Longrightarrow> hd (nat_str n) \<noteq> CHR ''0''"
proof (induction n rule: nat_str.induct)
  case (1 n)
  show ?case
  proof (cases "n < 10")
    case True
    then have "nat_of_char (char_of (48 + n)) = 48 + n" by simp
    moreover have "nat_of_char (CHR ''0'') = 48" by (simp add: nat_of_char_def)
    ultimately have "char_of (48 + n) \<noteq> CHR ''0''" using "1.prems" by force
    with True show ?thesis by (subst nat_str.simps) simp
  next
    case False
    with "1.IH" show ?thesis by (subst nat_str.simps) (simp add: hd_append)
  qed
qed

lemma nat_str_0: "nat_str 0 = ''0''"
  by (subst nat_str.simps) (simp add: char_of_eq_iff)

lemma span_digits_append:
  assumes "\<forall>c \<in> set ds. is_digit c" and "delim r"
  shows "span_digits (ds @ r) = (ds, r)"
  using assms by (cases r) (auto simp: span_digits_def delim_def takeWhile_append dropWhile_append takeWhile_eq_all_conv)

lemma int_part_nat_str: "delim r \<Longrightarrow> int_part (nat_str n @ r) = Some (nat_str n, r)"
proof -
  assume r: "delim r"
  have s: "span_digits (nat_str n @ r) = (nat_str n, r)"
    using r by (intro span_digits_append) (auto dest: is_digit_nat_str)
  show ?thesis
  proof (cases "n = 0")
    case True
    then show ?thesis using s by (simp add: int_part_def nat_str_0)
  next
    case False
    with hd_nat_str_pos [of n] have "hd (nat_str n) \<noteq> CHR ''0''" by simp
    then show ?thesis using s by (cases "nat_str n") (auto simp: int_part_def)
  qed
qed

lemma frac_part_delim [simp]: "delim r \<Longrightarrow> frac_part r = ([], r)"
  by (auto simp: frac_part_def delim_def split: list.splits)

lemma exp_part_delim [simp]: "delim r \<Longrightarrow> exp_part r = (None, r)"
  by (auto simp: exp_part_def delim_def split: list.splits)

lemma minus_not_digit [simp]: "\<not> is_digit (CHR ''-'')"
  by (simp add: is_digit_def nat_of_char_def)

lemma nat_str_hd: "\<exists>c t. nat_str n = c # t \<and> is_digit c"
  using is_digit_nat_str [of _ n] by (cases "nat_str n") auto

lemma parse_num_int_str: "delim r \<Longrightarrow> parse_num (int_str i @ r) = Some (JInt i, r)"
proof -
  assume r: "delim r"
  obtain c t where c: "nat_str (nat i) = c # t" "is_digit c" using nat_str_hd by blast
  then have "c \<noteq> CHR ''-''" by auto
  then show ?thesis using r c int_part_nat_str [OF r, of "nat i"] digits_val_nat_str [of "nat i"]
    by (auto simp: parse_num_def int_str_def int_part_nat_str digits_val_nat_str)
qed

lemma skip_ws_starts [simp]: "starts s \<Longrightarrow> skip_ws s = s"
  by (cases s) (auto simp: starts_def)

lemma starts_append [simp]: "starts s \<Longrightarrow> starts (s @ t)"
  by (cases s) (auto simp: starts_def)

lemma is_digit_start: "is_digit c \<Longrightarrow> starts (c # s)"
  by (auto simp: is_digit_def starts_def nat_of_char_def)

lemma starts_int_str: "starts (int_str i)"
  using nat_str_hd [of "nat i"]
  by (auto simp: int_str_def starts_def is_digit_start) (auto simp: nat_of_char_def is_digit_def)

lemma not_digit_punct:
  "is_digit c \<Longrightarrow> c \<noteq> CHR 0x22" "is_digit c \<Longrightarrow> c \<noteq> CHR ''[''" "is_digit c \<Longrightarrow> c \<noteq> CHR ''{''"
  "is_digit c \<Longrightarrow> c \<noteq> CHR ''n''" "is_digit c \<Longrightarrow> c \<noteq> CHR ''t''" "is_digit c \<Longrightarrow> c \<noteq> CHR ''f''"
  by (auto simp: is_digit_def nat_of_char_def)

lemma parse_val_int:
  assumes "delim r"
  shows "parse_val (Suc n) (int_str i @ r) = Some (JInt i, r)"
proof -
  obtain c t where c: "int_str i = c # t" and d: "is_digit c \<or> c = CHR ''-''"
    using nat_str_hd [of "nat i"] by (cases "i < 0") (auto simp: int_str_def)
  from d have "c \<notin> {CHR 0x22, CHR ''['', CHR ''{'', CHR ''n'', CHR ''t'', CHR ''f''}"
    by (elim disjE) (simp_all add: not_digit_punct)
  then have "parse_val (Suc n) (int_str i @ r) = parse_num (int_str i @ r)"
    using c by auto
  with parse_num_int_str [OF assms] show ?thesis by simp
qed

lemma dict_of_pairs_snoc: "dict_of_pairs (ps @ [(k, v)]) = dset (dict_of_pairs ps) k v"
  by (simp add: dict_of_pairs_def)

lemma dset_new: "k \<notin> set (map fst d) \<Longrightarrow> dset d k v = d @ [(k, v)]"
  by (induction d k v rule: dset.induct) auto

lemma dict_of_pairs_distinct: "distinct (map fst d) \<Longrightarrow> dict_of_pairs d = d"
proof (induction d rule: rev_induct)
  case Nil
  show ?case by (simp add: dict_of_pairs_def)
next
  case (snoc p d)
  then show ?case by (cases p) (simp add: dict_of_pairs_snoc dset_new)
qed

lemma delim_simps [simp]: "delim (CHR '']'' # r)" "delim (CHR ''}'' # r)" "delim (CHR '','' # r)" "delim []"
  by (simp_all add: delim_def is_digit_def nat_of_char_def)

lemma delim_isep: "seps isep ksep \<Longrightarrow> delim (isep @ r)"
  by (auto simp: seps_def)

lemma skip_ws_punct [simp]:
  "skip_ws (CHR '']'' # r) = CHR '']'' # r" "skip_ws (CHR ''}'' # r) = CHR ''}'' # r"
  "skip_ws (CHR '','' # r) = CHR '','' # r" "skip_ws (CHR '':'' # r) = CHR '':'' # r"
  "skip_ws (CHR '' '' # r) = skip_ws r"
  by (simp_all add: nat_of_char_def)

lemma parse_elems_one:
  "parse_val n s = Some (v, CHR '']'' # r) \<Longrightarrow> parse_elems (Suc n) s = Some ([v], r)"
  by simp

lemma parse_elems_more:
  "seps isep ksep \<Longrightarrow> parse_val n s = Some (v, isep @ u) \<Longrightarrow> starts u \<Longrightarrow>
   parse_elems n u = Some (vs, r) \<Longrightarrow> parse_elems (Suc n) s = Some (v # vs, r)"
  by (auto simp: seps_def)

lemma parse_val_list:
  "starts u \<Longrightarrow> parse_elems n u = Some (xs, r) \<Longrightarrow>
   parse_val (Suc n) (CHR ''['' # u) = Some (JList xs, r)"
  by (cases u) (auto simp: starts_def)

lemma parse_val_obj:
  "starts u \<Longrightarrow> parse_members n u = Some (d, r) \<Longrightarrow> distinct (map fst d) \<Longrightarrow>
   parse_val (Suc n) (CHR ''{'' # u) = Some (JObj d, r)"
  by (cases u) (auto simp: starts_def dict_of_pairs_distinct)

text \<open>What the parser needs of the way strings are quoted: a quoted string \<open>s\<close> that is \<open>ok\<close> begins with
  a quotation mark, and reading on from there gives \<open>s\<close> back.  Both ways of quoting satisfy it, one
  for every string, the other for every string that is UTF-8.\<close>

locale quoting =
  fixes quote :: "string \<Rightarrow> string" and ok :: "string \<Rightarrow> bool"
  assumes quote_hd: "\<exists>u. quote s = CHR 0x22 # u"
    and quote_tl: "ok s \<Longrightarrow> parse_str (tl (quote s) @ r) = Some (s, r)"
begin

lemma quote_parse: "ok s \<Longrightarrow> \<exists>u. quote s = CHR 0x22 # u \<and> (\<forall>r. parse_str (u @ r) = Some (s, r))"
  using quote_hd [of s] quote_tl [of s] by force

lemma starts_quote: "starts (quote k @ s)"
  using quote_hd [of k] by (auto simp: starts_def nat_of_char_def)

lemma starts_dumps: "jplain j \<Longrightarrow> starts (dumps_with quote isep ksep j)"
  using starts_quote [of _ "[]"]
  by (cases j) (simp_all add: starts_int_str, simp_all add: starts_def nat_of_char_def)

lemma parse_members_key:
  "seps isep ksep \<Longrightarrow> ok k \<Longrightarrow> starts u \<Longrightarrow>
   parse_members (Suc n) (quote k @ ksep @ u) =
     (case parse_val n u of
        None \<Rightarrow> None
      | Some (v, r) \<Rightarrow>
          (case skip_ws r of
             [] \<Rightarrow> None
           | e # w \<Rightarrow>
               if e = CHR ''}'' then Some ([(k, v)], w)
               else if e = CHR '','' then
                 map_option (\<lambda>(d, r'). ((k, v) # d, r')) (parse_members n (skip_ws w))
               else None))"
  by (drule quote_parse) (auto simp: seps_def)

lemma parse_members_more:
  "seps isep ksep \<Longrightarrow> ok k \<Longrightarrow> starts w \<Longrightarrow> parse_val n (w @ isep @ u) = Some (v, isep @ u) \<Longrightarrow>
   starts u \<Longrightarrow> parse_members n u = Some (d, r) \<Longrightarrow>
   parse_members (Suc n) (quote k @ ksep @ w @ isep @ u) = Some ((k, v) # d, r)"
  by (subst parse_members_key) (auto simp: seps_def)

lemma parse_dumps:
  assumes sp: "seps isep ksep"
  shows "jplain j \<Longrightarrow> list_all ok (jstrings j) \<Longrightarrow> need j \<le> n \<Longrightarrow> delim r \<Longrightarrow>
     parse_val n (dumps_with quote isep ksep j @ r) = Some (j, r)"
  "jplain_list xs \<Longrightarrow> list_all ok (jstrings_list xs) \<Longrightarrow> need_list xs \<le> n \<Longrightarrow> xs \<noteq> [] \<Longrightarrow>
     parse_elems n (dumps_list quote isep ksep xs @ CHR '']'' # r) = Some (xs, r)"
  "jplain_obj d \<Longrightarrow> list_all ok (jstrings_obj d) \<Longrightarrow> need_obj d \<le> n \<Longrightarrow> d \<noteq> [] \<Longrightarrow>
     parse_members n (dumps_obj quote isep ksep d @ CHR ''}'' # r) = Some (d, r)"
proof (induction j and xs and d arbitrary: n r and n r and n r
    rule: jstrings_jstrings_list_jstrings_obj.induct)
  case (1 s)
  then have "ok s" by simp
  then obtain u where "quote s = CHR 0x22 # u" "\<forall>r. parse_str (u @ r) = Some (s, r)"
    using quote_parse by blast
  with 1 show ?case by (cases n) simp_all
next
  case "4_3"
  then show ?case by (cases n) (simp_all add: parse_val_int del: parse_val.simps)
next
  case (2 xs)
  from 2 obtain m where m: "n = Suc m" by (cases n) auto
  show ?case
  proof (cases xs)
    case Nil
    then show ?thesis by (simp add: m)
  next
    case (Cons x ys)
    have s: "starts (dumps_list quote isep ksep xs @ CHR '']'' # r)"
      using Cons 2 by (simp add: starts_dumps)
    have "parse_elems m (dumps_list quote isep ksep xs @ CHR '']'' # r) = Some (xs, r)"
      using 2 Cons by (simp add: m)
    from parse_val_list [OF s this] show ?thesis by (simp add: m)
  qed
next
  case (3 d)
  from 3 obtain m where m: "n = Suc m" by (cases n) auto
  show ?case
  proof (cases d)
    case Nil
    then show ?thesis by (simp add: m dict_of_pairs_def)
  next
    case (Cons p ps)
    obtain k v where p: "p = (k, v)" by (cases p)
    have s: "starts (dumps_obj quote isep ksep d @ CHR ''}'' # r)"
      using Cons p by (simp add: starts_quote)
    have "parse_members m (dumps_obj quote isep ksep d @ CHR ''}'' # r) = Some (d, r)"
      using 3 Cons by (simp add: m)
    from parse_val_obj [OF s this] 3 show ?thesis by (simp add: m)
  qed
next
  case (6 x xs)
  from 6 obtain m where m: "n = Suc m" by (cases n) auto
  show ?case
  proof (cases xs)
    case Nil
    have "parse_val m (dumps_with quote isep ksep x @ CHR '']'' # r) = Some (x, CHR '']'' # r)"
      using 6 by (simp add: m)
    with Nil show ?thesis by (simp add: m)
  next
    case (Cons y ys)
    let ?u = "dumps_list quote isep ksep xs @ CHR '']'' # r"
    have v: "parse_val m (dumps_with quote isep ksep x @ isep @ ?u) = Some (x, isep @ ?u)"
      using 6 by (simp add: m delim_isep [OF sp])
    have e: "parse_elems m ?u = Some (xs, r)" using 6 Cons by (simp add: m)
    have s: "starts ?u" using 6 Cons by (simp add: starts_dumps)
    show ?thesis using parse_elems_more [OF sp v s e] Cons by (simp add: m)
  qed
next
  case (8 k v d)
  from 8 obtain m where m: "n = Suc m" by (cases n) auto
  show ?case
  proof (cases d)
    case Nil
    have "parse_val m (dumps_with quote isep ksep v @ CHR ''}'' # r) = Some (v, CHR ''}'' # r)"
      using 8 by (simp add: m)
    with Nil 8 show ?thesis
      by (simp add: m parse_members_key [OF sp] starts_dumps del: parse_members.simps)
  next
    case (Cons p ps)
    let ?u = "dumps_obj quote isep ksep d @ CHR ''}'' # r"
    have v: "parse_val m (dumps_with quote isep ksep v @ isep @ ?u) = Some (v, isep @ ?u)"
      using 8 by (simp add: m delim_isep [OF sp])
    have e: "parse_members m ?u = Some (d, r)" using 8 Cons by (simp add: m)
    have s: "starts ?u" using Cons by (cases p) (simp add: starts_quote)
    have w: "starts (dumps_with quote isep ksep v)" using 8 by (simp add: starts_dumps)
    have k: "ok k" using 8 by simp
    show ?thesis using parse_members_more [OF sp k w v s e] Cons
      by (simp add: m del: parse_members.simps)
  qed
qed (auto simp: Suc_le_eq gr0_conv_Suc)


lemma need_le_length:
  "jplain j \<Longrightarrow> seps isep ksep \<Longrightarrow> need j \<le> length (dumps_with quote isep ksep j)"
  "jplain_list xs \<Longrightarrow> seps isep ksep \<Longrightarrow> need_list xs \<le> Suc (length (dumps_list quote isep ksep xs))"
  "jplain_obj d \<Longrightarrow> seps isep ksep \<Longrightarrow> need_obj d \<le> Suc (length (dumps_obj quote isep ksep d))"
proof (induction j and xs and d
    rule: jstrings_jstrings_list_jstrings_obj.induct)
  case (1 s)
  then show ?case using quote_hd [of s] by auto
next
  case "4_3"
  then show ?case by (auto simp: int_str_def Suc_le_eq)
next
  case (6 x xs)
  then show ?case by (cases xs) (auto simp: seps_def)
next
  case (8 k v d)
  then show ?case by (cases d) (auto simp: seps_def)
qed simp_all

lemma loads_dumps_with:
  assumes "jplain j" and "seps isep ksep" and "list_all ok (jstrings j)"
  shows "loads (dumps_with quote isep ksep j) = Some j"
proof -
  have "parse_val (Suc (length (dumps_with quote isep ksep j))) (dumps_with quote isep ksep j @ []) = Some (j, [])"
    using assms need_le_length(1) [OF assms(1,2)] by (intro parse_dumps) auto
  then show ?thesis using assms by (simp add: loads_def starts_dumps del: parse_val.simps)
qed

end

interpretation unicode: quoting json_str "\<lambda>_. True"
  by unfold_locales (simp_all add: json_str_def parse_str_escaped)

lemma loads_dumps: "jplain j \<Longrightarrow> seps isep ksep \<Longrightarrow> loads (dumps isep ksep j) = Some j"
  by (rule unicode.loads_dumps_with) (simp_all add: list_all_iff)

text \<open>Reading back what \<open>ensure_ascii\<close> escapes.\<close>

lemma continuation_char_of [simp]: "continuation (char_of (128 + n mod 64)) = n mod 64"
proof -
  have "n mod 64 < 64" by simp
  then have "nat_of_char (char_of (128 + n mod 64)) = n mod 64 + 2 * 64" by simp
  moreover have "(n mod 64 + 2 * 64) mod 64 = n mod 64" by (simp only: mod_mult_self1 mod_mod_trivial)
  ultimately show ?thesis unfolding continuation_def by metis
qed

lemma digit_step: "n div k = k' * (n div (k * k')) + n div k mod (k' :: nat)"
  by (simp add: div_mult2_eq)

lemma digits_sum:
  "(n::nat) = b * x + u \<Longrightarrow> x = b * y + v \<Longrightarrow> b * b * y + b * v + u = n"
  "(n::nat) = b * x + u \<Longrightarrow> x = b * y + v \<Longrightarrow> y = b * z + w \<Longrightarrow> b * b * b * z + b * b * w + b * v + u = n"
  by (simp_all add: algebra_simps)

lemma code_points_utf8: "n < 0x110000 \<Longrightarrow> code_points (utf8 n @ s) = n # code_points s"
proof -
  assume n: "n < 0x110000"
  have d: "n = 64 * (n div 64) + n mod 64" "n div 64 = 64 * (n div 4096) + n div 64 mod 64"
    "n div 4096 = 64 * (n div 262144) + n div 4096 mod 64"
    using digit_step [of n 1 64] digit_step [of n 64 64] digit_step [of n 4096 64] by simp_all
  consider "n < 0x80" | "0x80 \<le> n" "n < 0x800" | "0x800 \<le> n" "n < 0x10000" | "0x10000 \<le> n" by linarith
  then show ?thesis
  proof cases
    case 2
    then have "n div 64 < 32" by (simp add: less_mult_imp_div_less)
    with 2 show ?thesis by (simp add: utf8_def Let_def)
  next
    case 3
    then have "n div 4096 < 16" by (simp add: less_mult_imp_div_less)
    with 3 digits_sum(1) [OF d(1,2)] show ?thesis by (simp add: utf8_def Let_def mult.commute)
  next
    case 4
    then have "n div 262144 < 5" using n by (simp add: less_mult_imp_div_less)
    with 4 digits_sum(2) [OF d] show ?thesis by (simp add: utf8_def Let_def mult.commute)
  qed (simp add: utf8_def Let_def)
qed

lemma hex4_u:
  assumes "n < 0x10000"
  shows "hex4 (hex_digit (n div 4096)) (hex_digit (n div 256 mod 16))
    (hex_digit (n div 16 mod 16)) (hex_digit (n mod 16)) = Some n"
proof -
  have d: "n = 16 * (n div 16) + n mod 16" "n div 16 = 16 * (n div 256) + n div 16 mod 16"
    "n div 256 = 16 * (n div 4096) + n div 256 mod 16"
    using digit_step [of n 1 16] digit_step [of n 16 16] digit_step [of n 256 16] by simp_all
  have "n div 4096 < 16" using assms by (simp add: less_mult_imp_div_less)
  then show ?thesis using digits_sum(2) [OF d] by (simp add: hex4_def)
qed

lemma parse_str_u:
  assumes "n < 0x10000" "\<not> (0xD800 \<le> n \<and> n < 0xE000)"
  shows "parse_str (u_escape n @ s) = map_option (\<lambda>(t, r). (utf8 n @ t, r)) (parse_str s)"
proof -
  have "\<not> nat_of_char (CHR 0x5C) < 32" by (simp add: nat_of_char_def)
  moreover have "low_surrogate n s = None" using assms(2) by (auto simp: low_surrogate_def)
  ultimately show ?thesis using assms(1) by (simp add: u_escape_def hex4_u)
qed

lemma parse_str_pair:
  assumes "a < 1024" "b < 1024"
  shows "parse_str (u_escape (0xD800 + a) @ u_escape (0xDC00 + b) @ s) =
    map_option (\<lambda>(t, r). (utf8 (0x10000 + a * 1024 + b) @ t, r)) (parse_str s)"
proof -
  have n: "\<not> nat_of_char (CHR 0x5C) < 32" by (simp add: nat_of_char_def)
  have "low_surrogate (0xD800 + a) (u_escape (0xDC00 + b) @ s) = Some (0xDC00 + b)"
    using assms hex4_u [of "0xDC00 + b"] by (simp add: low_surrogate_def u_escape_def)
  moreover have "drop 6 (u_escape (0xDC00 + b) @ s) = s" by (simp add: u_escape_def)
  ultimately show ?thesis using assms hex4_u [of "0xD800 + a"] n
    by (simp add: u_escape_def [of "0xD800 + a"])
qed

lemma parse_str_ascii_escape:
  assumes "scalar n"
  shows "parse_str (ascii_escape n @ s) = map_option (\<lambda>(t, r). (utf8 n @ t, r)) (parse_str s)"
proof -
  consider "n < 32 \<or> n = 0x22 \<or> n = 0x5C" | "32 \<le> n" "n < 127" "n \<noteq> 0x22" "n \<noteq> 0x5C"
    | "127 \<le> n" "n < 0x10000" | "0x10000 \<le> n" by linarith
  then show ?thesis
  proof cases
    case 1
    then have "utf8 n = [char_of n]" by (auto simp: utf8_def)
    with 1 show ?thesis by (simp add: ascii_escape_def parse_str_json_escape)
  next
    case 2
    then have "char_of n \<noteq> CHR 0x22" "char_of n \<noteq> CHR 0x5C" by (simp_all add: char_of_eq_iff take_bit_eq_mod)
    with 2 show ?thesis by (simp add: ascii_escape_def utf8_def parse_str_plain)
  next
    case 3
    with assms parse_str_u [of n s] show ?thesis by (auto simp: ascii_escape_def scalar_def)
  next
    case 4
    then have "(n - 0x10000) div 1024 < 1024" using assms by (auto simp: scalar_def)
    from parse_str_pair [OF this, of "(n - 0x10000) mod 1024" s] 4 show ?thesis
      by (simp add: ascii_escape_def)
  qed
qed

lemma parse_str_ascii_points:
  "list_all scalar ns \<Longrightarrow>
   parse_str (concat (map ascii_escape ns) @ CHR 0x22 # r) = Some (concat (map utf8 ns), r)"
  by (induction ns) (auto simp: parse_str_ascii_escape)

interpretation ascii: quoting json_str_ascii utf8_ok
  by unfold_locales (simp_all add: json_str_ascii_def utf8_ok_def parse_str_ascii_points)

text \<open>Every text made of encodable code points is UTF-8.\<close>

lemma utf8_ok_utf8: "list_all scalar ns \<Longrightarrow> utf8_ok (concat (map utf8 ns))"
proof -
  assume "list_all scalar ns"
  then have "code_points (concat (map utf8 ns)) = ns"
    by (induction ns) (simp_all add: code_points_utf8 scalar_def del: code_points.simps(2))
  with \<open>list_all scalar ns\<close> show ?thesis by (simp add: utf8_ok_def)
qed

text \<open>Sorting the keys keeps a value plain.\<close>

lemma jnorm_obj_map: "jnorm_obj d = map (\<lambda>(k, v). (k, jnorm v)) d"
  by (induction d) auto

lemma jnorm_list_map: "jnorm_list xs = map jnorm xs"
  by (induction xs) auto

lemma jplain_obj_iff: "jplain_obj d \<longleftrightarrow> (\<forall>(k, v) \<in> set d. jplain v)"
  by (induction d) auto

lemma jplain_list_iff: "jplain_list xs \<longleftrightarrow> (\<forall>x \<in> set xs. jplain x)"
  by (induction xs) auto

lemma fst_jnorm_obj: "map fst (jnorm_obj d) = map fst d"
  by (induction d) auto

lemma jplain_jnorm:
  "jplain j \<Longrightarrow> jplain (jnorm j)"
  "jplain_list xs \<Longrightarrow> jplain_list (jnorm_list xs)"
  "jplain_obj d \<Longrightarrow> jplain_obj (jnorm_obj d)"
proof (induction j and xs and d rule: jnorm_jnorm_list_jnorm_obj.induct)
  case (2 d)
  have "distinct (map fst (jnorm_obj d))" using 2 by (simp add: fst_jnorm_obj)
  then have "distinct (map fst (sort_key fst (jnorm_obj d)))" by (simp add: distinct_map)
  then show ?case using 2 by (auto simp: jplain_obj_iff)
qed auto

end
