(* ===== verification/Codec.thy ===== *)
theory Codec
  imports Json
begin

text \<open>
  Encodings of the Python standard library that the services rely on: \<^verbatim>\<open>base64.b64encode\<close> and
  \<^verbatim>\<open>b64decode\<close>, and \<^verbatim>\<open>datetime.isoformat\<close>.  An instant is the number of microseconds since
  1970-01-01T00:00:00Z.
\<close>

section \<open>Base64\<close>

definition b64_char :: "nat \<Rightarrow> char" where
  "b64_char n =
     char_of (if n < 26 then 65 + n else if n < 52 then 71 + n else if n < 62 then n - 4
              else if n = 62 then 43 else 47)"

definition b64_val :: "char \<Rightarrow> nat option" where
  "b64_val c =
     (if is_ascii_range 65 90 c then Some (nat_of_char c - 65)
      else if is_ascii_range 97 122 c then Some (nat_of_char c - 71)
      else if is_digit c then Some (nat_of_char c + 4)
      else if nat_of_char c = 43 then Some 62
      else if nat_of_char c = 47 then Some 63
      else None)"

fun b64encode :: "bytes \<Rightarrow> string" where
  "b64encode [] = []"
| "b64encode [a] =
     (let x = nat_of_char a in [b64_char (x div 4), b64_char (x mod 4 * 16), CHR ''='', CHR ''=''])"
| "b64encode [a, b] =
     (let x = nat_of_char a; y = nat_of_char b in
      [b64_char (x div 4), b64_char (x mod 4 * 16 + y div 16), b64_char (y mod 16 * 4), CHR ''=''])"
| "b64encode (a # b # c # s) =
     (let x = nat_of_char a; y = nat_of_char b; z = nat_of_char c in
      [b64_char (x div 4), b64_char (x mod 4 * 16 + y div 16),
       b64_char (y mod 16 * 4 + z div 64), b64_char (z mod 64)] @ b64encode s)"

text \<open>Characters outside the alphabet are skipped, as \<^verbatim>\<open>b64decode\<close> does without \<^verbatim>\<open>validate\<close>;
  incorrect padding is None (binascii.Error, a ValueError).\<close>

fun b64_groups :: "string \<Rightarrow> bytes option" where
  "b64_groups [] = Some []"
| "b64_groups (a # b # c # d # s) =
     (case (b64_val a, b64_val b) of
        (Some w, Some x) \<Rightarrow>
          (case (b64_val c, b64_val d) of
             (Some y, Some z) \<Rightarrow>
               map_option (\<lambda>r. [char_of (w * 4 + x div 16), char_of (x mod 16 * 16 + y div 4),
                                char_of (y mod 4 * 64 + z)] @ r) (b64_groups s)
           | (Some y, None) \<Rightarrow> Some [char_of (w * 4 + x div 16), char_of (x mod 16 * 16 + y div 4)]
           | (None, None) \<Rightarrow> Some [char_of (w * 4 + x div 16)]
           | (None, Some z) \<Rightarrow> None)
      | _ \<Rightarrow> None)"
| "b64_groups _ = None"

definition b64decode :: "string \<Rightarrow> bytes option" where
  "b64decode s = b64_groups (filter (\<lambda>c. b64_val c \<noteq> None \<or> c = CHR ''='') s)"

section \<open>Instants\<close>

definition MICROS :: int where
  "MICROS = 1000000"

text \<open>The proleptic Gregorian date of a day number, counted from 1970-01-01.\<close>

definition civil_from_days :: "int \<Rightarrow> int \<times> int \<times> int" where
  "civil_from_days z0 =
     (let z = z0 + 719468;
          era = z div 146097;
          doe = z mod 146097;
          yoe = (doe - doe div 1460 + doe div 36524 - doe div 146096) div 365;
          doy = doe - (365 * yoe + yoe div 4 - yoe div 100);
          mp = (5 * doy + 2) div 153;
          d = doy - (153 * mp + 2) div 5 + 1;
          m = (if mp < 10 then mp + 3 else mp - 9)
      in (yoe + era * 400 + (if m \<le> 2 then 1 else 0), m, d))"

text \<open>\<^verbatim>\<open>datetime.isoformat()\<close> of an instant in UTC; the fraction is printed when it is not zero.\<close>

definition isoformat :: "int \<Rightarrow> string" where
  "isoformat t =
     (let us = t mod MICROS; sec = t div MICROS; (y, m, d) = civil_from_days (sec div 86400);
          r = sec mod 86400
      in pad0 4 (nat y) @ ''-'' @ pad0 2 (nat m) @ ''-'' @ pad0 2 (nat d) @ ''T'' @
         pad0 2 (nat (r div 3600)) @ '':'' @ pad0 2 (nat (r div 60 mod 60)) @ '':'' @
         pad0 2 (nat (r mod 60)) @
         (if us = 0 then [] else ''.'' @ pad0 6 (nat us)) @ ''+00:00'')"

definition truncate_second :: "int \<Rightarrow> int" where
  "truncate_second t = t - t mod MICROS"

section \<open>Round trip of base64\<close>

lemma b64_val_char [simp]: "n < 64 \<Longrightarrow> b64_val (b64_char n) = Some n"
  by (auto simp: b64_val_def b64_char_def is_digit_def)

lemma b64_val_pad [simp]: "b64_val (CHR ''='') = None"
  by (simp add: b64_val_def is_digit_def)

lemma b64_alphabet: "c \<in> set (b64encode s) \<Longrightarrow> b64_val c \<noteq> None \<or> c = CHR ''=''"
proof (induction s rule: b64encode.induct)
  case (2 a)
  have "nat_of_char a div 4 < 64" using nat_of_char_less [of a] by linarith
  with 2 show ?case by (auto simp: Let_def)
next
  case (3 a b)
  have "nat_of_char a div 4 < 64" "nat_of_char b div 16 < 16"
    using nat_of_char_less [of a] nat_of_char_less [of b] by linarith+
  then have "nat_of_char a div 4 < 64" "nat_of_char a mod 4 * 16 + nat_of_char b div 16 < 64"
    "nat_of_char b mod 16 * 4 < 64" by linarith+
  with 3 show ?case by (auto simp: Let_def)
next
  case (4 a b c s)
  have "nat_of_char a div 4 < 64" "nat_of_char b div 16 < 16" "nat_of_char c div 64 < 4"
    using nat_of_char_less [of a] nat_of_char_less [of b] nat_of_char_less [of c] by linarith+
  then have "nat_of_char a div 4 < 64" "nat_of_char a mod 4 * 16 + nat_of_char b div 16 < 64"
    "nat_of_char b mod 16 * 4 + nat_of_char c div 64 < 64" by linarith+
  with 4 show ?case by (auto simp: Let_def)
qed simp

lemma b64_groups_encode: "b64_groups (b64encode s) = Some s"
proof (induction s rule: b64encode.induct)
  case (2 a)
  have "nat_of_char a div 4 < 64" using nat_of_char_less [of a] by linarith
  then show ?case by (simp add: Let_def)
next
  case (3 a b)
  have "nat_of_char a div 4 < 64" "nat_of_char b div 16 < 16"
    using nat_of_char_less [of a] nat_of_char_less [of b] by linarith+
  then have "nat_of_char a div 4 < 64" "nat_of_char a mod 4 * 16 + nat_of_char b div 16 < 64"
    "nat_of_char b mod 16 * 4 < 64" "nat_of_char b div 16 < 16" by linarith+
  then show ?case by (simp add: Let_def)
next
  case (4 a b c s)
  have "nat_of_char a div 4 < 64" "nat_of_char b div 16 < 16" "nat_of_char c div 64 < 4"
    using nat_of_char_less [of a] nat_of_char_less [of b] nat_of_char_less [of c] by linarith+
  then have "nat_of_char a div 4 < 64" "nat_of_char a mod 4 * 16 + nat_of_char b div 16 < 64"
    "nat_of_char b mod 16 * 4 + nat_of_char c div 64 < 64" "nat_of_char b div 16 < 16"
    "nat_of_char c div 64 < 4" by linarith+
  with 4 show ?case by (simp add: Let_def)
qed simp

lemma b64decode_b64encode [simp]: "b64decode (b64encode s) = Some s"
proof -
  have "filter (\<lambda>c. b64_val c \<noteq> None \<or> c = CHR ''='') (b64encode s) = b64encode s"
    by (rule filter_True) (blast dest: b64_alphabet)
  then show ?thesis by (simp only: b64decode_def b64_groups_encode)
qed

end
