(* ===== verification/Crypto.thy ===== *)
theory Crypto
  imports Codec "HOL-Library.Word"
begin

text \<open>
  \<^verbatim>\<open>app/crypto\<close>: canonical hashing, algorithm suites, Ed25519 signing through the configured
  provider, key wrapping and the offline claim; and the record \<open>env\<close> of everything the services
  call that is not code of the repository.  Each component of \<open>env\<close> stands for one foreign
  operation; theorems name what they rely on (for instance that a signature made with a private
  key verifies under the public key of the pair) as hypotheses about these components.

  SHA-256 is a parameter too, with a 256-bit result: nothing in the development depends on which
  bits, and collision freedom, which no function into 256 bits has, is never assumed; the theorems
  exhibit the colliding inputs instead.
\<close>

section \<open>The environment\<close>

datatype pem_key = Ed25519Key | RsaKey | OtherKey

datatype signing_backend = Local | Kms

record settings =
  signing_backend_of :: signing_backend
  signing_private_key_path :: string
  signing_public_key_path :: string
  kms_key_id :: "string option"
  kms_region :: string
  kms_public_key_pem_path :: "string option"
  tsa_url :: string

record env =
  sha256 :: "bytes \<Rightarrow> 256 word"
  load_pem_private :: "bytes \<Rightarrow> pem_key option"
  load_pem_public :: "bytes \<Rightarrow> pem_key option"
  ed_sign :: "bytes \<Rightarrow> bytes \<Rightarrow> bytes"
  ed_verify :: "bytes \<Rightarrow> bytes \<Rightarrow> bytes \<Rightarrow> bool"
  ed_generate :: "nat \<Rightarrow> bytes \<times> bytes"
  rsa_generate :: "nat \<Rightarrow> bytes \<times> bytes"
  rsa_encrypt :: "bytes \<Rightarrow> bytes \<Rightarrow> bytes"
  rsa_decrypt :: "bytes \<Rightarrow> bytes \<Rightarrow> bytes option"
  aes_encrypt :: "bytes \<Rightarrow> bytes \<Rightarrow> bytes \<Rightarrow> bytes \<Rightarrow> bytes"
  aes_decrypt :: "bytes \<Rightarrow> bytes \<Rightarrow> bytes \<Rightarrow> bytes \<Rightarrow> bytes option"
  urandom :: "nat \<Rightarrow> nat \<Rightarrow> bytes"
  uuid4 :: "nat \<Rightarrow> string"
  now :: int
  the_settings :: settings
  read_file :: "string \<Rightarrow> bytes option"
  kms_sign :: "string \<Rightarrow> string \<Rightarrow> bytes \<Rightarrow> bytes option"
  kms_public_pem :: "string \<Rightarrow> string \<Rightarrow> bytes option"

section \<open>canonical.py\<close>

text \<open>\<^verbatim>\<open>hashlib.sha256(data).digest()\<close>: the 32 bytes of the digest, most significant first.\<close>

definition word_bytes :: "256 word \<Rightarrow> bytes" where
  "word_bytes w = map (\<lambda>i. char_of (unat (drop_bit (8 * (31 - i)) w) mod 256)) [0..<32]"

definition digest :: "env \<Rightarrow> bytes \<Rightarrow> bytes" where
  "digest E data = word_bytes (sha256 E data)"

definition canonical_bytes :: "dict \<Rightarrow> bytes" where
  "canonical_bytes obj = dumps '','' '':'' (jnorm (JObj obj))"

definition sha256_hex :: "env \<Rightarrow> dict \<Rightarrow> string" where
  "sha256_hex E obj = hex (digest E (canonical_bytes obj))"

section \<open>algorithms.py\<close>

definition DEFAULT_ALGORITHM :: string where
  "DEFAULT_ALGORITHM = ''sha256-ed25519-v1''"

definition SUPPORTED_ALGORITHMS :: "string list" where
  "SUPPORTED_ALGORITHMS = [''sha256-ed25519-v1'']"

definition is_supported :: "string option \<Rightarrow> bool" where
  "is_supported alg = (case alg of None \<Rightarrow> False | Some a \<Rightarrow> a \<in> set SUPPORTED_ALGORITHMS)"

definition DEFAULT_CONTENT_ALGORITHM :: string where
  "DEFAULT_CONTENT_ALGORITHM = ''aes-256-gcm-v1''"

definition is_supported_content :: "string option \<Rightarrow> bool" where
  "is_supported_content alg = (case alg of None \<Rightarrow> False | Some a \<Rightarrow> a \<in> set [''aes-256-gcm-v1''])"

section \<open>signing.py\<close>

definition load_private_key :: "env \<Rightarrow> bytes \<Rightarrow> bytes res" where
  "load_private_key E pem =
     (case load_pem_private E pem of
        None \<Rightarrow> Inl ValueError
      | Some k \<Rightarrow> if k = Ed25519Key then Inr pem else Inl TypeError)"

definition load_public_key :: "env \<Rightarrow> bytes \<Rightarrow> bytes res" where
  "load_public_key E pem =
     (case load_pem_public E pem of
        None \<Rightarrow> Inl ValueError
      | Some k \<Rightarrow> if k = Ed25519Key then Inr pem else Inl TypeError)"

definition sign_hex :: "env \<Rightarrow> bytes \<Rightarrow> string \<Rightarrow> string res" where
  "sign_hex E private_pem message_hex =
     bind_res (load_private_key E private_pem) (\<lambda>priv.
     bind_res (res_of_option ValueError (fromhex message_hex)) (\<lambda>msg.
     Inr (hex (ed_sign E priv msg))))"

definition verify_hex :: "env \<Rightarrow> bytes \<Rightarrow> string \<Rightarrow> string \<Rightarrow> bool res" where
  "verify_hex E public_pem message_hex signature_hex =
     bind_res (load_public_key E public_pem) (\<lambda>pub.
     bind_res (res_of_option ValueError (fromhex signature_hex)) (\<lambda>sig.
     bind_res (res_of_option ValueError (fromhex message_hex)) (\<lambda>msg.
     Inr (ed_verify E pub msg sig))))"

section \<open>signing\_provider.py and keys.py\<close>

datatype signing_provider =
    LocalPemSigningProvider (private_path: string) (public_path: string)
  | AwsKmsSigningProvider (key_id: string) (region: string) (pem_path: "string option")
      (cached_public_pem: "bytes option")

definition get_signing_provider :: "env \<Rightarrow> signing_provider res" where
  "get_signing_provider E =
     (let s = the_settings E in
      case signing_backend_of s of
        Kms \<Rightarrow>
          (case kms_key_id s of
             None \<Rightarrow> Inl SigningKeyError
           | Some k \<Rightarrow> if k = [] then Inl SigningKeyError
               else Inr (AwsKmsSigningProvider k (kms_region s) (kms_public_key_pem_path s) None))
      | Local \<Rightarrow> Inr (LocalPemSigningProvider (signing_private_key_path s) (signing_public_key_path s)))"

fun provider_backend :: "signing_provider \<Rightarrow> string" where
  "provider_backend (LocalPemSigningProvider _ _) = ''local''"
| "provider_backend (AwsKmsSigningProvider _ _ _ _) = ''kms''"

fun provider_sign_hex :: "env \<Rightarrow> signing_provider \<Rightarrow> string \<Rightarrow> string res" where
  "provider_sign_hex E (LocalPemSigningProvider priv _) message_hex =
     bind_res (res_of_option SigningKeyError (read_file E priv)) (\<lambda>pem. sign_hex E pem message_hex)"
| "provider_sign_hex E (AwsKmsSigningProvider k r _ _) message_hex =
     (case fromhex message_hex of
        None \<Rightarrow> Inl SigningKeyError
      | Some msg \<Rightarrow> bind_res (res_of_option SigningKeyError (kms_sign E k r msg)) (\<lambda>s. Inr (hex s)))"

text \<open>The KMS provider keeps the key it fetched; the provider after the call is returned too.\<close>

fun provider_public_key_pem :: "env \<Rightarrow> signing_provider \<Rightarrow> (bytes \<times> signing_provider) res" where
  "provider_public_key_pem E (LocalPemSigningProvider priv pub) =
     bind_res (res_of_option SigningKeyError (read_file E pub))
       (\<lambda>pem. Inr (pem, LocalPemSigningProvider priv pub))"
| "provider_public_key_pem E (AwsKmsSigningProvider k r path (Some pem)) =
     Inr (pem, AwsKmsSigningProvider k r path (Some pem))"
| "provider_public_key_pem E (AwsKmsSigningProvider k r path None) =
     (case Option.bind path (read_file E) of
        Some pem \<Rightarrow> Inr (pem, AwsKmsSigningProvider k r path (Some pem))
      | None \<Rightarrow>
          bind_res (res_of_option SigningKeyError (kms_public_pem E k r))
            (\<lambda>pem. Inr (pem, AwsKmsSigningProvider k r path (Some pem))))"

definition provider_metadata :: "env \<Rightarrow> signing_provider \<Rightarrow> dict res" where
  "provider_metadata E p =
     bind_res (provider_public_key_pem E p) (\<lambda>(pem, _).
       Inr ([(''backend'', JStr (provider_backend p)),
             (''public_key_fingerprint'', JStr (hex (digest E pem)))] @
            (case p of
               LocalPemSigningProvider priv pub \<Rightarrow>
                 [(''private_key_path'', JStr priv), (''public_key_path'', JStr pub)]
             | AwsKmsSigningProvider k r _ _ \<Rightarrow>
                 [(''kms_key_id'', JStr k), (''kms_region'', JStr r)])))"

definition sign_message_hex :: "env \<Rightarrow> string \<Rightarrow> string res" where
  "sign_message_hex E message_hex =
     bind_res (get_signing_provider E) (\<lambda>p. provider_sign_hex E p message_hex)"

definition load_public_pem :: "env \<Rightarrow> bytes res" where
  "load_public_pem E =
     (case bind_res (get_signing_provider E) (\<lambda>p. map_sum id fst (provider_public_key_pem E p)) of
        Inr pem \<Rightarrow> Inr pem
      | Inl e \<Rightarrow>
          if e = SigningKeyError
          then res_of_option ValueError (read_file E (signing_public_key_path (the_settings E)))
          else Inl e)"

section \<open>org\_encryption.py\<close>

definition DEFAULT_WRAP_ALGORITHM :: string where
  "DEFAULT_WRAP_ALGORITHM = ''rsa3072-oaep-sha256''"

definition wrap_key :: "env \<Rightarrow> bytes \<Rightarrow> bytes \<Rightarrow> bytes res" where
  "wrap_key E public_pem data_key =
     (case load_pem_public E public_pem of
        None \<Rightarrow> Inl ValueError
      | Some k \<Rightarrow> if k = RsaKey then Inr (rsa_encrypt E public_pem data_key) else Inl KeyWrappingError)"

definition unwrap_key :: "env \<Rightarrow> bytes \<Rightarrow> bytes \<Rightarrow> bytes res" where
  "unwrap_key E private_pem wrapped_key =
     (case load_pem_private E private_pem of
        None \<Rightarrow> Inl ValueError
      | Some k \<Rightarrow>
          if k = RsaKey then res_of_option KeyWrappingError (rsa_decrypt E private_pem wrapped_key)
          else Inl KeyWrappingError)"

definition regrant_key :: "env \<Rightarrow> bytes \<Rightarrow> bytes \<Rightarrow> bytes \<Rightarrow> bytes res" where
  "regrant_key E org_private_pem wrapped_for_org grantee_public_pem =
     bind_res (unwrap_key E org_private_pem wrapped_for_org) (wrap_key E grantee_public_pem)"

section \<open>offline\_envelope.py\<close>

definition OFFLINE_CLAIM_VERSION :: string where
  "OFFLINE_CLAIM_VERSION = ''attest-offline-v1''"

text \<open>\<^verbatim>\<open>prev_local or ""\<close>: None and the empty string are both written as the empty string.\<close>

definition build_offline_claim ::
    "string \<Rightarrow> int \<Rightarrow> json \<Rightarrow> string \<Rightarrow> string \<Rightarrow> string \<Rightarrow> dict" where
  "build_offline_claim device_id local_seq prev_local occurred_at action payload_hash =
     [(''v'', JStr OFFLINE_CLAIM_VERSION),
      (''device_id'', JStr device_id),
      (''local_seq'', JInt local_seq),
      (''prev_local'', py_or prev_local (JStr [])),
      (''occurred_at'', JStr occurred_at),
      (''action'', JStr action),
      (''payload_hash'', JStr payload_hash)]"

definition offline_claim_hash :: "env \<Rightarrow> dict \<Rightarrow> string" where
  "offline_claim_hash E claim = sha256_hex E claim"

section \<open>What the theorems rely on\<close>

text \<open>Documented behaviour of the foreign operations, as predicates on the environment: a signature made with the private half of a pair verifies under the public half;
  unwrapping undoes wrapping; AES-GCM decryption undoes encryption under the same key, nonce and
  associated data.\<close>

definition ed_pair :: "env \<Rightarrow> bytes \<Rightarrow> bytes \<Rightarrow> bool" where
  "ed_pair E priv pub \<longleftrightarrow>
     load_pem_private E priv = Some Ed25519Key \<and> load_pem_public E pub = Some Ed25519Key \<and>
     (\<forall>m. ed_verify E pub m (ed_sign E priv m))"

definition rsa_pair :: "env \<Rightarrow> bytes \<Rightarrow> bytes \<Rightarrow> bool" where
  "rsa_pair E priv pub \<longleftrightarrow>
     load_pem_private E priv = Some RsaKey \<and> load_pem_public E pub = Some RsaKey \<and>
     (\<forall>k. rsa_decrypt E priv (rsa_encrypt E pub k) = Some k)"

definition aead_ok :: "env \<Rightarrow> bool" where
  "aead_ok E \<longleftrightarrow> (\<forall>k n p a. aes_decrypt E k n (aes_encrypt E k n p a) a = Some p)"

text \<open>Two different inputs of the given lists with the same digest.\<close>

definition collision :: "env \<Rightarrow> bytes set \<Rightarrow> bytes set \<Rightarrow> bool" where
  "collision E A B \<longleftrightarrow> (\<exists>x\<in>A. \<exists>y\<in>B. x \<noteq> y \<and> digest E x = digest E y)"

section \<open>A concrete environment\<close>

text \<open>An environment on which the hypotheses of the theorems hold, for the witnesses: a polynomial
  digest, tags in place of signatures, and a cipher that appends its key and its associated data.
  PEM texts starting with R are RSA keys, all others Ed25519 keys; the two halves of a pair are the
  same text.\<close>

definition demo_env :: env where
  "demo_env =
     \<lparr>sha256 = foldl (\<lambda>h c. h * 257 + of_nat (nat_of_char c) + 1) 7,
      load_pem_private = (\<lambda>p. Some (if is_prefix ''R'' p then RsaKey else Ed25519Key)),
      load_pem_public = (\<lambda>p. Some (if is_prefix ''R'' p then RsaKey else Ed25519Key)),
      ed_sign = (\<lambda>k m. k @ m),
      ed_verify = (\<lambda>k m s. s = k @ m),
      ed_generate = (\<lambda>n. (''E'' @ nat_str n, ''E'' @ nat_str n)),
      rsa_generate = (\<lambda>n. (''R'' @ nat_str n, ''R'' @ nat_str n)),
      rsa_encrypt = (\<lambda>k m. k @ m),
      rsa_decrypt = (\<lambda>k c. if is_prefix k c then Some (drop (length k) c) else None),
      aes_encrypt = (\<lambda>k n p a. k @ a @ p),
      aes_decrypt = (\<lambda>k n c a. if is_prefix (k @ a) c then Some (drop (length (k @ a)) c) else None),
      urandom = (\<lambda>n k. replicate k (char_of (n mod 256))),
      uuid4 = (\<lambda>n. ''u'' @ nat_str n),
      now = 1700000000000000,
      the_settings =
        \<lparr>signing_backend_of = Local, signing_private_key_path = ''sk'', signing_public_key_path = ''pk'',
         kms_key_id = None, kms_region = ''me-central-1'', kms_public_key_pem_path = None,
         tsa_url = ''tsa''\<rparr>,
      read_file = (\<lambda>p. Some ''G''),
      kms_sign = (\<lambda>k r m. None),
      kms_public_pem = (\<lambda>k r. None)\<rparr>"

section \<open>Lemmas\<close>

lemma is_prefix_append [simp]: "is_prefix a (a @ b)"
  by (induction a) auto

lemma is_prefix_append2 [simp]: "is_prefix (a @ b) (a @ b @ c)"
  using is_prefix_append [of "a @ b" c] by simp

lemma demo_env_ok: "aead_ok demo_env" "ed_pair demo_env ''G'' ''G''" "rsa_pair demo_env ''R1'' ''R1''"
  by (simp_all add: demo_env_def aead_ok_def ed_pair_def rsa_pair_def)

lemma length_digest [simp]: "length (digest E x) = 32"
  by (simp add: digest_def word_bytes_def)

lemma canonical_bytes_inject_norm:
  assumes "jplain (JObj a)" and "jplain (JObj b)" and "canonical_bytes a = canonical_bytes b"
  shows "jnorm (JObj a) = jnorm (JObj b)"
proof -
  have s: "seps '','' '':''" by (simp add: seps_def)
  have "loads (canonical_bytes a) = Some (jnorm (JObj a))"
    unfolding canonical_bytes_def by (rule loads_dumps [OF jplain_jnorm(1) [OF assms(1)] s])
  moreover have "loads (canonical_bytes b) = Some (jnorm (JObj b))"
    unfolding canonical_bytes_def by (rule loads_dumps [OF jplain_jnorm(1) [OF assms(2)] s])
  ultimately show ?thesis using assms(3) by simp
qed

lemma map_of_sort_key:
  "distinct (map fst d) \<Longrightarrow> map_of (sort_key fst d) = map_of d"
  by (rule map_of_eqI) (auto simp: distinct_map map_of_eq_Some_iff intro!: map_of_is_SomeI)

lemma map_of_jnorm_obj: "map_of (jnorm_obj d) k = map_option jnorm (map_of d k)"
  by (induction d) auto

lemma canonical_bytes_lookup:
  assumes "jplain (JObj a)" and "jplain (JObj b)" and "canonical_bytes a = canonical_bytes b"
  shows "map_option jnorm (map_of a k) = map_option jnorm (map_of b k)"
proof -
  have "sort_key fst (jnorm_obj a) = sort_key fst (jnorm_obj b)"
    using canonical_bytes_inject_norm [OF assms] by simp
  then have "map_of (sort_key fst (jnorm_obj a)) k = map_of (sort_key fst (jnorm_obj b)) k" by simp
  moreover have "distinct (map fst (jnorm_obj a))" "distinct (map fst (jnorm_obj b))"
    using assms(1,2) by (simp_all add: fst_jnorm_obj)
  ultimately show ?thesis by (simp add: map_of_sort_key map_of_jnorm_obj)
qed

lemma verify_sign_hex:
  "ed_pair E priv pub \<Longrightarrow> sign_hex E priv m = Inr s \<Longrightarrow> verify_hex E pub m s = Inr True"
  by (auto simp: ed_pair_def sign_hex_def verify_hex_def load_private_key_def load_public_key_def
      bind_res_eq_Inr)

lemma unwrap_wrap:
  "rsa_pair E priv pub \<Longrightarrow> wrap_key E pub k = Inr w \<Longrightarrow> unwrap_key E priv w = Inr k"
  by (auto simp: rsa_pair_def wrap_key_def unwrap_key_def)

lemma regrant_unwrap:
  assumes "rsa_pair E org_priv org_pub" and "rsa_pair E g_priv g_pub"
    and "wrap_key E org_pub k = Inr w"
  shows "\<exists>w'. regrant_key E org_priv w g_pub = Inr w' \<and> unwrap_key E g_priv w' = Inr k"
  using assms unwrap_wrap [OF assms(1,3)]
  by (auto simp: regrant_key_def rsa_pair_def wrap_key_def unwrap_key_def)

end
