(* ===== verification/Pii.thy ===== *)
theory Pii
  imports Crypto
begin

text \<open>
  \<^verbatim>\<open>app/services/pii.py\<close>, \<^verbatim>\<open>policy/pii_layer.py\<close> and the phrase detector of
  \<^verbatim>\<open>policy/features.py\<close>, on a model of the part of Python's \<^verbatim>\<open>re\<close> module they use.  A pattern at
  a position has the list of its possible ends in the order in which the backtracking matcher
  tries them; the match is the first.  Character classes are those of ASCII.
\<close>

section \<open>Regular expressions\<close>

datatype re =
    Cls "char \<Rightarrow> bool"
  | Seq re re
  | Alt re re
  | Opt re
  | Plus "char \<Rightarrow> bool"
  | Rep nat "char \<Rightarrow> bool"
  | WordB

definition boundary :: "string \<Rightarrow> nat \<Rightarrow> bool" where
  "boundary s i = ((0 < i \<and> i \<le> length s \<and> is_word_char (s ! (i - 1))) \<noteq> (i < length s \<and> is_word_char (s ! i)))"

fun ends :: "re \<Rightarrow> string \<Rightarrow> nat \<Rightarrow> nat list" where
  "ends (Cls P) s i = (if i < length s \<and> P (s ! i) then [i + 1] else [])"
| "ends (Seq a b) s i = concat (map (ends b s) (ends a s i))"
| "ends (Alt a b) s i = ends a s i @ ends b s i"
| "ends (Opt a) s i = ends a s i @ [i]"
| "ends (Plus P) s i = rev (map (\<lambda>k. i + k) [1..<length (takeWhile P (drop i s)) + 1])"
| "ends (Rep n P) s i =
     (if n \<le> length (drop i s) \<and> list_all P (take n (drop i s)) then [i + n] else [])"
| "ends WordB s i = (if boundary s i then [i] else [])"

definition search :: "re \<Rightarrow> string \<Rightarrow> bool" where
  "search r s = list_ex (\<lambda>i. ends r s i \<noteq> []) [0..<Suc (length s)]"

text \<open>\<^verbatim>\<open>pattern.sub(rep, text)\<close> for patterns that never match the empty string.\<close>

function sub_from :: "re \<Rightarrow> string \<Rightarrow> string \<Rightarrow> nat \<Rightarrow> string" where
  "sub_from r rep s i =
     (if length s \<le> i then []
      else case ends r s i of
             [] \<Rightarrow> s ! i # sub_from r rep s (Suc i)
           | j # _ \<Rightarrow> if i < j then rep @ sub_from r rep s j else s ! i # sub_from r rep s (Suc i))"
  by pat_completeness auto
termination
  by (relation "measure (\<lambda>(r, rep, s, i). length s - i)") auto

declare sub_from.simps [simp del]

definition sub :: "re \<Rightarrow> string \<Rightarrow> string \<Rightarrow> string" where
  "sub r rep s = sub_from r rep s 0"

fun seqs :: "re list \<Rightarrow> re" where
  "seqs [] = Opt (Cls (\<lambda>_. False))"
| "seqs [r] = r"
| "seqs (r # q # rs) = Seq r (seqs (q # rs))"

fun alts :: "re list \<Rightarrow> re" where
  "alts [] = Cls (\<lambda>_. False)"
| "alts [r] = r"
| "alts (r # q # rs) = Alt r (alts (q # rs))"

definition lit :: "string \<Rightarrow> re" where
  "lit w = seqs (map (\<lambda>c. Cls (\<lambda>d. d = c)) w)"

text \<open>A literal under \<^verbatim>\<open>re.I\<close>.\<close>

definition lit_i :: "string \<Rightarrow> re" where
  "lit_i w = seqs (map (\<lambda>c. Cls (\<lambda>d. lower_char d = lower_char c)) w)"

section \<open>pii.py\<close>

definition dash :: re where
  "dash = Opt (Cls (\<lambda>c. c = CHR ''-''))"

definition sep :: re where
  "sep = Opt (Cls (\<lambda>c. is_space c \<or> c = CHR ''-''))"

definition PATTERNS :: "(string \<times> re) list" where
  "PATTERNS =
     [(''emirates_id'',
       seqs [WordB, lit ''784'', dash, Rep 4 is_digit, dash, Rep 7 is_digit, dash, Cls is_digit, WordB]),
      (''iban_ae'',
       seqs [WordB, lit ''AE'', Rep 2 is_digit, Rep 3 is_digit, Rep 16 is_digit, WordB]),
      (''email'',
       seqs [WordB, Plus (\<lambda>c. is_word_char c \<or> c \<in> set ''.+-''), lit ''@'',
             Plus (\<lambda>c. is_word_char c \<or> c = CHR ''-''), lit ''.'',
             Plus (\<lambda>c. is_word_char c \<or> c \<in> set ''.-''), WordB]),
      (''phone_ae'',
       seqs [WordB, Alt (seqs [Opt (lit ''+''), lit ''971'', sep]) (lit ''0''), lit ''5'', Cls is_digit,
             sep, Rep 3 is_digit, sep, Rep 4 is_digit, WordB])]"

fun redact_loop :: "(string \<times> re) list \<Rightarrow> string \<Rightarrow> string \<times> string list" where
  "redact_loop [] text = (text, [])"
| "redact_loop ((label, pattern) # ps) text =
     (if search pattern text
      then (let (t, found) = redact_loop ps (sub pattern (''[REDACTED:'' @ label @ '']'') text)
            in (t, label # found))
      else redact_loop ps text)"

definition redact_text :: "string \<Rightarrow> string \<times> string list" where
  "redact_text text = redact_loop PATTERNS text"

fun redact_val :: "json \<Rightarrow> json \<times> string list"
  and redact_list :: "json list \<Rightarrow> json list \<times> string list"
  and redact_obj :: "dict \<Rightarrow> dict \<times> string list" where
  "redact_val (JStr s) = (let (t, found) = redact_text s in (JStr t, found))"
| "redact_val (JList xs) = (let (ys, found) = redact_list xs in (JList ys, found))"
| "redact_val (JObj d) = (let (e, found) = redact_obj d in (JObj e, found))"
| "redact_val v = (v, [])"
| "redact_list [] = ([], [])"
| "redact_list (x # xs) =
     (let (y, f) = redact_val x; (ys, g) = redact_list xs in (y # ys, f @ g))"
| "redact_obj [] = ([], [])"
| "redact_obj ((k, v) # d) =
     (let (w, f) = redact_val v; (e, g) = redact_obj d in ((k, w) # e, f @ g))"

definition sorted_set :: "string list \<Rightarrow> string list" where
  "sorted_set xs = sort (remdups xs)"

definition redact_payload :: "dict \<Rightarrow> dict \<times> string list" where
  "redact_payload payload = (let (redacted, labels) = redact_obj payload in (redacted, sorted_set labels))"

section \<open>pii\_layer.py\<close>

definition scan_str :: "string \<Rightarrow> string list" where
  "scan_str s = map fst (filter (\<lambda>(label, pattern). search pattern s) PATTERNS)"

fun scan :: "json \<Rightarrow> string list"
  and scan_list :: "json list \<Rightarrow> string list"
  and scan_obj :: "dict \<Rightarrow> string list" where
  "scan (JObj d) = scan_obj d"
| "scan (JList xs) = scan_list xs"
| "scan (JStr s) = scan_str s"
| "scan v = []"
| "scan_list [] = []"
| "scan_list (x # xs) = scan x @ scan_list xs"
| "scan_obj [] = []"
| "scan_obj ((k, v) # d) = scan v @ scan_obj d"

definition detect_pii_labels :: "dict \<Rightarrow> string list" where
  "detect_pii_labels payload = sorted_set (scan_obj payload)"

section \<open>The phrase detector of features.py\<close>

definition PROHIBITED_PHRASE_PATTERNS :: "(string \<times> re) list" where
  "PROHIBITED_PHRASE_PATTERNS =
     [(''guaranteed_return'',
       seqs [WordB, alts [lit_i ''guaranteed'',
               seqs [lit_i ''risk'', Opt (Cls (\<lambda>c. c = CHR ''-'' \<or> c = CHR '' '')), lit_i ''free''],
               lit_i ''will return'', lit_i ''assured profit''], WordB]),
      (''absolute_claim'',
       seqs [WordB, alts [lit_i ''100% certain'', lit_i ''no risk'', lit_i ''cannot lose''], WordB])]"

fun phrase_loop :: "(string \<times> re) list \<Rightarrow> string \<Rightarrow> string list \<Rightarrow> string list" where
  "phrase_loop [] s found = found"
| "phrase_loop ((label, pattern) # ps) s found =
     phrase_loop ps s (if search pattern s \<and> label \<notin> set found then found @ [label] else found)"

fun phrase_walk :: "json \<Rightarrow> string list \<Rightarrow> string list"
  and phrase_walk_list :: "json list \<Rightarrow> string list \<Rightarrow> string list"
  and phrase_walk_obj :: "dict \<Rightarrow> string list \<Rightarrow> string list" where
  "phrase_walk (JStr s) found = phrase_loop PROHIBITED_PHRASE_PATTERNS s found"
| "phrase_walk (JObj d) found = phrase_walk_obj d found"
| "phrase_walk (JList xs) found = phrase_walk_list xs found"
| "phrase_walk v found = found"
| "phrase_walk_list [] found = found"
| "phrase_walk_list (x # xs) found = phrase_walk_list xs (phrase_walk x found)"
| "phrase_walk_obj [] found = found"
| "phrase_walk_obj ((k, v) # d) found = phrase_walk_obj d (phrase_walk v found)"

definition detect_prohibited_phrases :: "dict \<Rightarrow> string list" where
  "detect_prohibited_phrases payload = phrase_walk_obj payload []"

section \<open>Lemmas\<close>

lemma set_sorted_set [simp]: "set (sorted_set xs) = set xs"
  by (simp add: sorted_set_def)

lemma sorted_set_Nil [simp]: "sorted_set xs = [] \<longleftrightarrow> xs = []"
  by (metis set_empty2 set_sorted_set)

lemma sorted_sorted_set: "sorted (sorted_set xs)" "distinct (sorted_set xs)"
  by (simp_all add: sorted_set_def)

lemma redact_loop_clean:
  "(\<forall>(label, pattern) \<in> set ps. \<not> search pattern s) \<Longrightarrow> redact_loop ps s = (s, [])"
  by (induction ps s rule: redact_loop.induct) auto

lemma redact_text_clean: "scan_str s = [] \<Longrightarrow> redact_text s = (s, [])"
  unfolding redact_text_def by (rule redact_loop_clean) (auto simp: scan_str_def filter_empty_conv)

lemma redact_clean:
  "scan v = [] \<Longrightarrow> redact_val v = (v, [])"
  "scan_list xs = [] \<Longrightarrow> redact_list xs = (xs, [])"
  "scan_obj d = [] \<Longrightarrow> redact_obj d = (d, [])"
  by (induction v and xs and d rule: scan_scan_list_scan_obj.induct) (auto simp: redact_text_clean)

text \<open>The shape of a value: the value with every string erased.\<close>

fun shape :: "json \<Rightarrow> json"
  and shape_list :: "json list \<Rightarrow> json list"
  and shape_obj :: "dict \<Rightarrow> dict" where
  "shape (JStr s) = JStr []"
| "shape (JList xs) = JList (shape_list xs)"
| "shape (JObj d) = JObj (shape_obj d)"
| "shape v = v"
| "shape_list [] = []"
| "shape_list (x # xs) = shape x # shape_list xs"
| "shape_obj [] = []"
| "shape_obj ((k, v) # d) = (k, shape v) # shape_obj d"

lemma shape_redact:
  "shape (fst (redact_val v)) = shape v"
  "shape_list (fst (redact_list xs)) = shape_list xs"
  "shape_obj (fst (redact_obj d)) = shape_obj d"
  by (induction v and xs and d rule: scan_scan_list_scan_obj.induct)
    (auto simp: Let_def split: prod.splits)

lemma redact_loop_labels: "set (snd (redact_loop ps s)) \<subseteq> fst ` set ps"
  by (induction ps s rule: redact_loop.induct) (auto simp: Let_def split: prod.splits)

lemma redact_text_labels: "redact_text s = (t, f) \<Longrightarrow> x \<in> set f \<Longrightarrow> x \<in> fst ` set PATTERNS"
  using redact_loop_labels [of PATTERNS s] by (auto simp: redact_text_def)

lemma redact_labels:
  "set (snd (redact_val v)) \<subseteq> fst ` set PATTERNS"
  "set (snd (redact_list xs)) \<subseteq> fst ` set PATTERNS"
  "set (snd (redact_obj d)) \<subseteq> fst ` set PATTERNS"
  by (induction v and xs and d rule: scan_scan_list_scan_obj.induct)
    (auto simp: Let_def dest: redact_text_labels split: prod.splits)

text \<open>Redaction keeps a value plain, so it keeps its canonical form well defined.\<close>

lemma fst_redact_obj: "map fst (fst (redact_obj d)) = map fst d"
  by (induction d) (auto simp: Let_def split: prod.splits)

lemma jplain_redact:
  "jplain v \<Longrightarrow> jplain (fst (redact_val v))"
  "jplain_list xs \<Longrightarrow> jplain_list (fst (redact_list xs))"
  "jplain_obj d \<Longrightarrow> jplain_obj (fst (redact_obj d))"
proof (induction v and xs and d rule: scan_scan_list_scan_obj.induct)
  case (1 d)
  then show ?case using fst_redact_obj [of d] by (auto simp: Let_def split: prod.splits)
qed (auto simp: Let_def split: prod.splits)

section \<open>Properties\<close>

text \<open>Redaction keeps the document: the redacted payload has the same keys, the same nesting and
  the same non-string values as the payload, and the reported labels are sorted, without repetition
  and names of the known patterns.\<close>

theorem redact_payload_shape:
  assumes "redact_payload payload = (redacted, labels)"
  shows "shape_obj redacted = shape_obj payload \<and> map fst redacted = map fst payload \<and>
    sorted labels \<and> distinct labels \<and> set labels \<subseteq> fst ` set PATTERNS"
proof -
  have "redacted = fst (redact_obj payload)" "labels = sorted_set (snd (redact_obj payload))"
    using assms by (auto simp: redact_payload_def Let_def split: prod.splits)
  then show ?thesis
    using shape_redact(3) [of payload] redact_labels(3) [of payload] fst_redact_obj [of payload]
    by (simp add: sorted_sorted_set)
qed

text \<open>What the detector does not see, redaction does not touch: if \<^verbatim>\<open>detect_pii_labels\<close> finds no
  label in a payload, \<^verbatim>\<open>redact_payload\<close> returns it unchanged, with no label.\<close>

theorem redact_payload_clean:
  assumes "detect_pii_labels payload = []"
  shows "redact_payload payload = (payload, [])"
proof -
  have "scan_obj payload = []" using assms by (simp add: detect_pii_labels_def)
  then show ?thesis by (simp add: redact_payload_def redact_clean)
qed

theorem redact_payload_shape_witness:
  "\<exists>redacted labels. redact_payload [(''note'', JStr ''call 0501234567''), (''n'', JInt 3)] = (redacted, labels) \<and>
    shape_obj redacted = shape_obj [(''note'', JStr ''call 0501234567''), (''n'', JInt 3)] \<and>
    map fst redacted = [''note'', ''n''] \<and> set labels \<subseteq> fst ` set PATTERNS"
proof -
  obtain r l where "redact_payload [(''note'', JStr ''call 0501234567''), (''n'', JInt 3)] = (r, l)"
    by fastforce
  from this redact_payload_shape [OF this] show ?thesis by auto
qed

theorem redact_payload_clean_witness:
  "detect_pii_labels [(''n'', JInt 3), (''l'', JList [JNull])] = [] \<and>
   redact_payload [(''n'', JInt 3), (''l'', JList [JNull])] = ([(''n'', JInt 3), (''l'', JList [JNull])], [])"
proof -
  have h: "detect_pii_labels [(''n'', JInt 3), (''l'', JList [JNull])] = []"
    by (simp add: detect_pii_labels_def)
  show ?thesis using h redact_payload_clean [OF h] by simp
qed

end
