(* ===== verification/Models.thy ===== *)
theory Models
  imports Pii
begin

text \<open>
  \<^verbatim>\<open>app/db/models.py\<close>: one record per table, the database as a record of tables in insertion
  order, and the small query vocabulary the repositories are written in.  A UUID is its text; an
  instant is a number of microseconds; a nullable column is an option; a JSONB column is a JSON
  value.  \<open>draws\<close> counts the values drawn from the random generators (UUIDs, keys, nonces, codes
  and tokens), so that each draw is a fresh argument to the environment's generators.

  Rows of equal time stamp come in insertion order where the code orders by time; PostgreSQL
  leaves that order open.
\<close>

record org =
  o_id :: string
  o_name :: string
  o_api_key_hash :: string
  o_region :: string
  o_retention_days_payload :: int
  o_fail_mode :: string
  o_confidentiality_mode :: string
  o_wrapping_public_pem :: "string option"
  o_requires_profile :: bool
  o_created_at :: int

record policy =
  pol_id :: string
  pol_org_id :: string
  pol_name :: string
  pol_version :: string
  pol_rules :: json
  pol_active :: bool
  pol_created_at :: int

record trace =
  t_id :: string
  t_org_id :: string
  t_policy_version :: "string option"
  t_root_hash :: "string option"
  t_created_at :: int

record event =
  e_id :: string
  e_org_id :: string
  e_trace_id :: string
  e_batch_id :: "string option"
  e_seq :: int
  e_type :: string
  e_payload_hash :: string
  e_envelope :: dict
  e_prev_hash :: "string option"
  e_hash :: string
  e_signature :: string
  e_alg :: string
  e_signing_key_id :: "string option"
  e_policy_version :: "string option"
  e_created_at :: int
  e_deferred :: bool
  e_occurred_at :: "int option"
  e_client_device_id :: "string option"
  e_client_signature :: "string option"

record batch =
  b_id :: string
  b_org_id :: "string option"
  b_root :: string
  b_signature :: string
  b_event_ids :: "string list"
  b_sealed_at :: int

record anchor =
  an_id :: string
  an_batch_id :: string
  an_kind :: string
  an_token :: string
  an_anchored_at :: int

record approval =
  a_id :: string
  a_org_id :: string
  a_trace_id :: string
  a_event_id :: "string option"
  a_status :: string
  a_approver_id :: "string option"
  a_approver_kind :: "string option"
  a_comment :: "string option"
  a_created_at :: int
  a_resolved_at :: "int option"

record payload =
  p_org_id :: string
  p_payload_hash :: string
  p_encrypted_blob :: string
  p_enc_alg :: string
  p_pii_labels :: "string list"
  p_erased_at :: "int option"
  p_created_at :: int

record payload_key =
  pk_org_id :: string
  pk_payload_hash :: string
  pk_key_b64 :: string
  pk_wrap_alg :: "string option"

record access_request =
  ar_id :: string
  ar_org_id :: string
  ar_requested_by :: string
  ar_reason :: string
  ar_status :: string
  ar_required_approvals :: int
  ar_grantee_public_pem :: string
  ar_grantee_private_pem :: string
  ar_trace_id :: "string option"
  ar_created_at :: int
  ar_expires_at :: int

record access_approval =
  aa_id :: string
  aa_request_id :: string
  aa_approver_id :: string
  aa_created_at :: int

record access_grant_key =
  ag_request_id :: string
  ag_payload_hash :: string
  ag_wrapped_key_b64 :: "string option"

record regulation_pack =
  rp_id :: string
  rp_code :: string
  rp_jurisdiction :: string
  rp_name :: string
  rp_version :: string
  rp_instrument :: string
  rp_instrument_notes :: "string option"
  rp_source_url :: "string option"
  rp_effective_date :: "string option"
  rp_verification_status :: string
  rp_reviewed_by :: "string option"
  rp_reviewed_at :: "int option"
  rp_rules :: json
  rp_created_at :: int

record org_regulation_pack =
  op_org_id :: string
  op_pack_id :: string
  op_enforcement :: string
  op_enabled :: bool
  op_created_at :: int

record org_profile =
  pr_org_id :: string
  pr_jurisdictions :: "string list"
  pr_sectors :: "string list"
  pr_updated_at :: int
  pr_updated_by :: "string option"

record profile_change_request =
  cr_id :: string
  cr_org_id :: string
  cr_requested_by :: string
  cr_reason :: string
  cr_proposed_jurisdictions :: "string list"
  cr_proposed_sectors :: "string list"
  cr_removed :: "string list"
  cr_status :: string
  cr_decided_by :: "string option"
  cr_decided_at :: "int option"
  cr_created_at :: int

record policy_decision_summary =
  ds_id :: string
  ds_org_id :: string
  ds_trace_id :: string
  ds_seq :: int
  ds_event_hash :: string
  ds_action :: string
  ds_tier :: string
  ds_policy_tier :: string
  ds_allowed :: bool
  ds_policy_version :: "string option"
  ds_findings :: "dict list"
  ds_jurisdictions :: "string list"
  ds_remediation :: "dict option"
  ds_remediation_of :: "int option"
  ds_remediated_by_seq :: "int option"
  ds_status :: "string option"
  ds_output_seq :: "int option"
  ds_output_hash :: "string option"
  ds_created_at :: int

record org_signing_key =
  sk_key_id :: string
  sk_org_id :: string
  sk_alg :: string
  sk_public_pem :: string
  sk_private_pem :: "string option"
  sk_status :: string
  sk_created_at :: int

record sdk_device =
  dv_id :: string
  dv_org_id :: string
  dv_device_id :: string
  dv_public_pem :: string
  dv_label :: "string option"
  dv_revoked :: bool
  dv_created_at :: int
  dv_last_seen_at :: "int option"

record user =
  u_id :: string
  u_org_id :: string
  u_email :: string
  u_display_name :: string
  u_role :: string
  u_password_hash :: "string option"
  u_failed_logins :: int
  u_locked_until :: "int option"
  u_disabled :: bool
  u_created_at :: int

record login_code =
  lc_id :: string
  lc_user_id :: string
  lc_code_hash :: string
  lc_attempts :: int
  lc_expires_at :: int
  lc_used_at :: "int option"
  lc_created_at :: int

record auth_session =
  as_id :: string
  as_user_id :: string
  as_token_hash :: string
  as_method :: string
  as_expires_at :: int
  as_revoked_at :: "int option"
  as_created_at :: int

record db =
  orgs :: "org list"
  policies :: "policy list"
  traces :: "trace list"
  events :: "event list"
  batches :: "batch list"
  anchors :: "anchor list"
  approvals :: "approval list"
  payloads :: "payload list"
  payload_keys :: "payload_key list"
  access_requests :: "access_request list"
  access_approvals :: "access_approval list"
  access_grant_keys :: "access_grant_key list"
  regulation_packs :: "regulation_pack list"
  org_regulation_packs :: "org_regulation_pack list"
  org_profiles :: "org_profile list"
  profile_change_requests :: "profile_change_request list"
  summaries :: "policy_decision_summary list"
  signing_keys :: "org_signing_key list"
  sdk_devices :: "sdk_device list"
  users :: "user list"
  login_codes :: "login_code list"
  auth_sessions :: "auth_session list"
  draws :: nat

definition empty_db :: db where
  "empty_db =
     \<lparr>orgs = [], policies = [], traces = [], events = [], batches = [], anchors = [],
      approvals = [], payloads = [], payload_keys = [], access_requests = [],
      access_approvals = [], access_grant_keys = [], regulation_packs = [],
      org_regulation_packs = [], org_profiles = [], profile_change_requests = [], summaries = [],
      signing_keys = [], sdk_devices = [], users = [], login_codes = [], auth_sessions = [],
      draws = 0\<rparr>"

section \<open>Queries\<close>

text \<open>\<^verbatim>\<open>.one_or_none()\<close> and \<^verbatim>\<open>db.get\<close> on a key the schema makes unique: the matching row.\<close>

definition one_or_none :: "('a \<Rightarrow> bool) \<Rightarrow> 'a list \<Rightarrow> 'a option" where
  "one_or_none P rows = List.find P rows"

text \<open>\<^verbatim>\<open>.order_by(key.desc())\<close>, \<^verbatim>\<open>.order_by(key.asc())\<close>, \<^verbatim>\<open>.first()\<close>\<close>

definition order_desc :: "('a \<Rightarrow> int) \<Rightarrow> 'a list \<Rightarrow> 'a list" where
  "order_desc key rows = sort_key (\<lambda>r. - key r) rows"

definition order_asc :: "('a \<Rightarrow> int) \<Rightarrow> 'a list \<Rightarrow> 'a list" where
  "order_asc key rows = sort_key key rows"

definition first :: "'a list \<Rightarrow> 'a option" where
  "first rows = (case rows of [] \<Rightarrow> None | r # _ \<Rightarrow> Some r)"

text \<open>An assignment to the columns of the rows that satisfy a filter.\<close>

definition update_where :: "('a \<Rightarrow> bool) \<Rightarrow> ('a \<Rightarrow> 'a) \<Rightarrow> 'a list \<Rightarrow> 'a list" where
  "update_where P f rows = map (\<lambda>r. if P r then f r else r) rows"

definition new_uuid :: "env \<Rightarrow> db \<Rightarrow> string \<times> db" where
  "new_uuid E db = (uuid4 E (draws db), db\<lparr>draws := Suc (draws db)\<rparr>)"

section \<open>Lemmas\<close>

lemma one_or_none_Some: "one_or_none P rows = Some r \<Longrightarrow> P r \<and> r \<in> set rows"
  by (induction rows) (auto simp: one_or_none_def split: if_splits)

lemma one_or_none_None: "one_or_none P rows = None \<longleftrightarrow> (\<forall>r \<in> set rows. \<not> P r)"
  by (auto simp: one_or_none_def find_None_iff)

lemma one_or_none_append:
  "one_or_none P (xs @ ys) = (case one_or_none P xs of None \<Rightarrow> one_or_none P ys | Some r \<Rightarrow> Some r)"
  by (induction xs) (auto simp: one_or_none_def)

lemma one_or_none_Nil [simp]: "one_or_none P [] = None"
  by (simp add: one_or_none_def)

lemma one_or_none_Cons [simp]: "one_or_none P (x # xs) = (if P x then Some x else one_or_none P xs)"
  by (simp add: one_or_none_def)

lemma first_simps [simp]: "first [] = None" "first (x # xs) = Some x"
  by (simp_all add: first_def)

lemma first_None [simp]: "first xs = None \<longleftrightarrow> xs = []"
  by (cases xs) auto

lemma first_Some: "first xs = Some x \<Longrightarrow> x \<in> set xs"
  by (cases xs) auto

lemma set_order [simp]: "set (order_desc k rows) = set rows" "set (order_asc k rows) = set rows"
  by (simp_all add: order_desc_def order_asc_def)

lemma order_Nil [simp]: "order_desc k [] = []" "order_asc k [] = []"
  by (simp_all add: order_desc_def order_asc_def)

lemma first_order_desc:
  assumes "first (order_desc k rows) = Some r"
  shows "r \<in> set rows" "\<And>s. s \<in> set rows \<Longrightarrow> k s \<le> k r"
proof -
  obtain rs where o: "order_desc k rows = r # rs" using assms by (cases "order_desc k rows") auto
  then have "set rows = insert r (set rs)" by (metis list.simps(15) set_order(1))
  then show "r \<in> set rows" by simp
  have "sorted (map (\<lambda>x. - k x) (r # rs))"
    using o by (metis order_desc_def sorted_sort_key)
  then show "\<And>s. s \<in> set rows \<Longrightarrow> k s \<le> k r"
    using \<open>set rows = insert r (set rs)\<close> by auto
qed

lemma first_order_desc_None [simp]: "first (order_desc k rows) = None \<longleftrightarrow> rows = []"
  by (metis first_None set_empty set_order(1))

lemma update_where_Nil [simp]: "update_where P f [] = []"
  by (simp add: update_where_def)

lemma length_update_where [simp]: "length (update_where P f rows) = length rows"
  by (simp add: update_where_def)

lemma set_update_where: "r \<in> set (update_where P f rows) \<longleftrightarrow> (\<exists>s \<in> set rows. r = (if P s then f s else s))"
  by (auto simp: update_where_def)

lemma map_update_where: "(\<And>r. g (f r) = g r) \<Longrightarrow> map g (update_where P f rows) = map g rows"
  by (simp add: update_where_def)

lemma filter_update_where:
  "(\<And>r. Q (f r) = Q r) \<Longrightarrow> filter Q (update_where P f rows) = update_where P f (filter Q rows)"
  by (induction rows) (auto simp: update_where_def)

lemma one_or_none_update_where:
  "(\<And>r. Q (f r) = Q r) \<Longrightarrow>
   one_or_none Q (update_where P f rows) =
     map_option (\<lambda>r. if P r then f r else r) (one_or_none Q rows)"
  by (induction rows) (auto simp: update_where_def)

lemma new_uuid_simps [simp]:
  "fst (new_uuid E db) = uuid4 E (draws db)" "snd (new_uuid E db) = db\<lparr>draws := Suc (draws db)\<rparr>"
  by (simp_all add: new_uuid_def)

lemma one_or_none_unique:
  "distinct (map k xs) \<Longrightarrow> x \<in> set xs \<Longrightarrow> one_or_none (\<lambda>y. k y = k x) xs = Some x"
  by (induction xs) (auto simp: rev_image_eqI)

lemma first_rev: "first (rev xs) = (if xs = [] then None else Some (last xs))"
  by (cases xs rule: rev_cases) auto

lemma list_ex_update_where:
  "(\<And>r. Q (f r) = Q r) \<Longrightarrow> list_ex Q (update_where P f rows) = list_ex Q rows"
  by (induction rows) (auto simp: update_where_def)

section \<open>Requests\<close>

text \<open>\<^verbatim>\<open>app/db/session.py\<close>: a request runs in one session; when it raises, the session is closed
  without a commit and the database is unchanged.  Requests are served one after the other.\<close>

definition get_db :: "('op \<Rightarrow> 's \<Rightarrow> ('r \<times> 's) res) \<Rightarrow> 's \<Rightarrow> 'op \<Rightarrow> 's" where
  "get_db step s op = (case step op s of Inl _ \<Rightarrow> s | Inr (_, s') \<Rightarrow> s')"

definition serve :: "('op \<Rightarrow> 's \<Rightarrow> ('r \<times> 's) res) \<Rightarrow> 's \<Rightarrow> 'op list \<Rightarrow> 's" where
  "serve step s ops = foldl (get_db step) s ops"

text \<open>The contract of a service: every request that succeeds keeps the invariant; and of a condition
  that is permanent: once reached, no request undoes it.\<close>

locale service =
  fixes step :: "'op \<Rightarrow> 's \<Rightarrow> ('r \<times> 's) res" and inv :: "'s \<Rightarrow> bool"
  assumes preserved: "inv s \<Longrightarrow> step op s = Inr (r, s') \<Longrightarrow> inv s'"
begin

lemma get_db_inv: "inv s \<Longrightarrow> inv (get_db step s op)"
  by (auto simp: get_db_def split: sum.splits intro: preserved)

lemma serve_inv: "inv s \<Longrightarrow> inv (serve step s ops)"
  unfolding serve_def by (induction ops arbitrary: s) (auto intro: get_db_inv)

end

locale permanent = service step inv
  for step :: "'op \<Rightarrow> 's \<Rightarrow> ('r \<times> 's) res" and inv :: "'s \<Rightarrow> bool" +
  fixes reached :: "'s \<Rightarrow> bool"
  assumes stays: "inv s \<Longrightarrow> reached s \<Longrightarrow> step op s = Inr (r, s') \<Longrightarrow> reached s'"
begin

lemma serve_reached: "inv s \<Longrightarrow> reached s \<Longrightarrow> reached (serve step s ops)"
proof (induction ops arbitrary: s)
  case (Cons op ops)
  have "reached (get_db step s op)"
    using Cons.prems by (auto simp: get_db_def split: sum.splits intro: stays)
  then show ?case using Cons get_db_inv by (simp add: serve_def)
qed (simp add: serve_def)

end

end
