(* ===== verification/Policy.thy ===== *)
theory Policy
  imports Models
begin

text \<open>
  \<^verbatim>\<open>app/domain/policy_contract.py\<close>, \<^verbatim>\<open>app/services/policy\<close> and \<^verbatim>\<open>app/services/verdict.py\<close>: risk
  tiers, feature extraction, the deterministic layers, rule matching, the evaluator, regulation
  packs and the status derived from a decision.  A rules document is customer data, so every
  access is modelled with the exception Python raises on a value of the wrong type.
\<close>

section \<open>tiers.py\<close>

datatype tier = Green | Yellow | Orange | Red

fun TIER_RANK :: "tier \<Rightarrow> nat" where
  "TIER_RANK Green = 0"
| "TIER_RANK Yellow = 1"
| "TIER_RANK Orange = 2"
| "TIER_RANK Red = 3"

fun tier_str :: "tier \<Rightarrow> string" where
  "tier_str Green = ''green''"
| "tier_str Yellow = ''yellow''"
| "tier_str Orange = ''orange''"
| "tier_str Red = ''red''"

definition TIERS :: "tier list" where
  "TIERS = [Green, Yellow, Orange, Red]"

definition tier_of_str :: "string \<Rightarrow> tier option" where
  "tier_of_str s = List.find (\<lambda>t. tier_str t = s) TIERS"

definition max_tier :: "tier \<Rightarrow> tier \<Rightarrow> tier" where
  "max_tier current candidate =
     (if TIER_RANK candidate > TIER_RANK current then candidate else current)"

instantiation tier :: linorder
begin

definition less_eq_tier :: "tier \<Rightarrow> tier \<Rightarrow> bool" where
  "less_eq_tier a b = (TIER_RANK a \<le> TIER_RANK b)"

definition less_tier :: "tier \<Rightarrow> tier \<Rightarrow> bool" where
  "less_tier a b = (TIER_RANK a < TIER_RANK b)"

instance
proof
  fix a b c :: tier
  show "a < b \<longleftrightarrow> a \<le> b \<and> \<not> b \<le> a" "a \<le> a" "a \<le> b \<or> b \<le> a"
    by (auto simp: less_eq_tier_def less_tier_def)
  show "a \<le> b \<Longrightarrow> b \<le> c \<Longrightarrow> a \<le> c" by (simp add: less_eq_tier_def)
  show "a \<le> b \<Longrightarrow> b \<le> a \<Longrightarrow> a = b" by (cases a; cases b) (auto simp: less_eq_tier_def)
qed

end

lemma max_tier_max: "max_tier a b = max a b"
  by (cases a; cases b) (auto simp: max_tier_def max_def less_eq_tier_def)

lemma tier_of_str_tier_str [simp]: "tier_of_str (tier_str t) = Some t"
  by (cases t) (auto simp: tier_of_str_def TIERS_def)

lemma tier_of_str_Some: "tier_of_str s = Some t \<Longrightarrow> s = tier_str t"
  by (auto simp: tier_of_str_def TIERS_def split: if_splits)

lemma tier_str_inject [simp]: "tier_str a = tier_str b \<longleftrightarrow> a = b"
  by (cases a; cases b) auto

text \<open>The contract of a worst-wins combination, and what folding it over a list gives.\<close>

locale worst_wins =
  fixes worst :: "'a \<Rightarrow> 'a \<Rightarrow> 'a" and le :: "'a \<Rightarrow> 'a \<Rightarrow> bool"
  assumes le_refl: "le a a"
    and le_trans: "le a b \<Longrightarrow> le b c \<Longrightarrow> le a c"
    and upper1: "le a (worst a b)"
    and upper2: "le b (worst a b)"
    and picks: "worst a b = a \<or> worst a b = b"
begin

lemma fold_ge_start: "le a (foldl worst a xs)"
  by (induction xs arbitrary: a) (auto intro: le_refl le_trans upper1)

lemma fold_ge_member: "x \<in> set xs \<Longrightarrow> le x (foldl worst a xs)"
proof (induction xs arbitrary: a)
  case (Cons y ys)
  then show ?case using fold_ge_start [of "worst a y" ys] upper2 [of y a] le_trans by auto
qed simp

lemma fold_picks: "foldl worst a xs \<in> insert a (set xs)"
proof (induction xs arbitrary: a)
  case (Cons y ys)
  then show ?case using picks [of a y] by (metis foldl_Cons insert_iff list.set_intros)
qed simp

lemma fold_least: "le a u \<Longrightarrow> (\<And>x. x \<in> set xs \<Longrightarrow> le x u) \<Longrightarrow> le (foldl worst a xs) u"
  using fold_picks [of a xs] by auto

end

interpretation tiers: worst_wins max_tier "(\<le>)"
  by unfold_locales (auto simp: max_tier_max max_def)

section \<open>policy_contract.py\<close>

datatype decision = Allow | Deny | Flag

fun decision_str :: "decision \<Rightarrow> string" where
  "decision_str Allow = ''allow''"
| "decision_str Deny = ''deny''"
| "decision_str Flag = ''flag''"

record feature_vector =
  f_action :: string
  f_citation_count :: int
  f_has_pii :: bool
  f_pii_labels :: "string list"
  f_cross_border :: bool
  f_lawful_basis_present :: bool
  f_prohibited_phrases :: "string list"
  f_amount_aed :: "rat option"

record layer_result =
  l_layer_id :: string
  l_tier :: tier
  l_confidence :: rat
  l_reasons :: "string list"

record policy_input =
  pi_org_id :: string
  pi_action :: string
  pi_payload :: dict
  pi_fail_mode :: string
  pi_policy_version :: string
  pi_features :: feature_vector

record policy_output =
  po_tier :: tier
  po_decision :: decision
  po_allowed :: bool
  po_reasons :: "string list"
  po_rule_id :: "string option"
  po_regulatory_refs :: "string list"
  po_risk_score :: int
  po_layer_results :: "layer_result list"
  po_mitigations :: "string list"

definition jstrs :: "string list \<Rightarrow> json" where
  "jstrs xs = JList (map JStr xs)"

definition jopt :: "('a \<Rightarrow> json) \<Rightarrow> 'a option \<Rightarrow> json" where
  "jopt f x = (case x of None \<Rightarrow> JNull | Some y \<Rightarrow> f y)"

definition feature_vector_to_dict :: "feature_vector \<Rightarrow> dict" where
  "feature_vector_to_dict f =
     [(''action'', JStr (f_action f)),
      (''citation_count'', JInt (f_citation_count f)),
      (''has_pii'', JBool (f_has_pii f)),
      (''pii_labels'', jstrs (f_pii_labels f)),
      (''cross_border'', JBool (f_cross_border f)),
      (''lawful_basis_present'', JBool (f_lawful_basis_present f)),
      (''prohibited_phrases'', jstrs (f_prohibited_phrases f)),
      (''amount_aed'', jopt JFloat (f_amount_aed f))]"

definition layer_result_to_dict :: "layer_result \<Rightarrow> dict" where
  "layer_result_to_dict l =
     [(''layer_id'', JStr (l_layer_id l)),
      (''tier'', JStr (tier_str (l_tier l))),
      (''confidence'', JFloat (l_confidence l)),
      (''reasons'', jstrs (l_reasons l))]"

definition policy_output_to_dict :: "policy_output \<Rightarrow> dict" where
  "policy_output_to_dict p =
     [(''tier'', JStr (tier_str (po_tier p))),
      (''decision'', JStr (decision_str (po_decision p))),
      (''allowed'', JBool (po_allowed p)),
      (''reasons'', jstrs (po_reasons p)),
      (''rule_id'', jopt JStr (po_rule_id p)),
      (''regulatory_refs'', jstrs (po_regulatory_refs p)),
      (''risk_score'', JInt (po_risk_score p)),
      (''layer_results'', JList (map (JObj \<circ> layer_result_to_dict) (po_layer_results p))),
      (''mitigations'', jstrs (po_mitigations p))]"

section \<open>features.py\<close>

text \<open>\<^verbatim>\<open>float(i)\<close> of an integer: rounded, an \<open>OverflowError\<close> beyond the largest double.\<close>

definition float_of_int :: "int \<Rightarrow> rat res" where
  "float_of_int i =
     (if \<bar>to_double (of_int i)\<bar> \<ge> 2 ^ 1024 then Inl OverflowError else Inr (to_double (of_int i)))"

fun py_float :: "json \<Rightarrow> rat option res" where
  "py_float (JBool b) = Inr (Some (if b then 1 else 0))"
| "py_float (JInt i) = bind_res (float_of_int i) (\<lambda>x. Inr (Some x))"
| "py_float (JFloat x) = Inr (Some x)"
| "py_float _ = Inr None"

definition citation_count :: "dict \<Rightarrow> int" where
  "citation_count payload =
     (case dget payload ''citations'' of
        JBool b \<Rightarrow> (if b then 1 else 0)
      | JInt i \<Rightarrow> max 0 i
      | JList xs \<Rightarrow> int (length xs)
      | _ \<Rightarrow> 0)"

definition extract_features :: "string \<Rightarrow> dict \<Rightarrow> feature_vector res" where
  "extract_features action payload =
     (let labels = detect_pii_labels payload in
      bind_res (py_float (dget payload ''amount_aed'')) (\<lambda>amount.
      Inr \<lparr>f_action = action,
           f_citation_count = citation_count payload,
           f_has_pii = (labels \<noteq> []),
           f_pii_labels = labels,
           f_cross_border =
             truthy (py_or (dget payload ''cross_border'') (dget payload ''transfer_abroad'')),
           f_lawful_basis_present =
             truthy (py_or (dget payload ''lawful_basis'') (dget payload ''cross_border_lawful_basis'')),
           f_prohibited_phrases = detect_prohibited_phrases payload,
           f_amount_aed = amount\<rparr>))"

section \<open>layers.py\<close>

definition the_layer :: "string \<Rightarrow> tier \<Rightarrow> string \<Rightarrow> layer_result" where
  "the_layer lid t reason =
     \<lparr>l_layer_id = lid, l_tier = t, l_confidence = 1, l_reasons = [reason]\<rparr>"

definition run_deterministic_layers :: "feature_vector \<Rightarrow> layer_result list" where
  "run_deterministic_layers f =
     (if f_has_pii f
      then [the_layer ''pii'' Orange (''PII detected: '' @ join '', '' (f_pii_labels f))] else []) @
     (if f_citation_count f < 1
      then [the_layer ''citations'' Yellow ''No citations provided for factual content''] else []) @
     (if f_prohibited_phrases f \<noteq> []
      then [the_layer ''prohibited_phrases'' Orange
              (''Prohibited marketing phrases: '' @ join '', '' (f_prohibited_phrases f))] else []) @
     (if f_cross_border f \<and> \<not> f_lawful_basis_present f
      then [the_layer ''cross_border'' Red
              ''Cross-border transfer without documented lawful basis''] else []) @
     (case f_amount_aed f of
        None \<Rightarrow> []
      | Some a \<Rightarrow>
          if a \<ge> 100000
          then [the_layer ''high_value'' Orange (''High-value amount_aed='' @ float_repr a)] else [])"

definition layer_floor_tier :: "layer_result list \<Rightarrow> tier" where
  "layer_floor_tier layers = foldl (\<lambda>t l. max_tier t (l_tier l)) Green layers"

section \<open>rules.py\<close>

text \<open>\<^verbatim>\<open>int(v)\<close>: of text, an optional sign and decimal digits, single underscores between digits,
  white space around, at most 4300 digits.\<close>

fun int_digits :: "string \<Rightarrow> string option" where
  "int_digits [] = None"
| "int_digits [c] = (if is_digit c then Some [c] else None)"
| "int_digits (c # d # s) =
     (if \<not> is_digit c then None
      else map_option ((#) c) (if d = CHR ''_'' then int_digits s else int_digits (d # s)))"

definition int_of_text :: "string \<Rightarrow> int option" where
  "int_of_text s =
     (let t = strip s;
          (neg, body) =
            (case t of
               CHR ''-'' # r \<Rightarrow> (True, r)
             | CHR ''+'' # r \<Rightarrow> (False, r)
             | _ \<Rightarrow> (False, t))
      in case int_digits body of
           None \<Rightarrow> None
         | Some ds \<Rightarrow>
             if length ds > 4300 then None
             else Some ((if neg then - 1 else 1) * int (digits_val 0 ds)))"

fun py_int :: "json \<Rightarrow> int res" where
  "py_int (JBool b) = Inr (if b then 1 else 0)"
| "py_int (JInt i) = Inr i"
| "py_int (JFloat x) = Inr (if x < 0 then - \<lfloor>- x\<rfloor> else \<lfloor>x\<rfloor>)"
| "py_int (JStr s) = res_of_option ValueError (int_of_text s)"
| "py_int _ = Inl TypeError"

text \<open>The comparison of a number with a JSON value: a \<open>TypeError\<close> unless that is a number.\<close>

definition py_ge :: "rat \<Rightarrow> json \<Rightarrow> bool res" where
  "py_ge x v = (case num_val v of None \<Rightarrow> Inl TypeError | Some y \<Rightarrow> Inr (x \<ge> y))"

definition py_lt :: "rat \<Rightarrow> json \<Rightarrow> bool res" where
  "py_lt x v = (case num_val v of None \<Rightarrow> Inl TypeError | Some y \<Rightarrow> Inr (x < y))"

fun walk_contains :: "string \<Rightarrow> json \<Rightarrow> bool"
  and walk_contains_list :: "string \<Rightarrow> json list \<Rightarrow> bool"
  and walk_contains_obj :: "string \<Rightarrow> dict \<Rightarrow> bool" where
  "walk_contains needle (JStr s) = contains needle (lower s)"
| "walk_contains needle (JObj d) = walk_contains_obj needle d"
| "walk_contains needle (JList xs) = walk_contains_list needle xs"
| "walk_contains needle _ = False"
| "walk_contains_list needle [] = False"
| "walk_contains_list needle (x # xs) = (walk_contains needle x \<or> walk_contains_list needle xs)"
| "walk_contains_obj needle [] = False"
| "walk_contains_obj needle ((k, v) # d) =
     (walk_contains needle v \<or> walk_contains_obj needle d)"

definition payload_contains :: "dict \<Rightarrow> string \<Rightarrow> bool" where
  "payload_contains payload needle = walk_contains (lower needle) (JObj payload)"

text \<open>The tests of a rule are tried in order; each may hold (and the rule matches), fail, or
  raise.\<close>

fun any_res :: "bool res list \<Rightarrow> bool res" where
  "any_res [] = Inr False"
| "any_res (r # rs) = bind_res r (\<lambda>b. if b then Inr True else any_res rs)"

definition match_action :: "string \<Rightarrow> dict \<Rightarrow> bool" where
  "match_action action m =
     (dhas m ''action'' \<and>
      (case dget m ''action'' of
         JStr a \<Rightarrow> a = action
       | JList xs \<Rightarrow> list_ex (\<lambda>x. py_eq x (JStr action)) xs
       | _ \<Rightarrow> False))"

definition match_citations :: "feature_vector \<Rightarrow> dict \<Rightarrow> bool res" where
  "match_citations f m =
     (if dget m ''feature'' = JStr ''citation_count'' \<and> dhas m ''lt''
      then bind_res (py_int (dget m ''lt'')) (\<lambda>n. Inr (f_citation_count f < n))
      else Inr False)"

definition match_features :: "feature_vector \<Rightarrow> dict \<Rightarrow> bool" where
  "match_features f m =
     ((dget m ''feature'' = JStr ''cross_border'' \<and> dget m ''without_lawful_basis'' = JBool True \<and>
       f_cross_border f \<and> \<not> f_lawful_basis_present f) \<or>
      (dget m ''feature'' = JStr ''prohibited_phrases'' \<and> dget m ''any'' = JBool True \<and>
       f_prohibited_phrases f \<noteq> []))"

definition match_classifier :: "dict \<Rightarrow> dict \<Rightarrow> bool" where
  "match_classifier payload m =
     (dget m ''feature'' = JStr ''classifier'' \<and>
      (let hint = py_or (dget payload ''classifier'') (dget payload ''_classifier_tier'')
       in truthy hint \<and> py_eq (dget m ''equals'') hint))"

definition match_payload_key :: "dict \<Rightarrow> dict \<Rightarrow> bool res" where
  "match_payload_key payload m =
     (case dget m ''payload_key'' of
        JStr key \<Rightarrow>
          let value = dget payload key in
          any_res
            [Inr (dhas m ''equals'' \<and> py_eq value (dget m ''equals'')),
             (case num_val value of
                Some x \<Rightarrow> if dhas m ''gte'' then py_ge x (dget m ''gte'') else Inr False
              | None \<Rightarrow> Inr False),
             (if \<not> dhas m ''lt'' then Inr False
              else if value = JNull then Inr True
              else case num_val value of
                     Some x \<Rightarrow> py_lt x (dget m ''lt'')
                   | None \<Rightarrow> Inr False)]
      | _ \<Rightarrow> Inr False)"

definition match_contains :: "dict \<Rightarrow> dict \<Rightarrow> bool" where
  "match_contains payload m =
     (case dget m ''payload_contains'' of JStr needle \<Rightarrow> payload_contains payload needle | _ \<Rightarrow> False)"

definition rule_matches :: "string \<Rightarrow> dict \<Rightarrow> feature_vector \<Rightarrow> dict \<Rightarrow> bool res" where
  "rule_matches action payload f rule =
     (case dget rule ''match'' of
        JObj m \<Rightarrow>
          any_res
            [Inr (match_action action m),
             Inr (dget m ''has_pii'' = JBool True \<and> f_has_pii f),
             match_citations f m,
             Inr (match_features f m),
             Inr (match_classifier payload m),
             match_payload_key payload m,
             Inr (match_contains payload m)]
      | _ \<Rightarrow> Inr False)"

section \<open>evaluator.py\<close>

fun TIER_SCORE :: "tier \<Rightarrow> int" where
  "TIER_SCORE Green = 10"
| "TIER_SCORE Yellow = 35"
| "TIER_SCORE Orange = 65"
| "TIER_SCORE Red = 90"

fun MITIGATIONS_BY_TIER :: "tier \<Rightarrow> string list" where
  "MITIGATIONS_BY_TIER Yellow = [''append_verify_disclaimer'']"
| "MITIGATIONS_BY_TIER Orange =
     [''redact_pii_before_send'', ''append_verify_disclaimer'', ''require_human_review'']"
| "MITIGATIONS_BY_TIER _ = []"

fun default_decision :: "tier \<Rightarrow> decision" where
  "default_decision Red = Deny"
| "default_decision Yellow = Flag"
| "default_decision _ = Allow"

definition decision_allowed :: "tier \<Rightarrow> decision \<Rightarrow> string \<Rightarrow> bool" where
  "decision_allowed t d fail_mode =
     (case d of
        Deny \<Rightarrow> False
      | Allow \<Rightarrow> True
      | Flag \<Rightarrow> if t = Red then fail_mode = ''allow_with_flag'' else True)"

definition layer_reasons :: "layer_result list \<Rightarrow> string list" where
  "layer_reasons layers =
     (let reasons = concat (map l_reasons layers)
      in if reasons = [] then [''Layer detection only''] else reasons)"

record rule_hit =
  rh_tier :: tier
  rh_decision :: decision
  rh_reason :: string
  rh_rule_id :: string
  rh_regulatory_refs :: "string list"

text \<open>\<^verbatim>\<open>tier not in TIERS\<close>: a list or an object is unhashable, so the test itself raises.\<close>

fun tier_member :: "json \<Rightarrow> tier option res" where
  "tier_member (JStr s) = Inr (tier_of_str s)"
| "tier_member (JList xs) = Inl TypeError"
| "tier_member (JObj d) = Inl TypeError"
| "tier_member _ = Inr None"

definition rule_priority :: "json \<Rightarrow> int res" where
  "rule_priority rule =
     (case rule of JObj r \<Rightarrow> py_int (dget_def r ''priority'' (JInt 0)) | _ \<Rightarrow> Inr 0)"

definition rule_decision :: "tier \<Rightarrow> dict \<Rightarrow> decision" where
  "rule_decision t r =
     (let d = dget_def r ''decision'' (JStr (decision_str (default_decision t))) in
      if d = JStr ''allow'' then Allow
      else if d = JStr ''deny'' then Deny
      else if d = JStr ''flag'' then Flag
      else default_decision t)"

definition hit_of :: "nat \<Rightarrow> tier \<Rightarrow> dict \<Rightarrow> rule_hit" where
  "hit_of index t r =
     \<lparr>rh_tier = t,
      rh_decision = rule_decision t r,
      rh_reason =
        py_str (py_or (dget r ''reason'')
          (JStr (''Rule matched: '' @ py_str (dget_def r ''id'' (JInt (int index)))))),
      rh_rule_id = py_str (dget_def r ''id'' (JStr (''rule_'' @ nat_str index))),
      rh_regulatory_refs =
        (if truthy (dget r ''regulatory_ref'') then [py_str (dget r ''regulatory_ref'')] else [])\<rparr>"

fun match_loop ::
  "string \<Rightarrow> dict \<Rightarrow> feature_vector \<Rightarrow> (nat \<times> json) list \<Rightarrow> rule_hit option res" where
  "match_loop action payload f [] = Inr None"
| "match_loop action payload f ((index, rule) # rest) =
     (case rule of
        JObj r \<Rightarrow>
          bind_res (tier_member (dget_def r ''tier'' (JStr ''yellow''))) (\<lambda>t.
          case t of
            None \<Rightarrow>
              Inl (PolicyEngineError
                (''invalid tier in rule '' @ py_str (dget_def r ''id'' (JInt (int index)))))
          | Some t \<Rightarrow>
              bind_res (rule_matches action payload f r) (\<lambda>hit.
              if hit then Inr (Some (hit_of index t r)) else match_loop action payload f rest))
      | _ \<Rightarrow>
          Inl (PolicyEngineError (''policy.rules['' @ nat_str index @ ''] must be an object'')))"

text \<open>\<^verbatim>\<open>sorted(enumerate(raw_rules), key=priority, reverse=True)\<close>: the keys are computed first, in
  list order; the sort is stable, also in reverse.\<close>

definition sorted_rules :: "json list \<Rightarrow> (nat \<times> json) list res" where
  "sorted_rules raw_rules =
     bind_res (map_res rule_priority raw_rules) (\<lambda>ps.
     Inr (map snd (sort_key (\<lambda>x. - fst x) (zip ps (List.enumerate 0 raw_rules)))))"

definition first_matching_rule ::
  "string \<Rightarrow> dict \<Rightarrow> feature_vector \<Rightarrow> dict \<Rightarrow> rule_hit option res" where
  "first_matching_rule action payload f rules_doc =
     (case dget rules_doc ''rules'' of
        JNull \<Rightarrow> Inr None
      | JList raw_rules \<Rightarrow> bind_res (sorted_rules raw_rules) (match_loop action payload f)
      | _ \<Rightarrow> Inl (PolicyEngineError ''policy.rules must be a list''))"

definition evaluate_policy_input :: "policy_input \<Rightarrow> dict \<Rightarrow> policy_output res" where
  "evaluate_policy_input inp rules_doc =
     (let layers = run_deterministic_layers (pi_features inp);
          fl = layer_floor_tier layers
      in bind_res
           (first_matching_rule (pi_action inp) (pi_payload inp) (pi_features inp) rules_doc)
           (\<lambda>rule_hit.
            let (t, d, allowed, reasons, rule_id, refs) =
              (case rule_hit of
                 Some h \<Rightarrow>
                   (let t = max_tier fl (rh_tier h)
                    in (t, rh_decision h, decision_allowed t (rh_decision h) (pi_fail_mode inp),
                        [rh_reason h], Some (rh_rule_id h), rh_regulatory_refs h))
               | None \<Rightarrow>
                   (fl, (if default_decision fl = Deny then Flag else default_decision fl), True,
                    (if layers \<noteq> [] then layer_reasons layers else [''No policy rule matched'']),
                    None, []))
            in Inr \<lparr>po_tier = t, po_decision = d, po_allowed = allowed, po_reasons = reasons,
                    po_rule_id = rule_id, po_regulatory_refs = refs,
                    po_risk_score = TIER_SCORE t, po_layer_results = layers,
                    po_mitigations = MITIGATIONS_BY_TIER t\<rparr>))"

section \<open>engine.py, opa_adapter.py\<close>

definition evaluate_policy :: "string \<Rightarrow> dict \<Rightarrow> dict \<Rightarrow> (tier \<times> string list) res" where
  "evaluate_policy action payload rules_doc =
     bind_res (extract_features action payload) (\<lambda>f.
     bind_res
       (evaluate_policy_input
          \<lparr>pi_org_id = [], pi_action = action, pi_payload = payload,
           pi_fail_mode = ''deny_on_error'', pi_policy_version = [], pi_features = f\<rparr>
          rules_doc) (\<lambda>out.
     Inr (po_tier out, po_reasons out)))"

definition evaluate_with_opa :: "policy_input \<Rightarrow> dict \<Rightarrow> policy_output res" where
  "evaluate_with_opa inp rules_doc = evaluate_policy_input inp rules_doc"

section \<open>packs.py\<close>

record pack_finding =
  pf_pack_code :: string
  pf_jurisdiction :: string
  pf_instrument :: string
  pf_rule_id :: string
  pf_tier :: tier
  pf_reason :: string
  pf_topic :: json
  pf_provision :: json
  pf_guidance :: json
  pf_source_url :: "string option"
  pf_verification_status :: string
  pf_enforcement :: string
  pf_matched_on :: "string option"

definition pack_finding_to_dict :: "pack_finding \<Rightarrow> dict" where
  "pack_finding_to_dict f =
     [(''pack_code'', JStr (pf_pack_code f)),
      (''jurisdiction'', JStr (pf_jurisdiction f)),
      (''instrument'', JStr (pf_instrument f)),
      (''rule_id'', JStr (pf_rule_id f)),
      (''tier'', JStr (tier_str (pf_tier f))),
      (''reason'', JStr (pf_reason f)),
      (''topic'', pf_topic f),
      (''provision'', pf_provision f),
      (''guidance'', pf_guidance f),
      (''source_url'', jopt JStr (pf_source_url f)),
      (''verification_status'', JStr (pf_verification_status f)),
      (''enforcement'', JStr (pf_enforcement f)),
      (''matched_on'', jopt JStr (pf_matched_on f)),
      (''advisory_only'', JBool (pf_enforcement f \<noteq> ''blocking''))]"

definition active_packs_for_org :: "db \<Rightarrow> string \<Rightarrow> (regulation_pack \<times> string) list" where
  "active_packs_for_org db org_id =
     [(p, op_enforcement l). p \<leftarrow> regulation_packs db, l \<leftarrow> org_regulation_packs db,
        op_pack_id l = rp_id p \<and> op_org_id l = org_id \<and> op_enabled l]"

definition matched_on :: "dict \<Rightarrow> string option" where
  "matched_on m =
     (if dget m ''has_pii'' = JBool True then Some ''has_pii''
      else if dhas m ''action'' then Some ''action''
      else case dget m ''feature'' of
             JStr s \<Rightarrow> Some s
           | _ \<Rightarrow> if dhas m ''payload_key'' then Some ''payload_key'' else None)"

definition finding_of :: "regulation_pack \<Rightarrow> string \<Rightarrow> tier \<Rightarrow> dict \<Rightarrow> pack_finding" where
  "finding_of p enforcement t r =
     \<lparr>pf_pack_code = rp_code p, pf_jurisdiction = rp_jurisdiction p,
      pf_instrument = rp_instrument p,
      pf_rule_id = py_str (dget_def r ''id'' (JStr ''unnamed'')),
      pf_tier = t,
      pf_reason = py_str (dget_def r ''reason'' (JStr [])),
      pf_topic = dget r ''topic'', pf_provision = dget r ''provision'',
      pf_guidance = dget r ''guidance'',
      pf_source_url = rp_source_url p, pf_verification_status = rp_verification_status p,
      pf_enforcement = enforcement,
      pf_matched_on =
        matched_on (case dget r ''match'' of JObj m \<Rightarrow> m | _ \<Rightarrow> [])\<rparr>"

text \<open>What one rule of one pack contributes: nothing when it is malformed, misses, or raises while
  matching; the tier test stands outside the \<^verbatim>\<open>try\<close>.\<close>

definition pack_rule_findings ::
  "string \<Rightarrow> dict \<Rightarrow> feature_vector \<Rightarrow> regulation_pack \<Rightarrow> string \<Rightarrow> json \<Rightarrow> pack_finding list res" where
  "pack_rule_findings action payload f p enforcement rule =
     (case rule of
        JObj r \<Rightarrow>
          bind_res (tier_member (dget_def r ''tier'' (JStr ''yellow''))) (\<lambda>t.
          case t of
            None \<Rightarrow> Inr []
          | Some t \<Rightarrow>
              Inr (if rule_matches action payload f r = Inr True
                   then [finding_of p enforcement t r] else []))
      | _ \<Rightarrow> Inr [])"

definition pack_findings ::
  "string \<Rightarrow> dict \<Rightarrow> feature_vector \<Rightarrow> regulation_pack \<times> string \<Rightarrow> pack_finding list res" where
  "pack_findings action payload f pe =
     (case pe of (p, enforcement) \<Rightarrow>
      let doc = (case rp_rules p of JObj d \<Rightarrow> d | _ \<Rightarrow> []) in
      case dget doc ''rules'' of
        JList raw_rules \<Rightarrow>
          bind_res (map_res (pack_rule_findings action payload f p enforcement) raw_rules)
            (\<lambda>fss. Inr (concat fss))
      | _ \<Rightarrow> Inr [])"

definition evaluate_packs ::
  "db \<Rightarrow> string \<Rightarrow> string \<Rightarrow> dict \<Rightarrow> feature_vector \<Rightarrow> pack_finding list res" where
  "evaluate_packs db org_id action payload f =
     bind_res (map_res (pack_findings action payload f) (active_packs_for_org db org_id)) (\<lambda>fss.
     Inr (sort_key (\<lambda>x. - int (TIER_RANK (pf_tier x))) (concat fss)))"

definition combined_tier :: "tier \<Rightarrow> pack_finding list \<Rightarrow> tier" where
  "combined_tier base_tier findings = foldl (\<lambda>t f. max_tier t (pf_tier f)) base_tier findings"

definition jurisdictions_touched :: "pack_finding list \<Rightarrow> string list" where
  "jurisdictions_touched findings =
     foldl (\<lambda>seen f. if pf_jurisdiction f \<in> set seen then seen else seen @ [pf_jurisdiction f])
       [] findings"

section \<open>verdict.py\<close>

definition STATUS_COMPLIANT :: string where "STATUS_COMPLIANT = ''compliant''"
definition STATUS_FLAGGED :: string where "STATUS_FLAGGED = ''flagged''"
definition STATUS_BLOCKED :: string where "STATUS_BLOCKED = ''blocked''"
definition STATUS_UNEVALUATED :: string where "STATUS_UNEVALUATED = ''unevaluated''"

definition FLAGGING_TIERS :: "string list" where
  "FLAGGING_TIERS = [''orange'', ''red'']"

definition derive_status :: "bool \<Rightarrow> string \<Rightarrow> dict list \<Rightarrow> string" where
  "derive_status allowed t findings =
     (if \<not> allowed then STATUS_BLOCKED
      else if t \<in> set FLAGGING_TIERS \<or> findings \<noteq> [] then STATUS_FLAGGED
      else STATUS_COMPLIANT)"

section \<open>Lemmas\<close>

lemma floor_as_fold: "layer_floor_tier layers = foldl max_tier Green (map l_tier layers)"
  by (simp add: layer_floor_tier_def foldl_map)

lemma combined_as_fold: "combined_tier t findings = foldl max_tier t (map pf_tier findings)"
  by (simp add: combined_tier_def foldl_map)

lemma fold_tier_Max: "foldl max_tier t ts = Max (insert t (set ts))"
  by (rule Max_eqI [symmetric])
    (use tiers.fold_ge_start tiers.fold_ge_member tiers.fold_picks in auto)

lemma any_res_True: "any_res rs = Inr True \<Longrightarrow> Inr True \<in> set rs"
  by (induction rs) (auto simp: bind_res_eq_Inr split: if_splits)

lemma tier_member_Some: "tier_member v = Inr (Some t) \<longleftrightarrow> v = JStr (tier_str t)"
  by (cases v) (auto dest: tier_of_str_Some)

text \<open>The rules in the order they are tried: by falling priority, then by index.\<close>

lemma enumerate_zip_sorted:
  "sorted_wrt (\<lambda>x y. fst (snd x) < fst (snd y)) (zip (ps :: 'p list) (List.enumerate n xs))"
proof (induction xs arbitrary: ps n)
  case (Cons x xs)
  have "fst (snd y) > n" if "y \<in> set (zip qs (List.enumerate (Suc n) xs))" for y and qs :: "'p list"
  proof -
    have "snd y \<in> set (List.enumerate (Suc n) xs)"
      using that by (metis prod.collapse set_zip_rightD)
    then show ?thesis by (simp add: in_set_enumerate_eq)
  qed
  then show ?case using Cons.IH by (cases ps) auto
qed simp

definition tried_before :: "nat \<times> json \<Rightarrow> nat \<times> json \<Rightarrow> bool" where
  "tried_before x y \<longleftrightarrow>
     (\<exists>p q. rule_priority (snd x) = Inr p \<and> rule_priority (snd y) = Inr q \<and>
            (q < p \<or> q = p \<and> fst x < fst y))"

lemma sorted_rules_spec:
  assumes "sorted_rules raw = Inr srt"
  shows "set srt = set (List.enumerate 0 raw)" "sorted_wrt tried_before srt"
proof -
  obtain ps where ps: "map_res rule_priority raw = Inr ps"
    and srt: "srt = map snd (sort_key (\<lambda>x. - fst x) (zip ps (List.enumerate 0 raw)))"
    using assms by (auto simp: sorted_rules_def bind_res_eq_Inr)
  have len: "length ps = length raw" using ps by (rule map_res_eq_Inr_length)
  show "set srt = set (List.enumerate 0 raw)"
    using len by (simp add: srt) (metis length_enumerate map_snd_zip set_map)
  have prio: "rule_priority (snd (snd x)) = Inr (fst x)" if "x \<in> set (zip ps (List.enumerate 0 raw))" for x
    using that ps len by (auto simp: set_zip nth_enumerate_eq dest: map_res_eq_Inr_nth)
  let ?S = "\<lambda>x y. - fst x < - fst y \<or> - fst x = - fst y \<and> fst (snd x) < fst (snd y)"
  have "sorted_wrt ?S (sort_key (\<lambda>x. - fst x) (zip ps (List.enumerate 0 raw)))"
    by (rule sort_key_stable_wrt) (rule enumerate_zip_sorted)
  then have "sorted_wrt (\<lambda>x y. tried_before (snd x) (snd y))
      (sort_key (\<lambda>x. - fst x) (zip ps (List.enumerate 0 raw)))"
    by (rule sorted_wrt_mono_rel [rotated]) (use prio in \<open>auto simp: tried_before_def\<close>)
  then show "sorted_wrt tried_before srt"
    by (simp add: srt sorted_wrt_map)
qed

lemma match_loop_Some:
  "match_loop action payload f l = Inr (Some h) \<Longrightarrow>
   \<exists>pre i r t post. l = pre @ (i, JObj r) # post \<and>
     rule_matches action payload f r = Inr True \<and>
     tier_member (dget_def r ''tier'' (JStr ''yellow'')) = Inr (Some t) \<and> h = hit_of i t r \<and>
     (\<forall>x \<in> set pre. \<exists>d. snd x = JObj d \<and> rule_matches action payload f d = Inr False)"
proof (induction l)
  case (Cons x rest)
  from Cons.prems obtain i r t hit where r: "x = (i, JObj r)"
    and t: "tier_member (dget_def r ''tier'' (JStr ''yellow'')) = Inr (Some t)"
    and hit: "rule_matches action payload f r = Inr hit"
    and rest: "(if hit then Inr (Some (hit_of i t r)) else match_loop action payload f rest) = Inr (Some h)"
    by (cases x) (auto simp: bind_res_eq_Inr split: json.splits option.splits)
  show ?case
  proof (cases hit)
    case True
    then show ?thesis using r t hit rest by (intro exI [of _ "[]"]) auto
  next
    case False
    with rest Cons.IH obtain pre j s u post where *: "rest = pre @ (j, JObj s) # post"
      "rule_matches action payload f s = Inr True"
      "tier_member (dget_def s ''tier'' (JStr ''yellow'')) = Inr (Some u)" "h = hit_of j u s"
      "\<forall>x \<in> set pre. \<exists>d. snd x = JObj d \<and> rule_matches action payload f d = Inr False"
      by auto
    show ?thesis
      by (rule exI [of _ "x # pre"]) (use * r hit False in auto)
  qed
qed simp

lemma first_matching_rule_Some:
  assumes "first_matching_rule action payload f doc = Inr (Some h)"
  obtains raw i r t q where "dget doc ''rules'' = JList raw" "i < length raw" "raw ! i = JObj r"
    "rule_matches action payload f r = Inr True"
    "tier_member (dget_def r ''tier'' (JStr ''yellow'')) = Inr (Some t)" "h = hit_of i t r"
    "rule_priority (raw ! i) = Inr q"
    "\<And>j s p. j < length raw \<Longrightarrow> raw ! j = JObj s \<Longrightarrow> rule_matches action payload f s = Inr True \<Longrightarrow>
       rule_priority (raw ! j) = Inr p \<Longrightarrow> p < q \<or> p = q \<and> i \<le> j"
proof -
  obtain raw srt where raw: "dget doc ''rules'' = JList raw" and srt: "sorted_rules raw = Inr srt"
    and "match_loop action payload f srt = Inr (Some h)"
    using assms by (auto simp: first_matching_rule_def bind_res_eq_Inr split: json.splits)
  then obtain pre i r t post where l: "srt = pre @ (i, JObj r) # post"
    and m: "rule_matches action payload f r = Inr True"
    and t: "tier_member (dget_def r ''tier'' (JStr ''yellow'')) = Inr (Some t)" "h = hit_of i t r"
    and pre: "\<forall>x \<in> set pre. \<exists>d. snd x = JObj d \<and> rule_matches action payload f d = Inr False"
    using match_loop_Some by blast
  note spec = sorted_rules_spec [OF srt]
  have "(i, JObj r) \<in> set (List.enumerate 0 raw)" using spec(1) l by auto
  then have i: "i < length raw" "raw ! i = JObj r" by (auto simp: in_set_enumerate_eq)
  obtain ps where "map_res rule_priority raw = Inr ps"
    using srt by (auto simp: sorted_rules_def bind_res_eq_Inr)
  then obtain q where q: "rule_priority (raw ! i) = Inr q"
    using i(1) map_res_eq_Inr_nth by blast
  have "p < q \<or> p = q \<and> i \<le> j"
    if "j < length raw" "raw ! j = JObj s" "rule_matches action payload f s = Inr True"
      "rule_priority (raw ! j) = Inr p" for j s p
  proof -
    have "(j, JObj s) \<in> set srt" using that spec(1) by (auto simp: in_set_enumerate_eq)
    moreover have "(j, JObj s) \<notin> set pre" using pre that(3) by force
    ultimately consider "(j, JObj s) = (i, JObj r)" | "tried_before (i, JObj r) (j, JObj s)"
      using spec(2) l by (auto simp: sorted_wrt_append)
    then show ?thesis by cases (use q i that in \<open>auto simp: tried_before_def\<close>)
  qed
  with raw i m t q show thesis by (rule that)
qed

lemma evaluate_policy_input_cases:
  assumes "evaluate_policy_input inp doc = Inr out"
  obtains (rule) h where
    "first_matching_rule (pi_action inp) (pi_payload inp) (pi_features inp) doc = Inr (Some h)"
    "po_tier out = max_tier (layer_floor_tier (run_deterministic_layers (pi_features inp))) (rh_tier h)"
    "po_decision out = rh_decision h"
    "po_allowed out = decision_allowed (po_tier out) (rh_decision h) (pi_fail_mode inp)"
    "po_rule_id out = Some (rh_rule_id h)" "po_reasons out = [rh_reason h]"
  | (layers) "first_matching_rule (pi_action inp) (pi_payload inp) (pi_features inp) doc = Inr None"
    "po_tier out = layer_floor_tier (run_deterministic_layers (pi_features inp))"
    "po_decision out \<noteq> Deny" "po_allowed out" "po_rule_id out = None"
proof -
  obtain hit where
    hit: "first_matching_rule (pi_action inp) (pi_payload inp) (pi_features inp) doc = Inr hit"
    using assms by (auto simp: evaluate_policy_input_def Let_def bind_res_eq_Inr)
  show thesis
  proof (cases hit)
    case None
    with hit assms layers show thesis
      by (auto simp: evaluate_policy_input_def Let_def split: if_splits)
  next
    case (Some h)
    with hit assms rule show thesis by (auto simp: evaluate_policy_input_def Let_def)
  qed
qed

lemma matched_rule_decides:
  "decision_allowed t d m = False \<Longrightarrow> d = Deny \<or> d = Flag \<and> t = Red \<and> m \<noteq> ''allow_with_flag''"
  by (cases d) (auto simp: decision_allowed_def split: if_splits)

lemma pack_rule_findings_Inl:
  "pack_rule_findings action payload f p enf rule = Inl e \<longleftrightarrow>
     e = TypeError \<and> (\<exists>r. rule = JObj r \<and>
       tier_member (dget_def r ''tier'' (JStr ''yellow'')) = Inl TypeError)"
  by (cases rule) (auto simp: pack_rule_findings_def bind_res_eq_Inl split: option.splits
    elim!: tier_member.elims)

lemma pack_rule_findings_mem:
  assumes "pack_rule_findings action payload f p enf rule = Inr fs"
  shows "x \<in> set fs \<longleftrightarrow>
    (\<exists>r t. rule = JObj r \<and> tier_member (dget_def r ''tier'' (JStr ''yellow'')) = Inr (Some t) \<and>
       rule_matches action payload f r = Inr True \<and> x = finding_of p enf t r)"
  using assms
  by (cases rule) (auto simp: pack_rule_findings_def bind_res_eq_Inr split: option.splits if_splits)

text \<open>A rule object of a regulation pack document.\<close>

definition pack_rules :: "regulation_pack \<Rightarrow> json list" where
  "pack_rules p =
     (case rp_rules p of
        JObj d \<Rightarrow> (case dget d ''rules'' of JList raw \<Rightarrow> raw | _ \<Rightarrow> [])
      | _ \<Rightarrow> [])"

lemma pack_findings_alt:
  "pack_findings action payload f (p, enf) =
     bind_res (map_res (pack_rule_findings action payload f p enf) (pack_rules p)) (\<lambda>fss. Inr (concat fss))"
  by (auto simp: pack_findings_def pack_rules_def Let_def dget_def dget_def_def split: json.splits)

lemma pack_findings_mem:
  assumes "pack_findings action payload f (p, enf) = Inr fs"
  shows "x \<in> set fs \<longleftrightarrow>
    (\<exists>r t. JObj r \<in> set (pack_rules p) \<and>
       tier_member (dget_def r ''tier'' (JStr ''yellow'')) = Inr (Some t) \<and>
       rule_matches action payload f r = Inr True \<and> x = finding_of p enf t r)"
proof -
  obtain fss where fss: "map_res (pack_rule_findings action payload f p enf) (pack_rules p) = Inr fss"
    and fs: "fs = concat fss"
    using assms by (auto simp: pack_findings_alt bind_res_eq_Inr)
  show ?thesis (is "_ \<longleftrightarrow> ?R")
  proof
    assume "x \<in> set fs"
    then obtain ys where "ys \<in> set fss" "x \<in> set ys" using fs by auto
    then show ?R using map_res_eq_Inr_set [OF fss] pack_rule_findings_mem by (metis (no_types))
  next
    assume ?R
    then obtain r t where r: "JObj r \<in> set (pack_rules p)"
      "tier_member (dget_def r ''tier'' (JStr ''yellow'')) = Inr (Some t)"
      "rule_matches action payload f r = Inr True" "x = finding_of p enf t r" by blast
    then obtain ys where "ys \<in> set fss" "pack_rule_findings action payload f p enf (JObj r) = Inr ys"
      using map_res_eq_Inr_elem [OF fss] by blast
    then show "x \<in> set fs" using pack_rule_findings_mem r fs by fastforce
  qed
qed

lemma evaluate_packs_mem:
  assumes "evaluate_packs db org_id action payload f = Inr fs"
  shows "x \<in> set fs \<longleftrightarrow>
    (\<exists>p enf r t. (p, enf) \<in> set (active_packs_for_org db org_id) \<and> JObj r \<in> set (pack_rules p) \<and>
       tier_member (dget_def r ''tier'' (JStr ''yellow'')) = Inr (Some t) \<and>
       rule_matches action payload f r = Inr True \<and> x = finding_of p enf t r)"
proof -
  obtain fss where fss: "map_res (pack_findings action payload f) (active_packs_for_org db org_id) = Inr fss"
    and fs: "set fs = set (concat fss)"
    using assms by (auto simp: evaluate_packs_def bind_res_eq_Inr)
  show ?thesis (is "_ \<longleftrightarrow> ?R")
  proof
    assume "x \<in> set fs"
    then obtain ys where "ys \<in> set fss" "x \<in> set ys" using fs by auto
    moreover from this obtain p enf where "(p, enf) \<in> set (active_packs_for_org db org_id)"
      "pack_findings action payload f (p, enf) = Inr ys"
      using map_res_eq_Inr_set [OF fss] by (metis prod.collapse)
    ultimately show ?R using pack_findings_mem by (metis (no_types))
  next
    assume ?R
    then obtain p enf r t where r: "(p, enf) \<in> set (active_packs_for_org db org_id)"
      "JObj r \<in> set (pack_rules p)"
      "tier_member (dget_def r ''tier'' (JStr ''yellow'')) = Inr (Some t)"
      "rule_matches action payload f r = Inr True" "x = finding_of p enf t r" by blast
    then obtain ys where "ys \<in> set fss" "pack_findings action payload f (p, enf) = Inr ys"
      using map_res_eq_Inr_elem [OF fss] by blast
    then show "x \<in> set fs" using pack_findings_mem r fs by fastforce
  qed
qed

lemma evaluate_packs_Inl:
  "(\<exists>e. evaluate_packs db org_id action payload f = Inl e) \<longleftrightarrow>
     (\<exists>p enf r. (p, enf) \<in> set (active_packs_for_org db org_id) \<and> JObj r \<in> set (pack_rules p) \<and>
        tier_member (dget_def r ''tier'' (JStr ''yellow'')) = Inl TypeError)" (is "?L \<longleftrightarrow> ?R")
proof
  assume ?L
  then obtain e where "map_res (pack_findings action payload f) (active_packs_for_org db org_id) = Inl e"
    by (auto simp: evaluate_packs_def bind_res_eq_Inl)
  then obtain p enf where "(p, enf) \<in> set (active_packs_for_org db org_id)"
    "pack_findings action payload f (p, enf) = Inl e" by (auto dest!: map_res_eq_Inl)
  moreover from this obtain rule where "rule \<in> set (pack_rules p)"
    "pack_rule_findings action payload f p enf rule = Inl e"
    by (auto simp: pack_findings_alt bind_res_eq_Inl dest!: map_res_eq_Inl)
  ultimately show ?R unfolding pack_rule_findings_Inl by blast
next
  assume ?R
  then obtain p enf r where *: "(p, enf) \<in> set (active_packs_for_org db org_id)"
    "JObj r \<in> set (pack_rules p)" "tier_member (dget_def r ''tier'' (JStr ''yellow'')) = Inl TypeError"
    by blast
  then have "pack_rule_findings action payload f p enf (JObj r) = Inl TypeError"
    by (simp add: pack_rule_findings_Inl)
  from map_res_Inl_ex [of "JObj r" "pack_rules p" "pack_rule_findings action payload f p enf", OF *(2) this] obtain e where "pack_findings action payload f (p, enf) = Inl e"
    by (auto simp: pack_findings_alt)
  from map_res_Inl_ex [of "(p, enf)" "active_packs_for_org db org_id" "pack_findings action payload f", OF *(1) this] show ?L by (auto simp: evaluate_packs_def)
qed

section \<open>Properties\<close>

text \<open>A customer policy used by the witnesses: a low-priority flag and a high-priority denial.\<close>

definition demo_rules :: dict where
  "demo_rules =
     [(''rules'', JList
        [JObj [(''id'', JStr ''r0''), (''tier'', JStr ''yellow''),
               (''match'', JObj [(''action'', JStr ''send'')])],
         JObj [(''id'', JStr ''r1''), (''tier'', JStr ''red''), (''priority'', JInt 5),
               (''match'', JObj [(''payload_key'', JStr ''n''), (''gte'', JInt 2)])],
         JObj [(''id'', JStr ''r2''), (''tier'', JStr ''orange''), (''priority'', JInt 5),
               (''match'', JObj [(''action'', JList [JStr ''send''])])]])]"

definition demo_payload :: dict where
  "demo_payload = [(''n'', JInt 3), (''citations'', JInt 1)]"

definition demo_features :: feature_vector where
  "demo_features =
     \<lparr>f_action = ''send'', f_citation_count = 1, f_has_pii = False, f_pii_labels = [],
      f_cross_border = False, f_lawful_basis_present = False, f_prohibited_phrases = [],
      f_amount_aed = None\<rparr>"

definition demo_input :: policy_input where
  "demo_input =
     \<lparr>pi_org_id = ''o'', pi_action = ''send'', pi_payload = demo_payload,
      pi_fail_mode = ''deny_on_error'', pi_policy_version = ''1'', pi_features = demo_features\<rparr>"

lemma demo_match:
  "first_matching_rule ''send'' demo_payload demo_features demo_rules =
     Inr (Some \<lparr>rh_tier = Red, rh_decision = Deny, rh_reason = ''Rule matched: r1'',
                rh_rule_id = ''r1'', rh_regulatory_refs = []\<rparr>)"
  by code_simp

text \<open>The rule the evaluator applies is the matching rule of highest priority, and among those
  of equal priority the first of the document; its tier, decision, reason and identifier are the
  ones reported.\<close>

theorem first_matching_rule_is_best:
  assumes "first_matching_rule action payload f doc = Inr (Some h)"
  shows "\<exists>raw i r t q. dget doc ''rules'' = JList raw \<and> i < length raw \<and> raw ! i = JObj r \<and>
    rule_matches action payload f r = Inr True \<and> h = hit_of i t r \<and>
    dget_def r ''tier'' (JStr ''yellow'') = JStr (tier_str t) \<and>
    rule_priority (raw ! i) = Inr q \<and>
    (\<forall>j s p. j < length raw \<and> raw ! j = JObj s \<and> rule_matches action payload f s = Inr True \<and>
       rule_priority (raw ! j) = Inr p \<longrightarrow> p < q \<or> p = q \<and> i \<le> j)"
proof -
  obtain raw i r t q where *: "dget doc ''rules'' = JList raw" "i < length raw" "raw ! i = JObj r"
    "rule_matches action payload f r = Inr True"
    "tier_member (dget_def r ''tier'' (JStr ''yellow'')) = Inr (Some t)" "h = hit_of i t r"
    "rule_priority (raw ! i) = Inr q"
    "\<And>j s p. j < length raw \<Longrightarrow> raw ! j = JObj s \<Longrightarrow> rule_matches action payload f s = Inr True \<Longrightarrow>
       rule_priority (raw ! j) = Inr p \<Longrightarrow> p < q \<or> p = q \<and> i \<le> j"
    using assms by (rule first_matching_rule_Some) blast
  moreover have "dget_def r ''tier'' (JStr ''yellow'') = JStr (tier_str t)"
    using *(5) by (simp only: tier_member_Some)
  ultimately show ?thesis by blast
qed

theorem first_matching_rule_is_best_witness:
  "\<exists>raw i r t q. dget demo_rules ''rules'' = JList raw \<and> i < length raw \<and> raw ! i = JObj r \<and>
    rule_matches ''send'' demo_payload demo_features r = Inr True \<and>
    \<lparr>rh_tier = Red, rh_decision = Deny, rh_reason = ''Rule matched: r1'',
     rh_rule_id = ''r1'', rh_regulatory_refs = []\<rparr> = hit_of i t r \<and>
    dget_def r ''tier'' (JStr ''yellow'') = JStr (tier_str t) \<and>
    rule_priority (raw ! i) = Inr q \<and>
    (\<forall>j s p. j < length raw \<and> raw ! j = JObj s \<and>
       rule_matches ''send'' demo_payload demo_features s = Inr True \<and>
       rule_priority (raw ! j) = Inr p \<longrightarrow> p < q \<or> p = q \<and> i \<le> j)"
  by (rule first_matching_rule_is_best [OF demo_match])

text \<open>Only the customer's own policy blocks: an output that is not allowed comes from a rule of
  the customer's document that matches the action, and that rule denies, or flags at tier red
  under a fail mode other than \<^verbatim>\<open>allow_with_flag\<close>.  The deterministic layers alone never deny.\<close>

theorem only_own_policy_blocks:
  assumes "evaluate_policy_input inp doc = Inr out" "\<not> po_allowed out"
  shows "\<exists>raw i r t. dget doc ''rules'' = JList raw \<and> i < length raw \<and> raw ! i = JObj r \<and>
    rule_matches (pi_action inp) (pi_payload inp) (pi_features inp) r = Inr True \<and>
    po_rule_id out = Some (py_str (dget_def r ''id'' (JStr (''rule_'' @ nat_str i)))) \<and>
    po_decision out = rule_decision t r \<and>
    (po_decision out = Deny \<or>
     po_decision out = Flag \<and> po_tier out = Red \<and> pi_fail_mode inp \<noteq> ''allow_with_flag'')"
  using assms(1)
proof (cases rule: evaluate_policy_input_cases)
  case (rule h)
  obtain raw i r t q where *: "dget doc ''rules'' = JList raw" "i < length raw" "raw ! i = JObj r"
    "rule_matches (pi_action inp) (pi_payload inp) (pi_features inp) r = Inr True"
    "h = hit_of i t r"
    using rule(1) by (rule first_matching_rule_Some) blast
  have "decision_allowed (po_tier out) (rh_decision h) (pi_fail_mode inp) = False"
    using rule(4) assms(2) by simp
  then have "po_decision out = Deny \<or>
     po_decision out = Flag \<and> po_tier out = Red \<and> pi_fail_mode inp \<noteq> ''allow_with_flag''"
    unfolding rule(3) by (rule matched_rule_decides)
  with * rule(3,5) show ?thesis by (auto simp: hit_of_def)
next
  case layers
  then show ?thesis using assms(2) by simp
qed

theorem only_own_policy_blocks_witness:
  "\<exists>out raw i r. evaluate_policy_input demo_input demo_rules = Inr out \<and> \<not> po_allowed out \<and>
    dget demo_rules ''rules'' = JList raw \<and> i < length raw \<and> raw ! i = JObj r \<and>
    rule_matches ''send'' demo_payload demo_features r = Inr True"
proof -
  have "evaluate_policy_input demo_input demo_rules =
    Inr \<lparr>po_tier = Red, po_decision = Deny, po_allowed = False,
         po_reasons = [''Rule matched: r1''], po_rule_id = Some ''r1'', po_regulatory_refs = [],
         po_risk_score = 90, po_layer_results = [], po_mitigations = []\<rparr>"
    by code_simp
  from only_own_policy_blocks [OF this] this show ?thesis by (force simp: demo_input_def)
qed

text \<open>Worst tier wins: the tier of the result is the largest among green, the tiers of the
  layers that fired and the tier of the applied rule; the risk score belongs to that tier.\<close>

theorem evaluated_tier_is_worst:
  assumes "evaluate_policy_input inp doc = Inr out"
    and "first_matching_rule (pi_action inp) (pi_payload inp) (pi_features inp) doc = Inr hit"
  shows "po_tier out =
      Max (insert Green (l_tier ` set (run_deterministic_layers (pi_features inp)) \<union>
                         rh_tier ` set_option hit)) \<and>
    po_risk_score out = TIER_SCORE (po_tier out)"
proof

  let ?L = "run_deterministic_layers (pi_features inp)"
  have fl: "layer_floor_tier ?L = Max (insert Green (l_tier ` set ?L))"
    by (simp add: floor_as_fold fold_tier_Max)
  from assms(1) show "po_tier out = Max (insert Green (l_tier ` set ?L \<union> rh_tier ` set_option hit))"
  proof (cases rule: evaluate_policy_input_cases)
    case (rule h)
    have "insert Green (l_tier ` set ?L \<union> rh_tier ` set_option hit) =
        insert (rh_tier h) (insert Green (l_tier ` set ?L))"
      using rule(1) assms(2) by auto
    then show ?thesis using rule(2) fl by (simp add: max_tier_max max.commute)
  next
    case layers
    then show ?thesis using assms(2) fl by simp
  qed
  from assms(1) show "po_risk_score out = TIER_SCORE (po_tier out)"
    by (auto simp: evaluate_policy_input_def Let_def bind_res_eq_Inr split: option.splits)
qed

theorem evaluated_tier_is_worst_witness:
  "\<exists>out. evaluate_policy_input demo_input demo_rules = Inr out \<and>
    po_tier out = Max (insert Green (l_tier ` set (run_deterministic_layers demo_features) \<union> {Red}))"
proof -
  have "evaluate_policy_input demo_input demo_rules =
    Inr \<lparr>po_tier = Red, po_decision = Deny, po_allowed = False,
         po_reasons = [''Rule matched: r1''], po_rule_id = Some ''r1'', po_regulatory_refs = [],
         po_risk_score = 90, po_layer_results = [], po_mitigations = []\<rparr>"
    by code_simp
  from evaluated_tier_is_worst [OF this] this demo_match show ?thesis
    by (force simp: demo_input_def)
qed

text \<open>Regulation packs: the findings for an organization are exactly those of the matching,
  well-formed rules of the packs enabled for that organization, strictest first; the combined tier
  is the largest among the base tier and theirs, so a pack can raise the tier and nothing else.\<close>

theorem evaluate_packs_exact:
  assumes "evaluate_packs db org_id action payload f = Inr fs"
  shows "(\<forall>x. x \<in> set fs \<longleftrightarrow>
      (\<exists>p l r t. p \<in> set (regulation_packs db) \<and> l \<in> set (org_regulation_packs db) \<and>
         op_pack_id l = rp_id p \<and> op_org_id l = org_id \<and> op_enabled l \<and>
         JObj r \<in> set (pack_rules p) \<and> dget_def r ''tier'' (JStr ''yellow'') = JStr (tier_str t) \<and>
         rule_matches action payload f r = Inr True \<and> x = finding_of p (op_enforcement l) t r)) \<and>
    sorted_wrt (\<lambda>x y. pf_tier y \<le> pf_tier x) fs \<and>
    combined_tier base fs = Max (insert base (pf_tier ` set fs))"
proof (intro conjI allI)
  show "x \<in> set fs \<longleftrightarrow>
      (\<exists>p l r t. p \<in> set (regulation_packs db) \<and> l \<in> set (org_regulation_packs db) \<and>
         op_pack_id l = rp_id p \<and> op_org_id l = org_id \<and> op_enabled l \<and>
         JObj r \<in> set (pack_rules p) \<and> dget_def r ''tier'' (JStr ''yellow'') = JStr (tier_str t) \<and>
         rule_matches action payload f r = Inr True \<and> x = finding_of p (op_enforcement l) t r)" for x
    unfolding evaluate_packs_mem [OF assms] tier_member_Some by (auto simp: active_packs_for_org_def)
  obtain fss where "fs = sort_key (\<lambda>x. - int (TIER_RANK (pf_tier x))) (concat fss)"
    using assms by (auto simp: evaluate_packs_def bind_res_eq_Inr)
  then have "sorted (map (\<lambda>x. - int (TIER_RANK (pf_tier x))) fs)" by simp
  then show "sorted_wrt (\<lambda>x y. pf_tier y \<le> pf_tier x) fs"
    by (simp add: sorted_wrt_map less_eq_tier_def)
  show "combined_tier base fs = Max (insert base (pf_tier ` set fs))"
    by (simp add: combined_as_fold fold_tier_Max)
qed

definition demo_pack :: "json \<Rightarrow> regulation_pack" where
  "demo_pack rules =
     \<lparr>rp_id = ''p1'', rp_code = ''uae'', rp_jurisdiction = ''AE'', rp_name = ''n'', rp_version = ''1'',
      rp_instrument = ''i'', rp_instrument_notes = None, rp_source_url = None,
      rp_effective_date = None, rp_verification_status = ''unverified'', rp_reviewed_by = None,
      rp_reviewed_at = None, rp_rules = rules, rp_created_at = 0\<rparr>"

definition demo_packs_db :: "json \<Rightarrow> db" where
  "demo_packs_db rules =
     empty_db\<lparr>regulation_packs := [demo_pack rules],
              org_regulation_packs :=
                [\<lparr>op_org_id = ''o'', op_pack_id = ''p1'', op_enforcement = ''advisory'',
                  op_enabled = True, op_created_at = 0\<rparr>]\<rparr>"

theorem evaluate_packs_exact_witness:
  "\<exists>fs. evaluate_packs (demo_packs_db (JObj demo_rules)) ''o'' ''send'' demo_payload demo_features = Inr fs \<and>
     map pf_tier fs = [Red, Orange, Yellow] \<and> combined_tier Green fs = Max (insert Green (pf_tier ` set fs))"
proof -
  have "map_sum id (map pf_tier)
      (evaluate_packs (demo_packs_db (JObj demo_rules)) ''o'' ''send'' demo_payload demo_features) =
    Inr [Red, Orange, Yellow]"
    by code_simp
  then obtain fs where
    "evaluate_packs (demo_packs_db (JObj demo_rules)) ''o'' ''send'' demo_payload demo_features = Inr fs"
    "map pf_tier fs = [Red, Orange, Yellow]"
    by (cases "evaluate_packs (demo_packs_db (JObj demo_rules)) ''o'' ''send'' demo_payload demo_features") auto
  with evaluate_packs_exact [OF this(1), of Green] show ?thesis by (intro exI [of _ fs] conjI) simp_all
qed

text \<open>Evaluating the packs raises exactly when a rule of an enabled pack carries a list or an
  object as its tier: every other malformed rule is skipped, as is a rule whose matching raises.\<close>

theorem evaluate_packs_raises_iff:
  "(\<exists>e. evaluate_packs db org_id action payload f = Inl e) \<longleftrightarrow>
     (\<exists>p enf r. (p, enf) \<in> set (active_packs_for_org db org_id) \<and> JObj r \<in> set (pack_rules p) \<and>
        ((\<exists>xs. dget_def r ''tier'' (JStr ''yellow'') = JList xs) \<or>
         (\<exists>d. dget_def r ''tier'' (JStr ''yellow'') = JObj d)))"
proof -
  have tm: "tier_member v = Inl TypeError \<longleftrightarrow> (\<exists>xs. v = JList xs) \<or> (\<exists>d. v = JObj d)" for v
    by (cases v) auto
  show ?thesis unfolding evaluate_packs_Inl tm ..
qed

end
