(* ===== verification/PayloadStore.thy ===== *)
theory PayloadStore
  imports Models
begin

text \<open>
  \<^verbatim>\<open>app/services/payload_store.py\<close>: content encrypted under a fresh key per record, the key kept
  in its own table (as it is, or wrapped to the organization's public key), and crypto-shredding.
  The invariant \<open>vault_ok\<close> says that rows are unique and that a key row belongs to a payload that
  has not been erased.
\<close>

definition NONCE_BYTES :: nat where "NONCE_BYTES = 12"
definition KEY_BYTES :: nat where "KEY_BYTES = 32"

definition aad :: "string \<Rightarrow> string \<Rightarrow> string \<Rightarrow> bytes" where
  "aad enc_alg org_id payload_hash =
     canonical_bytes
       [(''alg'', JStr enc_alg), (''org_id'', JStr org_id), (''payload_hash'', JStr payload_hash)]"

text \<open>The key and the nonce are two draws from the random generator.\<close>

definition draw_bytes :: "env \<Rightarrow> nat \<Rightarrow> db \<Rightarrow> bytes \<times> db" where
  "draw_bytes E n db = (urandom E (draws db) n, db\<lparr>draws := Suc (draws db)\<rparr>)"

definition encrypt_content :: "env \<Rightarrow> dict \<Rightarrow> bytes \<Rightarrow> db \<Rightarrow> (string \<times> string) \<times> db" where
  "encrypt_content E content ad db =
     (let (key, db) = draw_bytes E KEY_BYTES db;
          (nonce, db) = draw_bytes E NONCE_BYTES db;
          ciphertext = aes_encrypt E key nonce (dumps '', '' '': '' (JObj content)) ad
      in ((b64encode (nonce @ ciphertext), b64encode key), db))"

definition decrypt_content :: "env \<Rightarrow> string \<Rightarrow> string \<Rightarrow> bytes \<Rightarrow> json res" where
  "decrypt_content E encrypted_blob_b64 key_b64 ad =
     bind_res (res_of_option ValueError (b64decode key_b64)) (\<lambda>key.
     bind_res (res_of_option ValueError (b64decode encrypted_blob_b64)) (\<lambda>blob.
     case aes_decrypt E key (take NONCE_BYTES blob) (drop NONCE_BYTES blob) ad of
       None \<Rightarrow> Inl PayloadShreddedError
     | Some plaintext \<Rightarrow> res_of_option ValueError (loads plaintext)))"

definition is_payload :: "string \<Rightarrow> string \<Rightarrow> payload \<Rightarrow> bool" where
  "is_payload org_id payload_hash p \<longleftrightarrow> p_org_id p = org_id \<and> p_payload_hash p = payload_hash"

definition is_payload_key :: "string \<Rightarrow> string \<Rightarrow> payload_key \<Rightarrow> bool" where
  "is_payload_key org_id payload_hash k \<longleftrightarrow> pk_org_id k = org_id \<and> pk_payload_hash k = payload_hash"

definition get_payload :: "db \<Rightarrow> string \<Rightarrow> string \<Rightarrow> payload option" where
  "get_payload db org_id payload_hash = one_or_none (is_payload org_id payload_hash) (payloads db)"

definition get_payload_key :: "db \<Rightarrow> string \<Rightarrow> string \<Rightarrow> payload_key option" where
  "get_payload_key db org_id payload_hash =
     one_or_none (is_payload_key org_id payload_hash) (payload_keys db)"

definition get_org_by_id :: "db \<Rightarrow> string \<Rightarrow> org option" where
  "get_org_by_id db org_id = one_or_none (\<lambda>g. o_id g = org_id) (orgs db)"

text \<open>Customer-key mode is on when the organization says so and has a (non-empty) public key.\<close>

definition wrapping_pem :: "db \<Rightarrow> string \<Rightarrow> string option" where
  "wrapping_pem db org_id =
     (case get_org_by_id db org_id of
        None \<Rightarrow> None
      | Some g \<Rightarrow>
          if o_confidentiality_mode g = ''customer_key'' \<and> o_wrapping_public_pem g \<noteq> Some []
          then o_wrapping_public_pem g else None)"

definition store_encrypted_payload ::
  "env \<Rightarrow> string \<Rightarrow> string \<Rightarrow> dict \<Rightarrow> string list \<Rightarrow> db \<Rightarrow> db res" where
  "store_encrypted_payload E org_id payload_hash content pii_labels db =
     (case get_payload db org_id payload_hash of
        Some _ \<Rightarrow> Inr db
      | None \<Rightarrow>
          let enc_alg = DEFAULT_CONTENT_ALGORITHM;
              ((encrypted_blob, key_b64), db) =
                encrypt_content E content (aad enc_alg org_id payload_hash) db
          in bind_res
               (case wrapping_pem db org_id of
                  None \<Rightarrow> Inr (key_b64, None)
                | Some pem \<Rightarrow>
                    bind_res (res_of_option ValueError (b64decode key_b64)) (\<lambda>raw_dek.
                    bind_res (wrap_key E pem raw_dek) (\<lambda>wrapped.
                    Inr (b64encode wrapped, Some DEFAULT_WRAP_ALGORITHM))))
               (\<lambda>(key_b64, wrap_alg).
                Inr (db\<lparr>payloads := payloads db @
                          [\<lparr>p_org_id = org_id, p_payload_hash = payload_hash,
                            p_encrypted_blob = encrypted_blob, p_enc_alg = enc_alg,
                            p_pii_labels = pii_labels, p_erased_at = None, p_created_at = now E\<rparr>],
                        payload_keys := payload_keys db @
                          [\<lparr>pk_org_id = org_id, pk_payload_hash = payload_hash,
                            pk_key_b64 = key_b64, pk_wrap_alg = wrap_alg\<rparr>]\<rparr>)))"

definition read_payload_content :: "env \<Rightarrow> db \<Rightarrow> string \<Rightarrow> string \<Rightarrow> json option res" where
  "read_payload_content E db org_id payload_hash =
     (case get_payload db org_id payload_hash of
        None \<Rightarrow> Inr None
      | Some p \<Rightarrow>
          if p_erased_at p \<noteq> None then Inr None
          else if \<not> is_supported_content (Some (p_enc_alg p)) then Inr None
          else case get_payload_key db org_id payload_hash of
                 None \<Rightarrow> Inr None
               | Some k \<Rightarrow>
                   if pk_wrap_alg k \<noteq> None then Inr None
                   else case decrypt_content E (p_encrypted_blob p) (pk_key_b64 k)
                               (aad (p_enc_alg p) org_id payload_hash) of
                          Inr v \<Rightarrow> Inr (Some v)
                        | Inl e \<Rightarrow> if e = PayloadShreddedError then Inr None else Inl e)"

definition crypto_shred_payload :: "env \<Rightarrow> string \<Rightarrow> string \<Rightarrow> db \<Rightarrow> bool \<times> db" where
  "crypto_shred_payload E org_id payload_hash db =
     (case get_payload_key db org_id payload_hash of
        None \<Rightarrow> (False, db)
      | Some _ \<Rightarrow>
          (True,
           db\<lparr>payload_keys := filter (\<lambda>k. \<not> is_payload_key org_id payload_hash k) (payload_keys db),
              payloads :=
                update_where (\<lambda>p. is_payload org_id payload_hash p \<and> p_erased_at p = None)
                  (\<lambda>p. p\<lparr>p_erased_at := Some (truncate_second (now E))\<rparr>) (payloads db)\<rparr>))"

section \<open>The invariant\<close>

definition payload_id :: "payload \<Rightarrow> string \<times> string" where
  "payload_id p = (p_org_id p, p_payload_hash p)"

definition key_id_of :: "payload_key \<Rightarrow> string \<times> string" where
  "key_id_of k = (pk_org_id k, pk_payload_hash k)"

definition vault_ok :: "db \<Rightarrow> bool" where
  "vault_ok db \<longleftrightarrow>
     distinct (map payload_id (payloads db)) \<and> distinct (map key_id_of (payload_keys db)) \<and>
     (\<forall>k \<in> set (payload_keys db). \<exists>p \<in> set (payloads db).
        payload_id p = key_id_of k \<and> p_erased_at p = None)"

definition erased :: "db \<Rightarrow> string \<Rightarrow> string \<Rightarrow> bool" where
  "erased db org_id payload_hash \<longleftrightarrow>
     (\<exists>p. get_payload db org_id payload_hash = Some p \<and> p_erased_at p \<noteq> None)"

section \<open>Lemmas\<close>

text \<open>\<^verbatim>\<open>os.urandom(n)\<close> and \<^verbatim>\<open>AESGCM.generate_key\<close> return as many bytes as asked.\<close>

definition urandom_ok :: "env \<Rightarrow> bool" where
  "urandom_ok E \<longleftrightarrow> (\<forall>d n. length (urandom E d n) = n)"

lemma demo_urandom_ok: "urandom_ok demo_env"
  by (simp add: urandom_ok_def demo_env_def)

lemma encrypt_content_db:
  "snd (encrypt_content E c ad db) = db\<lparr>draws := Suc (Suc (draws db))\<rparr>"
  by (simp add: encrypt_content_def draw_bytes_def)

lemma encrypt_content_key:
  "\<exists>key. snd (fst (encrypt_content E c ad db)) = b64encode key"
  by (auto simp: encrypt_content_def draw_bytes_def)

lemma decrypt_encrypt:
  assumes "aead_ok E" "urandom_ok E" "jplain (JObj c)"
  shows "decrypt_content E (fst (fst (encrypt_content E c ad db)))
    (snd (fst (encrypt_content E c ad db))) ad = Inr (JObj c)"
proof -
  have "loads (dumps '', '' '': '' (JObj c)) = Some (JObj c)"
    using assms(3) by (rule loads_dumps) (simp add: seps_def)
  then show ?thesis using assms(1,2)
    by (simp add: decrypt_content_def encrypt_content_def draw_bytes_def aead_ok_def urandom_ok_def)
qed

lemma get_org_draws [simp]: "get_org_by_id (db\<lparr>draws := n\<rparr>) = get_org_by_id db"
  by (simp add: get_org_by_id_def fun_eq_iff)

lemma wrapping_pem_draws [simp]: "wrapping_pem (db\<lparr>draws := n\<rparr>) = wrapping_pem db"
  by (simp add: wrapping_pem_def fun_eq_iff)

lemma is_payload_id: "is_payload o' h p \<longleftrightarrow> payload_id p = (o', h)"
  by (simp add: is_payload_def payload_id_def)

lemma is_payload_key_id: "is_payload_key o' h k \<longleftrightarrow> key_id_of k = (o', h)"
  by (simp add: is_payload_key_def key_id_of_def)

text \<open>What storing a new record does: one payload row and one key row are added, the key wrapped
  exactly for an organization in customer-key mode.\<close>

lemma store_new:
  assumes "get_payload db org_id h = None"
    and "store_encrypted_payload E org_id h c labels db = Inr db'"
  obtains p k where
    "db' = db\<lparr>draws := Suc (Suc (draws db)), payloads := payloads db @ [p],
              payload_keys := payload_keys db @ [k]\<rparr>"
    "payload_id p = (org_id, h)" "key_id_of k = (org_id, h)" "p_erased_at p = None"
    "p_enc_alg p = DEFAULT_CONTENT_ALGORITHM"
    "p_encrypted_blob p = fst (fst (encrypt_content E c (aad DEFAULT_CONTENT_ALGORITHM org_id h) db))"
    "pk_wrap_alg k = (if wrapping_pem db org_id = None then None else Some DEFAULT_WRAP_ALGORITHM)"
    "wrapping_pem db org_id = None \<Longrightarrow>
       pk_key_b64 k = snd (fst (encrypt_content E c (aad DEFAULT_CONTENT_ALGORITHM org_id h) db))"
    "\<And>pem. wrapping_pem db org_id = Some pem \<Longrightarrow> \<exists>dek w. wrap_key E pem dek = Inr w \<and>
       pk_key_b64 k = b64encode w \<and>
       b64encode dek = snd (fst (encrypt_content E c (aad DEFAULT_CONTENT_ALGORITHM org_id h) db))"
proof -
  let ?e = "encrypt_content E c (aad DEFAULT_CONTENT_ALGORITHM org_id h) db"
  obtain b kb where e: "?e = ((b, kb), db\<lparr>draws := Suc (Suc (draws db))\<rparr>)"
    using encrypt_content_db by (metis prod.collapse)
  obtain dek where kb: "kb = b64encode dek"
    using encrypt_content_key [of E c "aad DEFAULT_CONTENT_ALGORITHM org_id h" db] e by auto
  show thesis
    using assms e kb
    by (auto simp: store_encrypted_payload_def Let_def bind_res_eq_Inr payload_id_def key_id_of_def
        split: option.splits intro!: that) blast
qed

lemma store_total:
  assumes "get_payload db org_id h = None"
    and "\<And>pem. wrapping_pem db org_id = Some pem \<Longrightarrow> load_pem_public E pem = Some RsaKey"
  shows "\<exists>db'. store_encrypted_payload E org_id h c labels db = Inr db'"
proof -
  obtain b kb where "encrypt_content E c (aad DEFAULT_CONTENT_ALGORITHM org_id h) db =
      ((b, b64encode kb), db\<lparr>draws := Suc (Suc (draws db))\<rparr>)"
    by (simp add: encrypt_content_def draw_bytes_def)
  then show ?thesis using assms
    by (cases "wrapping_pem db org_id") (auto simp: store_encrypted_payload_def wrap_key_def)
qed

lemma get_payload_append:
  "payloads db' = payloads db @ [p] \<Longrightarrow> get_payload db' o' h =
    (case get_payload db o' h of None \<Rightarrow> if payload_id p = (o', h) then Some p else None | Some q \<Rightarrow> Some q)"
  by (simp add: get_payload_def one_or_none_append is_payload_id split: option.split)

lemma get_payload_key_append:
  "payload_keys db' = payload_keys db @ [k] \<Longrightarrow> get_payload_key db' o' h =
    (case get_payload_key db o' h of None \<Rightarrow> if key_id_of k = (o', h) then Some k else None | Some q \<Rightarrow> Some q)"
  by (simp add: get_payload_key_def one_or_none_append is_payload_key_id split: option.split)

lemma vault_no_key:
  assumes "vault_ok db" "get_payload db o' h = None"
  shows "get_payload_key db o' h = None"
  using assms
  by (force simp: vault_ok_def get_payload_def get_payload_key_def one_or_none_None is_payload_id
      is_payload_key_id)

lemma vault_erased_no_key:
  assumes "vault_ok db" "erased db o' h"
  shows "get_payload_key db o' h = None"
proof (rule ccontr)
  assume "get_payload_key db o' h \<noteq> None"
  then obtain k where k: "k \<in> set (payload_keys db)" "key_id_of k = (o', h)"
    by (auto simp: get_payload_key_def is_payload_key_id dest: one_or_none_Some)
  obtain p where p: "p \<in> set (payloads db)" "payload_id p = (o', h)" "p_erased_at p \<noteq> None"
    using assms(2) by (auto simp: erased_def get_payload_def is_payload_id dest: one_or_none_Some)
  obtain q where "q \<in> set (payloads db)" "payload_id q = (o', h)" "p_erased_at q = None"
    using assms(1) k by (fastforce simp: vault_ok_def)
  moreover have "inj_on payload_id (set (payloads db))"
    using assms(1) by (simp add: vault_ok_def distinct_map)
  ultimately show False using p by (metis inj_onD)
qed

lemma vault_ok_draws [simp]: "vault_ok (db\<lparr>draws := n\<rparr>) = vault_ok db"
  by (simp add: vault_ok_def)

lemma store_vault_ok:
  assumes "vault_ok db" "store_encrypted_payload E org_id h c labels db = Inr db'"
  shows "vault_ok db'"
proof (cases "get_payload db org_id h")
  case None
  then have nk: "get_payload_key db org_id h = None" using assms(1) by (simp add: vault_no_key)
  from None assms(2) obtain p k where db': "payloads db' = payloads db @ [p]"
    "payload_keys db' = payload_keys db @ [k]" "payload_id p = (org_id, h)"
    "key_id_of k = (org_id, h)" "p_erased_at p = None"
    by (elim store_new) auto
  have "(org_id, h) \<notin> payload_id ` set (payloads db)" "(org_id, h) \<notin> key_id_of ` set (payload_keys db)"
    using None nk
    by (auto simp: get_payload_def get_payload_key_def one_or_none_None is_payload_id is_payload_key_id)
  then show ?thesis using assms(1) db' by (auto simp: vault_ok_def)
qed (use assms in \<open>auto simp: store_encrypted_payload_def\<close>)

lemma shred_True:
  assumes "crypto_shred_payload E org_id h db = (True, db')"
  shows "db' = db\<lparr>payload_keys := filter (\<lambda>k. key_id_of k \<noteq> (org_id, h)) (payload_keys db),
    payloads := update_where (\<lambda>p. payload_id p = (org_id, h) \<and> p_erased_at p = None)
      (\<lambda>p. p\<lparr>p_erased_at := Some (truncate_second (now E))\<rparr>) (payloads db)\<rparr>"
  using assms
  by (auto simp: crypto_shred_payload_def is_payload_key_id is_payload_id split: option.splits)

lemma payload_id_erase [simp]: "payload_id (p\<lparr>p_erased_at := x\<rparr>) = payload_id p"
  by (simp add: payload_id_def)

lemma get_payload_shred:
  assumes "crypto_shred_payload E org_id h db = (True, db')"
  shows "get_payload db' o' h' = map_option
    (\<lambda>p. if (o', h') = (org_id, h) \<and> p_erased_at p = None
         then p\<lparr>p_erased_at := Some (truncate_second (now E))\<rparr> else p) (get_payload db o' h')"
proof -
  have "get_payload db' o' h' = map_option
    (\<lambda>p. if payload_id p = (org_id, h) \<and> p_erased_at p = None
         then p\<lparr>p_erased_at := Some (truncate_second (now E))\<rparr> else p) (get_payload db o' h')"
    by (simp add: shred_True [OF assms] get_payload_def is_payload_id one_or_none_update_where)
  then show ?thesis
    by (cases "get_payload db o' h'") (auto simp: get_payload_def is_payload_id dest!: one_or_none_Some)
qed

lemma shred_vault_ok:
  assumes "vault_ok db" "crypto_shred_payload E org_id h db = (b, db')"
  shows "vault_ok db'"
proof (cases b)
  case True
  then have eq: "crypto_shred_payload E org_id h db = (True, db')" using assms(2) by simp
  have "\<exists>p \<in> set (payloads db'). payload_id p = key_id_of k \<and> p_erased_at p = None"
    if k: "k \<in> set (payload_keys db')" for k
  proof -
    have "k \<in> set (payload_keys db)" "key_id_of k \<noteq> (org_id, h)"
      using k by (auto simp: shred_True [OF eq])
    then obtain p where "p \<in> set (payloads db)" "payload_id p = key_id_of k" "p_erased_at p = None"
      using assms(1) by (auto simp: vault_ok_def)
    with \<open>key_id_of k \<noteq> (org_id, h)\<close> show ?thesis
      by (auto simp: shred_True [OF eq] set_update_where intro!: bexI [of _ p])
  qed
  then show ?thesis using assms(1)
    by (auto simp: vault_ok_def shred_True [OF eq] map_update_where distinct_map_filter)
qed (use assms in \<open>auto simp: crypto_shred_payload_def split: option.splits\<close>)

lemma read_erased: "erased db o' h \<Longrightarrow> read_payload_content E db o' h = Inr None"
  by (auto simp: erased_def read_payload_content_def)

lemma erased_store:
  assumes "erased db o' h'" "store_encrypted_payload E org_id h c labels db = Inr db'"
  shows "erased db' o' h'"
proof (cases "get_payload db org_id h")
  case None
  then show ?thesis using assms
    by (elim store_new) (auto simp: erased_def get_payload_append)
qed (use assms in \<open>auto simp: store_encrypted_payload_def\<close>)

lemma erased_shred:
  assumes "erased db o' h'" "crypto_shred_payload E org_id h db = (b, db')"
  shows "erased db' o' h'"
proof (cases b)
  case True
  then have "crypto_shred_payload E org_id h db = (True, db')" using assms(2) by simp
  from get_payload_shred [OF this, of o' h']
  have "get_payload db' o' h' = get_payload db o' h'" if "get_payload db o' h' = Some p" "p_erased_at p \<noteq> None" for p
    using that by simp
  with assms(1) show ?thesis by (auto simp: erased_def)
qed (use assms in \<open>auto simp: crypto_shred_payload_def split: option.splits\<close>)

lemma shred_erases:
  assumes "vault_ok db" "crypto_shred_payload E org_id h db = (True, db')"
  shows "erased db' org_id h"
proof -
  obtain k where "k \<in> set (payload_keys db)" "key_id_of k = (org_id, h)"
    using assms(2) by (auto simp: crypto_shred_payload_def get_payload_key_def is_payload_key_id
        split: option.splits dest: one_or_none_Some)
  then obtain p where "p \<in> set (payloads db)" "payload_id p = (org_id, h)"
    using assms(1) by (force simp: vault_ok_def)
  then obtain q where "get_payload db org_id h = Some q"
    by (cases "get_payload db org_id h") (auto simp: get_payload_def one_or_none_None is_payload_id)
  then show ?thesis using get_payload_shred [OF assms(2), of org_id h]
    by (auto simp: erased_def split: if_splits)
qed

section \<open>The store as a service\<close>

datatype vault_op =
    Store string string dict "string list"
  | Shred string string

fun vault_step :: "env \<Rightarrow> vault_op \<Rightarrow> db \<Rightarrow> (bool \<times> db) res" where
  "vault_step E (Store org_id h c labels) db =
     bind_res (store_encrypted_payload E org_id h c labels db) (\<lambda>db'. Inr (True, db'))"
| "vault_step E (Shred org_id h) db = Inr (crypto_shred_payload E org_id h db)"

interpretation vault: permanent "vault_step E" vault_ok "\<lambda>db. erased db o' h'" for E o' h'
proof
  fix s op r s'
  assume "vault_ok s" "vault_step E op s = Inr (r, s')"
  then show "vault_ok s'" by (cases op) (auto simp: bind_res_eq_Inr intro: store_vault_ok shred_vault_ok)
next
  fix s op r s'
  assume "vault_ok s" "erased s o' h'" "vault_step E op s = Inr (r, s')"
  then show "erased s' o' h'" by (cases op) (auto simp: bind_res_eq_Inr intro: erased_store erased_shred)
qed

section \<open>Properties\<close>

definition demo_org :: "string \<Rightarrow> string option \<Rightarrow> org" where
  "demo_org mode pem =
     \<lparr>o_id = ''o'', o_name = ''n'', o_api_key_hash = ''k'', o_region = ''uae'',
      o_retention_days_payload = 365, o_fail_mode = ''deny_on_error'',
      o_confidentiality_mode = mode, o_wrapping_public_pem = pem, o_requires_profile = False,
      o_created_at = 0\<rparr>"

lemma vault_ok_no_rows [simp]: "payloads db = [] \<Longrightarrow> payload_keys db = [] \<Longrightarrow> vault_ok db"
  by (simp add: vault_ok_def)

text \<open>Storing content under a hash not seen before, for an organization that is not in
  customer-key mode, succeeds and makes exactly that content readable under it; every other record
  reads as before, and the invariant of the store is kept.\<close>

theorem store_then_read:
  assumes "aead_ok E" "urandom_ok E" "jplain (JObj c)" "vault_ok db"
    and "get_payload db org_id h = None" "wrapping_pem db org_id = None"
  shows "\<exists>db'. store_encrypted_payload E org_id h c labels db = Inr db' \<and> vault_ok db' \<and>
    read_payload_content E db' org_id h = Inr (Some (JObj c)) \<and>
    (\<forall>o' h'. (o', h') \<noteq> (org_id, h) \<longrightarrow>
       read_payload_content E db' o' h' = read_payload_content E db o' h')"
proof -
  obtain db' where store: "store_encrypted_payload E org_id h c labels db = Inr db'"
    using store_total [OF assms(5)] assms(6) by fastforce
  obtain p k where new: "payloads db' = payloads db @ [p]" "payload_keys db' = payload_keys db @ [k]"
    "payload_id p = (org_id, h)" "key_id_of k = (org_id, h)" "p_erased_at p = None"
    "p_enc_alg p = DEFAULT_CONTENT_ALGORITHM" "pk_wrap_alg k = None"
    "p_encrypted_blob p = fst (fst (encrypt_content E c (aad DEFAULT_CONTENT_ALGORITHM org_id h) db))"
    "pk_key_b64 k = snd (fst (encrypt_content E c (aad DEFAULT_CONTENT_ALGORITHM org_id h) db))"
    using assms(6) by (rule_tac store_new [OF assms(5) store]) auto
  have "read_payload_content E db' org_id h = Inr (Some (JObj c))"
    using assms(5) vault_no_key [OF assms(4,5)] new decrypt_encrypt [OF assms(1-3)]
    by (simp add: read_payload_content_def get_payload_append [OF new(1)]
        get_payload_key_append [OF new(2)] is_supported_content_def DEFAULT_CONTENT_ALGORITHM_def)
  moreover have "read_payload_content E db' o' h' = read_payload_content E db o' h'"
    if "(o', h') \<noteq> (org_id, h)" for o' h'
  proof -
    have same: "get_payload db' o' h' = get_payload db o' h'"
      "get_payload_key db' o' h' = get_payload_key db o' h'"
      using that new(3,4)
      by (auto simp: get_payload_append [OF new(1)] get_payload_key_append [OF new(2)] split: option.splits)
    show ?thesis unfolding read_payload_content_def same ..
  qed
  ultimately show ?thesis using store store_vault_ok [OF assms(4) store] by blast
qed

theorem store_then_read_witness:
  "\<exists>db'. store_encrypted_payload demo_env ''o'' ''h'' [(''a'', JInt 1)] [] empty_db = Inr db' \<and>
    vault_ok db' \<and> read_payload_content demo_env db' ''o'' ''h'' = Inr (Some (JObj [(''a'', JInt 1)])) \<and>
    (\<forall>o' h'. (o', h') \<noteq> (''o'', ''h'') \<longrightarrow>
       read_payload_content demo_env db' o' h' = read_payload_content demo_env empty_db o' h')"
  by (rule store_then_read)
    (simp_all add: demo_env_ok demo_urandom_ok empty_db_def get_payload_def wrapping_pem_def
      get_org_by_id_def)

text \<open>Customer-key mode is dark at rest: after storing, the service's own read returns nothing,
  while the holder of the organization's private key unwraps the stored key and decrypts the stored
  blob to exactly the content.\<close>

theorem customer_key_dark_at_rest:
  assumes "aead_ok E" "urandom_ok E" "jplain (JObj c)" "vault_ok db"
    and "get_payload db org_id h = None" "wrapping_pem db org_id = Some pem" "rsa_pair E priv pem"
  shows "\<exists>db' p k w dek. store_encrypted_payload E org_id h c labels db = Inr db' \<and>
    read_payload_content E db' org_id h = Inr None \<and>
    get_payload db' org_id h = Some p \<and> get_payload_key db' org_id h = Some k \<and>
    b64decode (pk_key_b64 k) = Some w \<and> unwrap_key E priv w = Inr dek \<and>
    decrypt_content E (p_encrypted_blob p) (b64encode dek) (aad (p_enc_alg p) org_id h) = Inr (JObj c)"
proof -
  let ?e = "encrypt_content E c (aad DEFAULT_CONTENT_ALGORITHM org_id h) db"
  obtain db' where store: "store_encrypted_payload E org_id h c labels db = Inr db'"
    using store_total [OF assms(5)] assms(6,7) by (fastforce simp: rsa_pair_def)
  obtain p k dek w where new: "payloads db' = payloads db @ [p]" "payload_keys db' = payload_keys db @ [k]"
    "payload_id p = (org_id, h)" "key_id_of k = (org_id, h)" "p_erased_at p = None"
    "p_enc_alg p = DEFAULT_CONTENT_ALGORITHM" "pk_wrap_alg k \<noteq> None"
    "p_encrypted_blob p = fst (fst ?e)"
    and w: "wrap_key E pem dek = Inr w" "pk_key_b64 k = b64encode w" "b64encode dek = snd (fst ?e)"
    using assms(6) by (rule_tac store_new [OF assms(5) store]) auto
  have get: "get_payload db' org_id h = Some p" "get_payload_key db' org_id h = Some k"
    using assms(5) vault_no_key [OF assms(4,5)] new
    by (simp_all add: get_payload_append [OF new(1)] get_payload_key_append [OF new(2)])
  have "read_payload_content E db' org_id h = Inr None"
    using get new by (simp add: read_payload_content_def)
  moreover have "unwrap_key E priv w = Inr dek" using assms(7) w(1) by (rule unwrap_wrap)
  ultimately show ?thesis
    using store get w decrypt_encrypt [OF assms(1-3)] new(6,8)
    by (intro exI [of _ db'] exI [of _ p] exI [of _ k] exI [of _ w] exI [of _ dek]) simp
qed

theorem customer_key_dark_at_rest_witness:
  "\<exists>db' p k w dek.
    store_encrypted_payload demo_env ''o'' ''h'' [(''a'', JInt 1)] []
      (empty_db\<lparr>orgs := [demo_org ''customer_key'' (Some ''R1'')]\<rparr>) = Inr db' \<and>
    read_payload_content demo_env db' ''o'' ''h'' = Inr None \<and>
    get_payload db' ''o'' ''h'' = Some p \<and> get_payload_key db' ''o'' ''h'' = Some k \<and>
    b64decode (pk_key_b64 k) = Some w \<and> unwrap_key demo_env ''R1'' w = Inr dek \<and>
    decrypt_content demo_env (p_encrypted_blob p) (b64encode dek) (aad (p_enc_alg p) ''o'' ''h'') =
      Inr (JObj [(''a'', JInt 1)])"
  by (rule customer_key_dark_at_rest [where pem = "''R1''"])
    (simp_all add: demo_env_ok demo_urandom_ok empty_db_def get_payload_def wrapping_pem_def
      get_org_by_id_def demo_org_def)

text \<open>C18. Crypto-shredding is permanent: once the key of a record has been shredded, no sequence of
  stores and shreds (of this or of any other record, even of the same content again) makes the
  record readable, and no key for it comes back.\<close>

theorem shred_is_permanent:
  assumes "vault_ok db" "crypto_shred_payload E org_id h db = (True, db')"
  shows "read_payload_content E (serve (vault_step E) db' ops) org_id h = Inr None \<and>
    get_payload_key (serve (vault_step E) db' ops) org_id h = None"
proof -
  have ok: "vault_ok db'" using assms by (rule shred_vault_ok)
  have "erased (serve (vault_step E) db' ops) org_id h"
    by (rule vault.serve_reached [OF ok shred_erases [OF assms]])
  moreover have "vault_ok (serve (vault_step E) db' ops)" using ok by (rule vault.serve_inv)
  ultimately show ?thesis by (simp add: read_erased vault_erased_no_key)
qed

theorem shred_is_permanent_witness:
  "\<exists>db db'. store_encrypted_payload demo_env ''o'' ''h'' [(''a'', JInt 1)] [] empty_db = Inr db \<and>
     crypto_shred_payload demo_env ''o'' ''h'' db = (True, db') \<and>
     read_payload_content demo_env (serve (vault_step demo_env) db' [Store ''o'' ''h'' [(''a'', JInt 1)] []])
       ''o'' ''h'' = Inr None"
proof -
  obtain db where s: "store_encrypted_payload demo_env ''o'' ''h'' [(''a'', JInt 1)] [] empty_db = Inr db"
    by (simp add: store_encrypted_payload_def get_payload_def empty_db_def Let_def encrypt_content_def
        draw_bytes_def wrapping_pem_def get_org_by_id_def)
  have ok: "vault_ok empty_db" by (simp add: empty_db_def)
  have "get_payload empty_db ''o'' ''h'' = None" by (simp add: get_payload_def empty_db_def)
  from this s obtain k where "payload_keys db = payload_keys empty_db @ [k]" "key_id_of k = (''o'', ''h'')"
    by (elim store_new) auto
  then have "fst (crypto_shred_payload demo_env ''o'' ''h'' db)"
    by (simp add: crypto_shred_payload_def get_payload_key_def empty_db_def is_payload_key_id)
  then obtain db' where "crypto_shred_payload demo_env ''o'' ''h'' db = (True, db')"
    by (cases "crypto_shred_payload demo_env ''o'' ''h'' db") auto
  with s shred_is_permanent [OF store_vault_ok [OF ok s]] show ?thesis by blast
qed

end
