(* ===== verification/EventLog.thy ===== *)
theory EventLog
  imports PayloadStore "HOL-Library.Multiset"
begin

text \<open>
  The append-only event log: \<^verbatim>\<open>app/repositories/{traces,events}.py\<close>,
  \<^verbatim>\<open>app/services/{trace_access,envelope,org_signing,events,verification,replay,erasure}.py\<close>.
  Recording appends a signed event to the hash chain of its trace; replay verifies a chain from
  the stored rows.  The invariant \<open>log_ok\<close> says that every stored trace is a chain numbered from 1
  that verifies.
\<close>

section \<open>repositories/traces.py\<close>

definition get_trace_by_id :: "db \<Rightarrow> string \<Rightarrow> trace option" where
  "get_trace_by_id db trace_id = one_or_none (\<lambda>t. t_id t = trace_id) (traces db)"

definition get_trace_for_org :: "db \<Rightarrow> string \<Rightarrow> string \<Rightarrow> trace option" where
  "get_trace_for_org db org_id trace_id =
     one_or_none (\<lambda>t. t_org_id t = org_id \<and> t_id t = trace_id) (traces db)"

definition list_traces_for_org :: "db \<Rightarrow> string \<Rightarrow> nat \<Rightarrow> nat \<Rightarrow> trace list" where
  "list_traces_for_org db org_id limit offset =
     take limit (drop offset (order_desc t_created_at (filter (\<lambda>t. t_org_id t = org_id) (traces db))))"

definition of_trace :: "string \<Rightarrow> string \<Rightarrow> event \<Rightarrow> bool" where
  "of_trace org_id trace_id e \<longleftrightarrow> e_org_id e = org_id \<and> e_trace_id e = trace_id"

definition event_count_for_trace :: "db \<Rightarrow> string \<Rightarrow> string \<Rightarrow> nat" where
  "event_count_for_trace db org_id trace_id = length (filter (of_trace org_id trace_id) (events db))"

section \<open>trace\_access.py\<close>

definition ensure_trace_access :: "db \<Rightarrow> string \<Rightarrow> string \<Rightarrow> unit res" where
  "ensure_trace_access db org_id trace_id =
     (case get_trace_by_id db trace_id of
        None \<Rightarrow> Inl TraceNotFoundError
      | Some t \<Rightarrow> if t_org_id t \<noteq> org_id then Inl TraceAccessDeniedError else Inr ())"

section \<open>repositories/events.py\<close>

definition get_or_create_trace ::
  "env \<Rightarrow> string \<Rightarrow> string \<Rightarrow> string option \<Rightarrow> db \<Rightarrow> (trace \<times> db) res" where
  "get_or_create_trace E org_id trace_id policy_version db =
     (case get_trace_by_id db trace_id of
        Some t \<Rightarrow> if t_org_id t \<noteq> org_id then Inl TraceAccessDeniedError else Inr (t, db)
      | None \<Rightarrow>
          let t = \<lparr>t_id = trace_id, t_org_id = org_id, t_policy_version = policy_version,
                   t_root_hash = None, t_created_at = now E\<rparr>
          in Inr (t, db\<lparr>traces := traces db @ [t]\<rparr>))"

definition last_event_for_trace :: "db \<Rightarrow> string \<Rightarrow> string \<Rightarrow> event option" where
  "last_event_for_trace db org_id trace_id =
     first (order_desc e_seq (filter (of_trace org_id trace_id) (events db)))"

definition events_for_trace :: "db \<Rightarrow> string \<Rightarrow> string \<Rightarrow> event list" where
  "events_for_trace db org_id trace_id =
     order_asc e_seq (filter (of_trace org_id trace_id) (events db))"

text \<open>The column of the sequence number is a 32-bit integer, and the pair of trace and sequence number
  is unique: both are checked when the row is flushed.\<close>

definition insert_event ::
  "env \<Rightarrow> string \<Rightarrow> string \<Rightarrow> int \<Rightarrow> string \<Rightarrow> string \<Rightarrow> dict \<Rightarrow> string option \<Rightarrow> string \<Rightarrow> string \<Rightarrow>
   string option \<Rightarrow> string \<Rightarrow> int \<Rightarrow> string option \<Rightarrow> db \<Rightarrow> (event \<times> db) res" where
  "insert_event E org_id trace_id seq event_type payload_hash envelope prev_hash event_hash signature
     policy_version alg created_at signing_key_id db =
     (let (eid, db) = new_uuid E db;
          e = \<lparr>e_id = eid, e_org_id = org_id, e_trace_id = trace_id, e_batch_id = None, e_seq = seq,
               e_type = event_type, e_payload_hash = payload_hash, e_envelope = envelope,
               e_prev_hash = prev_hash, e_hash = event_hash, e_signature = signature, e_alg = alg,
               e_signing_key_id = signing_key_id, e_policy_version = policy_version,
               e_created_at = created_at, e_deferred = False, e_occurred_at = None,
               e_client_device_id = None, e_client_signature = None\<rparr>
      in if seq < - 2147483648 \<or> 2147483647 < seq then Inl DataError
         else if list_ex (\<lambda>x. e_trace_id x = trace_id \<and> e_seq x = seq) (events db)
         then Inl IntegrityError
         else Inr (e, db\<lparr>events := events db @ [e]\<rparr>))"

section \<open>envelope.py\<close>

definition now_utc_iso :: "env \<Rightarrow> string" where
  "now_utc_iso E = isoformat (truncate_second (now E))"

definition jopt_str :: "string option \<Rightarrow> json" where
  "jopt_str x = (case x of None \<Rightarrow> JNull | Some s \<Rightarrow> JStr s)"

definition build_envelope ::
  "string \<Rightarrow> int \<Rightarrow> string \<Rightarrow> string \<Rightarrow> string option \<Rightarrow> string option \<Rightarrow> json \<Rightarrow> json \<Rightarrow> dict" where
  "build_envelope trace_id seq event_type payload_hash prev_hash policy_version created_at alg =
     [(''alg'', alg),
      (''trace_id'', JStr trace_id),
      (''seq'', JInt seq),
      (''type'', JStr event_type),
      (''payload_hash'', JStr payload_hash),
      (''prev_hash'', jopt_str prev_hash),
      (''policy_version'', jopt_str policy_version),
      (''created_at'', created_at)]"

section \<open>org\_signing.py\<close>

definition active_signing_key :: "db \<Rightarrow> string \<Rightarrow> org_signing_key option" where
  "active_signing_key db org_id =
     first (order_desc sk_created_at
       (filter (\<lambda>k. sk_org_id k = org_id \<and> sk_status k = ''active'') (signing_keys db)))"

definition provision_managed_signing_key :: "env \<Rightarrow> string \<Rightarrow> db \<Rightarrow> (org_signing_key \<times> db) res" where
  "provision_managed_signing_key E org_id db =
     (let db = db\<lparr>signing_keys :=
                    update_where (\<lambda>k. sk_org_id k = org_id \<and> sk_status k = ''active'')
                      (\<lambda>k. k\<lparr>sk_status := ''retired''\<rparr>) (signing_keys db)\<rparr>;
          (private_pem, public_pem) = ed_generate E (draws db);
          db = db\<lparr>draws := Suc (draws db)\<rparr>;
          (kid, db) = new_uuid E db;
          key = \<lparr>sk_key_id = kid, sk_org_id = org_id, sk_alg = DEFAULT_ALGORITHM,
                 sk_public_pem = public_pem, sk_private_pem = Some private_pem,
                 sk_status = ''active'', sk_created_at = now E\<rparr>
      in if list_ex (\<lambda>k. sk_key_id k = kid) (signing_keys db) then Inl IntegrityError
         else Inr (key, db\<lparr>signing_keys := signing_keys db @ [key]\<rparr>))"

definition sign_event_for_org ::
  "env \<Rightarrow> db \<Rightarrow> string \<Rightarrow> string \<Rightarrow> (string \<times> string option) res" where
  "sign_event_for_org E db org_id message_hex =
     (let fallback = bind_res (sign_message_hex E message_hex) (\<lambda>s. Inr (s, None)) in
      case active_signing_key db org_id of
        None \<Rightarrow> fallback
      | Some key \<Rightarrow>
          (case sk_private_pem key of
             None \<Rightarrow> fallback
           | Some pem \<Rightarrow>
               if pem = [] then fallback
               else bind_res (sign_hex E pem message_hex) (\<lambda>s. Inr (s, Some (sk_key_id key)))))"

definition public_pem_for_key :: "db \<Rightarrow> string \<Rightarrow> bytes res" where
  "public_pem_for_key db kid =
     (case one_or_none (\<lambda>k. sk_key_id k = kid) (signing_keys db) of
        None \<Rightarrow> Inl LookupError
      | Some k \<Rightarrow> Inr (sk_public_pem k))"

section \<open>events.py\<close>

record event_out =
  eo_hash :: string
  eo_signature :: string
  eo_seq :: int
  eo_prev_hash :: string
  eo_event_id :: string

definition record_event ::
  "env \<Rightarrow> string \<Rightarrow> string \<Rightarrow> int \<Rightarrow> string \<Rightarrow> dict \<Rightarrow> string option \<Rightarrow> db \<Rightarrow> (event_out \<times> db) res" where
  "record_event E org_id trace_id seq event_type payload policy_version db =
     (if event_type = [] \<or> strip event_type = [] then Inl InvalidEventTypeError
      else
      bind_res (get_or_create_trace E org_id trace_id policy_version db) (\<lambda>(_, db).
      let last = last_event_for_trace db org_id trace_id;
          expected_seq = (case last of None \<Rightarrow> 1 | Some l \<Rightarrow> e_seq l + 1)
      in
      if seq \<noteq> expected_seq then Inl EventSequenceError
      else
      let prev_hash = map_option e_hash last;
          created_at = truncate_second (now E);
          created_at_str = now_utc_iso E;
          (redacted_payload, pii_labels) = redact_payload payload;
          payload_hash = sha256_hex E redacted_payload;
          alg = DEFAULT_ALGORITHM;
          envelope = build_envelope trace_id seq event_type payload_hash prev_hash policy_version
                       (JStr created_at_str) (JStr alg);
          event_hash = sha256_hex E envelope
      in
      bind_res (sign_event_for_org E db org_id event_hash) (\<lambda>(signature, signing_key_id).
      bind_res (store_encrypted_payload E org_id payload_hash redacted_payload pii_labels db) (\<lambda>db.
      bind_res (insert_event E org_id trace_id seq event_type payload_hash envelope prev_hash
                  event_hash signature policy_version alg created_at signing_key_id db) (\<lambda>(e, db).
      Inr (\<lparr>eo_hash = event_hash, eo_signature = signature, eo_seq = seq,
            eo_prev_hash = (case prev_hash of None \<Rightarrow> [] | Some h \<Rightarrow> h), eo_event_id = e_id e\<rparr>,
           db))))))"

section \<open>verification.py\<close>

record event_verify_result =
  ev_seq :: int
  ev_type :: string
  ev_verified :: bool
  ev_hash_ok :: bool
  ev_signature_ok :: bool
  ev_chain_ok :: bool

record trace_replay_result =
  tr_trace_id :: string
  tr_all_verified :: bool
  tr_events :: "event_verify_result list"

definition event_alg :: "event \<Rightarrow> json" where
  "event_alg e = py_or (JStr (e_alg e)) (py_or (dget (e_envelope e) ''alg'') (JStr []))"

definition rebuilt_envelope :: "event \<Rightarrow> json \<Rightarrow> dict" where
  "rebuilt_envelope e created_at =
     build_envelope (e_trace_id e) (e_seq e) (e_type e) (e_payload_hash e) (e_prev_hash e)
       (e_policy_version e) created_at (event_alg e)"

text \<open>Membership in the frozen set of algorithms raises on an unhashable value.\<close>

fun supported_alg :: "json \<Rightarrow> bool res" where
  "supported_alg (JStr s) = Inr (is_supported (Some s))"
| "supported_alg (JList _) = Inl TypeError"
| "supported_alg (JObj _) = Inl TypeError"
| "supported_alg _ = Inr False"

definition verify_single_event ::
  "env \<Rightarrow> event \<Rightarrow> bytes \<Rightarrow> string option \<Rightarrow> event_verify_result res" where
  "verify_single_event E e public_pem expected_prev_hash =
     bind_res (res_of_option KeyError (map_of (e_envelope e) ''created_at'')) (\<lambda>created_at.
     let recomputed = sha256_hex E (rebuilt_envelope e created_at);
         hash_ok = (recomputed = e_hash e)
     in
     bind_res (supported_alg (event_alg e)) (\<lambda>sup.
     bind_res (if sup then verify_hex E public_pem (e_hash e) (e_signature e) else Inr False)
       (\<lambda>signature_ok.
     let chain_ok = (e_prev_hash e = expected_prev_hash) in
     Inr \<lparr>ev_seq = e_seq e, ev_type = e_type e,
          ev_verified = (hash_ok \<and> signature_ok \<and> chain_ok),
          ev_hash_ok = hash_ok, ev_signature_ok = signature_ok, ev_chain_ok = chain_ok\<rparr>)))"

text \<open>The loop of \<^verbatim>\<open>verify_event_chain\<close>; the key comes from the resolver when there is one, else it is
  the single public key.\<close>

definition chain_pem :: "bytes option \<Rightarrow> (event \<Rightarrow> bytes res) option \<Rightarrow> event \<Rightarrow> bytes res" where
  "chain_pem public_pem resolve e =
     (case resolve of
        Some f \<Rightarrow> f e
      | None \<Rightarrow> res_of_option ValueError public_pem)"

fun verify_loop ::
  "env \<Rightarrow> (event \<Rightarrow> bytes res) \<Rightarrow> string option \<Rightarrow> event list \<Rightarrow> event_verify_result list res" where
  "verify_loop E pem prev_hash [] = Inr []"
| "verify_loop E pem prev_hash (e # es) =
     bind_res (pem e) (\<lambda>p.
     bind_res (verify_single_event E e p prev_hash) (\<lambda>r.
     bind_res (verify_loop E pem (Some (e_hash e)) es) (\<lambda>rs.
     Inr (r # rs))))"

definition verify_event_chain ::
  "env \<Rightarrow> string \<Rightarrow> event list \<Rightarrow> bytes option \<Rightarrow> (event \<Rightarrow> bytes res) option \<Rightarrow>
   trace_replay_result res" where
  "verify_event_chain E trace_id es public_pem resolve =
     bind_res (verify_loop E (chain_pem public_pem resolve) None es) (\<lambda>rs.
     Inr \<lparr>tr_trace_id = trace_id, tr_all_verified = list_all ev_verified rs, tr_events = rs\<rparr>)"

section \<open>replay.py\<close>

definition resolve_pem :: "db \<Rightarrow> bytes \<Rightarrow> event \<Rightarrow> bytes res" where
  "resolve_pem db global_pem e =
     (case e_signing_key_id e of None \<Rightarrow> Inr global_pem | Some k \<Rightarrow> public_pem_for_key db k)"

definition replay_trace :: "env \<Rightarrow> db \<Rightarrow> string \<Rightarrow> string \<Rightarrow> trace_replay_result res" where
  "replay_trace E db org_id trace_id =
     bind_res (ensure_trace_access db org_id trace_id) (\<lambda>_.
     let es = events_for_trace db org_id trace_id in
     if es = [] then Inl TraceNotFoundError
     else
     bind_res (load_public_pem E) (\<lambda>global_pem.
     verify_event_chain E trace_id es None (Some (resolve_pem db global_pem))))"

section \<open>erasure.py\<close>

record erasure_result =
  er_trace_id :: string
  er_erasure_seq :: int
  er_target_seq :: int
  er_target_payload_hash :: string
  er_hash :: string
  er_signature :: string

text \<open>The tip of the chain cannot move between the two calls inside one request, so the retry after a
  sequence error records at the same place: it is kept as the code has it.\<close>

definition erase_event_payload ::
  "env \<Rightarrow> string \<Rightarrow> string \<Rightarrow> int \<Rightarrow> string \<Rightarrow> string \<Rightarrow> db \<Rightarrow> (erasure_result \<times> db) res" where
  "erase_event_payload E org_id trace_id target_seq approver_id reason db =
     bind_res (ensure_trace_access db org_id trace_id) (\<lambda>_.
     let es = events_for_trace db org_id trace_id in
     bind_res (res_of_option ErasureTargetError (List.find (\<lambda>e. e_seq e = target_seq) es)) (\<lambda>target.
     bind_res (res_of_option ErasureTargetError (get_payload db org_id (e_payload_hash target))) (\<lambda>p.
     if p_erased_at p \<noteq> None then Inl PayloadAlreadyErasedError
     else
     let (shredded, db) = crypto_shred_payload E org_id (e_payload_hash target) db in
     if \<not> shredded then Inl ErasureTargetError
     else
     let next_seq = (if es \<noteq> [] then e_seq (last es) + 1 else 1);
         erasure_payload =
           [(''target_payload_hash'', JStr (e_payload_hash target)),
            (''target_seq'', JInt target_seq),
            (''approver_id'', JStr approver_id),
            (''reason'', JStr reason)];
         result =
           (case record_event E org_id trace_id next_seq ''erasure'' erasure_payload
                   (e_policy_version target) db of
              Inl EventSequenceError \<Rightarrow>
                let es = events_for_trace db org_id trace_id in
                if es = [] then Inl IndexError
                else record_event E org_id trace_id (e_seq (last es) + 1) ''erasure''
                       erasure_payload (e_policy_version target) db
            | r \<Rightarrow> r)
     in
     bind_res result (\<lambda>(out, db).
     Inr (\<lparr>er_trace_id = trace_id, er_erasure_seq = eo_seq out, er_target_seq = target_seq,
           er_target_payload_hash = e_payload_hash target, er_hash = eo_hash out,
           er_signature = eo_signature out\<rparr>, db)))))"

section \<open>The invariant\<close>

definition trace_events :: "db \<Rightarrow> string \<Rightarrow> event list" where
  "trace_events db t = filter (\<lambda>e. e_trace_id e = t) (events db)"

definition event_ok :: "env \<Rightarrow> db \<Rightarrow> event \<Rightarrow> bool" where
  "event_ok E db e \<longleftrightarrow>
     (\<exists>c. e_envelope e =
        build_envelope (e_trace_id e) (e_seq e) (e_type e) (e_payload_hash e) (e_prev_hash e)
          (e_policy_version e) (JStr c) (JStr DEFAULT_ALGORITHM)) \<and>
     e_alg e = DEFAULT_ALGORITHM \<and> e_hash e = sha256_hex E (e_envelope e) \<and>
     (\<exists>g pem. load_public_pem E = Inr g \<and> resolve_pem db g e = Inr pem \<and>
        verify_hex E pem (e_hash e) (e_signature e) = Inr True)"

fun chained :: "string option \<Rightarrow> event list \<Rightarrow> bool" where
  "chained prev [] = True"
| "chained prev (e # es) = (e_prev_hash e = prev \<and> chained (Some (e_hash e)) es)"

definition owned :: "db \<Rightarrow> event \<Rightarrow> bool" where
  "owned db e \<longleftrightarrow> (\<exists>t. get_trace_by_id db (e_trace_id e) = Some t \<and> t_org_id t = e_org_id e)"

definition trace_ok :: "env \<Rightarrow> db \<Rightarrow> string \<Rightarrow> bool" where
  "trace_ok E db t \<longleftrightarrow>
     map e_seq (trace_events db t) = map int [1..<Suc (length (trace_events db t))] \<and>
     chained None (trace_events db t) \<and>
     (\<forall>e \<in> set (trace_events db t). event_ok E db e \<and> owned db e)"

definition keys_ok :: "env \<Rightarrow> db \<Rightarrow> bool" where
  "keys_ok E db \<longleftrightarrow>
     distinct (map sk_key_id (signing_keys db)) \<and>
     (\<forall>k \<in> set (signing_keys db). \<forall>priv. sk_private_pem k = Some priv \<and> priv \<noteq> [] \<longrightarrow>
        ed_pair E priv (sk_public_pem k))"

definition log_ok :: "env \<Rightarrow> db \<Rightarrow> bool" where
  "log_ok E db \<longleftrightarrow> keys_ok E db \<and> (\<forall>t. trace_ok E db t) \<and> vault_ok db"

text \<open>What the deployment promises about its keys: a signature of the service verifies under the
  public key it loads, and generated keys are pairs.\<close>

definition service_key_ok :: "env \<Rightarrow> bool" where
  "service_key_ok E \<longleftrightarrow>
     (\<exists>g. load_public_pem E = Inr g \<and>
        (\<forall>m s. sign_message_hex E m = Inr s \<longrightarrow> verify_hex E g m s = Inr True))"

definition generated_keys_ok :: "env \<Rightarrow> bool" where
  "generated_keys_ok E \<longleftrightarrow> (\<forall>n. ed_pair E (fst (ed_generate E n)) (snd (ed_generate E n)))"

lemma service_key_local:
  assumes "signing_backend_of (the_settings E) = Local"
    and "read_file E (signing_private_key_path (the_settings E)) = Some priv"
    and "read_file E (signing_public_key_path (the_settings E)) = Some pub"
    and "ed_pair E priv pub"
  shows "service_key_ok E"
  using assms verify_sign_hex [OF assms(4)]
  by (auto simp: service_key_ok_def load_public_pem_def sign_message_hex_def get_signing_provider_def
      Let_def bind_res_eq_Inr)

lemma demo_keys_ok: "service_key_ok demo_env" "generated_keys_ok demo_env"
proof -
  show "service_key_ok demo_env"
    by (rule service_key_local [OF _ _ _ demo_env_ok(2)]) (simp_all add: demo_env_def)
  show "generated_keys_ok demo_env"
    by (simp add: generated_keys_ok_def ed_pair_def demo_env_def)
qed

section \<open>Lemmas\<close>

lemma log_ok_empty: "log_ok E empty_db"
  by (simp add: log_ok_def keys_ok_def trace_ok_def trace_events_def vault_ok_def empty_db_def)

lemma chained_append:
  "chained prev (xs @ [e]) \<longleftrightarrow>
     chained prev xs \<and> e_prev_hash e = (if xs = [] then prev else Some (e_hash (last xs)))"
  by (induction xs arbitrary: prev) auto

lemma event_ok_keys:
  assumes "event_ok E db e"
    and "\<And>k pem. public_pem_for_key db k = Inr pem \<Longrightarrow> public_pem_for_key db' k = Inr pem"
  shows "event_ok E db' e"
proof -
  have "resolve_pem db' g e = Inr pem" if "resolve_pem db g e = Inr pem" for g pem
    using that assms(2) by (auto simp: resolve_pem_def split: option.splits)
  with assms(1) show ?thesis unfolding event_ok_def by blast
qed

lemma owned_mono:
  assumes "owned db e" "\<And>t x. get_trace_by_id db t = Some x \<Longrightarrow> get_trace_by_id db' t = Some x"
  shows "owned db' e"
  using assms unfolding owned_def by blast

text \<open>The rows of one trace, seen through the queries, when the trace is intact.\<close>

lemma order_asc_sorted:
  assumes "map k es = map int [1..<Suc n]"
  shows "order_asc k es = es" "order_desc k es = rev es"
proof -
  have "distinct (map k es)" "sorted (map k es)"
    unfolding assms by (simp_all add: distinct_map sorted_map del: upt_Suc)
  then have inj: "inj_on k (set es)" and srt: "sorted (map k es)"
    by (simp_all add: distinct_map)
  show "order_asc k es = es"
    unfolding order_asc_def by (rule sort_key_inj_key_eq [OF refl inj srt])
  have "inj_on (\<lambda>r. - k r) (set es)" using inj by (simp add: inj_on_def)
  moreover have "sorted (map (\<lambda>r. - k r) (rev es))"
    using srt by (simp add: sorted_map sorted_wrt_rev)
  ultimately show "order_desc k es = rev es"
    unfolding order_desc_def by (intro sort_key_inj_key_eq) simp_all
qed

lemma trace_rows:
  assumes "trace_ok E db t" "get_trace_by_id db t = Some tr" "t_org_id tr = org_id"
  shows "filter (of_trace org_id t) (events db) = trace_events db t"
proof -
  have "of_trace org_id t e" if "e \<in> set (trace_events db t)" for e
    using that assms by (auto simp: trace_ok_def owned_def of_trace_def trace_events_def)
  then show ?thesis unfolding trace_events_def
    by (intro filter_cong) (auto simp: of_trace_def)
qed

lemma trace_rows_foreign:
  assumes "trace_ok E db t" "get_trace_by_id db t = None \<or> (\<exists>tr. get_trace_by_id db t = Some tr \<and> t_org_id tr \<noteq> org_id)"
  shows "filter (of_trace org_id t) (events db) = []"
  using assms by (force simp: filter_empty_conv of_trace_def trace_ok_def owned_def trace_events_def)

lemma events_for_trace_rows:
  assumes "trace_ok E db t" "get_trace_by_id db t = Some tr" "t_org_id tr = org_id"
  shows "events_for_trace db org_id t = trace_events db t"
    "last_event_for_trace db org_id t = first (rev (trace_events db t))"
proof -
  have "map e_seq (trace_events db t) = map int [1..<Suc (length (trace_events db t))]"
    using assms(1) by (simp add: trace_ok_def)
  note srt = order_asc_sorted [OF this]
  show "events_for_trace db org_id t = trace_events db t"
    "last_event_for_trace db org_id t = first (rev (trace_events db t))"
    by (simp_all add: events_for_trace_def last_event_for_trace_def trace_rows [OF assms] srt)
qed

lemma last_seq:
  assumes "trace_ok E db t" "trace_events db t \<noteq> []"
  shows "e_seq (last (trace_events db t)) = int (length (trace_events db t))"
proof -
  let ?es = "trace_events db t"
  have "last (map e_seq ?es) = last (map int [1..<Suc (length ?es)])"
    using assms(1) by (simp add: trace_ok_def)
  then show ?thesis using assms(2) by (simp add: last_map Suc_leI)
qed

text \<open>Recording, step by step.\<close>

lemma get_or_create_trace_Inr:
  assumes "get_or_create_trace E org_id t pv db = Inr (tr, db1)"
  shows "t_org_id tr = org_id" "get_trace_by_id db1 t = Some tr"
    "\<exists>ts. db1 = db\<lparr>traces := traces db @ ts\<rparr>"
    "\<And>t' x. get_trace_by_id db t' = Some x \<Longrightarrow> get_trace_by_id db1 t' = Some x"
proof -
  have "(get_trace_by_id db t = Some tr \<and> t_org_id tr = org_id \<and> db1 = db) \<or>
      (get_trace_by_id db t = None \<and> t_id tr = t \<and> t_org_id tr = org_id \<and>
       db1 = db\<lparr>traces := traces db @ [tr]\<rparr>)"
    using assms by (auto simp: get_or_create_trace_def Let_def split: option.splits if_splits)
  then consider "get_trace_by_id db t = Some tr" "t_org_id tr = org_id" "db1 = db"
    | "get_trace_by_id db t = None" "t_id tr = t" "t_org_id tr = org_id"
      "db1 = db\<lparr>traces := traces db @ [tr]\<rparr>" by (elim disjE conjE) simp_all
  note split = this
  show "t_org_id tr = org_id" "get_trace_by_id db1 t = Some tr"
    by (cases rule: split; simp add: get_trace_by_id_def one_or_none_append)+
  show "\<exists>ts. db1 = db\<lparr>traces := traces db @ ts\<rparr>"
    by (cases rule: split) (auto intro: exI [of _ "[]"])
  show "get_trace_by_id db1 t' = Some x" if "get_trace_by_id db t' = Some x" for t' x
    using that by (cases rule: split) (auto simp: get_trace_by_id_def one_or_none_append)
qed

lemma store_frame:
  assumes "store_encrypted_payload E org_id h c labels db = Inr db'"
  shows "\<exists>n ps ks. db' = db\<lparr>draws := n, payloads := ps, payload_keys := ks\<rparr>"
proof (cases "get_payload db org_id h")
  case None
  with assms show ?thesis by (elim store_new) auto
next
  case (Some p)
  then have "db' = db\<lparr>draws := draws db, payloads := payloads db, payload_keys := payload_keys db\<rparr>"
    using assms by (simp add: store_encrypted_payload_def)
  then show ?thesis by blast
qed

definition new_event ::
  "env \<Rightarrow> string \<Rightarrow> string \<Rightarrow> int \<Rightarrow> string \<Rightarrow> dict \<Rightarrow> string option \<Rightarrow> string option \<Rightarrow>
   string \<Rightarrow> string option \<Rightarrow> string \<Rightarrow> event" where
  "new_event E org_id t seq ty payload pv prev sig kid eid =
     (let ph = sha256_hex E (fst (redact_payload payload));
          env = build_envelope t seq ty ph prev pv (JStr (now_utc_iso E)) (JStr DEFAULT_ALGORITHM)
      in \<lparr>e_id = eid, e_org_id = org_id, e_trace_id = t, e_batch_id = None, e_seq = seq,
          e_type = ty, e_payload_hash = ph, e_envelope = env, e_prev_hash = prev,
          e_hash = sha256_hex E env, e_signature = sig, e_alg = DEFAULT_ALGORITHM,
          e_signing_key_id = kid, e_policy_version = pv,
          e_created_at = truncate_second (now E), e_deferred = False, e_occurred_at = None,
          e_client_device_id = None, e_client_signature = None\<rparr>)"

lemma record_event_Inr:
  assumes "record_event E org_id t seq ty payload pv db = Inr (out, db')"
  obtains tr db1 db2 sig kid e where
    "strip ty \<noteq> []"
    "get_or_create_trace E org_id t pv db = Inr (tr, db1)"
    "seq = (case last_event_for_trace db1 org_id t of None \<Rightarrow> 1 | Some l \<Rightarrow> e_seq l + 1)"
    "e = new_event E org_id t seq ty payload pv
      (map_option e_hash (last_event_for_trace db1 org_id t)) sig kid (uuid4 E (draws db2))"
    "sign_event_for_org E db1 org_id (e_hash e) = Inr (sig, kid)"
    "store_encrypted_payload E org_id (e_payload_hash e) (fst (redact_payload payload))
      (snd (redact_payload payload)) db1 = Inr db2"
    "db' = db2\<lparr>draws := Suc (draws db2), events := events db2 @ [e]\<rparr>"
    "seq \<le> 2147483647"
    "out = \<lparr>eo_hash = e_hash e, eo_signature = sig, eo_seq = seq,
      eo_prev_hash = (case e_prev_hash e of None \<Rightarrow> [] | Some h \<Rightarrow> h), eo_event_id = e_id e\<rparr>"
  using assms
  by (auto simp: record_event_def bind_res_eq_Inr Let_def insert_event_def new_uuid_def new_event_def
      split: if_splits prod.splits)




lemma event_ok_same_keys:
  "event_ok E db e \<Longrightarrow> signing_keys db' = signing_keys db \<Longrightarrow> event_ok E db' e"
  by (erule event_ok_keys) (simp add: public_pem_for_key_def)

lemma sign_event_verifies:
  assumes "keys_ok E db" "service_key_ok E" "sign_event_for_org E db org_id m = Inr (sig, kid)"
    and "e_signing_key_id e = kid"
  shows "\<exists>g pem. load_public_pem E = Inr g \<and> resolve_pem db g e = Inr pem \<and>
    verify_hex E pem m sig = Inr True"
proof -
  obtain g where g: "load_public_pem E = Inr g"
    and glob: "\<And>s. sign_message_hex E m = Inr s \<Longrightarrow> verify_hex E g m s = Inr True"
    using assms(2) by (auto simp: service_key_ok_def)
  consider "kid = None" "sign_message_hex E m = Inr sig"
    | k priv where "active_signing_key db org_id = Some k" "sk_private_pem k = Some priv" "priv \<noteq> []"
        "sign_hex E priv m = Inr sig" "kid = Some (sk_key_id k)"
    using assms(3)
    by (auto simp: sign_event_for_org_def Let_def bind_res_eq_Inr split: option.splits if_splits)
  then show ?thesis
  proof cases
    case 1
    then show ?thesis using g glob assms(4) by (auto simp: resolve_pem_def)
  next
    case 2
    have mem: "k \<in> set (signing_keys db)"
      using 2(1) by (auto simp: active_signing_key_def dest!: first_order_desc(1))
    then have "ed_pair E priv (sk_public_pem k)" using assms(1) 2 by (auto simp: keys_ok_def)
    from verify_sign_hex [OF this 2(4)] have "verify_hex E (sk_public_pem k) m sig = Inr True" .
    moreover have "one_or_none (\<lambda>x. sk_key_id x = sk_key_id k) (signing_keys db) = Some k"
      using mem assms(1) by (auto simp: keys_ok_def one_or_none_unique)
    ultimately show ?thesis using g 2 assms(4) by (auto simp: resolve_pem_def public_pem_for_key_def)
  qed
qed

lemma new_event_fields [simp]:
  "e_trace_id (new_event E org_id t seq ty payload pv prev sig kid eid) = t"
  "e_org_id (new_event E org_id t seq ty payload pv prev sig kid eid) = org_id"
  "e_seq (new_event E org_id t seq ty payload pv prev sig kid eid) = seq"
  "e_type (new_event E org_id t seq ty payload pv prev sig kid eid) = ty"
  "e_prev_hash (new_event E org_id t seq ty payload pv prev sig kid eid) = prev"
  "e_signature (new_event E org_id t seq ty payload pv prev sig kid eid) = sig"
  "e_signing_key_id (new_event E org_id t seq ty payload pv prev sig kid eid) = kid"
  "e_policy_version (new_event E org_id t seq ty payload pv prev sig kid eid) = pv"
  "e_payload_hash (new_event E org_id t seq ty payload pv prev sig kid eid) =
     sha256_hex E (fst (redact_payload payload))"
  "e_batch_id (new_event E org_id t seq ty payload pv prev sig kid eid) = None"
  by (simp_all add: new_event_def Let_def)

lemma new_event_ok:
  assumes "keys_ok E db" "service_key_ok E"
    and "e = new_event E org_id t seq ty payload pv prev sig kid eid"
    and "sign_event_for_org E db org_id (e_hash e) = Inr (sig, kid)"
  shows "event_ok E db e"
proof -
  have "\<exists>g pem. load_public_pem E = Inr g \<and> resolve_pem db g e = Inr pem \<and>
    verify_hex E pem (e_hash e) sig = Inr True"
    by (rule sign_event_verifies [OF assms(1,2,4)]) (simp add: assms(3))
  moreover have "e_signature e = sig" by (simp add: assms(3))
  ultimately show ?thesis
    unfolding event_ok_def by (simp add: assms(3)) (auto simp: new_event_def Let_def)
qed

lemma log_okD:
  assumes "log_ok E db" "e \<in> set (trace_events db t)"
  shows "event_ok E db e" "owned db e"
  using assms unfolding log_ok_def trace_ok_def by blast+

text \<open>Appending an event that continues the chain of its trace keeps every trace intact.\<close>

lemma trace_ok_append:
  assumes ok: "\<And>t. trace_ok E db t"
    and ev: "events db' = events db @ [e]"
    and keys: "\<And>k pem. public_pem_for_key db k = Inr pem \<Longrightarrow> public_pem_for_key db' k = Inr pem"
    and own: "\<And>x. owned db x \<Longrightarrow> owned db' x"
    and e: "event_ok E db' e" "owned db' e"
    and seq: "e_seq e = int (Suc (length (trace_events db (e_trace_id e))))"
    and prev: "e_prev_hash e =
      (if trace_events db (e_trace_id e) = [] then None else Some (e_hash (last (trace_events db (e_trace_id e)))))"
  shows "trace_ok E db' t"
proof -
  have old: "event_ok E db' x \<and> owned db' x" if "x \<in> set (trace_events db t)" for x
  proof
    have "event_ok E db x" "owned db x" using that ok [of t] by (simp_all add: trace_ok_def)
    then show "event_ok E db' x" "owned db' x" using own event_ok_keys [OF _ keys] by blast+
  qed
  show ?thesis
  proof (cases "t = e_trace_id e")
    case True
    then have tr: "trace_events db' t = trace_events db t @ [e]" by (simp add: trace_events_def ev)
    show ?thesis
      unfolding trace_ok_def tr chained_append
      using ok [of t] old e seq prev True by (auto simp: trace_ok_def)
  next
    case False
    then have "trace_events db' t = trace_events db t" by (simp add: trace_events_def ev)
    then show ?thesis using ok [of t] old by (simp add: trace_ok_def)
  qed
qed

lemma trace_ok_traces:
  assumes "trace_ok E db t" "db1 = db\<lparr>traces := ts\<rparr>"
    "\<And>t' x. get_trace_by_id db t' = Some x \<Longrightarrow> get_trace_by_id db1 t' = Some x"
  shows "trace_ok E db1 t"
proof -
  have "event_ok E db1 e" if "event_ok E db e" for e
    using that by (rule event_ok_same_keys) (simp add: assms(2))
  moreover have "owned db1 e" if "owned db e" for e
    using that assms(3) by (rule owned_mono)
  ultimately show ?thesis using assms(1,2) by (auto simp: trace_ok_def trace_events_def)
qed

text \<open>The main lemma of the log: a recorded event is appended, continues its chain, and the
  invariant is kept.\<close>

lemma record_event_log:
  assumes "log_ok E db" "service_key_ok E"
    and "record_event E org_id t seq ty payload pv db = Inr (out, db')"
  shows "log_ok E db'"
    "\<exists>sig kid eid. events db' = events db @
       [new_event E org_id t seq ty payload pv (map_option e_hash (first (rev (trace_events db t))))
          sig kid eid]"
    "seq = int (Suc (length (trace_events db t)))"
    "\<exists>tr. get_trace_by_id db' t = Some tr \<and> t_org_id tr = org_id"
    "\<exists>ts ps ks n. db' = db\<lparr>traces := traces db @ ts, payloads := ps, payload_keys := ks, draws := n,
       events := events db'\<rparr>"
proof -
  obtain tr db1 db2 sig kid e where tr: "get_or_create_trace E org_id t pv db = Inr (tr, db1)"
    and seq: "seq = (case last_event_for_trace db1 org_id t of None \<Rightarrow> 1 | Some l \<Rightarrow> e_seq l + 1)"
    and e: "e = new_event E org_id t seq ty payload pv
      (map_option e_hash (last_event_for_trace db1 org_id t)) sig kid (uuid4 E (draws db2))"
    and sig: "sign_event_for_org E db1 org_id (e_hash e) = Inr (sig, kid)"
    and st: "store_encrypted_payload E org_id (e_payload_hash e) (fst (redact_payload payload))
      (snd (redact_payload payload)) db1 = Inr db2"
    and db': "db' = db2\<lparr>draws := Suc (draws db2), events := events db2 @ [e]\<rparr>"
    using assms(3) by (rule record_event_Inr) blast
  note g = get_or_create_trace_Inr [OF tr]
  obtain ts where db1: "db1 = db\<lparr>traces := traces db @ ts\<rparr>" using g(3) by blast
  obtain n ps ks where db2: "db2 = db1\<lparr>draws := n, payloads := ps, payload_keys := ks\<rparr>"
    using store_frame [OF st] by blast
  have ok1: "trace_ok E db1 t'" for t'
    using assms(1) by (intro trace_ok_traces [OF _ db1 g(4)]) (simp_all add: log_ok_def)
  have rows: "trace_events db1 t = trace_events db t" by (simp add: trace_events_def db1)
  have lst: "last_event_for_trace db1 org_id t = first (rev (trace_events db t))"
    using events_for_trace_rows(2) [OF ok1 g(2,1)] rows by simp
  show seqn: "seq = int (Suc (length (trace_events db t)))"
  proof (cases "trace_events db t = []")
    case True
    then show ?thesis using seq lst by simp
  next
    case False
    then have "first (rev (trace_events db t)) = Some (last (trace_events db t))"
      by (simp add: first_rev)
    then show ?thesis using seq lst last_seq [OF ok1 [of t]] False by (simp add: rows)
  qed
  have keys1: "keys_ok E db1" using assms(1) by (simp add: log_ok_def keys_ok_def db1)
  have evs: "events db' = events db1 @ [e]" by (simp add: db' db2)
  have "trace_ok E db' t'" for t'
  proof (rule trace_ok_append [OF ok1 evs])
    show "event_ok E db' e"
      by (rule event_ok_same_keys [OF new_event_ok [OF keys1 assms(2) e sig]]) (simp add: db' db2)
    show "owned db' e" using g(1,2) by (simp add: owned_def e db' db2 get_trace_by_id_def)
    show "e_seq e = int (Suc (length (trace_events db1 (e_trace_id e))))"
      using seqn by (simp add: e rows)
    show "e_prev_hash e = (if trace_events db1 (e_trace_id e) = [] then None
        else Some (e_hash (last (trace_events db1 (e_trace_id e)))))"
      by (simp add: e rows lst first_rev)
  qed (simp_all add: db' db2 owned_def get_trace_by_id_def public_pem_for_key_def)
  moreover have "vault_ok db'"
    using store_vault_ok [OF _ st] assms(1) by (simp add: log_ok_def db' db1 vault_ok_def)
  moreover have "keys_ok E db'" using keys1 by (simp add: keys_ok_def db' db2)
  ultimately show "log_ok E db'" by (simp add: log_ok_def)
  show "\<exists>sig kid eid. events db' = events db @
       [new_event E org_id t seq ty payload pv (map_option e_hash (first (rev (trace_events db t))))
          sig kid eid]"
    using evs e lst by (auto simp: db1)
  show "\<exists>tr. get_trace_by_id db' t = Some tr \<and> t_org_id tr = org_id"
    using g(1,2) by (auto simp: db' db2 get_trace_by_id_def)
  show "\<exists>ts ps ks n. db' = db\<lparr>traces := traces db @ ts, payloads := ps, payload_keys := ks, draws := n,
       events := events db'\<rparr>"
    by (intro exI [of _ ts] exI [of _ ps] exI [of _ ks] exI [of _ "Suc n"]) (simp add: db' db2 db1)
qed


text \<open>Other writes to the database: rotating a signing key, and any change that leaves traces, events
  and keys alone.\<close>

lemma log_ok_frame:
  assumes "log_ok E db" "vault_ok db'"
    and "events db' = events db" "traces db' = traces db" "signing_keys db' = signing_keys db"
  shows "log_ok E db'"
proof -
  have "event_ok E db' e" if "event_ok E db e" for e
    using that assms(5) by (rule event_ok_same_keys)
  moreover have "owned db' e = owned db e" for e
    by (simp add: owned_def get_trace_by_id_def assms(4))
  moreover have "trace_events db' t = trace_events db t" for t by (simp add: trace_events_def assms(3))
  ultimately show ?thesis using assms(1,2,5) by (auto simp: log_ok_def keys_ok_def trace_ok_def)
qed

lemma log_ok_same:
  assumes "log_ok E db"
    and "events db' = events db" "traces db' = traces db" "signing_keys db' = signing_keys db"
    and "payloads db' = payloads db" "payload_keys db' = payload_keys db"
  shows "log_ok E db'"
  using assms(1) by (rule log_ok_frame) (use assms in \<open>simp_all add: log_ok_def vault_ok_def\<close>)

text \<open>Columns that are not part of the sealed record (the batch, the marks of a deferred event) can be
  written without touching the invariant.\<close>

definition sealed_fields :: "event \<Rightarrow> dict \<times> string list \<times> int \<times> string option list" where
  "sealed_fields e =
     (e_envelope e, [e_org_id e, e_trace_id e, e_type e, e_payload_hash e, e_hash e, e_signature e, e_alg e],
      e_seq e, [e_prev_hash e, e_signing_key_id e, e_policy_version e])"

lemma sealed_fields_iff:
  "sealed_fields e = sealed_fields e' \<longleftrightarrow>
     e_envelope e = e_envelope e' \<and> e_org_id e = e_org_id e' \<and> e_trace_id e = e_trace_id e' \<and>
     e_type e = e_type e' \<and> e_payload_hash e = e_payload_hash e' \<and> e_hash e = e_hash e' \<and>
     e_signature e = e_signature e' \<and> e_alg e = e_alg e' \<and> e_seq e = e_seq e' \<and>
     e_prev_hash e = e_prev_hash e' \<and> e_signing_key_id e = e_signing_key_id e' \<and>
     e_policy_version e = e_policy_version e'"
  by (auto simp: sealed_fields_def)

lemma event_ok_sealed:
  assumes "sealed_fields e = sealed_fields e'"
  shows "event_ok E db e = event_ok E db e'" "owned db e = owned db e'"
  using assms unfolding sealed_fields_iff by (simp_all add: event_ok_def owned_def resolve_pem_def)

lemma chained_annotate:
  assumes "\<And>e. sealed_fields (f e) = sealed_fields e"
  shows "chained prev (update_where P f es) = chained prev es"
proof (induction es arbitrary: prev)
  case (Cons e es)
  have "e_hash (f e) = e_hash e" "e_prev_hash (f e) = e_prev_hash e"
    using assms [of e] by (simp_all add: sealed_fields_iff)
  with Cons show ?case by (simp add: update_where_def)
qed simp

lemma annotate_log_ok:
  assumes "log_ok E db" and f: "\<And>e. sealed_fields (f e) = sealed_fields e"
  shows "log_ok E (db\<lparr>events := update_where P f (events db)\<rparr>)"
proof -
  let ?db = "db\<lparr>events := update_where P f (events db)\<rparr>"
  have fs: "e_trace_id (f e) = e_trace_id e" "e_seq (f e) = e_seq e" for e
    using f [of e] by (simp_all add: sealed_fields_iff)
  have rows: "trace_events ?db t = update_where P f (trace_events db t)" for t
    by (simp add: trace_events_def filter_update_where fs)
  have "public_pem_for_key ?db = public_pem_for_key db"
    by (simp add: fun_eq_iff public_pem_for_key_def)
  then have "resolve_pem ?db = resolve_pem db" by (simp add: fun_eq_iff resolve_pem_def split: option.split)
  then have ok: "event_ok E ?db e = event_ok E db e" "owned ?db e = owned db e" for e
    by (simp_all add: event_ok_def owned_def get_trace_by_id_def)
  have "trace_ok E ?db t" for t
  proof -
    have t: "trace_ok E db t" using assms(1) by (simp add: log_ok_def)
    have "event_ok E ?db e \<and> owned ?db e" if e: "e \<in> set (trace_events ?db t)" for e
    proof -
      obtain x where x: "x \<in> set (trace_events db t)" "e = x \<or> e = f x"
        using e unfolding rows set_update_where by (auto split: if_splits)
      then have "event_ok E db x \<and> owned db x" using t by (simp add: trace_ok_def)
      then show ?thesis using x(2) event_ok_sealed [OF f [of x]] ok by auto
    qed
    then show ?thesis using t
      by (simp add: trace_ok_def rows chained_annotate [OF f] map_update_where fs del: upt_Suc)
  qed
  then show ?thesis using assms(1) by (simp add: log_ok_def keys_ok_def vault_ok_def)
qed

lemma log_ok_unique:
  assumes "log_ok E db" "e \<in> set (events db)" "e' \<in> set (events db)"
    and "e_trace_id e = e_trace_id e'" "e_seq e = e_seq e'"
  shows "e = e'"
proof -
  let ?t = "e_trace_id e'"
  have "map e_seq (trace_events db ?t) = map int [1..<Suc (length (trace_events db ?t))]"
    using assms(1) by (simp add: log_ok_def trace_ok_def)
  then have "distinct (map e_seq (trace_events db ?t))"
    by (metis distinct_map distinct_upt inj_on_of_nat)
  then have "inj_on e_seq (set (trace_events db ?t))" by (simp add: distinct_map)
  then show ?thesis using assms(2-5) by (auto simp: trace_events_def dest: inj_onD)
qed

lemma provision_Inr:
  assumes "provision_managed_signing_key E org_id db = Inr (key, db')"
  shows "sk_key_id key \<notin> set (map sk_key_id (signing_keys db))"
    "sk_public_pem key = snd (ed_generate E (draws db))"
    "sk_private_pem key = Some (fst (ed_generate E (draws db)))"
    "db' = db\<lparr>draws := Suc (Suc (draws db)),
       signing_keys := update_where (\<lambda>k. sk_org_id k = org_id \<and> sk_status k = ''active'')
                         (\<lambda>k. k\<lparr>sk_status := ''retired''\<rparr>) (signing_keys db) @ [key]\<rparr>"
  using assms
  by (auto simp: provision_managed_signing_key_def Let_def new_uuid_def list_ex_update_where
      split: prod.splits if_splits) (auto simp: list_ex_iff)

lemma provision_log_ok:
  assumes "log_ok E db" "generated_keys_ok E"
    and "provision_managed_signing_key E org_id db = Inr (key, db')"
  shows "log_ok E db'"
proof -
  note p = provision_Inr [OF assms(3)]
  have look: "public_pem_for_key db' k = Inr pem" if "public_pem_for_key db k = Inr pem" for k pem
    using that
    by (auto simp: public_pem_for_key_def p(4) one_or_none_append one_or_none_update_where
        split: option.splits)
  have ok: "event_ok E db' e" if "event_ok E db e" for e
    using that look by (rule event_ok_keys)
  have own: "owned db' e = owned db e" for e by (simp add: owned_def get_trace_by_id_def p(4))
  have "trace_events db' t = trace_events db t" for t by (simp add: trace_events_def p(4))
  with assms(1) ok own have "trace_ok E db' t" for t by (auto simp: log_ok_def trace_ok_def)
  moreover have "keys_ok E db'"
    using assms(1,2) p(1-3)
    by (auto simp: log_ok_def keys_ok_def p(4) map_update_where set_update_where generated_keys_ok_def
        split: if_splits)
  moreover have "vault_ok db'" using assms(1) by (simp add: log_ok_def vault_ok_def p(4))
  ultimately show ?thesis by (simp add: log_ok_def)
qed

section \<open>Verification of intact chains\<close>

lemma rebuilt_ok:
  assumes "e_envelope e = build_envelope (e_trace_id e) (e_seq e) (e_type e) (e_payload_hash e)
      (e_prev_hash e) (e_policy_version e) (JStr c) (JStr DEFAULT_ALGORITHM)"
    and "e_alg e = DEFAULT_ALGORITHM"
  shows "rebuilt_envelope e (JStr c) = e_envelope e" "event_alg e = JStr DEFAULT_ALGORITHM"
    "map_of (e_envelope e) ''created_at'' = Some (JStr c)"
proof -
  show alg: "event_alg e = JStr DEFAULT_ALGORITHM"
    by (simp add: event_alg_def assms(2) py_or_def DEFAULT_ALGORITHM_def)
  show "rebuilt_envelope e (JStr c) = e_envelope e"
    by (simp add: rebuilt_envelope_def alg assms(1))
  show "map_of (e_envelope e) ''created_at'' = Some (JStr c)"
    by (simp add: assms(1) build_envelope_def)
qed

lemma verify_single_event_ok:
  assumes "event_ok E db e" "load_public_pem E = Inr g" "e_prev_hash e = prev"
  shows "\<exists>pem. resolve_pem db g e = Inr pem \<and>
    verify_single_event E e pem prev =
      Inr \<lparr>ev_seq = e_seq e, ev_type = e_type e, ev_verified = True, ev_hash_ok = True,
           ev_signature_ok = True, ev_chain_ok = True\<rparr>"
proof -
  obtain c pem where env: "e_envelope e = build_envelope (e_trace_id e) (e_seq e) (e_type e)
      (e_payload_hash e) (e_prev_hash e) (e_policy_version e) (JStr c) (JStr DEFAULT_ALGORITHM)"
    and alg: "e_alg e = DEFAULT_ALGORITHM" and h: "e_hash e = sha256_hex E (e_envelope e)"
    and pem: "resolve_pem db g e = Inr pem" "verify_hex E pem (e_hash e) (e_signature e) = Inr True"
    using assms(1,2) by (auto simp: event_ok_def)
  note r = rebuilt_ok [OF env alg]
  have "is_supported (Some DEFAULT_ALGORITHM)"
    by (simp add: is_supported_def SUPPORTED_ALGORITHMS_def DEFAULT_ALGORITHM_def)
  then have "verify_single_event E e pem prev =
      Inr \<lparr>ev_seq = e_seq e, ev_type = e_type e, ev_verified = True, ev_hash_ok = True,
           ev_signature_ok = True, ev_chain_ok = True\<rparr>"
    using pem(2) assms(3) r h by (simp add: verify_single_event_def)
  with pem(1) show ?thesis by blast
qed

lemma verify_loop_ok:
  assumes "\<And>e. e \<in> set es \<Longrightarrow> event_ok E db e" "load_public_pem E = Inr g" "chained prev es"
  shows "verify_loop E (resolve_pem db g) prev es =
    Inr (map (\<lambda>e. \<lparr>ev_seq = e_seq e, ev_type = e_type e, ev_verified = True, ev_hash_ok = True,
                   ev_signature_ok = True, ev_chain_ok = True\<rparr>) es)"
  using assms
proof (induction es arbitrary: prev)
  case (Cons e es)
  from verify_single_event_ok [of E db e g prev] Cons.prems
  obtain pem where "resolve_pem db g e = Inr pem" "verify_single_event E e pem prev =
      Inr \<lparr>ev_seq = e_seq e, ev_type = e_type e, ev_verified = True, ev_hash_ok = True,
           ev_signature_ok = True, ev_chain_ok = True\<rparr>" by auto
  moreover have "verify_loop E (resolve_pem db g) (Some (e_hash e)) es =
    Inr (map (\<lambda>e. \<lparr>ev_seq = e_seq e, ev_type = e_type e, ev_verified = True, ev_hash_ok = True,
                   ev_signature_ok = True, ev_chain_ok = True\<rparr>) es)"
    using Cons by auto
  ultimately show ?case by simp
qed simp

lemma event_ok_batch: "event_ok E db (e\<lparr>e_batch_id := b\<rparr>) = event_ok E db e"
  by (simp add: event_ok_def resolve_pem_def)

lemma verify_event_chain_ok:
  assumes "\<And>e. e \<in> set es \<Longrightarrow> event_ok E db e" "load_public_pem E = Inr g" "chained None es"
  shows "\<exists>r. verify_event_chain E t es None (Some (resolve_pem db g)) = Inr r \<and> tr_all_verified r"
proof -
  have "chain_pem None (Some (resolve_pem db g)) = resolve_pem db g"
    by (simp add: chain_pem_def fun_eq_iff)
  with verify_loop_ok [OF assms] show ?thesis by (simp add: verify_event_chain_def list_all_iff)
qed

section \<open>Chains that verify determine what they record\<close>

text \<open>The text that is hashed for an event, as the verifier rebuilds it.\<close>

definition sealed_text :: "event \<Rightarrow> bytes" where
  "sealed_text e =
     canonical_bytes (rebuilt_envelope e (dget (e_envelope e) ''created_at''))"

text \<open>A row whose time stamp and algorithm columns hold text, as the schema and the writer have it.\<close>

definition textual :: "event \<Rightarrow> bool" where
  "textual e \<longleftrightarrow> is_str (dget (e_envelope e) ''created_at'') \<and> e_alg e \<noteq> []"

lemma event_ok_textual: "event_ok E db e \<Longrightarrow> textual e"
  by (auto simp: event_ok_def textual_def build_envelope_def dget_def dget_def_def DEFAULT_ALGORITHM_def)

text \<open>What an event says.\<close>

definition content :: "event \<Rightarrow> string \<times> int \<times> string \<times> string \<times> string option \<times> string option \<times> json \<times> string" where
  "content e = (e_trace_id e, e_seq e, e_type e, e_payload_hash e, e_prev_hash e, e_policy_version e,
     dget (e_envelope e) ''created_at'', e_alg e)"

lemma jnorm_is_str: "is_str v \<Longrightarrow> jnorm v = v"
  by (cases v) auto

lemma jopt_str_inject: "jopt_str a = jopt_str b \<longleftrightarrow> a = b"
  by (auto simp: jopt_str_def split: option.splits)

lemma jnorm_jopt_str: "jnorm (jopt_str a) = jopt_str a"
  by (simp add: jopt_str_def split: option.splits)

lemma build_envelope_jplain:
  "is_str c \<Longrightarrow> jplain (JObj (build_envelope t s ty ph p pv c (JStr a)))"
  by (cases c) (simp_all add: build_envelope_def jopt_str_def split: option.splits)

lemma sealed_text_inject:
  assumes "textual a" "textual b" "sealed_text a = sealed_text b"
  shows "content a = content b"
proof -
  let ?d = "\<lambda>e. build_envelope (e_trace_id e) (e_seq e) (e_type e) (e_payload_hash e) (e_prev_hash e)
    (e_policy_version e) (dget (e_envelope e) ''created_at'') (JStr (e_alg e))"
  have r: "rebuilt_envelope e (dget (e_envelope e) ''created_at'') = ?d e" if "textual e" for e
    using that by (simp add: rebuilt_envelope_def event_alg_def py_or_def textual_def)
  have pl: "jplain (JObj (?d e))" if "textual e" for e
    using that by (intro build_envelope_jplain) (simp add: textual_def)
  have "canonical_bytes (?d a) = canonical_bytes (?d b)"
    using assms r by (simp add: sealed_text_def)
  from canonical_bytes_lookup [OF pl [OF assms(1)] pl [OF assms(2)] this]
  have eq: "map_option jnorm (map_of (?d a) k) = map_option jnorm (map_of (?d b) k)" for k .
  have cr: "is_str (dget (e_envelope a) ''created_at'')" "is_str (dget (e_envelope b) ''created_at'')"
    using assms(1,2) by (simp_all add: textual_def)
  show ?thesis
    using eq [of "''trace_id''"] eq [of "''seq''"] eq [of "''type''"] eq [of "''payload_hash''"]
      eq [of "''prev_hash''"] eq [of "''policy_version''"] eq [of "''created_at''"] eq [of "''alg''"]
    by (simp add: content_def build_envelope_def jnorm_jopt_str jopt_str_inject jnorm_is_str [OF cr(1)]
        jnorm_is_str [OF cr(2)])
qed

lemma verify_single_event_hash:
  assumes "verify_single_event E e pem prev = Inr r" "ev_verified r"
  shows "e_hash e = hex (digest E (sealed_text e))" "e_prev_hash e = prev"
  using assms
  by (auto simp: verify_single_event_def bind_res_eq_Inr Let_def sealed_text_def sha256_hex_def dget_def
      dget_def_def split: if_splits)

lemma verify_loop_verified:
  assumes "verify_loop E pem prev es = Inr rs" "list_all ev_verified rs"
  shows "chained prev es" "\<And>e. e \<in> set es \<Longrightarrow> e_hash e = hex (digest E (sealed_text e))"
  using assms
proof (induction es arbitrary: prev rs)
  case (Cons e es)
  {
    case 1
    then obtain p r rs' where "verify_single_event E e p prev = Inr r" "ev_verified r"
      "verify_loop E pem (Some (e_hash e)) es = Inr rs'" "list_all ev_verified rs'"
      by (auto simp: bind_res_eq_Inr)
    then show ?case using Cons.IH(1) verify_single_event_hash(2) by auto
  next
    case (2 x)
    then obtain p r rs' where "verify_single_event E e p prev = Inr r" "ev_verified r"
      "verify_loop E pem (Some (e_hash e)) es = Inr rs'" "list_all ev_verified rs'"
      by (auto simp: bind_res_eq_Inr)
    then show ?case using Cons.IH(2) verify_single_event_hash(1) 2(1) by auto
  }
qed auto

text \<open>Two chains that start at the same place and end in the same hash agree event by event, or two
  different texts with the same digest are found among them.\<close>

lemma chained_same_end:
  assumes "chained None xs" "chained None ys" "xs \<noteq> []" "ys \<noteq> []"
    and "\<And>e. e \<in> set xs \<union> set ys \<Longrightarrow> e_hash e = hex (digest E (sealed_text e)) \<and> textual e"
    and "e_hash (last xs) = e_hash (last ys)"
    and "\<not> collision E (sealed_text ` set xs) (sealed_text ` set ys)"
  shows "map content xs = map content ys"
  using assms
proof (induction xs arbitrary: ys rule: rev_induct)
  case (snoc x xs)
  then obtain y ys' where ys: "ys = ys' @ [y]" by (cases ys rule: rev_cases) auto
  have "digest E (sealed_text x) = digest E (sealed_text y)"
    using snoc.prems(5) [of x] snoc.prems(5) [of y] snoc.prems(6) ys by (simp add: hex_inject)
  then have "sealed_text x = sealed_text y"
    using snoc.prems(7) ys by (auto simp: collision_def)
  then have c: "content x = content y"
    using snoc.prems(5) ys by (intro sealed_text_inject) auto
  then have "e_prev_hash x = e_prev_hash y" by (simp add: content_def)
  with snoc.prems(1,2) ys have prev: "(if xs = [] then None else Some (e_hash (last xs))) =
      (if ys' = [] then None else Some (e_hash (last ys')))"
    by (simp add: chained_append)
  show ?case
  proof (cases "xs = []")
    case True
    then show ?thesis using prev c ys by (simp split: if_splits)
  next
    case False
    have "map content xs = map content ys'"
    proof (rule snoc.IH)
      show "\<not> collision E (sealed_text ` set xs) (sealed_text ` set ys')"
        using snoc.prems(7) ys by (auto simp: collision_def)
    qed (use snoc.prems prev ys False in \<open>auto simp: chained_append split: if_splits\<close>)
    then show ?thesis using c ys by simp
  qed
qed simp


section \<open>When recording succeeds\<close>

definition can_sign :: "env \<Rightarrow> db \<Rightarrow> string \<Rightarrow> bool" where
  "can_sign E db org_id \<longleftrightarrow> (\<forall>m. \<exists>r. sign_event_for_org E db org_id (hex m) = Inr r)"

lemma can_sign_fallback:
  assumes "active_signing_key db org_id = None" "signing_backend_of (the_settings E) = Local"
    and "read_file E (signing_private_key_path (the_settings E)) = Some priv"
    and "load_pem_private E priv = Some Ed25519Key"
  shows "can_sign E db org_id"
  using assms
  by (simp add: can_sign_def sign_event_for_org_def sign_message_hex_def get_signing_provider_def
      sign_hex_def load_private_key_def fromhex_hex Let_def)

lemma demo_can_sign: "signing_keys db = [] \<Longrightarrow> can_sign demo_env db org_id"
  by (rule can_sign_fallback [where priv = "''G''"]) (simp_all add: active_signing_key_def demo_env_def)

lemma sign_event_for_org_keys:
  "signing_keys db' = signing_keys db \<Longrightarrow> sign_event_for_org E db' org_id m = sign_event_for_org E db org_id m"
  by (simp add: sign_event_for_org_def active_signing_key_def)

lemma get_or_create_trace_total:
  assumes "\<And>tr. get_trace_by_id db t = Some tr \<Longrightarrow> t_org_id tr = org_id"
  shows "\<exists>tr db1. get_or_create_trace E org_id t pv db = Inr (tr, db1)"
  using assms by (auto simp: get_or_create_trace_def Let_def split: option.splits)

lemma insert_event_total:
  assumes "0 < seq" "seq \<le> 2147483647"
    and "\<And>x. x \<in> set (events db) \<Longrightarrow> e_trace_id x = t \<Longrightarrow> e_seq x \<noteq> seq"
  shows "\<exists>e db'. insert_event E org_id t seq ty ph env prev h sig pv alg created kid db = Inr (e, db')"
  using assms by (auto simp: insert_event_def Let_def new_uuid_def list_ex_iff)

lemma store_total_any:
  assumes "\<And>pem. wrapping_pem db org_id = Some pem \<Longrightarrow> load_pem_public E pem = Some RsaKey"
  shows "\<exists>db'. store_encrypted_payload E org_id h c labels db = Inr db'"
proof (cases "get_payload db org_id h")
  case None
  then show ?thesis using assms by (rule store_total)
qed (simp add: store_encrypted_payload_def)

lemma record_event_accepts:
  assumes "log_ok E db" "strip ty \<noteq> []"
    and own: "\<And>tr. get_trace_by_id db t = Some tr \<Longrightarrow> t_org_id tr = org_id"
    and seq: "seq = int (Suc (length (trace_events db t)))" "seq \<le> 2147483647"
    and "can_sign E db org_id"
    and wrap: "\<And>pem. wrapping_pem db org_id = Some pem \<Longrightarrow> load_pem_public E pem = Some RsaKey"
  shows "\<exists>out db'. record_event E org_id t seq ty payload pv db = Inr (out, db')"
proof -
  obtain tr db1 where tr: "get_or_create_trace E org_id t pv db = Inr (tr, db1)"
    using get_or_create_trace_total [OF own] by blast
  note g = get_or_create_trace_Inr [OF tr]
  obtain ts where db1: "db1 = db\<lparr>traces := traces db @ ts\<rparr>" using g(3) by blast
  have ok1: "trace_ok E db1 t"
    using assms(1) by (intro trace_ok_traces [OF _ db1 g(4)]) (simp_all add: log_ok_def)
  have rows: "trace_events db1 t = trace_events db t" by (simp add: trace_events_def db1)
  have expected: "(case last_event_for_trace db1 org_id t of None \<Rightarrow> 1 | Some l \<Rightarrow> e_seq l + 1) = seq"
    using events_for_trace_rows(2) [OF ok1 g(2,1)] last_seq [OF ok1] seq(1)
    by (cases "trace_events db t = []") (simp_all add: rows first_rev)
  define ph where "ph = sha256_hex E (fst (redact_payload payload))"
  define env where "env = build_envelope t seq ty ph (map_option e_hash (last_event_for_trace db1 org_id t))
    pv (JStr (now_utc_iso E)) (JStr DEFAULT_ALGORITHM)"
  obtain sig kid where sig: "sign_event_for_org E db1 org_id (sha256_hex E env) = Inr (sig, kid)"
    using assms(6) sign_event_for_org_keys [of db1 db]
    by (fastforce simp: can_sign_def sha256_hex_def db1)
  have "wrapping_pem db1 org_id = wrapping_pem db org_id"
    by (simp add: wrapping_pem_def get_org_by_id_def db1)
  then obtain db2 where st: "store_encrypted_payload E org_id ph (fst (redact_payload payload))
      (snd (redact_payload payload)) db1 = Inr db2"
    using store_total_any wrap by metis
  have "e_seq x \<noteq> seq" if "x \<in> set (events db2)" "e_trace_id x = t" for x
  proof -
    have "x \<in> set (trace_events db t)"
      using that store_frame [OF st] by (auto simp: trace_events_def db1)
    then have "e_seq x \<in> set (map e_seq (trace_events db t))" by simp
    also have "map e_seq (trace_events db t) = map int [1..<Suc (length (trace_events db t))]"
      using ok1 by (simp add: trace_ok_def rows)
    finally show ?thesis using seq(1) by auto
  qed
  from insert_event_total [OF _ seq(2) this] obtain e db' where
    "insert_event E org_id t seq ty ph env (map_option e_hash (last_event_for_trace db1 org_id t))
       (sha256_hex E env) sig pv DEFAULT_ALGORITHM (truncate_second (now E)) kid db2 = Inr (e, db')"
    using seq(1) by fastforce
  moreover have "ty \<noteq> []" using assms(2) by (auto simp: strip_def)
  ultimately show ?thesis
    using assms(2) tr expected sig st
    by (cases "redact_payload payload") (simp add: record_event_def Let_def ph_def env_def)
qed

lemma shred_log_ok:
  assumes "log_ok E db" "crypto_shred_payload E org_id h db = (b, db')"
  shows "log_ok E db'" "events db' = events db" "traces db' = traces db"
proof -
  have "events db' = events db \<and> traces db' = traces db \<and> signing_keys db' = signing_keys db"
    using assms(2) by (auto simp: crypto_shred_payload_def split: option.splits)
  moreover have "vault_ok db'" using assms shred_vault_ok by (auto simp: log_ok_def)
  ultimately show "log_ok E db'" "events db' = events db" "traces db' = traces db"
    using log_ok_frame [OF assms(1)] by auto
qed

lemma record_event_erased:
  assumes "erased db o' h'" "record_event E org_id t seq ty payload pv db = Inr (out, db')"
  shows "erased db' o' h'"
proof -
  obtain tr db1 db2 e where tr: "get_or_create_trace E org_id t pv db = Inr (tr, db1)"
    and st: "store_encrypted_payload E org_id (e_payload_hash e) (fst (redact_payload payload))
      (snd (redact_payload payload)) db1 = Inr db2"
    and db': "db' = db2\<lparr>draws := Suc (draws db2), events := events db2 @ [e]\<rparr>"
    using assms(2) by (rule record_event_Inr) blast
  have "erased db1 o' h'"
    using assms(1) get_or_create_trace_Inr(3) [OF tr] by (auto simp: erased_def get_payload_def)
  from erased_store [OF this st] show ?thesis by (simp add: erased_def get_payload_def db')
qed

lemma erase_Inr:
  assumes "erase_event_payload E org_id t target_seq approver reason db = Inr (res, db')"
  obtains target db1 out seq where "target \<in> set (events_for_trace db org_id t)"
    "e_seq target = target_seq" "er_target_payload_hash res = e_payload_hash target"
    "crypto_shred_payload E org_id (e_payload_hash target) db = (True, db1)"
    "record_event E org_id t seq ''erasure''
       [(''target_payload_hash'', JStr (e_payload_hash target)), (''target_seq'', JInt target_seq),
        (''approver_id'', JStr approver), (''reason'', JStr reason)]
       (e_policy_version target) db1 = Inr (out, db')"
    "er_erasure_seq res = eo_seq out" "er_hash res = eo_hash out"
proof -
  from assms obtain target p sh db1 where
    t: "List.find (\<lambda>e. e_seq e = target_seq) (events_for_trace db org_id t) = Some target"
    and sh: "crypto_shred_payload E org_id (e_payload_hash target) db = (sh, db1)"
    by (auto simp: erase_event_payload_def bind_res_eq_Inr Let_def split: if_splits prod.splits)
  have mem: "target \<in> set (events_for_trace db org_id t)" "e_seq target = target_seq"
    using t by (auto simp: find_Some_iff)
  show thesis
    using assms t sh
    by (auto simp: erase_event_payload_def bind_res_eq_Inr Let_def
        split: if_splits prod.splits sum.splits exn.splits intro!: that [OF mem])
qed

lemma shred_total:
  assumes "get_payload_key db org_id h \<noteq> None"
  shows "\<exists>db'. crypto_shred_payload E org_id h db = (True, db')"
  using assms by (auto simp: crypto_shred_payload_def)

lemma vault_key_payload:
  assumes "vault_ok db" "get_payload_key db org_id h \<noteq> None"
  shows "\<exists>p. get_payload db org_id h = Some p \<and> p_erased_at p = None"
proof -
  obtain p where p: "get_payload db org_id h = Some p"
    using vault_no_key [OF assms(1)] assms(2) by (cases "get_payload db org_id h") auto
  moreover have "\<not> erased db org_id h" using vault_erased_no_key [OF assms(1)] assms(2) by auto
  ultimately show ?thesis by (auto simp: erased_def)
qed

lemma record_event_key:
  assumes "record_event E org_id t seq ty payload pv db = Inr (out, db')"
    and "get_payload db org_id (sha256_hex E (fst (redact_payload payload))) = None"
    and "get_payload_key db org_id (sha256_hex E (fst (redact_payload payload))) = None"
  shows "get_payload_key db' org_id (sha256_hex E (fst (redact_payload payload))) \<noteq> None"
proof -
  let ?h = "sha256_hex E (fst (redact_payload payload))"
  obtain tr db1 db2 e where tr: "get_or_create_trace E org_id t pv db = Inr (tr, db1)"
    and st: "store_encrypted_payload E org_id ?h (fst (redact_payload payload))
      (snd (redact_payload payload)) db1 = Inr db2"
    and db': "db' = db2\<lparr>draws := Suc (draws db2), events := events db2 @ [e]\<rparr>"
    using assms(1) by (rule record_event_Inr) auto
  obtain ts where db1: "db1 = db\<lparr>traces := traces db @ ts\<rparr>"
    using get_or_create_trace_Inr(3) [OF tr] by blast
  have "get_payload db1 org_id ?h = None" using assms(2) by (simp add: db1 get_payload_def)
  from this st obtain k where k: "payload_keys db2 = payload_keys db1 @ [k]" "key_id_of k = (org_id, ?h)"
    by (elim store_new) auto
  have "get_payload_key db1 org_id ?h = None" using assms(3) by (simp add: db1 get_payload_key_def)
  then have "get_payload_key db2 org_id ?h = Some k"
    using k(2) by (simp add: get_payload_key_append [OF k(1)])
  then show ?thesis by (simp add: db' get_payload_key_def)
qed

text \<open>Erasing the payload of a stored event succeeds while its key is there.\<close>

lemma erase_accepts:
  assumes "log_ok E db" "get_trace_by_id db t = Some tr" "t_org_id tr = org_id"
    and "target \<in> set (trace_events db t)" "e_seq target = target_seq"
    and "get_payload_key db org_id (e_payload_hash target) \<noteq> None"
    and "length (trace_events db t) < 2147483647" "can_sign E db org_id" "wrapping_pem db org_id = None"
  shows "\<exists>res db'. erase_event_payload E org_id t target_seq approver reason db = Inr (res, db')"
proof -
  have ok: "trace_ok E db t" using assms(1) by (simp add: log_ok_def)
  have rows: "events_for_trace db org_id t = trace_events db t"
    by (rule events_for_trace_rows(1) [OF ok assms(2,3)])
  have "distinct (map e_seq (trace_events db t))"
    using ok by (simp add: trace_ok_def distinct_map del: upt_Suc)
  then have f: "List.find (\<lambda>e. e_seq e = target_seq) (trace_events db t) = Some target"
    using one_or_none_unique [OF _ assms(4), of e_seq] assms(5) by (simp add: one_or_none_def)
  obtain p where p: "get_payload db org_id (e_payload_hash target) = Some p" "p_erased_at p = None"
    using vault_key_payload [OF _ assms(6)] assms(1) by (auto simp: log_ok_def)
  obtain db1 where sh: "crypto_shred_payload E org_id (e_payload_hash target) db = (True, db1)"
    using shred_total [OF assms(6)] by blast
  note l1 = shred_log_ok [OF assms(1) sh]
  have same: "signing_keys db1 = signing_keys db" "orgs db1 = orgs db"
    using sh by (auto simp: crypto_shred_payload_def split: option.splits)
  have tr1: "trace_events db1 t = trace_events db t" by (simp add: trace_events_def l1(2))
  have ne: "trace_events db t \<noteq> []" using assms(4) by auto
  have "can_sign E db1 org_id" "wrapping_pem db1 org_id = None" "get_trace_by_id db1 t = Some tr"
    using assms(2,8,9) same l1(3) sign_event_for_org_keys [OF same(1)]
    by (simp_all add: can_sign_def wrapping_pem_def get_org_by_id_def get_trace_by_id_def)
  then have "\<exists>out db'. record_event E org_id t (e_seq (last (trace_events db t)) + 1) ''erasure''
       [(''target_payload_hash'', JStr (e_payload_hash target)), (''target_seq'', JInt target_seq),
        (''approver_id'', JStr approver), (''reason'', JStr reason)]
       (e_policy_version target) db1 = Inr (out, db')"
    using l1(1) assms(3,7) last_seq [OF ok ne]
    by (intro record_event_accepts) (auto simp: tr1 strip_def is_space_def nat_of_char_def)
  with f p sh ne assms(2,3) rows show ?thesis
    by (auto simp: erase_event_payload_def ensure_trace_access_def Let_def)
qed


section \<open>Properties\<close>

lemma demo_recorded:
  "\<exists>out db'. record_event demo_env ''o'' ''t'' 1 ''input'' [(''a'', JInt 1)] None empty_db = Inr (out, db')"
proof (rule record_event_accepts [OF log_ok_empty])
  show "strip ''input'' \<noteq> []" by code_simp
  show "can_sign demo_env empty_db ''o''" by (rule demo_can_sign) (simp add: empty_db_def)
qed (simp_all add: empty_db_def get_trace_by_id_def trace_events_def wrapping_pem_def get_org_by_id_def)

text \<open>C1. Recording extends the chain: a request that succeeds appends exactly one event, numbered one
  more than the events its trace had, linked to the hash of the trace's last event, over the
  redacted payload, with the returned hash and signature; no stored event changes, and every trace
  of the database stays a chain that verifies.\<close>

theorem record_event_extends_chain:
  assumes "log_ok E db" "service_key_ok E"
    and "record_event E org_id t seq ty payload pv db = Inr (out, db')"
  shows "log_ok E db' \<and>
    (\<exists>e. events db' = events db @ [e] \<and> trace_events db' t = trace_events db t @ [e] \<and>
       e_org_id e = org_id \<and> e_seq e = seq \<and> e_type e = ty \<and> e_policy_version e = pv \<and>
       seq = int (length (trace_events db t)) + 1 \<and>
       e_payload_hash e = sha256_hex E (fst (redact_payload payload)) \<and>
       e_prev_hash e =
         (if trace_events db t = [] then None else Some (e_hash (last (trace_events db t)))) \<and>
       event_ok E db' e)"
proof -
  note r = record_event_log [OF assms]
  obtain sig kid eid where ev: "events db' = events db @
       [new_event E org_id t seq ty payload pv (map_option e_hash (first (rev (trace_events db t))))
          sig kid eid]" (is "_ = _ @ [?e]") using r(2) by blast
  have tr: "trace_events db' t = trace_events db t @ [?e]" by (simp add: trace_events_def ev)
  moreover have "event_ok E db' ?e" by (rule log_okD(1) [OF r(1), where t = t]) (simp add: tr)
  ultimately show ?thesis using r(1,3) ev
    by (intro conjI exI [of _ ?e]) (simp_all add: first_rev)
qed

theorem record_event_extends_chain_witness:
  "\<exists>out db'. record_event demo_env ''o'' ''t'' 1 ''input'' [(''a'', JInt 1)] None empty_db = Inr (out, db') \<and>
     log_ok demo_env db' \<and> (\<exists>e. events db' = events empty_db @ [e] \<and> e_prev_hash e = None)"
proof -
  obtain out db' where
    r: "record_event demo_env ''o'' ''t'' 1 ''input'' [(''a'', JInt 1)] None empty_db = Inr (out, db')"
    using demo_recorded by blast
  have "trace_events empty_db ''t'' = []" by (simp add: trace_events_def empty_db_def)
  with record_event_extends_chain [OF log_ok_empty demo_keys_ok(1) r] r show ?thesis by auto
qed



text \<open>C3. Replay verifies what was recorded: on an intact log, replaying a trace of one's own
  organization that has events returns a verdict with every event verified (hash, signature and
  link), one per recorded event, in order.\<close>

theorem replay_verifies_recorded:
  assumes "log_ok E db" "service_key_ok E" "get_trace_by_id db t = Some tr" "t_org_id tr = org_id"
    and "trace_events db t \<noteq> []"
  shows "\<exists>r. replay_trace E db org_id t = Inr r \<and> tr_all_verified r \<and>
    map ev_seq (tr_events r) = map e_seq (trace_events db t) \<and>
    (\<forall>x \<in> set (tr_events r). ev_hash_ok x \<and> ev_signature_ok x \<and> ev_chain_ok x)"
proof -
  have ok: "trace_ok E db t" using assms(1) by (simp add: log_ok_def)
  obtain g where g: "load_public_pem E = Inr g" using assms(2) by (auto simp: service_key_ok_def)
  have "verify_loop E (resolve_pem db g) None (trace_events db t) =
    Inr (map (\<lambda>e. \<lparr>ev_seq = e_seq e, ev_type = e_type e, ev_verified = True, ev_hash_ok = True,
                   ev_signature_ok = True, ev_chain_ok = True\<rparr>) (trace_events db t))"
    using ok by (intro verify_loop_ok [OF _ g]) (auto simp: trace_ok_def)
  moreover have "chain_pem None (Some (resolve_pem db g)) = resolve_pem db g"
    by (simp add: chain_pem_def fun_eq_iff)
  ultimately show ?thesis
    using assms(3-5) g events_for_trace_rows(1) [OF ok assms(3,4)]
    by (auto simp: replay_trace_def ensure_trace_access_def verify_event_chain_def Let_def
        list_all_iff comp_def)
qed

theorem replay_verifies_recorded_witness:
  "\<exists>out db' r. record_event demo_env ''o'' ''t'' 1 ''input'' [(''a'', JInt 1)] None empty_db = Inr (out, db') \<and>
     replay_trace demo_env db' ''o'' ''t'' = Inr r \<and> tr_all_verified r \<and> map ev_seq (tr_events r) = [1]"
proof -
  obtain out db' where
    r: "record_event demo_env ''o'' ''t'' 1 ''input'' [(''a'', JInt 1)] None empty_db = Inr (out, db')"
    using demo_recorded by blast
  note l = record_event_log [OF log_ok_empty demo_keys_ok(1) r]
  obtain tr where tr: "get_trace_by_id db' ''t'' = Some tr" "t_org_id tr = ''o''" using l(4) by blast
  have "\<exists>e. trace_events db' ''t'' = [e] \<and> e_seq e = 1"
    using l(2) by (auto simp: trace_events_def empty_db_def)
  with replay_verifies_recorded [OF l(1) demo_keys_ok(1) tr] r show ?thesis by force
qed

text \<open>C2. Tamper evidence: if two lists of events both verify as chains and end in the same event
  hash, they record the same things: the same number of events, each with the same trace, sequence
  number, type, payload hash, link, policy version, time and algorithm; or two different texts with
  equal SHA-256 digest are among the texts hashed for them.  Whoever holds the last hash of a trace
  detects any change to any earlier event, whatever keys the forger has.\<close>

theorem chain_tamper_evident:
  assumes "verify_event_chain E t xs pem resolve = Inr r" "tr_all_verified r"
    and "verify_event_chain E t' ys pem' resolve' = Inr r'" "tr_all_verified r'"
    and "xs \<noteq> []" "ys \<noteq> []" "\<forall>e \<in> set xs \<union> set ys. textual e"
    and "e_hash (last xs) = e_hash (last ys)"
  shows "map content xs = map content ys \<or> collision E (sealed_text ` set xs) (sealed_text ` set ys)"
proof -
  obtain rs where "verify_loop E (chain_pem pem resolve) None xs = Inr rs" "list_all ev_verified rs"
    using assms(1,2) by (auto simp: verify_event_chain_def bind_res_eq_Inr)
  note x = verify_loop_verified [OF this]
  obtain rs' where "verify_loop E (chain_pem pem' resolve') None ys = Inr rs'" "list_all ev_verified rs'"
    using assms(3,4) by (auto simp: verify_event_chain_def bind_res_eq_Inr)
  note y = verify_loop_verified [OF this]
  show ?thesis
    using chained_same_end [OF x(1) y(1) assms(5,6) _ assms(8)] x(2) y(2) assms(7) by blast
qed

theorem chain_tamper_evident_witness:
  "\<exists>out db' xs ys r r' g.
     record_event demo_env ''o'' ''t'' 1 ''input'' [(''a'', JInt 1)] None empty_db = Inr (out, db') \<and>
     xs = trace_events db' ''t'' \<and> ys = map (\<lambda>e. e\<lparr>e_batch_id := Some ''b''\<rparr>) xs \<and>
     verify_event_chain demo_env ''t'' xs None (Some (resolve_pem db' g)) = Inr r \<and> tr_all_verified r \<and>
     verify_event_chain demo_env ''t'' ys None (Some (resolve_pem db' g)) = Inr r' \<and> tr_all_verified r' \<and>
     (map content xs = map content ys \<or> collision demo_env (sealed_text ` set xs) (sealed_text ` set ys))"
proof -
  obtain out db' where
    r: "record_event demo_env ''o'' ''t'' 1 ''input'' [(''a'', JInt 1)] None empty_db = Inr (out, db')"
    using demo_recorded by blast
  note l = record_event_log [OF log_ok_empty demo_keys_ok(1) r]
  obtain g where g: "load_public_pem demo_env = Inr g"
    using demo_keys_ok(1) by (auto simp: service_key_ok_def)
  define xs where "xs = trace_events db' ''t''"
  define ys where "ys = map (\<lambda>e. e\<lparr>e_batch_id := Some ''b''\<rparr>) xs"
  obtain e where e: "xs = [e]" using l(2) by (auto simp: xs_def trace_events_def empty_db_def)
  have "trace_ok demo_env db' ''t''" using l(1) by (simp add: log_ok_def)
  then have ok: "event_ok demo_env db' e" "e_prev_hash e = None"
    using e by (simp_all add: xs_def trace_ok_def)
  have vx: "\<exists>r. verify_event_chain demo_env ''t'' xs None (Some (resolve_pem db' g)) = Inr r \<and> tr_all_verified r"
    by (rule verify_event_chain_ok [OF _ g]) (use ok in \<open>simp_all add: e\<close>)
  have vy: "\<exists>r. verify_event_chain demo_env ''t'' ys None (Some (resolve_pem db' g)) = Inr r \<and> tr_all_verified r"
    by (rule verify_event_chain_ok [OF _ g]) (use ok in \<open>simp_all add: e ys_def event_ok_batch\<close>)
  have tx: "\<forall>e \<in> set xs \<union> set ys. textual e"
    using event_ok_textual [OF ok(1)] by (simp add: e ys_def textual_def)
  have "e_hash (last xs) = e_hash (last ys)" "xs \<noteq> []" "ys \<noteq> []" by (simp_all add: e ys_def)
  with vx vy tx r show ?thesis using chain_tamper_evident xs_def ys_def by metis
qed

text \<open>Isolation of organizations: on a trace that belongs to another organization, recording,
  replaying and erasing all fail with \<open>TraceAccessDeniedError\<close>.\<close>

theorem foreign_trace_denied:
  assumes "get_trace_by_id db t = Some tr" "t_org_id tr \<noteq> org_id" "strip ty \<noteq> []"
  shows "record_event E org_id t seq ty payload pv db = Inl TraceAccessDeniedError \<and>
    replay_trace E db org_id t = Inl TraceAccessDeniedError \<and>
    erase_event_payload E org_id t target approver reason db = Inl TraceAccessDeniedError"
proof -
  have "ty \<noteq> []" using assms(3) by (auto simp: strip_def)
  then show ?thesis using assms
    by (simp add: record_event_def get_or_create_trace_def replay_trace_def erase_event_payload_def
        ensure_trace_access_def)
qed

theorem foreign_trace_denied_witness:
  "record_event demo_env ''o2'' ''t'' 1 ''input'' [] None
      (empty_db\<lparr>traces := [\<lparr>t_id = ''t'', t_org_id = ''o'', t_policy_version = None, t_root_hash = None,
        t_created_at = 0\<rparr>]\<rparr>) = Inl TraceAccessDeniedError"
proof -
  have "strip ''input'' \<noteq> []" by code_simp
  with foreign_trace_denied [of "empty_db\<lparr>traces := [\<lparr>t_id = ''t'', t_org_id = ''o'',
      t_policy_version = None, t_root_hash = None, t_created_at = 0\<rparr>]\<rparr>" "''t''" _ "''o2''" "''input''"]
  show ?thesis by (simp add: get_trace_by_id_def)
qed

text \<open>C15. Erasure destroys the content and keeps the chain: after a successful erasure the target's
  content cannot be read and its key is gone, every event recorded before is still there
  unchanged, one erasure event naming the target's payload hash is appended, and all traces still
  verify.\<close>

theorem erasure_keeps_chain:
  assumes "log_ok E db" "service_key_ok E"
    and "erase_event_payload E org_id t target_seq approver reason db = Inr (res, db')"
  shows "log_ok E db' \<and>
    read_payload_content E db' org_id (er_target_payload_hash res) = Inr None \<and>
    get_payload_key db' org_id (er_target_payload_hash res) = None \<and>
    (\<exists>target \<in> set (events_for_trace db org_id t).
       e_seq target = target_seq \<and> e_payload_hash target = er_target_payload_hash res) \<and>
    (\<exists>e. events db' = events db @ [e] \<and> e_type e = ''erasure'' \<and> e_trace_id e = t \<and>
       e_seq e = er_erasure_seq res \<and>
       e_payload_hash e = sha256_hex E (fst (redact_payload
         [(''target_payload_hash'', JStr (er_target_payload_hash res)), (''target_seq'', JInt target_seq),
          (''approver_id'', JStr approver), (''reason'', JStr reason)])))"
proof -
  obtain target db1 out seq where t: "target \<in> set (events_for_trace db org_id t)"
      "e_seq target = target_seq" "er_target_payload_hash res = e_payload_hash target"
    and sh: "crypto_shred_payload E org_id (e_payload_hash target) db = (True, db1)"
    and rec: "record_event E org_id t seq ''erasure''
       [(''target_payload_hash'', JStr (e_payload_hash target)), (''target_seq'', JInt target_seq),
        (''approver_id'', JStr approver), (''reason'', JStr reason)]
       (e_policy_version target) db1 = Inr (out, db')"
    and out: "er_erasure_seq res = eo_seq out"
    using assms(3) by (rule erase_Inr)
  note l1 = shred_log_ok [OF assms(1) sh]
  note l = record_event_log [OF l1(1) assms(2) rec]
  have er: "erased db' org_id (e_payload_hash target)"
    by (rule record_event_erased [OF shred_erases [OF _ sh] rec]) (use assms(1) in \<open>simp add: log_ok_def\<close>)
  have key: "get_payload_key db' org_id (e_payload_hash target) = None"
    using l(1) er by (simp add: log_ok_def vault_erased_no_key)
  have "eo_seq out = seq" using rec by (rule record_event_Inr) simp
  with l(1,2) l1(2) t out er key show ?thesis by (auto simp: read_erased)
qed

theorem erasure_keeps_chain_witness:
  "\<exists>out db res db'.
     record_event demo_env ''o'' ''t'' 1 ''input'' [(''a'', JInt 1)] None empty_db = Inr (out, db) \<and>
     erase_event_payload demo_env ''o'' ''t'' 1 ''dpo'' ''request'' db = Inr (res, db') \<and>
     log_ok demo_env db' \<and>
     read_payload_content demo_env db' ''o'' (er_target_payload_hash res) = Inr None"
proof -
  obtain out db where
    r: "record_event demo_env ''o'' ''t'' 1 ''input'' [(''a'', JInt 1)] None empty_db = Inr (out, db)"
    using demo_recorded by blast
  note l = record_event_log [OF log_ok_empty demo_keys_ok(1) r]
  obtain tr where tr: "get_trace_by_id db ''t'' = Some tr" "t_org_id tr = ''o''" using l(4) by blast
  obtain e where e: "trace_events db ''t'' = [e]" "e_seq e = 1"
    "e_payload_hash e = sha256_hex demo_env (fst (redact_payload [(''a'', JInt 1)]))"
    using l(2) by (auto simp: trace_events_def empty_db_def)
  have key: "get_payload_key db ''o'' (e_payload_hash e) \<noteq> None"
    using record_event_key [OF r] e(3)
    by (simp add: get_payload_def get_payload_key_def empty_db_def)
  obtain ts ps ks n where d: "db = empty_db\<lparr>traces := traces empty_db @ ts, payloads := ps,
    payload_keys := ks, draws := n, events := events db\<rparr>" using l(5) by blast
  have rest: "signing_keys db = []" "orgs db = []"
    by (subst d, simp add: empty_db_def)+
  obtain res db' where er: "erase_event_payload demo_env ''o'' ''t'' 1 ''dpo'' ''request'' db = Inr (res, db')"
    using erase_accepts [OF l(1) tr, of e 1 "''dpo''" "''request''"] e(1,2) key rest
    by (auto simp: demo_can_sign wrapping_pem_def get_org_by_id_def)
  from erasure_keeps_chain [OF l(1) demo_keys_ok(1) er] r er show ?thesis by blast
qed

end
