(* ===== verification/Remediation.thy ===== *)
theory Remediation
  imports Policy EventLog
begin

text \<open>
  \<^verbatim>\<open>app/services/{mitigation,remediation,rewrite}.py\<close>: the edits that can be applied to an output,
  the deterministic plan offered for a flagged or blocked one, and the model-drafted rewrite.  The
  model API is a parameter: a completer from system and user prompt to a text, or nothing when the
  call raises.
\<close>

section \<open>mitigation.py\<close>

definition VERIFY_DISCLAIMER :: string where
  "VERIFY_DISCLAIMER =
     ''Verify all figures and claims against primary sources before acting on this output.''"

definition redact_pii :: "dict \<Rightarrow> dict" where
  "redact_pii payload = fst (redact_payload payload)"

definition append_disclaimer :: "dict \<Rightarrow> dict" where
  "append_disclaimer payload = dset payload ''attest_disclaimer'' (JStr VERIFY_DISCLAIMER)"

definition soften_text :: "string \<Rightarrow> string" where
  "soften_text s = replace ''risk-free'' ''subject to risk'' (replace ''guaranteed'' ''may'' s)"

definition soften_key :: "dict \<Rightarrow> string \<Rightarrow> dict" where
  "soften_key updated key =
     (case dget updated key of JStr value \<Rightarrow> dset updated key (JStr (soften_text value)) | _ \<Rightarrow> updated)"

definition soften_claims :: "dict \<Rightarrow> dict" where
  "soften_claims payload = foldl soften_key payload [''output'', ''summary'', ''prompt'']"

definition require_human_review_flag :: "dict \<Rightarrow> dict" where
  "require_human_review_flag payload = dset payload ''human_review_required'' (JBool True)"

definition HANDLERS :: "string \<Rightarrow> (dict \<Rightarrow> dict) option" where
  "HANDLERS mitigation_id =
     map_of
       [(''redact_pii_before_send'', redact_pii),
        (''append_verify_disclaimer'', append_disclaimer),
        (''soften_absolute_claims'', soften_claims),
        (''require_human_review'', require_human_review_flag)] mitigation_id"

definition apply_mitigation_ids :: "dict \<Rightarrow> string list \<Rightarrow> dict \<times> string list" where
  "apply_mitigation_ids payload mitigation_ids =
     foldl (\<lambda>(result, applied) m.
              case HANDLERS m of
                None \<Rightarrow> (result, applied)
              | Some handler \<Rightarrow> (handler result, applied @ [m]))
       (payload, []) mitigation_ids"

definition diff_keys :: "dict \<Rightarrow> dict \<Rightarrow> string list" where
  "diff_keys before after =
     filter (\<lambda>k. \<not> py_eq (dget before k) (dget after k))
       (sorted_set (map fst before @ map fst after))"

record mitigation_result =
  mr_trace_id :: string
  mr_seq :: int
  mr_hash :: string
  mr_mitigation_ids :: "string list"
  mr_mitigated_payload :: dict

definition record_mitigation ::
  "env \<Rightarrow> string \<Rightarrow> string \<Rightarrow> int \<Rightarrow> string list \<Rightarrow> dict \<Rightarrow> int option \<Rightarrow> string option \<Rightarrow> db \<Rightarrow>
   (mitigation_result \<times> db) res" where
  "record_mitigation E org_id trace_id seq mitigation_ids source_payload policy_decision_seq
     policy_version db =
     bind_res (ensure_trace_access db org_id trace_id) (\<lambda>_.
     let (mitigated_payload, applied) = apply_mitigation_ids source_payload mitigation_ids in
     if applied = [] then Inl ValueError
     else
     let event_payload =
       [(''mitigation_ids'', jstrs applied),
        (''policy_decision_seq'', jopt JInt policy_decision_seq),
        (''mitigated_fields'', jstrs (diff_keys source_payload mitigated_payload)),
        (''mitigated_payload'', JObj mitigated_payload)]
     in
     bind_res (record_event E org_id trace_id seq ''mitigation'' event_payload policy_version db)
       (\<lambda>(result, db).
     Inr (\<lparr>mr_trace_id = trace_id, mr_seq = eo_seq result, mr_hash = eo_hash result,
           mr_mitigation_ids = applied, mr_mitigated_payload = mitigated_payload\<rparr>, db)))"

section \<open>remediation.py\<close>

text \<open>The em dash of the notes, in UTF-8.\<close>

definition em_dash :: string where
  "em_dash = [CHR 0xE2, CHR 0x80, CHR 0x94]"

text \<open>A plan: the body that is hashed, and its hash; the rewrite is there once one is attached.\<close>

record remediation_plan =
  rem_revised_output :: "dict option"
  rem_edits :: "dict list"
  rem_requirements :: "dict list"
  rem_unresolved :: "dict list"
  rem_rewrite :: "dict option"
  rem_plan_hash :: string

definition jobjs :: "dict list \<Rightarrow> json" where
  "jobjs ds = JList (map JObj ds)"

definition plan_body ::
  "dict option \<Rightarrow> dict list \<Rightarrow> dict list \<Rightarrow> dict list \<Rightarrow> dict option \<Rightarrow> dict" where
  "plan_body revised edits requirements unresolved rewrite =
     [(''revised_output'', jopt JObj revised),
      (''edits'', jobjs edits),
      (''requirements'', jobjs requirements),
      (''unresolved'', jobjs unresolved)] @
     (case rewrite of None \<Rightarrow> [] | Some r \<Rightarrow> [(''rewrite'', JObj r)])"

definition citations :: "dict list \<Rightarrow> string \<Rightarrow> dict list" where
  "citations findings signal =
     [[(''pack_code'', dget f ''pack_code''), (''rule_id'', dget f ''rule_id''),
       (''instrument'', dget f ''instrument''), (''provision'', dget f ''provision'')].
      f \<leftarrow> findings, py_eq (dget f ''matched_on'') (JStr signal)]"

definition TEXTUAL_SIGNALS :: "string list" where
  "TEXTUAL_SIGNALS = [''has_pii'', ''prohibited_phrases'']"

definition REQUIREMENT_SIGNALS :: "string list" where
  "REQUIREMENT_SIGNALS = [''cross_border'']"

text \<open>\<^verbatim>\<open>matched_on\<close> of a finding is a string or null: it comes from \<^verbatim>\<open>PackFinding.to_dict\<close>.\<close>

definition is_mechanical :: "dict \<Rightarrow> bool" where
  "is_mechanical f =
     (\<exists>s \<in> set (TEXTUAL_SIGNALS @ REQUIREMENT_SIGNALS). dget f ''matched_on'' = JStr s)"

definition judgement_note :: "dict \<Rightarrow> dict" where
  "judgement_note f =
     [(''finding'', JObj [(''pack_code'', dget f ''pack_code''), (''rule_id'', dget f ''rule_id''),
        (''instrument'', dget f ''instrument'')]),
      (''note'', JStr (''No mechanical fix exists for this finding '' @ em_dash @
         '' it needs human judgement or a workflow change, not a text edit.''))]"

definition blocked_note :: "string list \<Rightarrow> dict" where
  "blocked_note policy_reasons =
     [(''finding'', JObj [(''rule_id'', JStr ''own_policy''), (''pack_code'', JNull),
        (''instrument'', JStr ''your organisation's own policy'')]),
      (''note'', JStr (''Your own policy denied this action outright'' @
         (case policy_reasons of [] \<Rightarrow> [] | r # _ \<Rightarrow> '': '' @ r) @
         ''. A denied action is a decision, not a wording problem '' @ em_dash @
         '' route it through your approval workflow.''))]"

definition leftover_note :: "string list \<Rightarrow> dict" where
  "leftover_note leftover =
     [(''finding'', JObj [(''rule_id'', JStr ''pii_redaction''), (''pack_code'', JNull),
        (''instrument'', JStr ''Attest PII detector'')]),
      (''note'', JStr (''Automatic redaction could not fully remove detected personal data (remaining: '' @
         join '', '' (sort leftover) @ ''). Review and edit this output by hand.''))]"

definition redact_edit :: "feature_vector \<Rightarrow> dict list \<Rightarrow> dict" where
  "redact_edit f findings =
     [(''kind'', JStr ''redact_pii''),
      (''labels'', jstrs (sort (f_pii_labels f))),
      (''explanation'', JStr (''Personal data detected in the output. The revision replaces each '' @
         ''occurrence with a [REDACTED:<label>] marker.'')),
      (''cures'', jobjs (citations findings ''has_pii''))]"

definition soften_edit :: "feature_vector \<Rightarrow> dict list \<Rightarrow> dict" where
  "soften_edit f findings =
     [(''kind'', JStr ''soften_phrases''),
      (''phrases'', jstrs (sort (f_prohibited_phrases f))),
      (''explanation'', JStr (''Absolute or guaranteed-outcome language detected. The revision softens '' @
         ''it to non-promissory wording.'')),
      (''cures'', jobjs (citations findings ''prohibited_phrases''))]"

definition lawful_basis_requirement :: "dict list \<Rightarrow> dict" where
  "lawful_basis_requirement findings =
     [(''kind'', JStr ''add_field''),
      (''field'', JStr ''lawful_basis''),
      (''explanation'', JStr (''A cross-border transfer needs a documented lawful basis. No text edit '' @
         ''cures this '' @ em_dash @ '' set `lawful_basis` on the payload (e.g. 'contract', 'adequacy') '' @
         ''once the basis exists.'')),
      (''cures'', jobjs (citations findings ''cross_border''))]"

definition plan ::
  "env \<Rightarrow> dict \<Rightarrow> feature_vector \<Rightarrow> dict list \<Rightarrow> string list \<Rightarrow> bool \<Rightarrow> remediation_plan option" where
  "plan E payload f findings policy_reasons blocked =
     (let mitigation_ids =
            (if f_has_pii f then [''redact_pii_before_send''] else []) @
            (if f_prohibited_phrases f \<noteq> [] then [''soften_absolute_claims''] else []);
          edits =
            (if f_has_pii f then [redact_edit f findings] else []) @
            (if f_prohibited_phrases f \<noteq> [] then [soften_edit f findings] else []);
          requirements =
            (if f_cross_border f \<and> \<not> f_lawful_basis_present f
             then [lawful_basis_requirement findings] else []);
          unresolved =
            map judgement_note (filter (\<lambda>x. \<not> is_mechanical x) findings) @
            (if blocked then [blocked_note policy_reasons] else []);
          (revised, edits, unresolved) =
            (if mitigation_ids = [] then (None, edits, unresolved)
             else
               let revised = fst (apply_mitigation_ids payload mitigation_ids);
                   leftover = (if f_has_pii f then detect_pii_labels revised else [])
               in if leftover \<noteq> []
                  then (None, filter (\<lambda>e. dget e ''kind'' \<noteq> JStr ''redact_pii'') edits,
                        unresolved @ [leftover_note leftover])
                  else (Some revised, edits, unresolved))
      in if edits = [] \<and> requirements = [] \<and> unresolved = [] then None
         else Some \<lparr>rem_revised_output = revised, rem_edits = edits, rem_requirements = requirements,
                    rem_unresolved = unresolved, rem_rewrite = None,
                    rem_plan_hash =
                      sha256_hex E (plan_body revised edits requirements unresolved None)\<rparr>)"

definition attach_rewrite :: "env \<Rightarrow> remediation_plan \<Rightarrow> dict \<Rightarrow> remediation_plan" where
  "attach_rewrite E p rewrite =
     p\<lparr>rem_rewrite := Some rewrite,
       rem_plan_hash :=
         sha256_hex E (plan_body (rem_revised_output p) (rem_edits p) (rem_requirements p)
           (rem_unresolved p) (Some rewrite))\<rparr>"

definition kinds_of :: "dict list \<Rightarrow> string list" where
  "kinds_of ds = sorted_set (map (\<lambda>d. py_str (dget d ''kind'')) ds)"

definition chain_summary :: "remediation_plan \<Rightarrow> dict" where
  "chain_summary p =
     [(''plan_hash'', JStr (rem_plan_hash p)),
      (''edit_kinds'', jstrs (kinds_of (rem_edits p))),
      (''requirement_kinds'', jstrs (kinds_of (rem_requirements p))),
      (''unresolved_count'', JInt (int (length (rem_unresolved p)))),
      (''has_revision'', JBool (rem_revised_output p \<noteq> None)),
      (''has_rewrite'', JBool (rem_rewrite p \<noteq> None)),
      (''rewrite_drafted_by'',
        (case rem_rewrite p of None \<Rightarrow> JNull | Some r \<Rightarrow> dget r ''drafted_by'')),
      (''rewrite_reclassified'',
        JBool (case rem_rewrite p of None \<Rightarrow> False | Some r \<Rightarrow> truthy (dget r ''reclassified'')))]"

definition plan_to_dict :: "remediation_plan \<Rightarrow> dict" where
  "plan_to_dict p =
     plan_body (rem_revised_output p) (rem_edits p) (rem_requirements p) (rem_unresolved p)
       (rem_rewrite p) @ [(''plan_hash'', JStr (rem_plan_hash p))]"

section \<open>rewrite.py\<close>

text \<open>The configuration of the rewriter (environment variables) and the model API, which may answer
  differently each time: its first argument numbers the calls of one request.\<close>

record rewriter =
  rw_enabled :: bool
  rw_model :: string
  rw_max_attempts :: nat
  rw_complete :: "nat \<Rightarrow> string \<Rightarrow> string \<Rightarrow> string option"

definition SYSTEM_PROMPT :: string where
  "SYSTEM_PROMPT =
     ''You rewrite AI outputs for a regulated financial institution so they comply '' @
     ''with the rulebooks provided. Hard rules:'' @ [CHR 10] @
     ''- Remove or neutralise every violation the findings describe. No personal data '' @
     ''(emails, phone numbers, IDs), no promissory or guaranteed-outcome language.'' @ [CHR 10] @
     ''- If the only way to comply is to change what the output IS '' @ em_dash @ '' for example an '' @
     ''individualised recommendation must become general market commentary '' @ em_dash @ '' do that, '' @
     ''remove any \"classifier\" field from the payload, and set \"reclassified\": true.'' @ [CHR 10] @
     ''- Preserve the informational value: keep the facts, figures and readings that '' @
     ''were in the original. NEVER invent facts, numbers or claims that were not there.'' @ [CHR 10] @
     ''- Keep the payload's JSON shape: same keys as the original except fields you '' @
     ''must remove to comply.'' @ [CHR 10] @
     ''Return ONLY a JSON object, no prose, no code fences:'' @ [CHR 10] @
     ''{\"revised\": {<the rewritten payload>}, \"reclassified\": <bool>, '' @
     ''\"notes\": \"<one sentence on what you changed and why>\"}''"

text \<open>\<^verbatim>\<open>s[:n]\<close> counts code points: continuation bytes belong to the code point they follow.\<close>

fun cp_take :: "nat \<Rightarrow> string \<Rightarrow> string" where
  "cp_take n [] = []"
| "cp_take n (c # s) =
     (if is_ascii_range 128 191 c then c # cp_take n s
      else case n of 0 \<Rightarrow> [] | Suc m \<Rightarrow> c # cp_take m s)"

definition fence :: string where "fence = ''```''"

definition strip_char :: "char \<Rightarrow> string \<Rightarrow> string" where
  "strip_char c s = rev (dropWhile (\<lambda>x. x = c) (rev (dropWhile (\<lambda>x. x = c) s)))"

text \<open>The text before the last fence, \<^verbatim>\<open>text.rsplit("```", 1)[0]\<close>.\<close>

fun before_last :: "string \<Rightarrow> string \<Rightarrow> string option" where
  "before_last f [] = None"
| "before_last f (c # s) =
     (case before_last f s of
        Some r \<Rightarrow> Some (c # r)
      | None \<Rightarrow> if is_prefix f (c # s) then Some [] else None)"

definition unfence :: "string \<Rightarrow> string" where
  "unfence raw =
     (let text = strip raw in
      if is_prefix fence text
      then
        let text = strip_char (CHR ''`'') text;
            text = (if CHR 10 \<in> set text then tl (dropWhile (\<lambda>c. c \<noteq> CHR 10) text) else text)
        in case before_last fence text of Some r \<Rightarrow> r | None \<Rightarrow> text
      else text)"

definition parse_draft :: "string \<Rightarrow> dict option" where
  "parse_draft raw =
     (case loads (unfence raw) of
        Some (JObj doc) \<Rightarrow> if is_obj (dget doc ''revised'') then Some doc else None
      | _ \<Rightarrow> None)"

record draft =
  dr_output :: dict
  dr_reclassified :: bool
  dr_notes :: string
  dr_drafted_by :: string
  dr_prompt_sha256 :: string

definition draft_to_dict :: "draft \<Rightarrow> dict" where
  "draft_to_dict d =
     [(''output'', JObj (dr_output d)),
      (''reclassified'', JBool (dr_reclassified d)),
      (''notes'', JStr (dr_notes d)),
      (''drafted_by'', JStr (dr_drafted_by d)),
      (''prompt_sha256'', JStr (dr_prompt_sha256 d))]"

definition user_prompt :: "dict \<Rightarrow> dict list \<Rightarrow> dict list \<Rightarrow> json \<Rightarrow> string" where
  "user_prompt payload findings unresolved policy_rules =
     dumps '', '' '': '' (JObj
       [(''output_to_rewrite'', JObj payload),
        (''findings'', jobjs (map (\<lambda>f.
           [(''rule'', dget f ''rule_id''), (''instrument'', dget f ''instrument''),
            (''reason'', dget f ''reason''), (''guidance'', dget f ''guidance'')]) findings)),
        (''needs_judgement'', JList (map (\<lambda>u. dget u ''note'') unresolved)),
        (''institution_policy_rules'', py_or policy_rules (JList []))])"

definition draft_rewrite ::
  "env \<Rightarrow> rewriter \<Rightarrow> nat \<Rightarrow> dict \<Rightarrow> dict list \<Rightarrow> dict list \<Rightarrow> json \<Rightarrow> draft option" where
  "draft_rewrite E R attempt payload findings unresolved policy_rules =
     (if \<not> rw_enabled R then None
      else
        let user = user_prompt payload findings unresolved policy_rules;
            prompt_sha = hex (digest E (SYSTEM_PROMPT @ [CHR 10] @ user))
        in case rw_complete R attempt SYSTEM_PROMPT user of
             None \<Rightarrow> None
           | Some raw \<Rightarrow>
               (case parse_draft raw of
                  None \<Rightarrow> None
                | Some doc \<Rightarrow>
                    Some \<lparr>dr_output = (case dget doc ''revised'' of JObj d \<Rightarrow> d | _ \<Rightarrow> []),
                          dr_reclassified = truthy (dget doc ''reclassified''),
                          dr_notes = cp_take 300 (py_str (dget_def doc ''notes'' (JStr []))),
                          dr_drafted_by = rw_model R,
                          dr_prompt_sha256 = prompt_sha\<rparr>))"

section \<open>Properties\<close>

text \<open>The planner checks its own work: when personal data was detected and the plan offers a
  revised output, the detector finds no personal data in that revision.\<close>

theorem plan_revision_has_no_pii:
  assumes "plan E payload f findings reasons blocked = Some p" "f_has_pii f"
    and "rem_revised_output p = Some r"
  shows "detect_pii_labels r = []"
  using assms by (auto simp: plan_def Let_def split: if_splits)

text \<open>When there is a plan: the planner returns one exactly when it found personal data, a
  prohibited phrase, a transfer without lawful basis, a finding it has no mechanical cure for, or a
  blocked action.\<close>

theorem plan_exists_iff:
  "(\<exists>p. plan E payload f findings reasons blocked = Some p) \<longleftrightarrow>
     f_has_pii f \<or> f_prohibited_phrases f \<noteq> [] \<or> (f_cross_border f \<and> \<not> f_lawful_basis_present f) \<or>
     (\<exists>x \<in> set findings. \<not> is_mechanical x) \<or> blocked"
  by (auto simp: plan_def Let_def filter_empty_conv)

text \<open>A flagged output can go without a plan: an amount of 100,000 or more, with a citation and
  nothing else to object to, is flagged by the high-value layer, and the planner has nothing to say.\<close>

theorem high_value_flag_has_no_plan:
  assumes "a \<ge> 100000" "first_matching_rule (pi_action inp) (pi_payload inp) (pi_features inp) doc = Inr None"
    and "pi_features inp = \<lparr>f_action = act, f_citation_count = 1, f_has_pii = False, f_pii_labels = [],
      f_cross_border = False, f_lawful_basis_present = lb, f_prohibited_phrases = [], f_amount_aed = Some a\<rparr>"
  shows "\<exists>out. evaluate_policy_input inp doc = Inr out \<and>
    derive_status (po_allowed out) (tier_str (po_tier out)) [] = STATUS_FLAGGED \<and>
    plan E payload (pi_features inp) [] (po_reasons out) (\<not> po_allowed out) = None"
proof -
  have "layer_floor_tier (run_deterministic_layers (pi_features inp)) = Orange"
    using assms(1) by (simp add: assms(3) run_deterministic_layers_def layer_floor_tier_def the_layer_def
        max_tier_def)
  with assms(2) obtain out where out: "evaluate_policy_input inp doc = Inr out"
    "po_tier out = Orange" "po_allowed out"
    by (simp add: evaluate_policy_input_def Let_def)
  moreover have "plan E payload (pi_features inp) [] (po_reasons out) (\<not> po_allowed out) = None"
    using out(3) by (simp add: plan_def assms(3) Let_def)
  ultimately show ?thesis by (simp add: derive_status_def FLAGGING_TIERS_def)
qed

theorem high_value_flag_has_no_plan_witness:
  "\<exists>out. evaluate_policy_input
      \<lparr>pi_org_id = ''o'', pi_action = ''pay'', pi_payload = [], pi_fail_mode = ''deny_on_error'',
       pi_policy_version = ''1'', pi_features =
         \<lparr>f_action = ''pay'', f_citation_count = 1, f_has_pii = False, f_pii_labels = [],
          f_cross_border = False, f_lawful_basis_present = False, f_prohibited_phrases = [],
          f_amount_aed = Some 250000\<rparr>\<rparr> [] = Inr out \<and>
     derive_status (po_allowed out) (tier_str (po_tier out)) [] = STATUS_FLAGGED"
  using high_value_flag_has_no_plan
    [of 250000 "\<lparr>pi_org_id = ''o'', pi_action = ''pay'', pi_payload = [], pi_fail_mode = ''deny_on_error'',
       pi_policy_version = ''1'', pi_features =
         \<lparr>f_action = ''pay'', f_citation_count = 1, f_has_pii = False, f_pii_labels = [],
          f_cross_border = False, f_lawful_basis_present = False, f_prohibited_phrases = [],
          f_amount_aed = Some 250000\<rparr>\<rparr>" "[]" "''pay''" False]
  by (auto simp: first_matching_rule_def dget_def dget_def_def)

theorem plan_revision_has_no_pii_witness:
  "\<exists>p r. plan demo_env [(''n'', JInt 1)] (demo_features\<lparr>f_has_pii := True, f_pii_labels := [''email'']\<rparr>) [] [] False = Some p \<and>
     rem_revised_output p = Some r \<and> detect_pii_labels r = []"
proof -
  have a: "fst (apply_mitigation_ids [(''n'', JInt 1)] [''redact_pii_before_send'']) = [(''n'', JInt 1)]"
    by (simp add: apply_mitigation_ids_def HANDLERS_def redact_pii_def redact_payload_def)
  have "detect_pii_labels [(''n'', JInt 1)] = []" by (simp add: detect_pii_labels_def)
  then obtain p where "plan demo_env [(''n'', JInt 1)]
      (demo_features\<lparr>f_has_pii := True, f_pii_labels := [''email'']\<rparr>) [] [] False = Some p"
    "rem_revised_output p = Some [(''n'', JInt 1)]"
    using a by (simp add: plan_def Let_def demo_features_def)
  with plan_revision_has_no_pii [OF this(1) _ this(2)] show ?thesis by (auto simp: demo_features_def)
qed

end
