(* ===== verification/Approvals.thy ===== *)
theory Approvals
  imports Policy EventLog
begin

text \<open>
  Human approval: \<^verbatim>\<open>app/repositories/approvals.py\<close>, \<^verbatim>\<open>app/services/workflow.py\<close> (whether a trace may
  proceed), \<^verbatim>\<open>app/services/approvals.py\<close> (resolving an approval, with its signed event) and
  \<^verbatim>\<open>app/services/workqueue.py\<close> (everything that waits on a person).
\<close>

section \<open>repositories/approvals.py\<close>

definition list_approvals ::
  "db \<Rightarrow> string \<Rightarrow> string option \<Rightarrow> string option \<Rightarrow> nat \<Rightarrow> approval list" where
  "list_approvals db org_id status trace_id limit =
     take limit (order_desc a_created_at
       (filter (\<lambda>a. a_org_id a = org_id \<and>
                    (case status of None \<Rightarrow> True | Some s \<Rightarrow> a_status a = s) \<and>
                    (case trace_id of None \<Rightarrow> True | Some t \<Rightarrow> a_trace_id a = t))
         (approvals db)))"

definition list_approvals_for_trace :: "db \<Rightarrow> string \<Rightarrow> string \<Rightarrow> nat \<Rightarrow> approval list" where
  "list_approvals_for_trace db org_id trace_id limit =
     list_approvals db org_id None (Some trace_id) limit"

definition get_approval :: "db \<Rightarrow> string \<Rightarrow> string \<Rightarrow> approval option" where
  "get_approval db org_id approval_id =
     one_or_none (\<lambda>a. a_org_id a = org_id \<and> a_id a = approval_id) (approvals db)"

definition create_approval ::
  "env \<Rightarrow> string \<Rightarrow> string \<Rightarrow> string option \<Rightarrow> db \<Rightarrow> approval \<times> db" where
  "create_approval E org_id trace_id event_id db =
     (let (aid, db) = new_uuid E db;
          a = \<lparr>a_id = aid, a_org_id = org_id, a_trace_id = trace_id, a_event_id = event_id,
               a_status = ''pending'', a_approver_id = None, a_approver_kind = None,
               a_comment = None, a_created_at = now E, a_resolved_at = None\<rparr>
      in (a, db\<lparr>approvals := approvals db @ [a]\<rparr>))"

definition resolve_approval_row ::
  "approval \<Rightarrow> string \<Rightarrow> string \<Rightarrow> string \<Rightarrow> string option \<Rightarrow> int \<Rightarrow> db \<Rightarrow> db" where
  "resolve_approval_row a status approver_id approver_kind comment resolved_at db =
     db\<lparr>approvals :=
          update_where (\<lambda>x. a_org_id x = a_org_id a \<and> a_id x = a_id a)
            (\<lambda>x. x\<lparr>a_status := status, a_approver_id := Some approver_id,
                   a_approver_kind := Some approver_kind, a_comment := comment,
                   a_resolved_at := Some resolved_at\<rparr>) (approvals db)\<rparr>"

section \<open>workflow.py\<close>

definition read_policy_payload :: "env \<Rightarrow> db \<Rightarrow> string \<Rightarrow> string \<Rightarrow> dict option res" where
  "read_policy_payload E db org_id payload_hash =
     bind_res (read_payload_content E db org_id payload_hash) (\<lambda>c.
     Inr (case c of Some (JObj d) \<Rightarrow> Some d | _ \<Rightarrow> None))"

fun policy_summary_loop :: "env \<Rightarrow> db \<Rightarrow> string \<Rightarrow> event list \<Rightarrow> dict res" where
  "policy_summary_loop E db org_id [] = Inr []"
| "policy_summary_loop E db org_id (e # es) =
     (if e_type e \<noteq> ''policy_decision'' then policy_summary_loop E db org_id es
      else
      bind_res (read_policy_payload E db org_id (e_payload_hash e)) (\<lambda>c.
      case c of
        None \<Rightarrow> policy_summary_loop E db org_id es
      | Some d \<Rightarrow>
          Inr [(''tier'', dget d ''tier''), (''allowed'', dget d ''allowed''),
               (''reasons'', py_or (dget d ''reasons'') (JList [])), (''seq'', JInt (e_seq e))]))"

definition policy_summary_from_events :: "env \<Rightarrow> db \<Rightarrow> string \<Rightarrow> string \<Rightarrow> dict res" where
  "policy_summary_from_events E db org_id trace_id =
     policy_summary_loop E db org_id (rev (events_for_trace db org_id trace_id))"

record gate_status =
  gs_trace_id :: string
  gs_workflow_status :: string
  gs_resume_allowed :: bool
  gs_approval_id :: "string option"
  gs_approval_status :: "string option"
  gs_approver_id :: "string option"
  gs_policy_tier :: json
  gs_policy_reasons :: json
  gs_message :: string

definition spaced_dash :: string where
  "spaced_dash = [CHR '' '', CHR 0xE2, CHR 0x80, CHR 0x94, CHR '' '']"

definition workflow_gate :: "env \<Rightarrow> db \<Rightarrow> string \<Rightarrow> string \<Rightarrow> gate_status res" where
  "workflow_gate E db org_id trace_id =
     bind_res (ensure_trace_access db org_id trace_id) (\<lambda>_.
     let trace_approvals = list_approvals_for_trace db org_id trace_id 20 in
     case List.find (\<lambda>a. a_status a = ''pending'') trace_approvals of
       Some pending \<Rightarrow>
         bind_res (policy_summary_from_events E db org_id trace_id) (\<lambda>policy.
         Inr \<lparr>gs_trace_id = trace_id, gs_workflow_status = ''blocked_pending_approval'',
              gs_resume_allowed = False, gs_approval_id = Some (a_id pending),
              gs_approval_status = Some ''pending'', gs_approver_id = None,
              gs_policy_tier = dget policy ''tier'',
              gs_policy_reasons = dget_def policy ''reasons'' (JList []),
              gs_message = ''Human approval required before this workflow may continue.''\<rparr>)
     | None \<Rightarrow>
         (case List.find (\<lambda>a. a_status a = ''approved'' \<or> a_status a = ''denied'') trace_approvals of
            Some latest \<Rightarrow>
              if a_status latest = ''denied''
              then Inr \<lparr>gs_trace_id = trace_id, gs_workflow_status = ''blocked_denied'',
                        gs_resume_allowed = False, gs_approval_id = Some (a_id latest),
                        gs_approval_status = Some ''denied'', gs_approver_id = a_approver_id latest,
                        gs_policy_tier = JNull, gs_policy_reasons = JNull,
                        gs_message = ''Workflow aborted'' @ spaced_dash @ ''approval was denied.''\<rparr>
              else Inr \<lparr>gs_trace_id = trace_id, gs_workflow_status = ''proceed'',
                        gs_resume_allowed = True, gs_approval_id = Some (a_id latest),
                        gs_approval_status = Some ''approved'', gs_approver_id = a_approver_id latest,
                        gs_policy_tier = JNull, gs_policy_reasons = JNull,
                        gs_message = ''Human approval granted'' @ spaced_dash @ ''workflow may continue.''\<rparr>
          | None \<Rightarrow>
              bind_res (policy_summary_from_events E db org_id trace_id) (\<lambda>policy.
              if dget policy ''tier'' = JStr ''red'' \<and> dget policy ''allowed'' = JBool False
              then Inr \<lparr>gs_trace_id = trace_id, gs_workflow_status = ''blocked_not_allowed'',
                        gs_resume_allowed = False, gs_approval_id = None, gs_approval_status = None,
                        gs_approver_id = None, gs_policy_tier = JStr ''red'',
                        gs_policy_reasons = dget_def policy ''reasons'' (JList []),
                        gs_message = ''RED policy decision blocks this action until approved.''\<rparr>
              else Inr \<lparr>gs_trace_id = trace_id, gs_workflow_status = ''proceed'',
                        gs_resume_allowed = True, gs_approval_id = None, gs_approval_status = None,
                        gs_approver_id = None, gs_policy_tier = dget policy ''tier'',
                        gs_policy_reasons = dget_def policy ''reasons'' (JList []),
                        gs_message = ''No approval gate'' @ spaced_dash @ ''workflow may continue.''\<rparr>)))"

definition resume_allowed_for_approval_status :: "string \<Rightarrow> bool" where
  "resume_allowed_for_approval_status status = (status = ''approved'')"

section \<open>approvals.py\<close>

definition APPROVAL_STATUSES :: "string list" where
  "APPROVAL_STATUSES = [''approved'', ''denied'']"

record approval_result =
  apr_approval_id :: string
  apr_trace_id :: string
  apr_status :: string
  apr_event_seq :: int
  apr_event_hash :: string
  apr_resume_allowed :: bool
  apr_workflow_status :: string

definition approval_payload ::
  "string \<Rightarrow> string \<Rightarrow> string \<Rightarrow> string \<Rightarrow> string option \<Rightarrow> string option \<Rightarrow> string option \<Rightarrow> dict" where
  "approval_payload approval_id status approver_id approver_kind comment user_id display =
     [(''approval_id'', JStr approval_id), (''status'', JStr status),
      (''approver_id'', JStr approver_id), (''approver_kind'', JStr approver_kind),
      (''comment'', JStr (case comment of None \<Rightarrow> [] | Some c \<Rightarrow> c))] @
     (case user_id of None \<Rightarrow> [] | Some u \<Rightarrow> [(''approver_user_id'', JStr u)]) @
     (case display of None \<Rightarrow> [] | Some d \<Rightarrow> [(''approver_display'', JStr d)])"

definition resolve_approval ::
  "env \<Rightarrow> string \<Rightarrow> string \<Rightarrow> string \<Rightarrow> string \<Rightarrow> string \<Rightarrow> string option \<Rightarrow> string option \<Rightarrow>
   string option \<Rightarrow> db \<Rightarrow> (approval_result \<times> db) res" where
  "resolve_approval E org_id approval_id status approver_id approver_kind approver_user_id
     approver_display comment db =
     (if status \<notin> set APPROVAL_STATUSES then Inl ValueError
      else
      case get_approval db org_id approval_id of
        None \<Rightarrow> Inl ApprovalNotFoundError
      | Some a \<Rightarrow>
          if a_status a \<noteq> ''pending'' then Inl ApprovalAlreadyResolvedError
          else
          let db = resolve_approval_row a status approver_id approver_kind comment
                     (truncate_second (now E)) db;
              es = events_for_trace db org_id (a_trace_id a);
              next_seq = (if es \<noteq> [] then e_seq (last es) + 1 else 1)
          in
          bind_res (record_event E org_id (a_trace_id a) next_seq ''approval_action''
            (approval_payload approval_id status approver_id approver_kind comment
               approver_user_id approver_display) None db) (\<lambda>(ev, db).
          bind_res (workflow_gate E db org_id (a_trace_id a)) (\<lambda>gate.
          Inr (\<lparr>apr_approval_id = approval_id, apr_trace_id = a_trace_id a, apr_status = status,
                apr_event_seq = eo_seq ev, apr_event_hash = eo_hash ev,
                apr_resume_allowed = resume_allowed_for_approval_status status,
                apr_workflow_status = gs_workflow_status gate\<rparr>, db))))"

section \<open>workqueue.py\<close>

definition OPEN_ITEMS_LIMIT :: nat where "OPEN_ITEMS_LIMIT = 50"

definition decision_context :: "db \<Rightarrow> string \<Rightarrow> string \<Rightarrow> policy_decision_summary option" where
  "decision_context db org_id trace_id =
     first (order_desc ds_seq
       (filter (\<lambda>d. ds_org_id d = org_id \<and> ds_trace_id d = trace_id) (summaries db)))"

definition flag_row :: "policy_decision_summary \<Rightarrow> dict" where
  "flag_row d =
     [(''trace_id'', JStr (ds_trace_id d)),
      (''seq'', JInt (ds_seq d)),
      (''action'', JStr (ds_action d)),
      (''tier'', JStr (ds_tier d)),
      (''status'', jopt JStr (ds_status d)),
      (''created_at'', JStr (isoformat (ds_created_at d))),
      (''remediation'', jopt JObj (ds_remediation d)),
      (''findings_count'', JInt (int (length (ds_findings d))))]"

definition approval_row :: "db \<Rightarrow> string \<Rightarrow> approval \<Rightarrow> dict" where
  "approval_row db org_id a =
     (let ctx = decision_context db org_id (a_trace_id a) in
      [(''approval_id'', JStr (a_id a)),
       (''trace_id'', JStr (a_trace_id a)),
       (''created_at'', JStr (isoformat (a_created_at a))),
       (''action'', jopt (\<lambda>c. JStr (ds_action c)) ctx),
       (''tier'', jopt (\<lambda>c. JStr (ds_tier c)) ctx),
       (''decision_status'', jopt (\<lambda>c. jopt JStr (ds_status c)) ctx)])"

record workqueue =
  wq_pending_approvals :: "dict list"
  wq_open_flags :: "dict list"
  wq_rewrite_confirmations :: "dict list"
  wq_total :: nat

definition open_flags :: "db \<Rightarrow> string \<Rightarrow> policy_decision_summary list" where
  "open_flags db org_id =
     take OPEN_ITEMS_LIMIT (order_desc ds_created_at
       (filter (\<lambda>d. ds_org_id d = org_id \<and> ds_status d = Some ''flagged'' \<and>
                    ds_remediated_by_seq d = None \<and> ds_remediation_of d = None) (summaries db)))"

definition needs_confirmation :: "policy_decision_summary \<Rightarrow> bool" where
  "needs_confirmation d =
     (case ds_remediation d of
        None \<Rightarrow> False
      | Some r \<Rightarrow> truthy (dget r ''has_rewrite'') \<and> truthy (dget r ''rewrite_reclassified''))"

definition build_workqueue :: "db \<Rightarrow> string \<Rightarrow> workqueue" where
  "build_workqueue db org_id =
     (let pending =
            take OPEN_ITEMS_LIMIT (order_asc a_created_at
              (filter (\<lambda>a. a_org_id a = org_id \<and> a_status a = ''pending'') (approvals db)));
          flags = open_flags db org_id
      in \<lparr>wq_pending_approvals = map (approval_row db org_id) pending,
          wq_open_flags = map flag_row flags,
          wq_rewrite_confirmations = map flag_row (filter needs_confirmation flags),
          wq_total = length pending + length flags\<rparr>)"

section \<open>Lemmas\<close>

lemma record_event_frame:
  assumes "record_event E org_id t seq ty payload pv db = Inr (out, db')"
  shows "\<exists>ts ps ks n es. db' = db\<lparr>traces := traces db @ ts, payloads := ps, payload_keys := ks,
    draws := n, events := events db @ es\<rparr>"
proof -
  obtain tr db1 db2 e where tr: "get_or_create_trace E org_id t pv db = Inr (tr, db1)"
    and st: "store_encrypted_payload E org_id (e_payload_hash e) (fst (redact_payload payload))
      (snd (redact_payload payload)) db1 = Inr db2"
    and db': "db' = db2\<lparr>draws := Suc (draws db2), events := events db2 @ [e]\<rparr>"
    using assms by (rule record_event_Inr) blast
  obtain ts where db1: "db1 = db\<lparr>traces := traces db @ ts\<rparr>"
    using get_or_create_trace_Inr(3) [OF tr] by blast
  obtain n ps ks where db2: "db2 = db1\<lparr>draws := n, payloads := ps, payload_keys := ks\<rparr>"
    using store_frame [OF st] by blast
  show ?thesis
    by (intro exI [of _ ts] exI [of _ ps] exI [of _ ks] exI [of _ "Suc n"] exI [of _ "[e]"])
      (simp add: db' db2 db1)
qed

lemma record_event_approvals:
  "record_event E org_id t seq ty payload pv db = Inr (out, db') \<Longrightarrow> approvals db' = approvals db"
  by (auto dest: record_event_frame)

lemma resolve_Inr:
  assumes "resolve_approval E org_id aid status who kind uid disp comment db = Inr (r, db')"
  obtains a seq out where "status \<in> set APPROVAL_STATUSES" "get_approval db org_id aid = Some a"
    "a_status a = ''pending''"
    "record_event E org_id (a_trace_id a) seq ''approval_action''
       (approval_payload aid status who kind comment uid disp) None
       (resolve_approval_row a status who kind comment (truncate_second (now E)) db) = Inr (out, db')"
    "apr_event_seq r = eo_seq out" "apr_event_hash r = eo_hash out" "apr_trace_id r = a_trace_id a"
    "apr_resume_allowed r = (status = ''approved'')"
  using assms
  by (auto simp: resolve_approval_def Let_def bind_res_eq_Inr resume_allowed_for_approval_status_def
      split: if_splits option.splits)

lemma resolve_row_log_ok:
  "log_ok E db \<Longrightarrow> log_ok E (resolve_approval_row a st who kind c tm db)"
  by (erule log_ok_same) (simp_all add: resolve_approval_row_def)

lemma resolve_log_ok:
  assumes "log_ok E db" "service_key_ok E"
    and "resolve_approval E org_id aid status who kind uid disp comment db = Inr (r, db')"
  shows "log_ok E db'"
proof -
  obtain a seq out where "record_event E org_id (a_trace_id a) seq ''approval_action''
       (approval_payload aid status who kind comment uid disp) None
       (resolve_approval_row a status who kind comment (truncate_second (now E)) db) = Inr (out, db')"
    using assms(3) by (rule resolve_Inr)
  from record_event_log(1) [OF resolve_row_log_ok [OF assms(1)] assms(2) this] show ?thesis .
qed

lemma get_approval_resolved:
  assumes "get_approval db org_id aid = Some a"
  shows "get_approval (resolve_approval_row a st who kind c tm db) org_id aid =
    Some (a\<lparr>a_status := st, a_approver_id := Some who, a_approver_kind := Some kind, a_comment := c,
            a_resolved_at := Some tm\<rparr>)"
proof -
  have "a_org_id a = org_id" "a_id a = aid"
    using assms by (auto simp: get_approval_def dest: one_or_none_Some)
  then show ?thesis using assms
    by (simp add: get_approval_def resolve_approval_row_def one_or_none_update_where)
qed

lemma find_Some_status:
  "List.find (\<lambda>a. a_status a = x \<or> a_status a = y) l = Some a \<Longrightarrow> a_status a = x \<or> a_status a = y"
  by (auto simp: find_Some_iff)

section \<open>Properties\<close>

text \<open>An approval is resolved at most once: after a successful resolution the row carries the given
  status and approver, the resolution is recorded as one signed event appended to the approval's
  trace over exactly that decision, every trace still verifies, and any later attempt to resolve the
  same approval, with whatever status, is refused.\<close>

theorem approval_resolved_once:
  assumes "log_ok E db" "service_key_ok E"
    and "resolve_approval E org_id aid status who kind uid disp comment db = Inr (r, db')"
  shows "\<exists>a. get_approval db org_id aid = Some a \<and> a_status a = ''pending'' \<and>
    get_approval db' org_id aid = Some (a\<lparr>a_status := status, a_approver_id := Some who,
      a_approver_kind := Some kind, a_comment := comment,
      a_resolved_at := Some (truncate_second (now E))\<rparr>) \<and>
    log_ok E db' \<and>
    (\<exists>e. events db' = events db @ [e] \<and> e_type e = ''approval_action'' \<and> e_trace_id e = a_trace_id a \<and>
       e_payload_hash e = sha256_hex E (fst (redact_payload
         (approval_payload aid status who kind comment uid disp)))) \<and>
    (\<forall>status' who' kind' uid' disp' comment'. status' \<in> set APPROVAL_STATUSES \<longrightarrow>
       resolve_approval E org_id aid status' who' kind' uid' disp' comment' db' =
         Inl ApprovalAlreadyResolvedError)"
proof -
  obtain a seq out where st: "status \<in> set APPROVAL_STATUSES" and a: "get_approval db org_id aid = Some a"
    "a_status a = ''pending''"
    and rec: "record_event E org_id (a_trace_id a) seq ''approval_action''
       (approval_payload aid status who kind comment uid disp) None
       (resolve_approval_row a status who kind comment (truncate_second (now E)) db) = Inr (out, db')"
    using assms(3) by (rule resolve_Inr)
  note l = record_event_log [OF resolve_row_log_ok [OF assms(1)] assms(2) rec]
  have g: "get_approval db' org_id aid = Some (a\<lparr>a_status := status, a_approver_id := Some who,
      a_approver_kind := Some kind, a_comment := comment,
      a_resolved_at := Some (truncate_second (now E))\<rparr>)"
    using get_approval_resolved [OF a(1)] record_event_approvals [OF rec]
    by (simp add: get_approval_def)
  moreover have "status \<noteq> ''pending''" using st by (auto simp: APPROVAL_STATUSES_def)
  ultimately have "resolve_approval E org_id aid status' who' kind' uid' disp' comment' db' =
         Inl ApprovalAlreadyResolvedError" if "status' \<in> set APPROVAL_STATUSES"
    for status' who' kind' uid' disp' comment'
    using that by (simp add: resolve_approval_def)
  with a g l(1,2) show ?thesis by (auto simp: resolve_approval_row_def)
qed

text \<open>The approvals of a trace, most recent first.\<close>

definition trace_approvals :: "db \<Rightarrow> string \<Rightarrow> string \<Rightarrow> approval list" where
  "trace_approvals db org_id t =
     order_desc a_created_at (filter (\<lambda>a. a_org_id a = org_id \<and> a_trace_id a = t) (approvals db))"

lemma list_approvals_for_trace_eq:
  "list_approvals_for_trace db org_id t n = take n (trace_approvals db org_id t)"
  by (simp add: list_approvals_for_trace_def list_approvals_def trace_approvals_def)

text \<open>What the workflow gate lets through: for a trace with at most 20 approvals, the gate allows
  resumption exactly when no approval of the trace is pending and either the most recent resolved
  approval is an approval, or there is none and the last readable policy decision is not a red
  denial.  Otherwise it reports which of the three blocks applies.\<close>

theorem workflow_gate_sound:
  assumes "workflow_gate E db org_id t = Inr g" "length (trace_approvals db org_id t) \<le> 20"
  shows "gs_resume_allowed g \<longleftrightarrow>
    (\<forall>a \<in> set (approvals db). a_org_id a = org_id \<and> a_trace_id a = t \<longrightarrow> a_status a \<noteq> ''pending'') \<and>
    (case List.find (\<lambda>a. a_status a = ''approved'' \<or> a_status a = ''denied'') (trace_approvals db org_id t) of
       Some a \<Rightarrow> a_status a = ''approved''
     | None \<Rightarrow> \<exists>p. policy_summary_from_events E db org_id t = Inr p \<and>
                 \<not> (dget p ''tier'' = JStr ''red'' \<and> dget p ''allowed'' = JBool False))"
proof -
  let ?l = "trace_approvals db org_id t"
  have tk: "take 20 ?l = ?l" using assms(2) by simp
  have pend: "List.find (\<lambda>a. a_status a = ''pending'') ?l = None \<longleftrightarrow>
    (\<forall>a \<in> set (approvals db). a_org_id a = org_id \<and> a_trace_id a = t \<longrightarrow> a_status a \<noteq> ''pending'')"
    by (auto simp: find_None_iff trace_approvals_def)
  show "gs_resume_allowed g \<longleftrightarrow>
    (\<forall>a \<in> set (approvals db). a_org_id a = org_id \<and> a_trace_id a = t \<longrightarrow> a_status a \<noteq> ''pending'') \<and>
    (case List.find (\<lambda>a. a_status a = ''approved'' \<or> a_status a = ''denied'') ?l of
       Some a \<Rightarrow> a_status a = ''approved''
     | None \<Rightarrow> \<exists>p. policy_summary_from_events E db org_id t = Inr p \<and>
                 \<not> (dget p ''tier'' = JStr ''red'' \<and> dget p ''allowed'' = JBool False))"
    using assms(1) unfolding pend [symmetric]
    by (auto simp: workflow_gate_def list_approvals_for_trace_eq tk bind_res_eq_Inr Let_def
        split: option.splits if_splits dest!: find_Some_status)
qed

definition demo_approval :: "nat \<Rightarrow> string \<Rightarrow> approval" where
  "demo_approval n status =
     \<lparr>a_id = ''a'' @ nat_str n, a_org_id = ''o'', a_trace_id = ''t'', a_event_id = None,
      a_status = status, a_approver_id = None, a_approver_kind = None, a_comment = None,
      a_created_at = int n, a_resolved_at = None\<rparr>"

definition demo_trace :: trace where
  "demo_trace = \<lparr>t_id = ''t'', t_org_id = ''o'', t_policy_version = None, t_root_hash = None,
     t_created_at = 0\<rparr>"

lemma demo_resolved:
  "\<exists>r db'. resolve_approval demo_env ''o'' ''a1'' ''approved'' ''x'' ''asserted'' None None None
     (empty_db\<lparr>approvals := [demo_approval 1 ''pending'']\<rparr>) = Inr (r, db')"
proof -
  let ?db = "empty_db\<lparr>approvals := [demo_approval 1 ''pending'']\<rparr>"
  let ?a = "demo_approval 1 ''pending''"
  let ?db1 = "resolve_approval_row ?a ''approved'' ''x'' ''asserted'' None (truncate_second (now demo_env)) ?db"
  let ?p = "approval_payload ''a1'' ''approved'' ''x'' ''asserted'' None None None"
  have id: "a_id ?a = ''a1''" "a_org_id ?a = ''o''" "a_trace_id ?a = ''t''" "a_status ?a = ''pending''"
    by (simp_all add: demo_approval_def) code_simp
  have ok: "log_ok demo_env ?db1"
    by (rule resolve_row_log_ok, rule log_ok_same [OF log_ok_empty]) simp_all
  have "\<exists>out db'. record_event demo_env ''o'' ''t'' 1 ''approval_action'' ?p None ?db1 = Inr (out, db')"
  proof (rule record_event_accepts [OF ok])
    show "strip ''approval_action'' \<noteq> []" by code_simp
    show "can_sign demo_env ?db1 ''o''"
      by (rule demo_can_sign) (simp add: empty_db_def resolve_approval_row_def)
  qed (simp_all add: empty_db_def get_trace_by_id_def trace_events_def wrapping_pem_def
      get_org_by_id_def resolve_approval_row_def)
  then obtain out db' where rec: "record_event demo_env ''o'' ''t'' 1 ''approval_action'' ?p None ?db1 = Inr (out, db')"
    by blast
  note l = record_event_log [OF ok demo_keys_ok(1) rec]
  have es: "events_for_trace ?db1 ''o'' ''t'' = []"
    by (simp add: events_for_trace_def resolve_approval_row_def empty_db_def)
  have ap: "approvals db' = [?a\<lparr>a_status := ''approved'', a_approver_id := Some ''x'',
      a_approver_kind := Some ''asserted'', a_comment := None,
      a_resolved_at := Some (truncate_second (now demo_env))\<rparr>]"
    using record_event_approvals [OF rec] by (simp add: resolve_approval_row_def update_where_def)
  have "\<exists>g. workflow_gate demo_env db' ''o'' ''t'' = Inr g"
    using l(4) ap id
    by (auto simp: workflow_gate_def ensure_trace_access_def list_approvals_for_trace_eq
        trace_approvals_def order_desc_def)
  then show ?thesis using rec es id
    by (auto simp: resolve_approval_def APPROVAL_STATUSES_def get_approval_def Let_def)
qed

theorem approval_resolved_once_witness:
  "\<exists>r db'. resolve_approval demo_env ''o'' ''a1'' ''approved'' ''x'' ''asserted'' None None None
     (empty_db\<lparr>approvals := [demo_approval 1 ''pending'']\<rparr>) = Inr (r, db') \<and>
   resolve_approval demo_env ''o'' ''a1'' ''denied'' ''y'' ''asserted'' None None None db' =
     Inl ApprovalAlreadyResolvedError"
proof -
  obtain r db' where r: "resolve_approval demo_env ''o'' ''a1'' ''approved'' ''x'' ''asserted'' None None None
     (empty_db\<lparr>approvals := [demo_approval 1 ''pending'']\<rparr>) = Inr (r, db')"
    using demo_resolved by blast
  have ok: "log_ok demo_env (empty_db\<lparr>approvals := [demo_approval 1 ''pending'']\<rparr>)"
    by (rule log_ok_same [OF log_ok_empty]) simp_all
  have "''denied'' \<in> set APPROVAL_STATUSES" by (simp add: APPROVAL_STATUSES_def)
  with approval_resolved_once [OF ok demo_keys_ok(1) r] r show ?thesis by blast
qed

theorem workflow_gate_sound_witness:
  "\<exists>g. workflow_gate demo_env
      (empty_db\<lparr>traces := [demo_trace], approvals := [demo_approval 1 ''approved'', demo_approval 2 ''denied'']\<rparr>)
      ''o'' ''t'' = Inr g \<and> \<not> gs_resume_allowed g"
proof -
  let ?db = "empty_db\<lparr>traces := [demo_trace], approvals := [demo_approval 1 ''approved'', demo_approval 2 ''denied'']\<rparr>"
  have l: "trace_approvals ?db ''o'' ''t'' = [demo_approval 2 ''denied'', demo_approval 1 ''approved'']"
    by (simp add: trace_approvals_def order_desc_def demo_approval_def)
  have "List.find (\<lambda>a. a_status a = ''pending'') [demo_approval 2 ''denied'', demo_approval 1 ''approved''] = None"
    "List.find (\<lambda>a. a_status a = ''approved'' \<or> a_status a = ''denied'')
       [demo_approval 2 ''denied'', demo_approval 1 ''approved''] = Some (demo_approval 2 ''denied'')"
    "a_status (demo_approval 2 ''denied'') = ''denied''"
    by (simp_all add: demo_approval_def)
  then obtain g where g: "workflow_gate demo_env ?db ''o'' ''t'' = Inr g"
    unfolding workflow_gate_def list_approvals_for_trace_eq l
    by (simp add: ensure_trace_access_def get_trace_by_id_def demo_trace_def Let_def)
  from workflow_gate_sound [OF this] l g show ?thesis by (auto simp: demo_approval_def)
qed

definition busy_trace :: db where
  "busy_trace = empty_db\<lparr>traces := [demo_trace],
     approvals := demo_approval 0 ''pending'' # map (\<lambda>n. demo_approval n ''approved'') [1..<21]\<rparr>"

text \<open>Where the bound of 20 matters: a trace whose pending approval is older than 20 others, all
  approved, is let through while that approval still waits.\<close>

theorem workflow_gate_misses_old_pending:
  "\<exists>a g. a \<in> set (approvals busy_trace) \<and> a_org_id a = ''o'' \<and> a_trace_id a = ''t'' \<and>
     a_status a = ''pending'' \<and>
     workflow_gate demo_env busy_trace ''o'' ''t'' = Inr g \<and> gs_resume_allowed g"
proof -
  have m: "demo_approval 0 ''pending'' \<in> set (approvals busy_trace)" by (simp add: busy_trace_def)
  have "map_sum id gs_resume_allowed (workflow_gate demo_env busy_trace ''o'' ''t'') = Inr True"
    by code_simp
  then obtain g where "workflow_gate demo_env busy_trace ''o'' ''t'' = Inr g" "gs_resume_allowed g"
    by (cases "workflow_gate demo_env busy_trace ''o'' ''t''") auto
  with m show ?thesis by (auto simp: demo_approval_def intro!: exI [of _ "demo_approval 0 ''pending''"])
qed

end
