(* ===== verification/Gate.thy ===== *)
theory Gate
  imports Remediation Approvals
begin

text \<open>
  The output gate: \<^verbatim>\<open>app/repositories/policies.py\<close>, \<^verbatim>\<open>app/services/precheck.py\<close> (evaluate an action,
  record the signed decision, index it, route it to a person), \<^verbatim>\<open>app/services/gate.py\<close> (one call
  that evaluates, records and answers) and \<^verbatim>\<open>app/services/policy_preview.py\<close> (the same verdict with
  nothing recorded).
\<close>

section \<open>repositories/policies.py\<close>

definition get_active_policy :: "db \<Rightarrow> string \<Rightarrow> policy option" where
  "get_active_policy db org_id =
     first (order_desc pol_created_at
       (filter (\<lambda>p. pol_org_id p = org_id \<and> pol_active p) (policies db)))"

definition get_policy_by_version :: "db \<Rightarrow> string \<Rightarrow> string \<Rightarrow> policy option" where
  "get_policy_by_version db org_id version =
     one_or_none (\<lambda>p. pol_org_id p = org_id \<and> pol_version p = version) (policies db)"

definition upsert_policy ::
  "env \<Rightarrow> string \<Rightarrow> string \<Rightarrow> string \<Rightarrow> json \<Rightarrow> bool \<Rightarrow> db \<Rightarrow> policy \<times> db" where
  "upsert_policy E org_id name version rules active db =
     (case get_policy_by_version db org_id version of
        Some existing \<Rightarrow>
          let p = existing\<lparr>pol_name := name, pol_rules := rules, pol_active := active\<rparr>
          in (p, db\<lparr>policies :=
                      update_where (\<lambda>x. pol_org_id x = org_id \<and> pol_version x = version)
                        (\<lambda>x. x\<lparr>pol_name := name, pol_rules := rules, pol_active := active\<rparr>)
                        (policies db)\<rparr>)
      | None \<Rightarrow>
          let db = (if active
                    then db\<lparr>policies :=
                              update_where (\<lambda>x. pol_org_id x = org_id \<and> pol_active x)
                                (\<lambda>x. x\<lparr>pol_active := False\<rparr>) (policies db)\<rparr>
                    else db);
              (pid, db) = new_uuid E db;
              p = \<lparr>pol_id = pid, pol_org_id = org_id, pol_name = name, pol_version = version,
                   pol_rules = rules, pol_active = active, pol_created_at = now E\<rparr>
          in (p, db\<lparr>policies := policies db @ [p]\<rparr>))"

section \<open>precheck.py\<close>

definition TIERS_REQUIRING_APPROVAL :: "tier list" where
  "TIERS_REQUIRING_APPROVAL = [Orange, Red]"

definition tier_allows_action :: "tier \<Rightarrow> string \<Rightarrow> bool \<Rightarrow> bool" where
  "tier_allows_action t fail_mode allowed = allowed"

text \<open>\<^verbatim>\<open>policy.rules\<close> is a JSON column; \<^verbatim>\<open>.get\<close> on anything but an object raises.\<close>

definition rules_doc :: "json \<Rightarrow> dict res" where
  "rules_doc rules = (case rules of JObj d \<Rightarrow> Inr d | _ \<Rightarrow> Inl AttributeError)"

definition evaluate_for ::
  "org \<Rightarrow> string \<Rightarrow> dict \<Rightarrow> string \<Rightarrow> json \<Rightarrow> feature_vector \<Rightarrow> policy_output res" where
  "evaluate_for org action payload version rules f =
     bind_res (rules_doc rules) (\<lambda>doc.
     evaluate_policy_input
       \<lparr>pi_org_id = o_id org, pi_action = action, pi_payload = payload, pi_fail_mode = o_fail_mode org,
        pi_policy_version = version, pi_features = f\<rparr> doc)"

definition unrecorded_status :: "db \<Rightarrow> org \<Rightarrow> string \<Rightarrow> dict \<Rightarrow> policy \<Rightarrow> string res" where
  "unrecorded_status db org action payload pol =
     bind_res (extract_features action payload) (\<lambda>f.
     case evaluate_for org action payload (pol_version pol) (pol_rules pol) f of
       Inl (PolicyEngineError _) \<Rightarrow> Inr ''error''
     | Inl e \<Rightarrow> Inl e
     | Inr out \<Rightarrow>
         bind_res (evaluate_packs db (o_id org) action payload f) (\<lambda>findings.
         Inr (derive_status (tier_allows_action (po_tier out) (o_fail_mode org) (po_allowed out))
                (tier_str (combined_tier (po_tier out) findings))
                (map pack_finding_to_dict findings))))"

record precheck_result =
  pc_trace_id :: string
  pc_tier :: tier
  pc_policy_tier :: "tier option"
  pc_decision :: decision
  pc_allowed :: bool
  pc_reasons :: "string list"
  pc_policy_version :: string
  pc_policy_decision_seq :: int
  pc_policy_decision_hash :: string
  pc_approval_id :: "string option"
  pc_rule_id :: "string option"
  pc_regulatory_refs :: "string list"
  pc_risk_score :: int
  pc_layer_results :: "layer_result list"
  pc_mitigations :: "string list"
  pc_jurisdictions :: "string list"
  pc_regulatory_findings :: "dict list"
  pc_remediation_plan :: "remediation_plan option"
  pc_remediation_of :: "int option"

definition fail_closed_response ::
  "env \<Rightarrow> org \<Rightarrow> string \<Rightarrow> int \<Rightarrow> string \<Rightarrow> string \<Rightarrow> string \<Rightarrow> db \<Rightarrow> (precheck_result \<times> db) res" where
  "fail_closed_response E org trace_id seq action policy_version detail db =
     bind_res (get_or_create_trace E (o_id org) trace_id (Some policy_version) db) (\<lambda>(_, db).
     let decision_payload =
       [(''action'', JStr action), (''tier'', JStr ''red''), (''decision'', JStr ''deny''),
        (''allowed'', JBool False), (''reasons'', jstrs [detail]),
        (''policy_version'', JStr policy_version), (''fail_mode'', JStr (o_fail_mode org)),
        (''engine_error'', JBool True), (''risk_score'', JInt 90)]
     in
     bind_res (record_event E (o_id org) trace_id seq ''policy_decision'' decision_payload
                 (Some policy_version) db) (\<lambda>(ev, db).
     let (a, db) = create_approval E (o_id org) trace_id (Some (eo_event_id ev)) db in
     Inr (\<lparr>pc_trace_id = trace_id, pc_tier = Red, pc_policy_tier = None, pc_decision = Deny,
           pc_allowed = False, pc_reasons = [detail], pc_policy_version = policy_version,
           pc_policy_decision_seq = eo_seq ev, pc_policy_decision_hash = eo_hash ev,
           pc_approval_id = Some (a_id a), pc_rule_id = None, pc_regulatory_refs = [],
           pc_risk_score = 90, pc_layer_results = [], pc_mitigations = [], pc_jurisdictions = [],
           pc_regulatory_findings = [], pc_remediation_plan = None, pc_remediation_of = None\<rparr>, db)))"

definition error_output :: "string \<Rightarrow> policy_output" where
  "error_output detail =
     \<lparr>po_tier = Yellow, po_decision = Flag, po_allowed = True,
      po_reasons = [''policy evaluation error (allow_with_flag): '' @ detail],
      po_rule_id = None, po_regulatory_refs = [], po_risk_score = 35, po_layer_results = [],
      po_mitigations = []\<rparr>"

text \<open>The rewrite attempts: the first draft that the engine judges compliant is attached.\<close>

fun rewrite_loop ::
  "env \<Rightarrow> rewriter \<Rightarrow> db \<Rightarrow> org \<Rightarrow> string \<Rightarrow> policy \<Rightarrow> dict \<Rightarrow> dict list \<Rightarrow> json \<Rightarrow> nat list \<Rightarrow>
   remediation_plan \<Rightarrow> remediation_plan res" where
  "rewrite_loop E R db org action pol payload findings rules_list [] p = Inr p"
| "rewrite_loop E R db org action pol payload findings rules_list (attempt # attempts) p =
     (case draft_rewrite E R attempt payload findings (rem_unresolved p) rules_list of
        None \<Rightarrow> Inr p
      | Some d \<Rightarrow>
          bind_res (unrecorded_status db org action (dr_output d) pol) (\<lambda>st.
          if st = STATUS_COMPLIANT
          then Inr (attach_rewrite E p
                 (draft_to_dict d @
                  [(''evaluation'', JStr ''compliant''),
                   (''requires_human_confirmation'', JBool (dr_reclassified d))]))
          else rewrite_loop E R db org action pol payload findings rules_list attempts p))"

definition decision_payload ::
  "org \<Rightarrow> string \<Rightarrow> policy \<Rightarrow> feature_vector \<Rightarrow> policy_output \<Rightarrow> tier \<Rightarrow> bool \<Rightarrow> pack_finding list \<Rightarrow>
   remediation_plan option \<Rightarrow> int option \<Rightarrow> dict" where
  "decision_payload org action pol f out effective_tier allowed findings rplan remediation_of =
     [(''action'', JStr action),
      (''tier'', JStr (tier_str effective_tier)),
      (''policy_tier'', JStr (tier_str (po_tier out))),
      (''decision'', JStr (decision_str (po_decision out))),
      (''allowed'', JBool allowed),
      (''reasons'', jstrs (po_reasons out)),
      (''policy_version'', JStr (pol_version pol)),
      (''fail_mode'', JStr (o_fail_mode org)),
      (''rule_id'', jopt JStr (po_rule_id out)),
      (''regulatory_refs'', jstrs (po_regulatory_refs out)),
      (''risk_score'', JInt (po_risk_score out)),
      (''features'', JObj (feature_vector_to_dict f)),
      (''layer_results'', jobjs (map layer_result_to_dict (po_layer_results out))),
      (''mitigations'', jstrs (po_mitigations out)),
      (''jurisdictions'', jstrs (jurisdictions_touched findings)),
      (''regulatory_findings'', jobjs (map pack_finding_to_dict findings))] @
     (case rplan of None \<Rightarrow> [] | Some p \<Rightarrow> [(''remediation'', JObj (chain_summary p))]) @
     (case remediation_of of None \<Rightarrow> [] | Some n \<Rightarrow> [(''remediation_of'', JInt n)])"

definition the_plan ::
  "env \<Rightarrow> rewriter \<Rightarrow> db \<Rightarrow> org \<Rightarrow> string \<Rightarrow> policy \<Rightarrow> dict \<Rightarrow> feature_vector \<Rightarrow> policy_output \<Rightarrow>
   dict list \<Rightarrow> string \<Rightarrow> bool \<Rightarrow> remediation_plan option res" where
  "the_plan E R db org action pol payload f out finding_dicts status allowed =
     (if status \<noteq> STATUS_FLAGGED \<and> status \<noteq> STATUS_BLOCKED then Inr None
      else
      case plan E payload f finding_dicts (po_reasons out) (\<not> allowed) of
        None \<Rightarrow> Inr None
      | Some p \<Rightarrow>
          if status = STATUS_FLAGGED \<and> rem_unresolved p \<noteq> []
          then
            let rules_list = (case pol_rules pol of JObj d \<Rightarrow> dget d ''rules'' | _ \<Rightarrow> JNull) in
            bind_res (rewrite_loop E R db org action pol payload finding_dicts rules_list
                        [0..<rw_max_attempts R] p) (\<lambda>p. Inr (Some p))
          else Inr (Some p))"

text \<open>What follows the evaluation by the institution's own policy: the packs, the plan, the signed
  decision event, its index row, and the approval for the two upper tiers.\<close>

definition judged ::
  "env \<Rightarrow> rewriter \<Rightarrow> org \<Rightarrow> string \<Rightarrow> int \<Rightarrow> string \<Rightarrow> int option \<Rightarrow> dict \<Rightarrow> policy \<Rightarrow> feature_vector \<Rightarrow>
   db \<Rightarrow> policy_output \<Rightarrow> (precheck_result \<times> db) res" where
  "judged E R org trace_id seq action remediation_of payload pol f db out =
     bind_res (evaluate_packs db (o_id org) action payload f) (\<lambda>findings.
     let effective_tier = combined_tier (po_tier out) findings;
         allowed = tier_allows_action (po_tier out) (o_fail_mode org) (po_allowed out);
         finding_dicts = map pack_finding_to_dict findings;
         status = derive_status allowed (tier_str effective_tier) finding_dicts
     in
     bind_res (the_plan E R db org action pol payload f out finding_dicts status allowed) (\<lambda>rplan.
     bind_res (record_event E (o_id org) trace_id seq ''policy_decision''
                 (decision_payload org action pol f out effective_tier allowed findings rplan
                    remediation_of)
                 (Some (pol_version pol)) db) (\<lambda>(ev, db).
     let (sid, db) = new_uuid E db;
         summary =
           \<lparr>ds_id = sid, ds_org_id = o_id org, ds_trace_id = trace_id, ds_seq = eo_seq ev,
            ds_event_hash = eo_hash ev, ds_action = action, ds_tier = tier_str effective_tier,
            ds_policy_tier = tier_str (po_tier out), ds_allowed = allowed,
            ds_policy_version = Some (pol_version pol), ds_findings = finding_dicts,
            ds_jurisdictions = jurisdictions_touched findings,
            ds_remediation = map_option chain_summary rplan,
            ds_remediation_of = remediation_of, ds_remediated_by_seq = None,
            ds_status = None, ds_output_seq = None, ds_output_hash = None,
            ds_created_at = now E\<rparr>;
         db = db\<lparr>summaries := summaries db @ [summary]\<rparr>;
         (approval_id, db) =
           (if effective_tier \<in> set TIERS_REQUIRING_APPROVAL
            then
              let (a, db) = create_approval E (o_id org) trace_id (Some (eo_event_id ev)) db
              in (Some (a_id a), db)
            else (None, db))
     in
     Inr (\<lparr>pc_trace_id = trace_id, pc_tier = effective_tier,
           pc_policy_tier = Some (po_tier out), pc_decision = po_decision out,
           pc_allowed = allowed, pc_reasons = po_reasons out,
           pc_policy_version = pol_version pol, pc_policy_decision_seq = eo_seq ev,
           pc_policy_decision_hash = eo_hash ev, pc_approval_id = approval_id,
           pc_rule_id = po_rule_id out, pc_regulatory_refs = po_regulatory_refs out,
           pc_risk_score = po_risk_score out, pc_layer_results = po_layer_results out,
           pc_mitigations = po_mitigations out,
           pc_jurisdictions = jurisdictions_touched findings,
           pc_regulatory_findings = finding_dicts, pc_remediation_plan = rplan,
           pc_remediation_of = remediation_of\<rparr>, db))))"

definition chosen_policy :: "db \<Rightarrow> string \<Rightarrow> string option \<Rightarrow> policy option" where
  "chosen_policy db org_id policy_version =
     (case policy_version of
        Some v \<Rightarrow> if v \<noteq> [] then get_policy_by_version db org_id v else get_active_policy db org_id
      | None \<Rightarrow> get_active_policy db org_id)"

definition run_precheck ::
  "env \<Rightarrow> rewriter \<Rightarrow> org \<Rightarrow> string \<Rightarrow> int \<Rightarrow> string \<Rightarrow> int option \<Rightarrow> dict \<Rightarrow> string option \<Rightarrow> db \<Rightarrow>
   (precheck_result \<times> db) res" where
  "run_precheck E R org trace_id seq action remediation_of payload policy_version db =
     (case chosen_policy db (o_id org) policy_version of
        None \<Rightarrow> Inl NoActivePolicyError
      | Some pol \<Rightarrow>
          bind_res (get_or_create_trace E (o_id org) trace_id (Some (pol_version pol)) db) (\<lambda>(_, db).
          bind_res (extract_features action payload) (\<lambda>f.
          case evaluate_for org action payload (pol_version pol) (pol_rules pol) f of
            Inl (PolicyEngineError detail) \<Rightarrow>
              if o_fail_mode org = ''deny_on_error''
              then fail_closed_response E org trace_id seq action (pol_version pol) detail db
              else judged E R org trace_id seq action remediation_of payload pol f db
                     (error_output detail)
          | Inl e \<Rightarrow> Inl e
          | Inr out \<Rightarrow>
              judged E R org trace_id seq action remediation_of payload pol f db out)))"

section \<open>gate.py\<close>

definition next_seq :: "db \<Rightarrow> string \<Rightarrow> string \<Rightarrow> int" where
  "next_seq db org_id trace_id =
     (case last_event_for_trace db org_id trace_id of None \<Rightarrow> 1 | Some l \<Rightarrow> e_seq l + 1)"

definition is_decision :: "string \<Rightarrow> string \<Rightarrow> int \<Rightarrow> policy_decision_summary \<Rightarrow> bool" where
  "is_decision org_id trace_id seq d \<longleftrightarrow>
     ds_org_id d = org_id \<and> ds_trace_id d = trace_id \<and> ds_seq d = seq"

definition validate_remediates ::
  "db \<Rightarrow> string \<Rightarrow> string option \<Rightarrow> int \<Rightarrow> policy_decision_summary res" where
  "validate_remediates db org_id trace_id remediates =
     (case trace_id of
        None \<Rightarrow> Inl RemediationRefError
      | Some t \<Rightarrow>
          (case one_or_none (is_decision org_id t remediates) (summaries db) of
             None \<Rightarrow> Inl RemediationRefError
           | Some d \<Rightarrow>
               if ds_status d \<noteq> Some STATUS_FLAGGED \<and> ds_status d \<noteq> Some STATUS_BLOCKED
               then Inl RemediationRefError else Inr d))"

record gate_verdict =
  gv_trace_id :: string
  gv_status :: string
  gv_allowed :: bool
  gv_tier :: "tier option"
  gv_reasons :: "string list"
  gv_findings :: "dict list"
  gv_jurisdictions :: "string list"
  gv_policy_version :: "string option"
  gv_decision_seq :: "int option"
  gv_output_seq :: int
  gv_output_hash :: string
  gv_signature :: string
  gv_approval_id :: "string option"
  gv_suggested_fix :: "remediation_plan option"
  gv_remediation_of :: "int option"

definition unevaluated_reason :: string where
  "unevaluated_reason =
     ''No active policy for this organisation, so the output was recorded but not evaluated. Publish a '' @
     ''policy from the Compliance screen to start checking outputs.''"

definition run_gate ::
  "env \<Rightarrow> rewriter \<Rightarrow> org \<Rightarrow> string \<Rightarrow> dict \<Rightarrow> string option \<Rightarrow> string option \<Rightarrow> int option \<Rightarrow> db \<Rightarrow>
   (gate_verdict \<times> db) res" where
  "run_gate E R org action output trace_id policy_version remediates db =
     bind_res
       (case remediates of
          None \<Rightarrow> Inr None
        | Some n \<Rightarrow> bind_res (validate_remediates db (o_id org) trace_id n) (\<lambda>d. Inr (Some d)))
       (\<lambda>remediated_summary.
     let (trace_id, db) =
       (case trace_id of Some t \<Rightarrow> (t, db) | None \<Rightarrow> new_uuid E db) in
     bind_res (get_or_create_trace E (o_id org) trace_id policy_version db) (\<lambda>(_, db).
     bind_res
       (case run_precheck E R org trace_id (next_seq db (o_id org) trace_id) action remediates output
               policy_version db of
          Inl NoActivePolicyError \<Rightarrow> Inr (None, db)
        | Inl e \<Rightarrow> Inl e
        | Inr (decision, db) \<Rightarrow> Inr (Some decision, db))
       (\<lambda>(decision, db).
     let event_version =
       (case decision of
          Some d \<Rightarrow> if pc_policy_version d \<noteq> [] then Some (pc_policy_version d) else policy_version
        | None \<Rightarrow> policy_version) in
     bind_res (record_event E (o_id org) trace_id (next_seq db (o_id org) trace_id) action output
                 event_version db) (\<lambda>(ev, db).
     case decision of
       None \<Rightarrow>
         Inr (\<lparr>gv_trace_id = trace_id, gv_status = STATUS_UNEVALUATED, gv_allowed = True,
               gv_tier = None, gv_reasons = [unevaluated_reason], gv_findings = [],
               gv_jurisdictions = [], gv_policy_version = None, gv_decision_seq = None,
               gv_output_seq = eo_seq ev, gv_output_hash = eo_hash ev,
               gv_signature = eo_signature ev, gv_approval_id = None, gv_suggested_fix = None,
               gv_remediation_of = remediates\<rparr>, db)
     | Some d \<Rightarrow>
         let findings = pc_regulatory_findings d;
             status = derive_status (pc_allowed d) (tier_str (pc_tier d)) findings;
             db = db\<lparr>summaries :=
                       update_where (is_decision (o_id org) trace_id (pc_policy_decision_seq d))
                         (\<lambda>s. s\<lparr>ds_status := Some status, ds_output_seq := Some (eo_seq ev),
                                ds_output_hash := Some (eo_hash ev)\<rparr>) (summaries db)\<rparr>;
             db = (case remediated_summary of
                     Some r \<Rightarrow>
                       if status = STATUS_COMPLIANT
                       then db\<lparr>summaries :=
                                 update_where (is_decision (ds_org_id r) (ds_trace_id r) (ds_seq r))
                                   (\<lambda>s. s\<lparr>ds_remediated_by_seq := Some (pc_policy_decision_seq d)\<rparr>)
                                   (summaries db)\<rparr>
                       else db
                   | None \<Rightarrow> db)
         in Inr (\<lparr>gv_trace_id = trace_id, gv_status = status, gv_allowed = pc_allowed d,
                  gv_tier = Some (pc_tier d), gv_reasons = pc_reasons d, gv_findings = findings,
                  gv_jurisdictions = pc_jurisdictions d,
                  gv_policy_version = Some (pc_policy_version d),
                  gv_decision_seq = Some (pc_policy_decision_seq d), gv_output_seq = eo_seq ev,
                  gv_output_hash = eo_hash ev, gv_signature = eo_signature ev,
                  gv_approval_id = pc_approval_id d, gv_suggested_fix = pc_remediation_plan d,
                  gv_remediation_of = remediates\<rparr>, db)))))"

section \<open>policy\_preview.py\<close>

record preview_result =
  pv_status :: string
  pv_error :: "string option"
  pv_tier :: "tier option"
  pv_policy_tier :: "tier option"
  pv_decision :: "decision option"
  pv_allowed :: "bool option"
  pv_reasons :: "string list"
  pv_rule_id :: "string option"
  pv_findings :: "dict list"
  pv_jurisdictions :: "string list"
  pv_remediation_preview :: "dict option"

text \<open>\<^verbatim>\<open>chain_summary(None)\<close> subscripts None, which is a \<open>TypeError\<close>.\<close>

definition preview ::
  "env \<Rightarrow> db \<Rightarrow> org \<Rightarrow> string \<Rightarrow> dict \<Rightarrow> string \<Rightarrow> json \<Rightarrow> preview_result res" where
  "preview E db org action payload policy_version rules =
     bind_res (extract_features action payload) (\<lambda>f.
     case evaluate_for org action payload policy_version rules f of
       Inl (PolicyEngineError detail) \<Rightarrow>
         Inr \<lparr>pv_status = ''error'', pv_error = Some detail, pv_tier = None, pv_policy_tier = None,
              pv_decision = None, pv_allowed = None, pv_reasons = [], pv_rule_id = None,
              pv_findings = [], pv_jurisdictions = [], pv_remediation_preview = None\<rparr>
     | Inl e \<Rightarrow> Inl e
     | Inr out \<Rightarrow>
         bind_res (evaluate_packs db (o_id org) action payload f) (\<lambda>findings.
         let finding_dicts = map pack_finding_to_dict findings;
             effective_tier = combined_tier (po_tier out) findings;
             allowed = tier_allows_action (po_tier out) (o_fail_mode org) (po_allowed out);
             status = derive_status allowed (tier_str effective_tier) finding_dicts
         in
         bind_res
           (if status = STATUS_FLAGGED \<or> status = STATUS_BLOCKED
            then (case plan E payload f finding_dicts (po_reasons out) (\<not> allowed) of
                    None \<Rightarrow> Inl TypeError
                  | Some p \<Rightarrow> Inr (Some (chain_summary p)))
            else Inr None)
           (\<lambda>rpreview.
         Inr \<lparr>pv_status = status, pv_error = None, pv_tier = Some effective_tier,
              pv_policy_tier = Some (po_tier out), pv_decision = Some (po_decision out),
              pv_allowed = Some allowed, pv_reasons = po_reasons out, pv_rule_id = po_rule_id out,
              pv_findings = finding_dicts, pv_jurisdictions = jurisdictions_touched findings,
              pv_remediation_preview = rpreview\<rparr>)))"

section \<open>Lemmas\<close>

lemma create_approval_log_ok: "log_ok E db \<Longrightarrow> create_approval E o' t e db = (a, db') \<Longrightarrow> log_ok E db'"
  by (erule log_ok_same) (auto simp: create_approval_def new_uuid_def Let_def)

lemma get_or_create_log_ok:
  assumes "log_ok E db" "get_or_create_trace E org_id t pv db = Inr (tr, db1)"
  shows "log_ok E db1"
proof -
  note g = get_or_create_trace_Inr [OF assms(2)]
  obtain ts where db1: "db1 = db\<lparr>traces := traces db @ ts\<rparr>" using g(3) by blast
  have "trace_ok E db1 t'" for t'
    using assms(1) by (intro trace_ok_traces [OF _ db1 g(4)]) (simp_all add: log_ok_def)
  then show ?thesis using assms(1) by (simp add: log_ok_def keys_ok_def vault_ok_def db1)
qed

text \<open>A successful precheck has evaluated the chosen policy, and either the evaluation failed and the
  organization denies on errors, or the decision was judged and recorded.\<close>

lemma run_precheck_Inr:
  assumes "run_precheck E R org t seq action rof payload pv db = Inr (r, db')"
  obtains pol tr db1 f where "chosen_policy db (o_id org) pv = Some pol"
    "get_or_create_trace E (o_id org) t (Some (pol_version pol)) db = Inr (tr, db1)"
    "extract_features action payload = Inr f"
    "(\<exists>detail. evaluate_for org action payload (pol_version pol) (pol_rules pol) f =
        Inl (PolicyEngineError detail) \<and> o_fail_mode org = ''deny_on_error'' \<and>
        fail_closed_response E org t seq action (pol_version pol) detail db1 = Inr (r, db')) \<or>
     (\<exists>out. ((\<exists>detail. evaluate_for org action payload (pol_version pol) (pol_rules pol) f =
              Inl (PolicyEngineError detail) \<and> o_fail_mode org \<noteq> ''deny_on_error'' \<and>
              out = error_output detail) \<or>
            evaluate_for org action payload (pol_version pol) (pol_rules pol) f = Inr out) \<and>
        judged E R org t seq action rof payload pol f db1 out = Inr (r, db'))"
proof -
  obtain pol tr db1 f where *: "chosen_policy db (o_id org) pv = Some pol"
    "get_or_create_trace E (o_id org) t (Some (pol_version pol)) db = Inr (tr, db1)"
    "extract_features action payload = Inr f"
    using assms by (auto simp: run_precheck_def bind_res_eq_Inr split: option.splits)
  show thesis
  proof (cases "evaluate_for org action payload (pol_version pol) (pol_rules pol) f")
    case (Inl e)
    show ?thesis
    proof (cases "\<exists>detail. e = PolicyEngineError detail")
      case True
      then show ?thesis using assms * Inl
        by (intro that [OF *]) (auto simp: run_precheck_def split: if_splits)
    next
      case False
      then have "run_precheck E R org t seq action rof payload pv db = Inl e"
        using * Inl by (cases e) (simp_all add: run_precheck_def)
      then show ?thesis using assms by simp
    qed
  next
    case (Inr out)
    then show ?thesis using assms * by (intro that [OF *]) (auto simp: run_precheck_def)
  qed
qed

lemma judged_Inr:
  assumes "judged E R org t seq action rof payload pol f db out = Inr (r, db')"
  obtains findings rplan ev db1 where
    "evaluate_packs db (o_id org) action payload f = Inr findings"
    "pc_tier r = combined_tier (po_tier out) findings"
    "pc_allowed r = po_allowed out" "pc_reasons r = po_reasons out" "pc_decision r = po_decision out"
    "pc_regulatory_findings r = map pack_finding_to_dict findings"
    "pc_jurisdictions r = jurisdictions_touched findings"
    "the_plan E R db org action pol payload f out (map pack_finding_to_dict findings)
       (derive_status (po_allowed out) (tier_str (pc_tier r)) (map pack_finding_to_dict findings))
       (po_allowed out) = Inr rplan"
    "pc_remediation_plan r = rplan" "pc_policy_version r = pol_version pol"
    "record_event E (o_id org) t seq ''policy_decision''
       (decision_payload org action pol f out (pc_tier r) (po_allowed out) findings rplan rof)
       (Some (pol_version pol)) db = Inr (ev, db1)"
    "pc_policy_decision_seq r = eo_seq ev" "pc_policy_decision_hash r = eo_hash ev"
    "(pc_approval_id r \<noteq> None) = (pc_tier r \<in> {Orange, Red})"
    "events db' = events db1" "traces db' = traces db1" "signing_keys db' = signing_keys db1"
    "payloads db' = payloads db1" "payload_keys db' = payload_keys db1" "orgs db' = orgs db1"
    "\<exists>s. summaries db' = summaries db1 @ [s] \<and> is_decision (o_id org) t (eo_seq ev) s \<and>
       ds_remediated_by_seq s = None \<and> ds_remediation_of s = rof"
proof -
  obtain findings rplan ev db1 where *:
    "evaluate_packs db (o_id org) action payload f = Inr findings"
    "the_plan E R db org action pol payload f out (map pack_finding_to_dict findings)
       (derive_status (po_allowed out) (tier_str (combined_tier (po_tier out) findings))
         (map pack_finding_to_dict findings)) (po_allowed out) = Inr rplan"
    "record_event E (o_id org) t seq ''policy_decision''
       (decision_payload org action pol f out (combined_tier (po_tier out) findings) (po_allowed out)
         findings rplan rof) (Some (pol_version pol)) db = Inr (ev, db1)"
    using assms by (auto simp: judged_def Let_def bind_res_eq_Inr tier_allows_action_def)
  show thesis
    using assms *
    by (cases "combined_tier (po_tier out) findings \<in> set TIERS_REQUIRING_APPROVAL")
      (auto simp: judged_def Let_def tier_allows_action_def new_uuid_def create_approval_def
        TIERS_REQUIRING_APPROVAL_def is_decision_def intro!: that [OF *(1)])
qed

lemma fail_closed_Inr:
  assumes "fail_closed_response E org t seq action v detail db = Inr (r, db')"
  obtains tr db1 ev db2 a payload where "get_or_create_trace E (o_id org) t (Some v) db = Inr (tr, db1)"
    "record_event E (o_id org) t seq ''policy_decision'' payload (Some v) db1 = Inr (ev, db2)"
    "create_approval E (o_id org) t (Some (eo_event_id ev)) db2 = (a, db')"
    "\<not> pc_allowed r" "pc_tier r = Red" "pc_approval_id r = Some (a_id a)"
    "pc_policy_decision_seq r = eo_seq ev" "pc_regulatory_findings r = []" "pc_policy_version r = v"
proof -
  let ?p = "[(''action'', JStr action), (''tier'', JStr ''red''), (''decision'', JStr ''deny''),
        (''allowed'', JBool False), (''reasons'', jstrs [detail]),
        (''policy_version'', JStr v), (''fail_mode'', JStr (o_fail_mode org)),
        (''engine_error'', JBool True), (''risk_score'', JInt 90)]"
  obtain tr db1 ev db2 where *: "get_or_create_trace E (o_id org) t (Some v) db = Inr (tr, db1)"
    "record_event E (o_id org) t seq ''policy_decision'' ?p (Some v) db1 = Inr (ev, db2)"
    using assms by (auto simp: fail_closed_response_def bind_res_eq_Inr)
  obtain a db3 where "create_approval E (o_id org) t (Some (eo_event_id ev)) db2 = (a, db3)"
    by fastforce
  with assms * show thesis by (intro that [OF *, of a]) (auto simp: fail_closed_response_def)
qed

lemma precheck_log_ok:
  assumes "log_ok E db" "service_key_ok E"
    and "run_precheck E R org t seq action rof payload pv db = Inr (r, db')"
  shows "log_ok E db'"
proof -
  obtain pol tr db1 f where tr: "get_or_create_trace E (o_id org) t (Some (pol_version pol)) db = Inr (tr, db1)"
    and cases: "(\<exists>detail. fail_closed_response E org t seq action (pol_version pol) detail db1 = Inr (r, db')) \<or>
      (\<exists>out. judged E R org t seq action rof payload pol f db1 out = Inr (r, db'))"
    using assms(3) by (rule run_precheck_Inr) blast
  have ok1: "log_ok E db1" by (rule get_or_create_log_ok [OF assms(1) tr])
  from cases show ?thesis
  proof (elim disjE exE)
    fix detail assume "fail_closed_response E org t seq action (pol_version pol) detail db1 = Inr (r, db')"
    then show ?thesis
    proof (rule fail_closed_Inr)
      fix tr' db2 ev db3 a payload'
      assume tr': "get_or_create_trace E (o_id org) t (Some (pol_version pol)) db1 = Inr (tr', db2)"
        and rec: "record_event E (o_id org) t seq ''policy_decision'' payload' (Some (pol_version pol)) db2 =
          Inr (ev, db3)"
        and ap: "create_approval E (o_id org) t (Some (eo_event_id ev)) db3 = (a, db')"
      have "log_ok E db2" by (rule get_or_create_log_ok [OF ok1 tr'])
      from record_event_log(1) [OF this assms(2) rec] ap show ?thesis by (rule create_approval_log_ok)
    qed
  next
    fix out assume "judged E R org t seq action rof payload pol f db1 out = Inr (r, db')"
    then show ?thesis
    proof (rule judged_Inr)
      fix findings rplan ev db2
      assume "record_event E (o_id org) t seq ''policy_decision''
          (decision_payload org action pol f out (pc_tier r) (po_allowed out) findings rplan rof)
          (Some (pol_version pol)) db1 = Inr (ev, db2)"
        and same: "events db' = events db2" "traces db' = traces db2" "signing_keys db' = signing_keys db2"
          "payloads db' = payloads db2" "payload_keys db' = payload_keys db2"
      from record_event_log(1) [OF ok1 assms(2) this(1)] same show ?thesis by (rule log_ok_same)
    qed
  qed
qed

lemma run_gate_Inr:
  assumes "run_gate E R org action output tid pv rem db = Inr (v, db')"
  obtains rs t db0 tr db1 decision db2 ev db3 where
    "(case rem of None \<Rightarrow> rs = None
      | Some n \<Rightarrow> \<exists>d. validate_remediates db (o_id org) tid n = Inr d \<and> rs = Some d)"
    "(t, db0) = (case tid of Some t \<Rightarrow> (t, db) | None \<Rightarrow> new_uuid E db)"
    "get_or_create_trace E (o_id org) t pv db0 = Inr (tr, db1)"
    "(case decision of
        None \<Rightarrow> run_precheck E R org t (next_seq db1 (o_id org) t) action rem output pv db1 = Inl NoActivePolicyError
          \<and> db2 = db1
      | Some d \<Rightarrow> run_precheck E R org t (next_seq db1 (o_id org) t) action rem output pv db1 = Inr (d, db2))"
    "\<exists>ver. record_event E (o_id org) t (next_seq db2 (o_id org) t) action output ver db2 = Inr (ev, db3)"
    "gv_trace_id v = t" "gv_output_seq v = eo_seq ev" "gv_output_hash v = eo_hash ev"
    "gv_remediation_of v = rem"
    "(case decision of
        None \<Rightarrow> gv_status v = STATUS_UNEVALUATED \<and> gv_allowed v \<and> gv_tier v = None \<and> db' = db3
      | Some d \<Rightarrow>
          gv_status v = derive_status (pc_allowed d) (tier_str (pc_tier d)) (pc_regulatory_findings d) \<and>
          gv_allowed v = pc_allowed d \<and> gv_tier v = Some (pc_tier d) \<and> gv_reasons v = pc_reasons d \<and>
          gv_findings v = pc_regulatory_findings d \<and>
          gv_decision_seq v = Some (pc_policy_decision_seq d) \<and> gv_approval_id v = pc_approval_id d \<and>
          gv_suggested_fix v = pc_remediation_plan d \<and>
          db' = db3\<lparr>summaries :=
            (let ss = update_where (is_decision (o_id org) t (pc_policy_decision_seq d))
                 (\<lambda>s. s\<lparr>ds_status := Some (gv_status v), ds_output_seq := Some (eo_seq ev),
                        ds_output_hash := Some (eo_hash ev)\<rparr>) (summaries db3)
             in case rs of
                  Some r \<Rightarrow> if gv_status v = STATUS_COMPLIANT
                            then update_where (is_decision (ds_org_id r) (ds_trace_id r) (ds_seq r))
                                   (\<lambda>s. s\<lparr>ds_remediated_by_seq := Some (pc_policy_decision_seq d)\<rparr>) ss
                            else ss
                | None \<Rightarrow> ss)\<rparr>)"
proof -
  obtain rs where rs: "(case rem of None \<Rightarrow> rs = None
      | Some n \<Rightarrow> \<exists>d. validate_remediates db (o_id org) tid n = Inr d \<and> rs = Some d)"
    and rs': "(case rem of None \<Rightarrow> Inr None
        | Some n \<Rightarrow> bind_res (validate_remediates db (o_id org) tid n) (\<lambda>d. Inr (Some d))) = Inr rs"
    using assms by (auto simp: run_gate_def bind_res_eq_Inr split: option.splits)
  obtain t db0 where t: "(t, db0) = (case tid of Some t \<Rightarrow> (t, db) | None \<Rightarrow> new_uuid E db)"
    by (metis prod.collapse)
  obtain tr db1 where tr: "get_or_create_trace E (o_id org) t pv db0 = Inr (tr, db1)"
    using assms rs' unfolding run_gate_def t [symmetric] by (auto simp: bind_res_eq_Inr)
  let ?p = "run_precheck E R org t (next_seq db1 (o_id org) t) action rem output pv db1"
  obtain decision db2 where dec: "(case decision of None \<Rightarrow> ?p = Inl NoActivePolicyError \<and> db2 = db1
      | Some d \<Rightarrow> ?p = Inr (d, db2))"
    and dec': "(case ?p of Inl NoActivePolicyError \<Rightarrow> Inr (None, db1) | Inl e \<Rightarrow> Inl e
        | Inr (d, db) \<Rightarrow> Inr (Some d, db)) = Inr (decision, db2)"
  proof (cases ?p)
    case (Inl e)
    show ?thesis
    proof (cases "e = NoActivePolicyError")
      case True
      then show ?thesis using Inl by (intro that [of db1 None]) simp_all
    next
      case False
      then have "(case ?p of Inl NoActivePolicyError \<Rightarrow> Inr (None, db1) | Inl e \<Rightarrow> Inl e
        | Inr (d, db) \<Rightarrow> Inr (Some d, db)) = Inl e" using Inl by (cases e) simp_all
      then show ?thesis using assms rs' tr unfolding run_gate_def t [symmetric] by simp
    qed
  next
    case (Inr x)
    then show ?thesis by (cases x) (intro that [of "snd x" "Some (fst x)"], simp_all)
  qed
  show thesis
    using assms rs' tr dec' unfolding run_gate_def t [symmetric]
    by (cases decision)
      (auto simp: bind_res_eq_Inr Let_def split: option.splits intro!: that [OF rs t tr dec])
qed

lemma record_event_tables:
  assumes "record_event E org_id t seq ty payload pv db = Inr (out, db')"
  shows "summaries db' = summaries db" "policies db' = policies db"
    "regulation_packs db' = regulation_packs db" "org_regulation_packs db' = org_regulation_packs db"
    "orgs db' = orgs db"
  using record_event_frame [OF assms] by auto

lemma get_or_create_tables:
  assumes "get_or_create_trace E org_id t pv db = Inr (tr, db')"
  shows "summaries db' = summaries db" "policies db' = policies db" "events db' = events db"
    "regulation_packs db' = regulation_packs db" "org_regulation_packs db' = org_regulation_packs db"
  using get_or_create_trace_Inr(3) [OF assms] by auto

lemma create_approval_tables:
  assumes "create_approval E o' t e db = (a, db')"
  shows "summaries db' = summaries db" "events db' = events db"
  using assms by (auto simp: create_approval_def new_uuid_def Let_def)

text \<open>A precheck that succeeds appends one policy decision event and at most one index row.\<close>

lemma precheck_writes:
  assumes "log_ok E db" "service_key_ok E"
    and "run_precheck E R org t seq action rof payload pv db = Inr (r, db')"
  shows "\<exists>e. events db' = events db @ [e] \<and> e_type e = ''policy_decision'' \<and> e_trace_id e = t \<and>
      e_seq e = pc_policy_decision_seq r"
    and "\<exists>ss. summaries db' = summaries db @ ss \<and> (\<forall>s \<in> set ss. ds_remediated_by_seq s = None)"
proof -
  obtain pol tr db1 f where tr: "get_or_create_trace E (o_id org) t (Some (pol_version pol)) db = Inr (tr, db1)"
    and cases: "(\<exists>detail. fail_closed_response E org t seq action (pol_version pol) detail db1 = Inr (r, db')) \<or>
      (\<exists>out. judged E R org t seq action rof payload pol f db1 out = Inr (r, db'))"
    using assms(3) by (rule run_precheck_Inr) blast
  have ok1: "log_ok E db1" by (rule get_or_create_log_ok [OF assms(1) tr])
  note t1 = get_or_create_tables [OF tr]
  have "(\<exists>e. events db' = events db @ [e] \<and> e_type e = ''policy_decision'' \<and> e_trace_id e = t \<and>
      e_seq e = pc_policy_decision_seq r) \<and>
    (\<exists>ss. summaries db' = summaries db @ ss \<and> (\<forall>s \<in> set ss. ds_remediated_by_seq s = None))"
    using cases
  proof (elim disjE exE)
    fix detail assume "fail_closed_response E org t seq action (pol_version pol) detail db1 = Inr (r, db')"
    then show ?thesis
    proof (rule fail_closed_Inr)
      fix tr' db2 ev db3 a payload'
      assume tr': "get_or_create_trace E (o_id org) t (Some (pol_version pol)) db1 = Inr (tr', db2)"
        and rec: "record_event E (o_id org) t seq ''policy_decision'' payload' (Some (pol_version pol)) db2 =
          Inr (ev, db3)"
        and ap: "create_approval E (o_id org) t (Some (eo_event_id ev)) db3 = (a, db')"
        and s: "pc_policy_decision_seq r = eo_seq ev"
      have ok2: "log_ok E db2" by (rule get_or_create_log_ok [OF ok1 tr'])
      have "eo_seq ev = seq" using rec by (rule record_event_Inr) simp
      then show ?thesis
        using record_event_log(2) [OF ok2 assms(2) rec] create_approval_tables [OF ap] s t1
          get_or_create_tables [OF tr'] record_event_tables(1) [OF rec] by auto
    qed
  next
    fix out assume "judged E R org t seq action rof payload pol f db1 out = Inr (r, db')"
    then show ?thesis
    proof (rule judged_Inr)
      fix findings rplan ev db2
      assume rec: "record_event E (o_id org) t seq ''policy_decision''
          (decision_payload org action pol f out (pc_tier r) (po_allowed out) findings rplan rof)
          (Some (pol_version pol)) db1 = Inr (ev, db2)"
        and s: "pc_policy_decision_seq r = eo_seq ev"
        and same: "events db' = events db2"
        and ss: "\<exists>s. summaries db' = summaries db2 @ [s] \<and> is_decision (o_id org) t (eo_seq ev) s \<and>
          ds_remediated_by_seq s = None \<and> ds_remediation_of s = rof"
      have "eo_seq ev = seq" using rec by (rule record_event_Inr) simp
      then show ?thesis
        using record_event_log(2) [OF ok1 assms(2) rec] s same t1 ss record_event_tables(1) [OF rec] by auto
    qed
  qed
  then show "\<exists>e. events db' = events db @ [e] \<and> e_type e = ''policy_decision'' \<and> e_trace_id e = t \<and>
      e_seq e = pc_policy_decision_seq r"
    "\<exists>ss. summaries db' = summaries db @ ss \<and> (\<forall>s \<in> set ss. ds_remediated_by_seq s = None)"
    by blast+
qed

lemma new_uuid_log_ok: "log_ok E db \<Longrightarrow> log_ok E (db\<lparr>draws := n\<rparr>)"
  by (erule log_ok_same) simp_all

lemma gate_trace:
  assumes "(t, db0) = (case tid of Some t \<Rightarrow> (t, db) | None \<Rightarrow> new_uuid E db)"
  shows "\<exists>n. db0 = db\<lparr>draws := n\<rparr>"
proof (cases tid)
  case None
  then show ?thesis using assms by (auto simp: new_uuid_def)
next
  case (Some x)
  then have "db0 = db\<lparr>draws := draws db\<rparr>" using assms by simp
  then show ?thesis by blast
qed

lemma gate_log:
  assumes "log_ok E db" "service_key_ok E"
    and "run_gate E R org action output tid pv rem db = Inr (v, db')"
  shows "log_ok E db' \<and>
    (\<exists>ds e. events db' = events db @ ds @ [e] \<and>
       e_org_id e = o_id org \<and> e_trace_id e = gv_trace_id v \<and> e_type e = action \<and> e_seq e = gv_output_seq v \<and>
       e_payload_hash e = sha256_hex E (fst (redact_payload output)) \<and>
       (if gv_status v = STATUS_UNEVALUATED then ds = []
        else \<exists>d. ds = [d] \<and> e_type d = ''policy_decision'' \<and> e_trace_id d = gv_trace_id v \<and>
               Some (e_seq d) = gv_decision_seq v))"
proof -
  obtain rs t db0 tr db1 decision db2 ev db3 ver where
    t: "(t, db0) = (case tid of Some t \<Rightarrow> (t, db) | None \<Rightarrow> new_uuid E db)"
    and tr: "get_or_create_trace E (o_id org) t pv db0 = Inr (tr, db1)"
    and dec: "(case decision of
        None \<Rightarrow> run_precheck E R org t (next_seq db1 (o_id org) t) action rem output pv db1 = Inl NoActivePolicyError
          \<and> db2 = db1
      | Some d \<Rightarrow> run_precheck E R org t (next_seq db1 (o_id org) t) action rem output pv db1 = Inr (d, db2))"
    and rec: "record_event E (o_id org) t (next_seq db2 (o_id org) t) action output ver db2 = Inr (ev, db3)"
    and v: "gv_trace_id v = t" "gv_output_seq v = eo_seq ev" "gv_output_hash v = eo_hash ev"
    and fin: "(case decision of
        None \<Rightarrow> gv_status v = STATUS_UNEVALUATED \<and> db' = db3
      | Some d \<Rightarrow> gv_status v = derive_status (pc_allowed d) (tier_str (pc_tier d)) (pc_regulatory_findings d) \<and>
          gv_decision_seq v = Some (pc_policy_decision_seq d) \<and> (\<exists>ss. db' = db3\<lparr>summaries := ss\<rparr>))"
    using assms(3) by (rule run_gate_Inr) (fastforce split: option.splits)
  obtain n where "db0 = db\<lparr>draws := n\<rparr>" using gate_trace [OF t] by blast
  then have ok1: "log_ok E db1" and ev1: "events db1 = events db"
    using get_or_create_log_ok [OF _ tr] new_uuid_log_ok [OF assms(1)] get_or_create_tables(3) [OF tr]
    by simp_all
  obtain ds where ok2: "log_ok E db2" and ev2: "events db2 = events db @ ds"
    and ds: "(case decision of None \<Rightarrow> ds = [] | Some d \<Rightarrow> \<exists>x. ds = [x] \<and> e_type x = ''policy_decision'' \<and>
        e_trace_id x = t \<and> e_seq x = pc_policy_decision_seq d)"
  proof (cases decision)
    case None
    then show ?thesis using dec ok1 ev1 that [of "[]"] by simp
  next
    case (Some d)
    then have p: "run_precheck E R org t (next_seq db1 (o_id org) t) action rem output pv db1 = Inr (d, db2)"
      using dec by simp
    from precheck_writes(1) [OF ok1 assms(2) p] precheck_log_ok [OF ok1 assms(2) p] Some ev1 that
    show ?thesis by auto
  qed
  note l = record_event_log [OF ok2 assms(2) rec]
  have seq: "eo_seq ev = next_seq db2 (o_id org) t" using rec by (rule record_event_Inr) simp
  have ev': "events db' = events db3" "log_ok E db'"
    using fin l(1) by (auto split: option.splits intro: log_ok_same)
  have st: "gv_status v = STATUS_UNEVALUATED \<longleftrightarrow> decision = None"
    using fin by (auto simp: derive_status_def STATUS_UNEVALUATED_def STATUS_BLOCKED_def
        STATUS_FLAGGED_def STATUS_COMPLIANT_def split: option.splits if_splits)
  from l(2) obtain e where "events db3 = events db2 @ [e]" "e_org_id e = o_id org" "e_trace_id e = t" "e_type e = action"
    "e_seq e = eo_seq ev" "e_payload_hash e = sha256_hex E (fst (redact_payload output))"
    using seq by auto
  with ev' ev2 v st ds fin show ?thesis
    by (intro conjI exI [of _ ds] exI [of _ e]) (auto split: option.splits)
qed

section \<open>Properties\<close>


text \<open>C4. The gate always records: every gate call that returns has appended the output as a signed
  event of the returned trace, with the returned sequence number and hash, after the signed decision
  event when the output was evaluated, and nothing else; all traces still verify.  Without an
  active policy the output is recorded all the same, and the verdict says it was not evaluated.\<close>

theorem gate_records_output:
  assumes "log_ok E db" "service_key_ok E"
    and "run_gate E R org action output tid pv rem db = Inr (v, db')"
  shows "log_ok E db' \<and>
    (\<exists>ds e. events db' = events db @ ds @ [e] \<and>
       e_trace_id e = gv_trace_id v \<and> e_type e = action \<and> e_seq e = gv_output_seq v \<and>
       e_payload_hash e = sha256_hex E (fst (redact_payload output)) \<and>
       (if gv_status v = STATUS_UNEVALUATED then ds = []
        else \<exists>d. ds = [d] \<and> e_type d = ''policy_decision'' \<and> e_trace_id d = gv_trace_id v \<and>
               Some (e_seq d) = gv_decision_seq v))"
  using gate_log [OF assms] by auto

text \<open>The organization, the policy and the database of the witnesses.\<close>

definition demo_policy :: policy where
  "demo_policy =
     \<lparr>pol_id = ''p'', pol_org_id = ''o'', pol_name = ''n'', pol_version = ''1'',
      pol_rules = JObj demo_rules, pol_active = True, pol_created_at = 0\<rparr>"

definition demo_gate_db :: db where
  "demo_gate_db = empty_db\<lparr>policies := [demo_policy]\<rparr>"

definition demo_rewriter :: rewriter where
  "demo_rewriter = \<lparr>rw_enabled = False, rw_model = ''m'', rw_max_attempts = 2, rw_complete = (\<lambda>n s u. None)\<rparr>"

lemma demo_gate_db_ok: "log_ok E demo_gate_db"
  by (rule log_ok_same [OF log_ok_empty]) (simp_all add: demo_gate_db_def)

lemma judged_total:
  assumes "evaluate_packs db (o_id org) action payload f = Inr findings"
    and "\<exists>rplan. the_plan E R db org action pol payload f out (map pack_finding_to_dict findings)
       (derive_status (po_allowed out) (tier_str (combined_tier (po_tier out) findings))
         (map pack_finding_to_dict findings)) (po_allowed out) = Inr rplan"
    and "\<And>p. \<exists>ev db'. record_event E (o_id org) t seq ''policy_decision'' p (Some (pol_version pol)) db = Inr (ev, db')"
  shows "\<exists>r db'. judged E R org t seq action rof payload pol f db out = Inr (r, db')"
proof -
  obtain rplan where "the_plan E R db org action pol payload f out (map pack_finding_to_dict findings)
       (derive_status (po_allowed out) (tier_str (combined_tier (po_tier out) findings))
         (map pack_finding_to_dict findings)) (po_allowed out) = Inr rplan" using assms(2) by blast
  moreover obtain ev db' where "record_event E (o_id org) t seq ''policy_decision''
       (decision_payload org action pol f out (combined_tier (po_tier out) findings) (po_allowed out)
         findings rplan rof) (Some (pol_version pol)) db = Inr (ev, db')" using assms(3) by blast
  ultimately show ?thesis using assms(1)
    by (cases "combined_tier (po_tier out) findings \<in> set TIERS_REQUIRING_APPROVAL")
      (simp_all add: judged_def Let_def tier_allows_action_def new_uuid_def create_approval_def)
qed

lemma precheck_frame:
  assumes "log_ok E db" "service_key_ok E"
    and "run_precheck E R org t seq action rof payload pv db = Inr (r, db')"
  shows "signing_keys db' = signing_keys db" "orgs db' = orgs db"
    "\<exists>tr. get_trace_by_id db' t = Some tr \<and> t_org_id tr = o_id org"
    "length (trace_events db' t) = Suc (length (trace_events db t))"
proof -
  obtain pol tr db1 f where tr: "get_or_create_trace E (o_id org) t (Some (pol_version pol)) db = Inr (tr, db1)"
    and cases: "(\<exists>detail. fail_closed_response E org t seq action (pol_version pol) detail db1 = Inr (r, db')) \<or>
      (\<exists>out. judged E R org t seq action rof payload pol f db1 out = Inr (r, db'))"
    using assms(3) by (rule run_precheck_Inr) blast
  have ok1: "log_ok E db1" by (rule get_or_create_log_ok [OF assms(1) tr])
  have "\<exists>db2 p ev db3. log_ok E db2 \<and> signing_keys db2 = signing_keys db \<and> orgs db2 = orgs db \<and>
     record_event E (o_id org) t seq ''policy_decision'' p (Some (pol_version pol)) db2 = Inr (ev, db3) \<and>
     signing_keys db' = signing_keys db3 \<and> orgs db' = orgs db3 \<and> traces db' = traces db3"
    using cases
  proof (elim disjE exE)
    fix detail assume "fail_closed_response E org t seq action (pol_version pol) detail db1 = Inr (r, db')"
    then show ?thesis
    proof (rule fail_closed_Inr)
      fix tr' db2 ev db3 a payload'
      assume tr': "get_or_create_trace E (o_id org) t (Some (pol_version pol)) db1 = Inr (tr', db2)"
        and rec: "record_event E (o_id org) t seq ''policy_decision'' payload' (Some (pol_version pol)) db2 =
          Inr (ev, db3)"
        and ap: "create_approval E (o_id org) t (Some (eo_event_id ev)) db3 = (a, db')"
      show ?thesis
        using rec ap get_or_create_log_ok [OF ok1 tr'] get_or_create_trace_Inr(3) [OF tr]
          get_or_create_trace_Inr(3) [OF tr']
        by (intro exI [of _ db2] exI [of _ payload'] exI [of _ ev] exI [of _ db3])
          (auto simp: create_approval_def new_uuid_def Let_def)
    qed
  next
    fix out assume j: "judged E R org t seq action rof payload pol f db1 out = Inr (r, db')"
    then show ?thesis
    proof (rule judged_Inr)
      fix findings rplan ev db2
      assume "record_event E (o_id org) t seq ''policy_decision''
          (decision_payload org action pol f out (pc_tier r) (po_allowed out) findings rplan rof)
          (Some (pol_version pol)) db1 = Inr (ev, db2)"
        "traces db' = traces db2" "signing_keys db' = signing_keys db2" "orgs db' = orgs db2"
      then show ?thesis using ok1 get_or_create_trace_Inr(3) [OF tr]
        by (intro exI [of _ db1]) auto
    qed
  qed
  then obtain db2 p ev db3 where *: "log_ok E db2" "signing_keys db2 = signing_keys db" "orgs db2 = orgs db"
     "record_event E (o_id org) t seq ''policy_decision'' p (Some (pol_version pol)) db2 = Inr (ev, db3)"
     "signing_keys db' = signing_keys db3" "orgs db' = orgs db3" "traces db' = traces db3"
    by blast
  note l = record_event_log [OF *(1) assms(2) *(4)]
  obtain ts ps ks n where db3: "db3 = db2\<lparr>traces := traces db2 @ ts, payloads := ps, payload_keys := ks,
      draws := n, events := events db3\<rparr>" using l(5) by blast
  show "signing_keys db' = signing_keys db" "orgs db' = orgs db"
    using *(2,3,5,6) arg_cong [OF db3, of signing_keys] arg_cong [OF db3, of orgs] by simp_all
  show "\<exists>tr. get_trace_by_id db' t = Some tr \<and> t_org_id tr = o_id org"
    using l(4) *(7) by (simp add: get_trace_by_id_def)
  show "length (trace_events db' t) = Suc (length (trace_events db t))"
    using precheck_writes(1) [OF assms] by (auto simp: trace_events_def)
qed

lemma next_seq_length:
  assumes "log_ok E db" and "\<And>tr. get_trace_by_id db t = Some tr \<Longrightarrow> t_org_id tr = org_id"
  shows "next_seq db org_id t = int (Suc (length (trace_events db t)))"
proof (cases "get_trace_by_id db t")
  case None
  have ok: "trace_ok E db t" using assms(1) by (simp add: log_ok_def)
  have "trace_events db t = []" using ok None
    by (force simp: trace_ok_def owned_def trace_events_def filter_empty_conv)
  moreover have "filter (of_trace org_id t) (events db) = []" using trace_rows_foreign [OF ok] None by blast
  ultimately show ?thesis by (simp add: next_seq_def last_event_for_trace_def)
next
  case (Some tr)
  have ok: "trace_ok E db t" using assms(1) by (simp add: log_ok_def)
  show ?thesis
    using events_for_trace_rows(2) [OF ok Some assms(2) [OF Some]] last_seq [OF ok]
    by (cases "trace_events db t = []") (simp_all add: next_seq_def first_rev)
qed

lemma the_plan_total: "\<not> rw_enabled R \<Longrightarrow> \<exists>p. the_plan E R db org action pol payload f out fds st b = Inr p"
proof -
  assume off: "\<not> rw_enabled R"
  have "\<exists>q. rewrite_loop E R db org action pol payload fds rl ns p = Inr q" for rl ns p
    by (cases ns) (simp_all add: draft_rewrite_def off)
  then show ?thesis
    by (cases "plan E payload f fds (po_reasons out) (\<not> b)") (simp_all add: the_plan_def Let_def, metis bind_res_Inr)
qed

text \<open>The evaluation of an output raises nothing: its features can be read, and the chosen policy, if
  there is one, either evaluates, and so do the packs, or fails with a policy error that the
  organization turns into a refusal.\<close>

definition evaluable :: "db \<Rightarrow> org \<Rightarrow> string \<Rightarrow> dict \<Rightarrow> string option \<Rightarrow> bool" where
  "evaluable db org action payload pv =
     (case chosen_policy db (o_id org) pv of
        None \<Rightarrow> True
      | Some pol \<Rightarrow>
          (case extract_features action payload of
             Inl _ \<Rightarrow> False
           | Inr f \<Rightarrow>
               (case evaluate_for org action payload (pol_version pol) (pol_rules pol) f of
                  Inl (PolicyEngineError _) \<Rightarrow> o_fail_mode org = ''deny_on_error''
                | Inl _ \<Rightarrow> False
                | Inr _ \<Rightarrow> (case evaluate_packs db (o_id org) action payload f of Inl _ \<Rightarrow> False | Inr _ \<Rightarrow> True))))"

text \<open>An organization can write to a trace: the trace is its own or new, there is room for two more
  events, and its keys work.\<close>

definition can_write :: "env \<Rightarrow> db \<Rightarrow> string \<Rightarrow> string \<Rightarrow> bool" where
  "can_write E db org_id t \<longleftrightarrow>
     (\<forall>tr. get_trace_by_id db t = Some tr \<longrightarrow> t_org_id tr = org_id) \<and>
     int (length (trace_events db t)) + 2 \<le> 2147483647 \<and> can_sign E db org_id \<and>
     (\<forall>pem. wrapping_pem db org_id = Some pem \<longrightarrow> load_pem_public E pem = Some RsaKey)"

lemma can_write_same:
  assumes "can_write E db org_id t" "signing_keys db' = signing_keys db" "orgs db' = orgs db"
    "events db' = events db" "\<And>tr. get_trace_by_id db' t = Some tr \<Longrightarrow> t_org_id tr = org_id"
  shows "can_write E db' org_id t"
  using assms sign_event_for_org_keys [OF assms(2)]
  by (auto simp: can_write_def trace_events_def can_sign_def wrapping_pem_def get_org_by_id_def)

lemma can_write_records:
  assumes "can_write E db org_id t" "log_ok E db" "strip ty \<noteq> []" "seq = next_seq db org_id t"
  shows "\<exists>out db'. record_event E org_id t seq ty payload pv db = Inr (out, db')"
  using assms next_seq_length [OF assms(2), of t org_id]
  by (intro record_event_accepts) (auto simp: can_write_def)

lemma precheck_total:
  assumes "log_ok E db" "service_key_ok E" "can_write E db (o_id org) t" "\<not> rw_enabled R"
    and "evaluable db org action payload pv" "chosen_policy db (o_id org) pv = Some pol"
    and "seq = next_seq db (o_id org) t"
  shows "\<exists>r db'. run_precheck E R org t seq action rof payload pv db = Inr (r, db')"
proof -
  have own: "\<And>tr. get_trace_by_id db t = Some tr \<Longrightarrow> t_org_id tr = o_id org"
    using assms(3) by (simp add: can_write_def)
  have ty: "strip ''policy_decision'' \<noteq> []" by code_simp
  have step: "\<exists>tr db1. get_or_create_trace E (o_id org) t (Some (pol_version pol)) db = Inr (tr, db1) \<and>
      log_ok E db1 \<and> can_write E db1 (o_id org) t \<and> seq = next_seq db1 (o_id org) t \<and>
      org_regulation_packs db1 = org_regulation_packs db \<and> regulation_packs db1 = regulation_packs db"
    if db: "log_ok E db" "can_write E db (o_id org) t" "seq = next_seq db (o_id org) t" for db
  proof -
    have o: "\<And>tr. get_trace_by_id db t = Some tr \<Longrightarrow> t_org_id tr = o_id org"
      using db(2) by (simp add: can_write_def)
    obtain tr db1 where tr: "get_or_create_trace E (o_id org) t (Some (pol_version pol)) db = Inr (tr, db1)"
      using get_or_create_trace_total [OF o] by blast
    note g = get_or_create_trace_Inr [OF tr]
    obtain ts where db1: "db1 = db\<lparr>traces := traces db @ ts\<rparr>" using g(3) by blast
    have w: "can_write E db1 (o_id org) t"
      using g(1,2) by (intro can_write_same [OF db(2)]) (auto simp: db1)
    moreover have "log_ok E db1" by (rule get_or_create_log_ok [OF db(1) tr])
    moreover have "next_seq db1 (o_id org) t = seq"
      unfolding db(3) by (simp add: next_seq_def last_event_for_trace_def db1)
    ultimately show ?thesis using tr by (auto simp: db1)
  qed
  obtain tr db1 where tr: "get_or_create_trace E (o_id org) t (Some (pol_version pol)) db = Inr (tr, db1)"
    and db1: "log_ok E db1" "can_write E db1 (o_id org) t" "seq = next_seq db1 (o_id org) t"
      "org_regulation_packs db1 = org_regulation_packs db" "regulation_packs db1 = regulation_packs db"
    using step [OF assms(1,3,7)] by blast
  obtain f where f: "extract_features action payload = Inr f"
    using assms(5,6) by (auto simp: evaluable_def split: sum.splits)
  show ?thesis
  proof (cases "evaluate_for org action payload (pol_version pol) (pol_rules pol) f")
    case (Inl e)
    then obtain d where e: "e = PolicyEngineError d" "o_fail_mode org = ''deny_on_error''"
      using assms(5,6) f by (cases e) (auto simp: evaluable_def)
    obtain tr2 db2 where tr2: "get_or_create_trace E (o_id org) t (Some (pol_version pol)) db1 = Inr (tr2, db2)"
      and db2: "log_ok E db2" "can_write E db2 (o_id org) t" "seq = next_seq db2 (o_id org) t"
      using step [OF db1(1-3)] by blast
    obtain ev db3 where "record_event E (o_id org) t seq ''policy_decision''
        [(''action'', JStr action), (''tier'', JStr ''red''), (''decision'', JStr ''deny''),
        (''allowed'', JBool False), (''reasons'', jstrs [d]),
        (''policy_version'', JStr (pol_version pol)), (''fail_mode'', JStr (o_fail_mode org)),
        (''engine_error'', JBool True), (''risk_score'', JInt 90)] (Some (pol_version pol)) db2 = Inr (ev, db3)"
      using can_write_records [OF db2(2,1) ty db2(3)] by blast
    then have "\<exists>r db'. fail_closed_response E org t seq action (pol_version pol) d db1 = Inr (r, db')"
      using tr2 by (simp add: fail_closed_response_def create_approval_def Let_def new_uuid_def)
    then show ?thesis using Inl e f tr assms(6) by (simp add: run_precheck_def)
  next
    case (Inr out)
    then obtain fds where "evaluate_packs db (o_id org) action payload f = Inr fds"
      using assms(5,6) f by (auto simp: evaluable_def split: sum.splits)
    then have packs: "evaluate_packs db1 (o_id org) action payload f = Inr fds"
      by (simp add: evaluate_packs_def active_packs_for_org_def db1(4,5))
    have "\<exists>r db'. judged E R org t seq action rof payload pol f db1 out = Inr (r, db')"
      using the_plan_total [OF assms(4)] can_write_records [OF db1(2,1) ty db1(3)]
      by (intro judged_total [OF packs]) blast+
    then show ?thesis using Inr f tr assms(6) by (simp add: run_precheck_def)
  qed
qed


lemma chosen_policy_cong:
  "policies db' = policies db \<Longrightarrow> chosen_policy db' org_id pv = chosen_policy db org_id pv"
  by (cases pv) (simp_all add: chosen_policy_def get_policy_by_version_def get_active_policy_def)

lemma evaluable_cong:
  assumes "policies db' = policies db" "org_regulation_packs db' = org_regulation_packs db"
    "regulation_packs db' = regulation_packs db"
  shows "evaluable db' org action payload pv = evaluable db org action payload pv"
proof -
  have "evaluate_packs db' = evaluate_packs db"
    by (simp add: fun_eq_iff evaluate_packs_def active_packs_for_org_def assms(2,3))
  then show ?thesis unfolding evaluable_def chosen_policy_cong [OF assms(1)] by (rule ssubst) (rule refl)
qed

lemma gate_total:
  assumes "log_ok E db" "service_key_ok E" "can_write E db (o_id org) t" "strip action \<noteq> []"
    and "\<not> rw_enabled R" "evaluable db org action output pv"
    and "\<And>n. rem = Some n \<Longrightarrow> \<exists>d. validate_remediates db (o_id org) (Some t) n = Inr d"
  shows "\<exists>v db'. run_gate E R org action output (Some t) pv rem db = Inr (v, db')"
proof -
  let ?o = "o_id org"
  have own: "\<And>tr. get_trace_by_id db t = Some tr \<Longrightarrow> t_org_id tr = ?o"
    using assms(3) by (simp add: can_write_def)
  obtain tr db1 where tr: "get_or_create_trace E ?o t pv db = Inr (tr, db1)"
    using get_or_create_trace_total [OF own] by blast
  note g = get_or_create_trace_Inr [OF tr]
  obtain ts where db1: "db1 = db\<lparr>traces := traces db @ ts\<rparr>" using g(3) by blast
  have ok1: "log_ok E db1" by (rule get_or_create_log_ok [OF assms(1) tr])
  have w1: "can_write E db1 ?o t" using g(1,2) by (intro can_write_same [OF assms(3)]) (auto simp: db1)
  have ev1: "evaluable db1 org action output pv" using assms(6) evaluable_cong [of db1 db] by (simp add: db1)
  let ?pre = "run_precheck E R org t (next_seq db1 ?o t) action rem output pv db1"
  obtain dec db2 where dec: "(case ?pre of Inl NoActivePolicyError \<Rightarrow> Inr (None, db1) | Inl e \<Rightarrow> Inl e
      | Inr (decision, db) \<Rightarrow> Inr (Some decision, db)) = Inr (dec, db2)"
    and rec: "\<And>ver. \<exists>ev db3. record_event E ?o t (next_seq db2 ?o t) action output ver db2 = Inr (ev, db3)"
  proof (cases "chosen_policy db1 ?o pv")
    case None
    then have "?pre = Inl NoActivePolicyError" by (simp add: run_precheck_def)
    then show thesis using can_write_records [OF w1 ok1 assms(4) refl] that [of None db1] by simp
  next
    case (Some pol)
    obtain d db2 where d: "?pre = Inr (d, db2)"
      using precheck_total [OF ok1 assms(2) w1 assms(5) ev1 Some refl] by blast
    note fr = precheck_frame [OF ok1 assms(2) d]
    have ok2: "log_ok E db2" by (rule precheck_log_ok [OF ok1 assms(2) d])
    have own2: "\<And>tr. get_trace_by_id db2 t = Some tr \<Longrightarrow> t_org_id tr = ?o" using fr(3) by auto
    have "\<exists>ev db3. record_event E ?o t (next_seq db2 ?o t) action output ver db2 = Inr (ev, db3)" for ver
      using w1 fr(1,2,4) next_seq_length [OF ok2 own2] sign_event_for_org_keys [OF fr(1)]
      by (intro record_event_accepts [OF ok2 assms(4) own2])
        (auto simp: can_write_def can_sign_def wrapping_pem_def get_org_by_id_def)
    with d that [of "Some d" db2] show thesis by simp
  qed
  have rem: "\<exists>rs. (case rem of None \<Rightarrow> Inr None
        | Some n \<Rightarrow> bind_res (validate_remediates db ?o (Some t) n) (\<lambda>d. Inr (Some d))) = Inr rs"
    using assms(7) by (cases rem) fastforce+
  define ver where "ver = (case dec of
          Some d \<Rightarrow> if pc_policy_version d \<noteq> [] then Some (pc_policy_version d) else pv
        | None \<Rightarrow> pv)"
  obtain ev db3 where "record_event E ?o t (next_seq db2 ?o t) action output ver db2 = Inr (ev, db3)"
    using rec by blast
  with rem tr dec show ?thesis
    by (cases dec) (auto simp: run_gate_def Let_def ver_def)
qed

lemma gate_verdict:
  assumes "log_ok E db" "service_key_ok E" "can_write E db (o_id org) t" "strip action \<noteq> []"
    and "\<not> rw_enabled R" "evaluable db org action output pv"
  shows "\<exists>v db'. run_gate E R org action output (Some t) pv None db = Inr (v, db') \<and>
    (gv_status v = STATUS_UNEVALUATED \<longleftrightarrow> chosen_policy db (o_id org) pv = None)"
proof -
  obtain v db' where v: "run_gate E R org action output (Some t) pv None db = Inr (v, db')"
    using gate_total [OF assms, of None] by auto
  then obtain tr db1 decision db2 where tr: "get_or_create_trace E (o_id org) t pv db = Inr (tr, db1)"
    and dec: "(case decision of
        None \<Rightarrow> run_precheck E R org t (next_seq db1 (o_id org) t) action None output pv db1 = Inl NoActivePolicyError
      | Some d \<Rightarrow> run_precheck E R org t (next_seq db1 (o_id org) t) action None output pv db1 = Inr (d, db2))"
    and fin: "(case decision of None \<Rightarrow> gv_status v = STATUS_UNEVALUATED
      | Some d \<Rightarrow>
          gv_status v = derive_status (pc_allowed d) (tier_str (pc_tier d)) (pc_regulatory_findings d))"
    by (rule run_gate_Inr) (fastforce split: option.splits)
  note g = get_or_create_trace_Inr [OF tr]
  obtain ts where db1: "db1 = db\<lparr>traces := traces db @ ts\<rparr>" using g(3) by blast
  have cp: "chosen_policy db1 (o_id org) pv = chosen_policy db (o_id org) pv"
    by (rule chosen_policy_cong) (simp add: db1)
  have "decision = None \<longleftrightarrow> chosen_policy db (o_id org) pv = None"
  proof (cases "chosen_policy db (o_id org) pv")
    case None
    then have "run_precheck E R org t (next_seq db1 (o_id org) t) action None output pv db1 = Inl NoActivePolicyError"
      by (simp add: run_precheck_def cp)
    then show ?thesis using dec None by (auto split: option.splits)
  next
    case (Some pol)
    have "\<exists>r db'. run_precheck E R org t (next_seq db1 (o_id org) t) action None output pv db1 = Inr (r, db')"
    proof (rule precheck_total [OF _ assms(2) _ assms(5)])
      show "log_ok E db1" by (rule get_or_create_log_ok [OF assms(1) tr])
      show "can_write E db1 (o_id org) t" using g(1,2) by (intro can_write_same [OF assms(3)]) (auto simp: db1)
      show "evaluable db1 org action output pv" using assms(6) evaluable_cong [of db1 db] by (simp add: db1)
      show "chosen_policy db1 (o_id org) pv = Some pol" by (simp add: cp Some)
    qed simp
    then show ?thesis using dec Some by (auto split: option.splits)
  qed
  moreover have "gv_status v = STATUS_UNEVALUATED \<longleftrightarrow> decision = None"
    using fin by (auto simp: derive_status_def STATUS_UNEVALUATED_def STATUS_BLOCKED_def
        STATUS_FLAGGED_def STATUS_COMPLIANT_def split: option.splits if_splits)
  ultimately show ?thesis using v by auto
qed

lemma demo_evaluable: "evaluable db (demo_org ''standard'' None) ''send'' demo_payload None"
  if "policies db = [demo_policy]" "org_regulation_packs db = []" "regulation_packs db = []" for db
proof -
  let ?org = "demo_org ''standard'' None"
  have pol: "chosen_policy db ''o'' None = Some demo_policy"
    using that by (simp add: chosen_policy_def get_active_policy_def demo_policy_def order_desc_def)
  have f: "extract_features ''send'' demo_payload = Inr demo_features" by code_simp
  have "rules_doc (pol_rules demo_policy) = Inr demo_rules" by (simp add: rules_doc_def demo_policy_def)
  moreover have "evaluate_policy_input
       \<lparr>pi_org_id = ''o'', pi_action = ''send'', pi_payload = demo_payload, pi_fail_mode = ''deny_on_error'',
        pi_policy_version = ''1'', pi_features = demo_features\<rparr> demo_rules =
    Inr \<lparr>po_tier = Red, po_decision = Deny, po_allowed = False,
         po_reasons = [''Rule matched: r1''], po_rule_id = Some ''r1'', po_regulatory_refs = [],
         po_risk_score = 90, po_layer_results = [], po_mitigations = []\<rparr>"
    by code_simp
  moreover have "evaluate_packs db (o_id ?org) ''send'' demo_payload demo_features = Inr []"
    using that by (simp add: evaluate_packs_def active_packs_for_org_def)
  ultimately show ?thesis
    by (simp add: evaluable_def pol f evaluate_for_def demo_org_def) (simp add: demo_policy_def)
qed

lemma demo_can_write: "can_write demo_env demo_gate_db ''o'' ''t''"
  using demo_can_sign
  by (simp add: can_write_def demo_gate_db_def empty_db_def get_trace_by_id_def trace_events_def
      wrapping_pem_def get_org_by_id_def)

lemma demo_precheck:
  "\<exists>r db'. run_precheck demo_env demo_rewriter (demo_org ''standard'' None) ''t'' 1 ''send'' None
     demo_payload None demo_gate_db = Inr (r, db')"
proof (rule precheck_total [OF demo_gate_db_ok demo_keys_ok(1)])
  show "can_write demo_env demo_gate_db (o_id (demo_org ''standard'' None)) ''t''"
    using demo_can_write by (simp add: demo_org_def)
  show "evaluable demo_gate_db (demo_org ''standard'' None) ''send'' demo_payload None"
    by (rule demo_evaluable) (simp_all add: demo_gate_db_def empty_db_def)
  show "chosen_policy demo_gate_db (o_id (demo_org ''standard'' None)) None = Some demo_policy"
    by (simp add: chosen_policy_def get_active_policy_def demo_gate_db_def demo_policy_def demo_org_def
        order_desc_def)
qed (simp_all add: demo_rewriter_def next_seq_def last_event_for_trace_def demo_gate_db_def empty_db_def)


text \<open>A gate call on a database without policies.\<close>

lemma demo_gate:
  "\<exists>v db'. run_gate demo_env demo_rewriter (demo_org ''standard'' None) ''send'' [] (Some ''t'') None None
     empty_db = Inr (v, db') \<and> gv_status v = STATUS_UNEVALUATED"
proof -
  have "can_write demo_env empty_db (o_id (demo_org ''standard'' None)) ''t''"
    using demo_can_sign
    by (simp add: can_write_def empty_db_def get_trace_by_id_def trace_events_def wrapping_pem_def
        get_org_by_id_def)
  moreover have "strip ''send'' \<noteq> []" by code_simp
  moreover have none: "chosen_policy empty_db (o_id (demo_org ''standard'' None)) None = None"
    by (simp add: chosen_policy_def get_active_policy_def empty_db_def)
  moreover have "evaluable empty_db (demo_org ''standard'' None) ''send'' [] None"
    by (simp add: evaluable_def none)
  ultimately show ?thesis
    using gate_verdict [OF log_ok_empty demo_keys_ok(1), of "demo_org ''standard'' None" "''t''" "''send''"
      demo_rewriter "[]" None] by (simp add: demo_rewriter_def)
qed

theorem gate_records_output_witness:
  "\<exists>v db'. run_gate demo_env demo_rewriter (demo_org ''standard'' None) ''send'' [] (Some ''t'') None None
     empty_db = Inr (v, db') \<and> log_ok demo_env db' \<and> (\<exists>e. events db' = [e] \<and> e_type e = ''send'')"
proof -
  obtain v db' where v: "run_gate demo_env demo_rewriter (demo_org ''standard'' None) ''send'' [] (Some ''t'')
     None None empty_db = Inr (v, db')" "gv_status v = STATUS_UNEVALUATED"
    using demo_gate by blast
  from gate_records_output [OF log_ok_empty demo_keys_ok(1) v(1)] v show ?thesis
    by (auto simp: empty_db_def)
qed

lemma update_where_marks:
  assumes "s \<in> set (update_where P f rows)"
  shows "P s \<Longrightarrow> \<exists>r. P r \<and> s = f r"
  using assms by (auto simp: set_update_where split: if_splits)

text \<open>Closing a flag: a gate call that names an earlier decision as its remediation succeeds only if
  that decision is a flagged or blocked one of the same organization and trace; when the new verdict
  is compliant the earlier decision is marked as remediated by the new one, and otherwise no
  decision's remediation mark changes: an attempt alone closes nothing.\<close>

theorem remediation_closes_only_when_compliant:
  assumes "log_ok E db" "service_key_ok E"
    and "run_gate E R org action output tid pv (Some n) db = Inr (v, db')"
  shows "\<exists>t d. tid = Some t \<and> d \<in> set (summaries db) \<and> is_decision (o_id org) t n d \<and>
    ds_status d \<in> {Some STATUS_FLAGGED, Some STATUS_BLOCKED} \<and>
    (if gv_status v = STATUS_COMPLIANT
     then \<forall>s \<in> set (summaries db'). is_decision (o_id org) t n s \<longrightarrow>
            ds_remediated_by_seq s = gv_decision_seq v
     else map ds_remediated_by_seq (take (length (summaries db)) (summaries db')) =
            map ds_remediated_by_seq (summaries db))"
proof -
  obtain rs t db0 tr db1 decision db2 ev db3 ver where
    rs: "\<exists>d. validate_remediates db (o_id org) tid n = Inr d \<and> rs = Some d"
    and t: "(t, db0) = (case tid of Some t \<Rightarrow> (t, db) | None \<Rightarrow> new_uuid E db)"
    and tr: "get_or_create_trace E (o_id org) t pv db0 = Inr (tr, db1)"
    and dec: "(case decision of
        None \<Rightarrow> run_precheck E R org t (next_seq db1 (o_id org) t) action (Some n) output pv db1 = Inl NoActivePolicyError
          \<and> db2 = db1
      | Some d \<Rightarrow> run_precheck E R org t (next_seq db1 (o_id org) t) action (Some n) output pv db1 = Inr (d, db2))"
    and rec: "record_event E (o_id org) t (next_seq db2 (o_id org) t) action output ver db2 = Inr (ev, db3)"
    and fin: "(case decision of
        None \<Rightarrow> gv_status v = STATUS_UNEVALUATED \<and> db' = db3
      | Some d \<Rightarrow>
          gv_decision_seq v = Some (pc_policy_decision_seq d) \<and>
          db' = db3\<lparr>summaries :=
            (let ss = update_where (is_decision (o_id org) t (pc_policy_decision_seq d))
                 (\<lambda>s. s\<lparr>ds_status := Some (gv_status v), ds_output_seq := Some (eo_seq ev),
                        ds_output_hash := Some (eo_hash ev)\<rparr>) (summaries db3)
             in case rs of
                  Some r \<Rightarrow> if gv_status v = STATUS_COMPLIANT
                            then update_where (is_decision (ds_org_id r) (ds_trace_id r) (ds_seq r))
                                   (\<lambda>s. s\<lparr>ds_remediated_by_seq := Some (pc_policy_decision_seq d)\<rparr>) ss
                            else ss
                | None \<Rightarrow> ss)\<rparr>)"
    using assms(3) by (rule run_gate_Inr) (fastforce split: option.splits)
  from rs obtain d where d: "validate_remediates db (o_id org) tid n = Inr d" "rs = Some d" by blast
  then have tid: "tid = Some t" using t by (auto simp: validate_remediates_def split: option.splits)
  have mem: "d \<in> set (summaries db)" "is_decision (o_id org) t n d"
    "ds_status d \<in> {Some STATUS_FLAGGED, Some STATUS_BLOCKED}"
    using d(1) tid
    by (auto simp: validate_remediates_def split: option.splits if_splits dest: one_or_none_Some)
  have s1: "summaries db1 = summaries db" and ok1: "log_ok E db1"
    using t tid get_or_create_tables(1) [OF tr] get_or_create_log_ok [OF _ tr] assms(1) by simp_all
  obtain ss where s3: "summaries db3 = summaries db @ ss"
    using dec precheck_writes(2) [OF ok1 assms(2)] record_event_tables(1) [OF rec] s1
    by (cases decision) fastforce+
  have "if gv_status v = STATUS_COMPLIANT
     then \<forall>s \<in> set (summaries db'). is_decision (o_id org) t n s \<longrightarrow>
            ds_remediated_by_seq s = gv_decision_seq v
     else map ds_remediated_by_seq (take (length (summaries db)) (summaries db')) =
            map ds_remediated_by_seq (summaries db)"
  proof (cases decision)
    case None
    then show ?thesis using fin s3
      by (simp add: STATUS_UNEVALUATED_def STATUS_COMPLIANT_def)
  next
    case (Some x)
    have id: "is_decision (ds_org_id d) (ds_trace_id d) (ds_seq d) = is_decision (o_id org) t n"
      using mem(2) by (simp add: is_decision_def fun_eq_iff)
    show ?thesis
    proof (cases "gv_status v = STATUS_COMPLIANT")
      case True
      then obtain ys where ys: "summaries db' = update_where (is_decision (o_id org) t n)
          (\<lambda>s. s\<lparr>ds_remediated_by_seq := Some (pc_policy_decision_seq x)\<rparr>) ys"
        "gv_decision_seq v = Some (pc_policy_decision_seq x)"
        using fin d(2) by (auto simp: Some Let_def id)
      have "ds_remediated_by_seq s = gv_decision_seq v"
        if "s \<in> set (summaries db')" "is_decision (o_id org) t n s" for s
        using that update_where_marks [OF that(1) [unfolded ys(1)]] ys(2) by fastforce
      then show ?thesis using True by simp
    next
      case False
      then show ?thesis using fin d(2)
        by (auto simp: Some Let_def s3 map_update_where take_map [symmetric])
    qed
  qed
  with tid mem show ?thesis by blast
qed

text \<open>The preview never disagrees with the gate: when the gate evaluated and the preview reports no error,
  status, tier, permission, reasons and findings of the preview are those of the verdict.\<close>

theorem preview_agrees_with_gate:
  assumes "chosen_policy db (o_id org) pv = Some pol"
    and "run_gate E R org action output tid pv rem db = Inr (v, db')"
    and "gv_status v \<noteq> STATUS_UNEVALUATED"
    and "preview E db org action output (pol_version pol) (pol_rules pol) = Inr p" "pv_error p = None"
  shows "pv_status p = gv_status v \<and> pv_tier p = gv_tier v \<and> pv_allowed p = Some (gv_allowed v) \<and>
    pv_reasons p = gv_reasons v \<and> pv_findings p = gv_findings v"
proof -
  obtain t db0 tr db1 decision db2 where
    t: "(t, db0) = (case tid of Some t \<Rightarrow> (t, db) | None \<Rightarrow> new_uuid E db)"
    and tr: "get_or_create_trace E (o_id org) t pv db0 = Inr (tr, db1)"
    and dec: "(case decision of
        None \<Rightarrow> run_precheck E R org t (next_seq db1 (o_id org) t) action rem output pv db1 = Inl NoActivePolicyError
      | Some d \<Rightarrow> run_precheck E R org t (next_seq db1 (o_id org) t) action rem output pv db1 = Inr (d, db2))"
    and fin: "(case decision of None \<Rightarrow> gv_status v = STATUS_UNEVALUATED
      | Some d \<Rightarrow>
          gv_status v = derive_status (pc_allowed d) (tier_str (pc_tier d)) (pc_regulatory_findings d) \<and>
          gv_allowed v = pc_allowed d \<and> gv_tier v = Some (pc_tier d) \<and> gv_reasons v = pc_reasons d \<and>
          gv_findings v = pc_regulatory_findings d)"
    using assms(2) by (rule run_gate_Inr) (fastforce split: option.splits)
  obtain n where db0: "db0 = db\<lparr>draws := n\<rparr>" using gate_trace [OF t] by blast
  note tb = get_or_create_tables [OF tr]
  have cp: "chosen_policy db1 (o_id org) pv = Some pol"
    using assms(1) tb(2) db0 chosen_policy_cong [of db1 db] by simp
  obtain d where d: "decision = Some d"
    and run: "run_precheck E R org t (next_seq db1 (o_id org) t) action rem output pv db1 = Inr (d, db2)"
    using dec fin assms(3) by (cases decision) auto
  obtain f tr2 db3 where f: "extract_features action output = Inr f"
    and tr2: "get_or_create_trace E (o_id org) t (Some (pol_version pol)) db1 = Inr (tr2, db3)"
    and cases: "(\<exists>detail. evaluate_for org action output (pol_version pol) (pol_rules pol) f =
        Inl (PolicyEngineError detail)) \<or>
     (\<exists>out. evaluate_for org action output (pol_version pol) (pol_rules pol) f = Inr out \<and>
        judged E R org t (next_seq db1 (o_id org) t) action rem output pol f db3 out = Inr (d, db2))"
    using run by (rule run_precheck_Inr) (use cp in auto)
  have packs: "evaluate_packs db3 (o_id org) action output f = evaluate_packs db (o_id org) action output f"
    using get_or_create_tables [OF tr2] tb db0
    by (simp add: evaluate_packs_def active_packs_for_org_def)
  obtain out where out: "evaluate_for org action output (pol_version pol) (pol_rules pol) f = Inr out"
    and j: "judged E R org t (next_seq db1 (o_id org) t) action rem output pol f db3 out = Inr (d, db2)"
    using cases assms(4,5) f by (auto simp: preview_def)
  show ?thesis
    using j
  proof (rule judged_Inr)
    fix findings rplan ev db4
    assume "evaluate_packs db3 (o_id org) action output f = Inr findings"
      and "pc_tier d = combined_tier (po_tier out) findings" "pc_allowed d = po_allowed out"
        "pc_reasons d = po_reasons out" "pc_regulatory_findings d = map pack_finding_to_dict findings"
    then show ?thesis
      using fin d out f assms(4) packs
      by (auto simp: preview_def Let_def tier_allows_action_def bind_res_eq_Inr)
  qed
qed

text \<open>A model never owns a verdict: when the plan of a decision carries a drafted rewrite, the
  engine has judged that very draft, as an output of the same action under the same policy, and
  found it compliant.\<close>

theorem rewrite_was_judged_compliant:
  assumes "the_plan E R db org action pol payload f out fds status allowed = Inr (Some p)"
    and "rem_rewrite p = Some r"
  shows "\<exists>d. r = draft_to_dict d @ [(''evaluation'', JStr ''compliant''),
      (''requires_human_confirmation'', JBool (dr_reclassified d))] \<and>
    unrecorded_status db org action (dr_output d) pol = Inr STATUS_COMPLIANT \<and>
    status = STATUS_FLAGGED"
proof -
  have loop: "rem_rewrite q \<noteq> rem_rewrite p0 \<Longrightarrow> rem_rewrite q = Some r \<Longrightarrow>
      \<exists>d. r = draft_to_dict d @ [(''evaluation'', JStr ''compliant''),
        (''requires_human_confirmation'', JBool (dr_reclassified d))] \<and>
      unrecorded_status db org action (dr_output d) pol = Inr STATUS_COMPLIANT"
    if "rewrite_loop E R db org action pol payload fds rl ns p0 = Inr q" for rl ns p0 q
    using that
    by (induction ns) (auto simp: bind_res_eq_Inr attach_rewrite_def split: option.splits if_splits)
  have none: "rem_rewrite p0 = None" if "plan E payload f fds rs b = Some p0" for p0 rs b
    using that by (auto simp: plan_def Let_def split: if_splits prod.splits)
  show ?thesis
    using assms none loop
    by (auto simp: the_plan_def Let_def bind_res_eq_Inr STATUS_FLAGGED_def STATUS_BLOCKED_def
        split: if_splits option.splits)
qed

lemma demo_gate_hyps:
  "can_write demo_env demo_gate_db (o_id (demo_org ''standard'' None)) ''t''"
  "strip ''send'' \<noteq> []" "\<not> rw_enabled demo_rewriter"
  "evaluable demo_gate_db (demo_org ''standard'' None) ''send'' demo_payload None"
proof -
  show "can_write demo_env demo_gate_db (o_id (demo_org ''standard'' None)) ''t''"
    using demo_can_write by (simp add: demo_org_def)
  show "strip ''send'' \<noteq> []" by code_simp
  show "evaluable demo_gate_db (demo_org ''standard'' None) ''send'' demo_payload None"
    by (rule demo_evaluable) (simp_all add: demo_gate_db_def empty_db_def)
qed (simp add: demo_rewriter_def)

lemma demo_chosen: "chosen_policy demo_gate_db (o_id (demo_org ''standard'' None)) None = Some demo_policy"
  by (simp add: chosen_policy_def get_active_policy_def demo_gate_db_def demo_policy_def demo_org_def
        order_desc_def)

lemma demo_gate_run:
  "\<exists>v db'. run_gate demo_env demo_rewriter (demo_org ''standard'' None) ''send'' demo_payload (Some ''t'') None
     None demo_gate_db = Inr (v, db') \<and> gv_status v \<noteq> STATUS_UNEVALUATED"
  using gate_verdict [OF demo_gate_db_ok demo_keys_ok(1) demo_gate_hyps] demo_chosen by auto

text \<open>C6. The gate answers: when the trace is the caller's own or new, its keys work, the evaluation
  raises nothing and the rewriter is off, a gate call returns a verdict; it says \<open>unevaluated\<close>
  exactly when no policy applies.\<close>

theorem gate_answers:
  assumes "log_ok E db" "service_key_ok E" "can_write E db (o_id org) t" "strip action \<noteq> []"
    and "\<not> rw_enabled R" "evaluable db org action output pv"
  shows "\<exists>v db'. run_gate E R org action output (Some t) pv None db = Inr (v, db') \<and>
    (gv_status v = STATUS_UNEVALUATED \<longleftrightarrow> chosen_policy db (o_id org) pv = None)"
  using assms by (rule gate_verdict)

theorem gate_answers_witness:
  "\<exists>v db'. run_gate demo_env demo_rewriter (demo_org ''standard'' None) ''send'' demo_payload (Some ''t'') None
     None demo_gate_db = Inr (v, db') \<and> gv_status v \<noteq> STATUS_UNEVALUATED"
  using gate_answers [OF demo_gate_db_ok demo_keys_ok(1) demo_gate_hyps] demo_chosen by auto

text \<open>An earlier decision of the trace, flagged, and the gate call that remediates it.\<close>

definition demo_flag :: policy_decision_summary where
  "demo_flag =
     \<lparr>ds_id = ''s'', ds_org_id = ''o'', ds_trace_id = ''t'', ds_seq = 7, ds_event_hash = ''h'',
      ds_action = ''send'', ds_tier = ''orange'', ds_policy_tier = ''orange'', ds_allowed = True,
      ds_policy_version = None, ds_findings = [], ds_jurisdictions = [], ds_remediation = None,
      ds_remediation_of = None, ds_remediated_by_seq = None, ds_status = Some STATUS_FLAGGED,
      ds_output_seq = None, ds_output_hash = None, ds_created_at = 0\<rparr>"

theorem remediation_closes_only_when_compliant_witness:
  "\<exists>v db'. run_gate demo_env demo_rewriter (demo_org ''standard'' None) ''send'' demo_payload (Some ''t'') None
     (Some 7) (demo_gate_db\<lparr>summaries := [demo_flag]\<rparr>) = Inr (v, db') \<and>
     (\<exists>d \<in> set (summaries (demo_gate_db\<lparr>summaries := [demo_flag]\<rparr>)). is_decision ''o'' ''t'' 7 d)"
proof -
  let ?db = "demo_gate_db\<lparr>summaries := [demo_flag]\<rparr>"
  let ?org = "demo_org ''standard'' None"
  have ok: "log_ok demo_env ?db" by (rule log_ok_same [OF demo_gate_db_ok]) simp_all
  have "can_write demo_env ?db (o_id ?org) ''t''"
    by (rule can_write_same [OF demo_gate_hyps(1)])
      (simp_all add: demo_gate_db_def empty_db_def get_trace_by_id_def)
  moreover have "evaluable ?db ?org ''send'' demo_payload None"
    using demo_gate_hyps(4) evaluable_cong [of ?db demo_gate_db] by simp
  moreover have "validate_remediates ?db (o_id ?org) (Some ''t'') 7 = Inr demo_flag"
    by (simp add: validate_remediates_def is_decision_def demo_flag_def demo_org_def)
  ultimately obtain v db' where v: "run_gate demo_env demo_rewriter ?org ''send'' demo_payload (Some ''t'') None
     (Some 7) ?db = Inr (v, db')"
    using gate_total [OF ok demo_keys_ok(1) _ demo_gate_hyps(2,3), of ?org "''t''" demo_payload None "Some 7"]
    by auto
  have "o_id ?org = ''o''" by (simp add: demo_org_def)
  with remediation_closes_only_when_compliant [OF ok demo_keys_ok(1) v] v show ?thesis by auto
qed

lemma demo_preview:
  "\<exists>p. preview demo_env demo_gate_db (demo_org ''standard'' None) ''send'' demo_payload
     (pol_version demo_policy) (pol_rules demo_policy) = Inr p \<and> pv_error p = None"
proof -
  let ?org = "demo_org ''standard'' None"
  have f: "extract_features ''send'' demo_payload = Inr demo_features" by code_simp
  have r: "rules_doc (pol_rules demo_policy) = Inr demo_rules" by (simp add: rules_doc_def demo_policy_def)
  have out: "evaluate_policy_input
       \<lparr>pi_org_id = ''o'', pi_action = ''send'', pi_payload = demo_payload, pi_fail_mode = ''deny_on_error'',
        pi_policy_version = ''1'', pi_features = demo_features\<rparr> demo_rules =
    Inr \<lparr>po_tier = Red, po_decision = Deny, po_allowed = False,
         po_reasons = [''Rule matched: r1''], po_rule_id = Some ''r1'', po_regulatory_refs = [],
         po_risk_score = 90, po_layer_results = [], po_mitigations = []\<rparr>"
    by code_simp
  have packs: "evaluate_packs demo_gate_db (o_id ?org) ''send'' demo_payload demo_features = Inr []"
    by (simp add: evaluate_packs_def active_packs_for_org_def demo_gate_db_def empty_db_def)
  obtain p where "plan demo_env demo_payload demo_features [] [''Rule matched: r1''] True = Some p"
    by (simp add: plan_def Let_def demo_features_def)
  then show ?thesis using f r out packs
    by (simp add: preview_def evaluate_for_def demo_org_def demo_policy_def Let_def tier_allows_action_def
        derive_status_def)
qed

theorem preview_agrees_with_gate_witness:
  "\<exists>v db' p. run_gate demo_env demo_rewriter (demo_org ''standard'' None) ''send'' demo_payload (Some ''t'') None
     None demo_gate_db = Inr (v, db') \<and>
   preview demo_env demo_gate_db (demo_org ''standard'' None) ''send'' demo_payload
     (pol_version demo_policy) (pol_rules demo_policy) = Inr p \<and> pv_status p = gv_status v"
proof -
  obtain v db' where v: "run_gate demo_env demo_rewriter (demo_org ''standard'' None) ''send'' demo_payload
     (Some ''t'') None None demo_gate_db = Inr (v, db')" "gv_status v \<noteq> STATUS_UNEVALUATED"
    using demo_gate_run by blast
  obtain p where p: "preview demo_env demo_gate_db (demo_org ''standard'' None) ''send'' demo_payload
     (pol_version demo_policy) (pol_rules demo_policy) = Inr p" "pv_error p = None"
    using demo_preview by blast
  from preview_agrees_with_gate [OF demo_chosen v p] v p show ?thesis by blast
qed

text \<open>A rewriter whose model answers with a payload that the policy has nothing against.\<close>

definition drafting_rewriter :: rewriter where
  "drafting_rewriter =
     demo_rewriter\<lparr>rw_enabled := True, rw_complete := (\<lambda>n s u. Some ''{\"revised\": {\"citations\": 1}}'')\<rparr>"

theorem rewrite_was_judged_compliant_witness:
  "\<exists>p r (d :: draft). the_plan demo_env drafting_rewriter demo_gate_db (demo_org ''standard'' None) ''x'' demo_policy
      demo_payload demo_features (error_output ''e'') [[(''rule_id'', JStr ''r'')]] STATUS_FLAGGED True = Inr (Some p) \<and>
     rem_rewrite p = Some r \<and>
     unrecorded_status demo_gate_db (demo_org ''standard'' None) ''x'' (dr_output d) demo_policy = Inr STATUS_COMPLIANT"
proof -
  let ?org = "demo_org ''standard'' None"
  have draft: "\<exists>d. draft_rewrite demo_env drafting_rewriter n payload fds us rl = Some d \<and>
      dr_output d = [(''citations'', JInt 1)]" for n payload fds us rl
  proof -
    have "parse_draft ''{\"revised\": {\"citations\": 1}}'' = Some [(''revised'', JObj [(''citations'', JInt 1)])]"
      by code_simp
    then show ?thesis by (simp add: draft_rewrite_def drafting_rewriter_def Let_def dget_def dget_def_def)
  qed
  have r: "rules_doc (pol_rules demo_policy) = Inr demo_rules" by (simp add: rules_doc_def demo_policy_def)
  have f: "extract_features ''x'' [(''citations'', JInt 1)] = Inr (demo_features\<lparr>f_action := ''x''\<rparr>)" by code_simp
  have out: "evaluate_policy_input
       \<lparr>pi_org_id = ''o'', pi_action = ''x'', pi_payload = [(''citations'', JInt 1)], pi_fail_mode = ''deny_on_error'',
        pi_policy_version = ''1'', pi_features = demo_features\<lparr>f_action := ''x''\<rparr>\<rparr> demo_rules =
    Inr \<lparr>po_tier = Green, po_decision = Allow, po_allowed = True,
         po_reasons = [''No policy rule matched''], po_rule_id = None, po_regulatory_refs = [],
         po_risk_score = 10, po_layer_results = [], po_mitigations = []\<rparr>"
    by code_simp
  have packs: "evaluate_packs demo_gate_db ''o'' ''x'' [(''citations'', JInt 1)] (demo_features\<lparr>f_action := ''x''\<rparr>) = Inr []"
    by (simp add: evaluate_packs_def active_packs_for_org_def demo_gate_db_def empty_db_def)
  have st: "unrecorded_status demo_gate_db ?org ''x'' [(''citations'', JInt 1)] demo_policy = Inr STATUS_COMPLIANT"
    using f r out packs
    by (simp add: unrecorded_status_def evaluate_for_def demo_org_def demo_policy_def
        tier_allows_action_def derive_status_def combined_tier_def FLAGGING_TIERS_def)
  obtain p0 where p0: "plan demo_env demo_payload demo_features [[(''rule_id'', JStr ''r'')]]
      (po_reasons (error_output ''e'')) False = Some p0" "rem_unresolved p0 \<noteq> []"
    by (simp add: plan_def Let_def demo_features_def is_mechanical_def dget_def dget_def_def)
  have "[0..<rw_max_attempts drafting_rewriter] = [0, 1]"
    by (simp add: drafting_rewriter_def demo_rewriter_def upt_rec)
  moreover obtain d where d: "draft_rewrite demo_env drafting_rewriter 0 demo_payload [[(''rule_id'', JStr ''r'')]]
      (rem_unresolved p0) (dget demo_rules ''rules'') = Some d" "dr_output d = [(''citations'', JInt 1)]"
    using draft by blast
  moreover have "pol_rules demo_policy = JObj demo_rules" by (simp add: demo_policy_def)
  ultimately obtain p where p: "the_plan demo_env drafting_rewriter demo_gate_db ?org ''x'' demo_policy
      demo_payload demo_features (error_output ''e'') [[(''rule_id'', JStr ''r'')]] STATUS_FLAGGED True = Inr (Some p)"
      "rem_rewrite p \<noteq> None"
    using p0 st by (simp add: the_plan_def Let_def attach_rewrite_def)
  then obtain r where r: "rem_rewrite p = Some r" by blast
  obtain d' :: draft where "unrecorded_status demo_gate_db ?org ''x'' (dr_output d') demo_policy = Inr STATUS_COMPLIANT"
    using rewrite_was_judged_compliant [OF p(1) r] by auto
  with p(1) r show ?thesis by (intro exI conjI)
qed

text \<open>Publishing a policy: a version that is new for the organization and published as active is the
  one the gate uses from then on, whatever was active before.\<close>

theorem new_active_policy_is_used:
  assumes "get_policy_by_version db org_id version = None"
    and "upsert_policy E org_id name version rules True db = (p, db')"
  shows "get_active_policy db' org_id = Some p \<and> pol_rules p = rules \<and> pol_version p = version"
proof -
  let ?off = "update_where (\<lambda>x. pol_org_id x = org_id \<and> pol_active x) (\<lambda>x. x\<lparr>pol_active := False\<rparr>) (policies db)"
  have pols: "policies db' = ?off @ [p]" and p: "pol_org_id p = org_id" "pol_active p" "pol_rules p = rules"
      "pol_version p = version"
    using assms by (auto simp: upsert_policy_def Let_def new_uuid_def)
  have none: "filter (\<lambda>p. pol_org_id p = org_id \<and> pol_active p) ?off = []"
    by (auto simp: update_where_def filter_map o_def filter_empty_conv)
  show ?thesis using p by (simp add: get_active_policy_def pols none order_desc_def)
qed

theorem new_active_policy_is_used_witness:
  "\<exists>p db'. upsert_policy demo_env ''o'' ''n'' ''2'' JNull True demo_gate_db = (p, db') \<and>
     get_active_policy db' ''o'' = Some p \<and> pol_version p = ''2''"
proof -
  obtain p db' where u: "upsert_policy demo_env ''o'' ''n'' ''2'' JNull True demo_gate_db = (p, db')"
    by fastforce
  have "get_policy_by_version demo_gate_db ''o'' ''2'' = None"
    by (simp add: get_policy_by_version_def demo_gate_db_def demo_policy_def)
  from new_active_policy_is_used [OF this u] u show ?thesis by blast
qed

text \<open>Republishing an old version does not bring it back: when an existing version is published as
  active again, a version created later that is active stays active and stays in force.\<close>

theorem republished_version_not_used:
  "\<exists>db p db'. upsert_policy demo_env ''o'' ''n'' ''1'' JNull True db = (p, db') \<and> pol_active p \<and>
     (\<exists>q. get_active_policy db' ''o'' = Some q \<and> pol_version q = ''2'')"
proof -
  let ?db = "demo_gate_db\<lparr>policies := [demo_policy\<lparr>pol_active := False\<rparr>,
    demo_policy\<lparr>pol_version := ''2'', pol_created_at := 1\<rparr>]\<rparr>"
  show ?thesis
    by (rule exI [of _ ?db])
      (simp add: upsert_policy_def get_policy_by_version_def demo_policy_def Let_def update_where_def
        get_active_policy_def order_desc_def)
qed

text \<open>The preview can raise: for an amount of 100,000 or more with nothing else to object to, the
  status is flagged, there is no plan, and summarising the missing plan is a \<open>TypeError\<close>.\<close>

theorem preview_raises_without_plan:
  "preview demo_env empty_db (demo_org ''standard'' None) ''pay''
     [(''amount_aed'', JFloat 250000), (''citations'', JInt 1)] ''1'' (JObj []) = Inl TypeError"
proof -
  let ?f = "\<lparr>f_action = ''pay'', f_citation_count = 1, f_has_pii = False, f_pii_labels = [],
    f_cross_border = False, f_lawful_basis_present = False, f_prohibited_phrases = [],
    f_amount_aed = Some 250000\<rparr>"
  have f: "extract_features ''pay'' [(''amount_aed'', JFloat 250000), (''citations'', JInt 1)] = Inr ?f"
    by (simp add: extract_features_def Let_def dget_def dget_def_def detect_pii_labels_def
        detect_prohibited_phrases_def citation_count_def py_or_def)
  have "layer_floor_tier (run_deterministic_layers ?f) = Orange"
    by (simp add: run_deterministic_layers_def layer_floor_tier_def the_layer_def max_tier_def)
  then obtain out where out: "evaluate_for (demo_org ''standard'' None) ''pay''
      [(''amount_aed'', JFloat 250000), (''citations'', JInt 1)] ''1'' (JObj []) ?f = Inr out"
    "po_tier out = Orange" "po_allowed out"
    by (simp add: evaluate_for_def rules_doc_def evaluate_policy_input_def first_matching_rule_def
        dget_def dget_def_def Let_def)
  have "evaluate_packs empty_db ''o'' ''pay'' [(''amount_aed'', JFloat 250000), (''citations'', JInt 1)] ?f = Inr []"
    by (simp add: evaluate_packs_def active_packs_for_org_def empty_db_def)
  moreover have "o_id (demo_org ''standard'' None) = ''o''" by (simp add: demo_org_def)
  moreover have "plan demo_env [(''amount_aed'', JFloat 250000), (''citations'', JInt 1)] ?f []
      (po_reasons out) False = None" by (simp add: plan_def)
  ultimately show ?thesis using f out
    by (simp add: preview_def Let_def combined_tier_def tier_allows_action_def derive_status_def
        FLAGGING_TIERS_def)
qed

end
