(* ===== verification/Offline.thy ===== *)
theory Offline
  imports Gate
begin

text \<open>
  Events recorded while the service was unreachable: \<^verbatim>\<open>app/services/offline.py\<close>.  An SDK instance
  registers a key, signs every buffered event into a local chain, and hands the segment over; the
  service verifies the whole segment before it records any of it through the gate.
\<close>

section \<open>uuid.UUID and datetime.fromisoformat\<close>

text \<open>\<^verbatim>\<open>uuid.UUID(s)\<close> drops the prefixes, the braces and the hyphens and reads 32 characters with
  \<^verbatim>\<open>int(s, 16)\<close>, which takes white space around, a sign, the prefix 0x and single underscores
  between digits.\<close>

fun hex_digits :: "string \<Rightarrow> string option" where
  "hex_digits [] = None"
| "hex_digits [c] = (if hex_val c \<noteq> None then Some [c] else None)"
| "hex_digits (c # d # s) =
     (if hex_val c = None then None
      else map_option ((#) c) (if d = CHR ''_'' then hex_digits s else hex_digits (d # s)))"

definition hex_number :: "string \<Rightarrow> nat" where
  "hex_number ds = foldl (\<lambda>n c. 16 * n + (case hex_val c of None \<Rightarrow> 0 | Some v \<Rightarrow> v)) 0 ds"

definition int16 :: "string \<Rightarrow> nat option" where
  "int16 s =
     (let t = strip s;
          t = (case t of CHR ''+'' # r \<Rightarrow> r | _ \<Rightarrow> t);
          t = (case t of
                 CHR ''0'' # x # r \<Rightarrow>
                   if x = CHR ''x'' \<or> x = CHR ''X''
                   then (case r of CHR ''_'' # r' \<Rightarrow> r' | _ \<Rightarrow> r) else t
               | _ \<Rightarrow> t)
      in map_option hex_number (hex_digits t))"

fun hex_fixed :: "nat \<Rightarrow> nat \<Rightarrow> string" where
  "hex_fixed 0 n = []"
| "hex_fixed (Suc k) n = hex_fixed k (n div 16) @ [hex_digit (n mod 16)]"

definition uuid_str :: "nat \<Rightarrow> string" where
  "uuid_str n =
     (let h = hex_fixed 32 n
      in take 8 h @ ''-'' @ take 4 (drop 8 h) @ ''-'' @ take 4 (drop 12 h) @ ''-'' @
         take 4 (drop 16 h) @ ''-'' @ drop 20 h)"

definition strip_braces :: "string \<Rightarrow> string" where
  "strip_braces s =
     (let b = (\<lambda>c. c = CHR ''{'' \<or> c = CHR ''}'')
      in rev (dropWhile b (rev (dropWhile b s))))"

definition uuid_of :: "string \<Rightarrow> string res" where
  "uuid_of s =
     (let h = replace ''-'' [] (strip_braces (replace ''uuid:'' [] (replace ''urn:'' [] s)))
      in if length h \<noteq> 32 then Inl ValueError
         else map_sum id uuid_str (res_of_option ValueError (int16 h)))"

section \<open>Devices\<close>

definition is_device :: "string \<Rightarrow> string \<Rightarrow> sdk_device \<Rightarrow> bool" where
  "is_device org_id device_id d \<longleftrightarrow> dv_org_id d = org_id \<and> dv_device_id d = device_id"

definition get_device :: "db \<Rightarrow> string \<Rightarrow> string \<Rightarrow> sdk_device option" where
  "get_device db org_id device_id = one_or_none (is_device org_id device_id) (sdk_devices db)"

definition touch_device :: "env \<Rightarrow> string \<Rightarrow> string \<Rightarrow> db \<Rightarrow> db" where
  "touch_device E org_id device_id db =
     db\<lparr>sdk_devices :=
          update_where (is_device org_id device_id) (\<lambda>d. d\<lparr>dv_last_seen_at := Some (now E)\<rparr>) (sdk_devices db)\<rparr>"

definition register_device ::
  "env \<Rightarrow> string \<Rightarrow> string \<Rightarrow> string \<Rightarrow> string option \<Rightarrow> db \<Rightarrow> (sdk_device \<times> db) res" where
  "register_device E org_id device_id public_pem label db =
     (case get_device db org_id device_id of
        Some existing \<Rightarrow>
          if strip (dv_public_pem existing) \<noteq> strip public_pem then Inl OfflineSegmentError
          else Inr (existing\<lparr>dv_last_seen_at := Some (now E)\<rparr>, touch_device E org_id device_id db)
      | None \<Rightarrow>
          let (did, db) = new_uuid E db;
              d = \<lparr>dv_id = did, dv_org_id = org_id, dv_device_id = device_id,
                   dv_public_pem = public_pem, dv_label = label, dv_revoked = False,
                   dv_created_at = now E, dv_last_seen_at = Some (now E)\<rparr>
          in Inr (d, db\<lparr>sdk_devices := sdk_devices db @ [d]\<rparr>))"

section \<open>Verifying a segment\<close>

definition claim_of :: "env \<Rightarrow> string \<Rightarrow> dict \<Rightarrow> dict \<Rightarrow> int \<Rightarrow> dict" where
  "claim_of E device_id item payload local_seq =
     build_offline_claim device_id local_seq (dget item ''prev_local'')
       (py_str (dget_def item ''occurred_at'' (JStr [])))
       (py_str (dget_def item ''action'' (JStr [])))
       (sha256_hex E payload)"

definition client_signature :: "dict \<Rightarrow> string" where
  "client_signature item = py_str (dget_def item ''client_signature'' (JStr []))"

text \<open>One item: \<open>link\<close> is the claim hash of the item before it, absent for the first.\<close>

definition verify_item :: "env \<Rightarrow> bytes \<Rightarrow> string \<Rightarrow> string option \<Rightarrow> dict \<Rightarrow> dict res" where
  "verify_item E public_pem device_id link item =
     (case dget item ''output'' of
        JObj payload \<Rightarrow>
          bind_res (py_int (dget_def item ''local_seq'' (JInt (- 1)))) (\<lambda>local_seq.
          let claim = claim_of E device_id item payload local_seq in
          if \<not> py_eq (dget claim ''payload_hash'') (dget item ''payload_hash'') then Inl OfflineSegmentError
          else if (case link of None \<Rightarrow> False | Some l \<Rightarrow> \<not> py_eq (dget claim ''prev_local'') (JStr l))
          then Inl OfflineSegmentError
          else
          bind_res (verify_hex E public_pem (offline_claim_hash E claim) (client_signature item)) (\<lambda>ok.
          if ok then Inr claim else Inl OfflineSegmentError))
      | _ \<Rightarrow> Inl OfflineSegmentError)"

fun verify_items ::
  "env \<Rightarrow> bytes \<Rightarrow> string \<Rightarrow> string option \<Rightarrow> dict list \<Rightarrow> (dict \<times> dict) list res" where
  "verify_items E public_pem device_id link [] = Inr []"
| "verify_items E public_pem device_id link (item # items) =
     bind_res (verify_item E public_pem device_id link item) (\<lambda>claim.
     bind_res (verify_items E public_pem device_id (Some (offline_claim_hash E claim)) items) (\<lambda>rest.
     Inr ((item, claim) # rest)))"

definition verify_segment :: "env \<Rightarrow> sdk_device \<Rightarrow> dict list \<Rightarrow> (dict \<times> dict) list res" where
  "verify_segment E device items =
     verify_items E (dv_public_pem device) (dv_device_id device) None items"

section \<open>Grafting\<close>

text \<open>The times come from outside; \<open>fromiso\<close> is \<^verbatim>\<open>datetime.fromisoformat\<close>, None where it raises.\<close>

definition is_event :: "string \<Rightarrow> string \<Rightarrow> int \<Rightarrow> event \<Rightarrow> bool" where
  "is_event org_id trace_id seq e \<longleftrightarrow> e_org_id e = org_id \<and> e_trace_id e = trace_id \<and> e_seq e = seq"

definition mark_deferred ::
  "(string \<Rightarrow> int option) \<Rightarrow> string \<Rightarrow> string \<Rightarrow> int \<Rightarrow> string \<Rightarrow> string \<Rightarrow> string \<Rightarrow> db \<Rightarrow> db" where
  "mark_deferred fromiso org_id trace_id seq occurred_at device_id signature db =
     db\<lparr>events :=
          update_where (is_event org_id trace_id seq)
            (\<lambda>e. e\<lparr>e_deferred := True, e_client_device_id := Some device_id,
                   e_client_signature := Some signature, e_occurred_at := fromiso occurred_at\<rparr>)
            (events db)\<rparr>"

record graft_result = gate_verdict +
  gr_deferred :: bool
  gr_occurred_at :: json
  gr_local_status :: json
  gr_verdict_changed :: bool

definition item_trace :: "dict \<Rightarrow> string option res" where
  "item_trace item =
     (let raw = dget item ''trace_id'' in
      if \<not> truthy raw then Inr None
      else case uuid_of (py_str raw) of
             Inl _ \<Rightarrow> Inl OfflineSegmentError
           | Inr t \<Rightarrow> Inr (Some t))"

definition item_output :: "dict \<Rightarrow> dict" where
  "item_output item = (case dget item ''output'' of JObj d \<Rightarrow> d | _ \<Rightarrow> [])"

definition item_action :: "dict \<Rightarrow> string" where
  "item_action item = py_str (dget_def item ''action'' (JStr ''model_completion''))"

definition graft_item ::
  "env \<Rightarrow> rewriter \<Rightarrow> (string \<Rightarrow> int option) \<Rightarrow> org \<Rightarrow> string \<Rightarrow> dict \<times> dict \<Rightarrow> db \<Rightarrow>
   (graft_result \<times> db) res" where
  "graft_item E R fromiso org device_id ic db =
     (case ic of (item, claim) \<Rightarrow>
      bind_res (item_trace item) (\<lambda>trace_id.
      bind_res (run_gate E R org (item_action item) (item_output item) trace_id None None db) (\<lambda>(v, db).
      let db = mark_deferred fromiso (o_id org) (gv_trace_id v) (gv_output_seq v)
                 (py_str (dget claim ''occurred_at'')) device_id (client_signature item) db;
          local_status = dget item ''local_status''
      in Inr (gate_verdict.extend v
                \<lparr>gr_deferred = True, gr_occurred_at = dget claim ''occurred_at'',
                 gr_local_status = local_status,
                 gr_verdict_changed =
                   (local_status \<noteq> JNull \<and> \<not> py_eq local_status (JStr (gv_status v)))\<rparr>, db))))"

fun graft_items ::
  "env \<Rightarrow> rewriter \<Rightarrow> (string \<Rightarrow> int option) \<Rightarrow> org \<Rightarrow> string \<Rightarrow> (dict \<times> dict) list \<Rightarrow> db \<Rightarrow>
   (graft_result list \<times> db) res" where
  "graft_items E R fromiso org device_id [] db = Inr ([], db)"
| "graft_items E R fromiso org device_id (ic # ics) db =
     bind_res (graft_item E R fromiso org device_id ic db) (\<lambda>(r, db).
     bind_res (graft_items E R fromiso org device_id ics db) (\<lambda>(rs, db).
     Inr (r # rs, db)))"

definition graft_offline_segment ::
  "env \<Rightarrow> rewriter \<Rightarrow> (string \<Rightarrow> int option) \<Rightarrow> org \<Rightarrow> string \<Rightarrow> dict list \<Rightarrow> db \<Rightarrow>
   (graft_result list \<times> db) res" where
  "graft_offline_segment E R fromiso org device_id items db =
     (case get_device db (o_id org) device_id of
        None \<Rightarrow> Inl OfflineSegmentError
      | Some device \<Rightarrow>
          if dv_revoked device then Inl OfflineSegmentError
          else
          bind_res (verify_segment E device items) (\<lambda>verified.
          bind_res (graft_items E R fromiso org (dv_device_id device) verified db) (\<lambda>(results, db).
          Inr (results, touch_device E (o_id org) device_id db))))"

section \<open>Lemmas\<close>

lemma py_eq_JStr [simp]: "py_eq (JStr a) v \<longleftrightarrow> v = JStr a" "py_eq v (JStr a) \<longleftrightarrow> v = JStr a"
  by (cases v; auto)+

lemma claim_of_lookup [simp]:
  "dget (claim_of E did item payload n) ''payload_hash'' = JStr (sha256_hex E payload)"
  "dget (claim_of E did item payload n) ''prev_local'' = py_or (dget item ''prev_local'') (JStr [])"
  "dget (claim_of E did item payload n) ''occurred_at'' = JStr (py_str (dget_def item ''occurred_at'' (JStr [])))"
  by (simp_all add: claim_of_def build_offline_claim_def dget_def [of "_ # _"] dget_def_def [of "_ # _"])

lemma verify_item_iff:
  "verify_item E pem did link item = Inr claim \<longleftrightarrow>
   (\<exists>payload n. dget item ''output'' = JObj payload \<and>
      py_int (dget_def item ''local_seq'' (JInt (- 1))) = Inr n \<and>
      claim = claim_of E did item payload n \<and>
      dget item ''payload_hash'' = JStr (sha256_hex E payload) \<and>
      (\<forall>l. link = Some l \<longrightarrow> py_or (dget item ''prev_local'') (JStr []) = JStr l) \<and>
      verify_hex E pem (offline_claim_hash E claim) (client_signature item) = Inr True)"
  unfolding verify_item_def
  by (cases "dget item ''output''"; cases link)
    (auto simp: bind_res_eq_Inr Let_def split: if_splits)

lemma verify_items_prefix:
  assumes "verify_items E pem did link (xs @ ys) = Inr vs"
  obtains us ws where "vs = us @ ws" "verify_items E pem did link xs = Inr us"
proof -
  have "\<exists>us ws. vs = us @ ws \<and> verify_items E pem did link xs = Inr us"
    using assms
  proof (induction xs arbitrary: link vs)
    case (Cons x xs)
    then obtain c rest where x: "verify_item E pem did link x = Inr c" "vs = (x, c) # rest"
      and "verify_items E pem did (Some (offline_claim_hash E c)) (xs @ ys) = Inr rest"
      by (auto simp: bind_res_eq_Inr)
    from Cons.IH [OF this(3)] x show ?case by auto
  qed simp
  with that show thesis by blast
qed

lemma verify_items_length:
  "verify_items E pem did link items = Inr vs \<Longrightarrow> map fst vs = items"
  by (induction items arbitrary: link vs) (auto simp: bind_res_eq_Inr)

lemma verify_items_nth:
  assumes "verify_items E pem did link items = Inr vs" "i < length items"
  shows "verify_item E pem did
     (if i = 0 then link else Some (offline_claim_hash E (snd (vs ! (i - 1))))) (items ! i) = Inr (snd (vs ! i))"
  using assms
proof (induction items arbitrary: link vs i)
  case (Cons x xs)
  then show ?case by (cases i) (fastforce simp: bind_res_eq_Inr nth_Cons')+
qed simp

lemma offline_removal:
  assumes "verify_segment E device (xs @ y # zs) = Inr vs" "xs \<noteq> []" "zs \<noteq> []"
    and "verify_segment E device (xs @ zs) = Inr ws"
  shows "offline_claim_hash E (snd (vs ! length xs)) = offline_claim_hash E (snd (vs ! (length xs - 1)))"
proof -
  obtain z zt where zs: "zs = z # zt" using assms(3) by (cases zs) auto
  note v = assms(1) [unfolded verify_segment_def] and w = assms(4) [unfolded verify_segment_def]
  from v obtain us ts where us: "verify_items E (dv_public_pem device) (dv_device_id device) None xs = Inr us"
    and vs: "vs = us @ ts" by (rule verify_items_prefix)
  from w obtain us' ts' where us': "verify_items E (dv_public_pem device) (dv_device_id device) None xs = Inr us'"
    and ws: "ws = us' @ ts'" by (rule verify_items_prefix)
  have l: "length us = length xs" using verify_items_length [OF us] by (metis length_map)
  have same: "vs ! (length xs - 1) = ws ! (length xs - 1)"
    using us us' vs ws l assms(2) by (auto simp: nth_append)
  have "py_or (dget z ''prev_local'') (JStr []) = JStr (offline_claim_hash E (snd (vs ! length xs)))"
    using verify_items_nth [OF v, of "Suc (length xs)"] by (auto simp: zs verify_item_iff nth_append)
  moreover have "py_or (dget z ''prev_local'') (JStr []) = JStr (offline_claim_hash E (snd (ws ! (length xs - 1))))"
    using verify_items_nth [OF w, of "length xs"] assms(2) by (auto simp: zs verify_item_iff nth_append)
  ultimately show ?thesis using same by simp
qed

lemma mark_deferred_log_ok:
  "log_ok E db \<Longrightarrow> log_ok E (mark_deferred fromiso org_id t n at' did sig db)"
  unfolding mark_deferred_def by (rule annotate_log_ok) (simp_all add: sealed_fields_iff)

lemma log_ok_fresh:
  assumes "log_ok E db" "events db = xs @ [e]" "x \<in> set xs" "e_trace_id x = e_trace_id e"
  shows "e_seq x \<noteq> e_seq e"
proof -
  let ?rows = "trace_events db (e_trace_id e)"
  have "map e_seq ?rows = map int [1..<Suc (length ?rows)]"
    using assms(1) by (simp add: log_ok_def trace_ok_def)
  then have "distinct (map e_seq ?rows)" by (metis distinct_map distinct_upt inj_on_of_nat)
  moreover have "?rows = filter (\<lambda>y. e_trace_id y = e_trace_id e) xs @ [e]"
    by (simp add: trace_events_def assms(2))
  ultimately have "e_seq e \<notin> e_seq ` set (filter (\<lambda>y. e_trace_id y = e_trace_id e) xs)" by simp
  then show ?thesis using assms(3,4) by (auto simp: image_iff)
qed

text \<open>The event that holds a grafted item.\<close>

definition grafted :: "env \<Rightarrow> string \<Rightarrow> string \<Rightarrow> dict \<Rightarrow> graft_result \<Rightarrow> event \<Rightarrow> bool" where
  "grafted E org_id device_id item r e \<longleftrightarrow>
     e_org_id e = org_id \<and> e_trace_id e = gv_trace_id r \<and> e_seq e = gv_output_seq r \<and>
     e_type e = item_action item \<and>
     e_payload_hash e = sha256_hex E (fst (redact_payload (item_output item))) \<and>
     e_deferred e \<and> e_client_device_id e = Some device_id \<and>
     e_client_signature e = Some (client_signature item)"

lemma graft_item_log:
  assumes "log_ok E db" "service_key_ok E"
    and "graft_item E R fromiso org did (item, claim) db = Inr (r, db')"
  shows "log_ok E db'" "set (events db) \<subseteq> set (events db')"
    "\<exists>e \<in> set (events db'). grafted E (o_id org) did item r e"
proof -
  obtain tid v db1 where g: "run_gate E R org (item_action item) (item_output item) tid None None db = Inr (v, db1)"
    and r: "gv_trace_id r = gv_trace_id v" "gv_output_seq r = gv_output_seq v"
    and db': "db' = mark_deferred fromiso (o_id org) (gv_trace_id v) (gv_output_seq v)
                 (py_str (dget claim ''occurred_at'')) did (client_signature item) db1"
    using assms(3) by (auto simp: graft_item_def bind_res_eq_Inr Let_def gate_verdict.defs)
  obtain ds e where ok1: "log_ok E db1" and ev: "events db1 = (events db @ ds) @ [e]"
    and e: "e_org_id e = o_id org" "e_trace_id e = gv_trace_id v" "e_type e = item_action item"
      "e_seq e = gv_output_seq v" "e_payload_hash e = sha256_hex E (fst (redact_payload (item_output item)))"
    using gate_log [OF assms(1,2) g] by auto
  show "log_ok E db'" unfolding db' by (rule mark_deferred_log_ok [OF ok1])
  have old: "\<not> is_event (o_id org) (gv_trace_id v) (gv_output_seq v) x" if "x \<in> set (events db @ ds)" for x
    using log_ok_fresh [OF ok1 ev that] e by (auto simp: is_event_def)
  have new: "is_event (o_id org) (gv_trace_id v) (gv_output_seq v) e" using e by (simp add: is_event_def)
  show "set (events db) \<subseteq> set (events db')"
    using old by (force simp: db' mark_deferred_def ev set_update_where)
  have "\<exists>x \<in> set (events db'). x = e\<lparr>e_deferred := True, e_client_device_id := Some did,
      e_client_signature := Some (client_signature item), e_occurred_at := fromiso (py_str (dget claim ''occurred_at''))\<rparr>"
    using new by (auto simp: db' mark_deferred_def ev update_where_def)
  then obtain x where "x \<in> set (events db')" "grafted E (o_id org) did item r x"
    using e r by (fastforce simp: grafted_def)
  then show "\<exists>e \<in> set (events db'). grafted E (o_id org) did item r e" by blast
qed

lemma graft_items_log:
  assumes "log_ok E db" "service_key_ok E" "graft_items E R fromiso org did ics db = Inr (rs, db')"
  shows "log_ok E db' \<and> set (events db) \<subseteq> set (events db') \<and> length rs = length ics \<and>
    (\<forall>i < length ics. \<exists>e \<in> set (events db'). grafted E (o_id org) did (fst (ics ! i)) (rs ! i) e)"
  using assms(1,3)
proof (induction ics arbitrary: db rs)
  case (Cons ic ics)
  obtain item claim where ic: "ic = (item, claim)" by (cases ic)
  from Cons.prems(2) obtain r db1 rs' where r: "graft_item E R fromiso org did (item, claim) db = Inr (r, db1)"
    and rest: "graft_items E R fromiso org did ics db1 = Inr (rs', db')" and rs: "rs = r # rs'"
    by (auto simp: bind_res_eq_Inr ic)
  note i = graft_item_log [OF Cons.prems(1) assms(2) r] and h = Cons.IH [OF graft_item_log(1) [OF Cons.prems(1) assms(2) r] rest]
  have "\<exists>e \<in> set (events db'). grafted E (o_id org) did (fst ((ic # ics) ! j)) ((r # rs') ! j) e"
    if "j < length (ic # ics)" for j
    using that i(3) h by (cases j) (auto simp: ic)
  with h i(2) show ?case by (auto simp: rs)
qed simp

section \<open>Properties\<close>


text \<open>C26. Nothing can be removed from the middle of a segment: if a segment is accepted, the segment
  without one of its inner items is refused, unless the claim of the removed item has the same
  hash as the claim before it.\<close>

theorem offline_removal_detected:
  assumes "verify_segment E device (xs @ y # zs) = Inr vs" "xs \<noteq> []" "zs \<noteq> []"
    and "offline_claim_hash E (snd (vs ! length xs)) \<noteq> offline_claim_hash E (snd (vs ! (length xs - 1)))"
  shows "\<exists>err. verify_segment E device (xs @ zs) = Inl err"
  using offline_removal [OF assms(1-3)] assms(4) by (cases "verify_segment E device (xs @ zs)") auto

lemma graft_segment_log:
  assumes "log_ok E db" "service_key_ok E"
    and "graft_offline_segment E R fromiso org device_id items db = Inr (rs, db')"
  shows "log_ok E db' \<and> set (events db) \<subseteq> set (events db') \<and> length rs = length items \<and>
    (\<forall>i < length items. \<exists>e \<in> set (events db').
       e_org_id e = o_id org \<and> e_trace_id e = gv_trace_id (rs ! i) \<and> e_seq e = gv_output_seq (rs ! i) \<and>
       e_type e = item_action (items ! i) \<and>
       e_payload_hash e = sha256_hex E (fst (redact_payload (item_output (items ! i)))) \<and>
       e_deferred e \<and> e_client_device_id e = Some device_id \<and>
       e_client_signature e = Some (client_signature (items ! i)))"
proof -
  obtain device vs db1 where dev: "get_device db (o_id org) device_id = Some device"
    and vs: "verify_items E (dv_public_pem device) (dv_device_id device) None items = Inr vs"
    and g: "graft_items E R fromiso org (dv_device_id device) vs db = Inr (rs, db1)"
    and db': "db' = touch_device E (o_id org) device_id db1"
    using assms(3)
    by (auto simp: graft_offline_segment_def bind_res_eq_Inr verify_segment_def split: option.splits if_splits)
  have did: "dv_device_id device = device_id"
    using dev by (auto simp: get_device_def is_device_def dest!: one_or_none_Some)
  have items: "items = map fst vs" using verify_items_length [OF vs] by simp
  have ev: "events db' = events db1" by (simp add: db' touch_device_def)
  have "log_ok E db'" if "log_ok E db1"
    using that by (rule log_ok_same) (simp_all add: db' touch_device_def)
  with graft_items_log [OF assms(1,2) g] show ?thesis
    by (simp add: items ev grafted_def did)
qed

text \<open>C24. Grafting is complete and honest: when the service accepts a segment, the log stays intact,
  nothing recorded before is altered, and every item is in the log under the returned trace and
  position, with its action and content, marked as deferred and carrying the device and the
  signature that vouch for it.\<close>

theorem graft_records_all:
  assumes "log_ok E db" "service_key_ok E"
    and "graft_offline_segment E R fromiso org device_id items db = Inr (rs, db')"
  shows "log_ok E db' \<and> set (events db) \<subseteq> set (events db') \<and> length rs = length items \<and>
    (\<forall>i < length items. \<exists>e \<in> set (events db').
       e_org_id e = o_id org \<and> e_trace_id e = gv_trace_id (rs ! i) \<and> e_seq e = gv_output_seq (rs ! i) \<and>
       e_type e = item_action (items ! i) \<and>
       e_payload_hash e = sha256_hex E (fst (redact_payload (item_output (items ! i)))) \<and>
       e_deferred e \<and> e_client_device_id e = Some device_id \<and>
       e_client_signature e = Some (client_signature (items ! i)))"
  using assms by (rule graft_segment_log)

text \<open>Signed items, as a device makes them, for the witnesses, and an environment whose digest tells the
  first claim from all other texts.\<close>

definition signed_item :: "env \<Rightarrow> bytes \<Rightarrow> string \<Rightarrow> int \<Rightarrow> json \<Rightarrow> string \<Rightarrow> dict \<Rightarrow> dict" where
  "signed_item E priv did n prev action payload =
     [(''action'', JStr action), (''output'', JObj payload), (''occurred_at'', JStr ''T''), (''local_seq'', JInt n),
      (''prev_local'', prev), (''payload_hash'', JStr (sha256_hex E payload)),
      (''client_signature'', JStr (hex (ed_sign E priv (digest E (canonical_bytes
         (build_offline_claim did n prev ''T'' action (sha256_hex E payload)))))))]"

definition first_claim :: dict where
  "first_claim = build_offline_claim ''device-1'' 1 JNull ''T'' ''x'' (hex (word_bytes 1))"

definition two_env :: env where
  "two_env = demo_env\<lparr>sha256 := (\<lambda>x. if x = canonical_bytes first_claim then 0 else 1)\<rparr>"

definition demo_device :: sdk_device where
  "demo_device = \<lparr>dv_id = ''i'', dv_org_id = ''o'', dv_device_id = ''device-1'', dv_public_pem = ''D'',
     dv_label = None, dv_revoked = False, dv_created_at = 0, dv_last_seen_at = None\<rparr>"

lemma signed_item_verifies:
  assumes "ed_pair E priv pem" and "\<And>l. link = Some l \<Longrightarrow> py_or prev (JStr []) = JStr l"
  shows "verify_item E pem did link (signed_item E priv did n prev action payload) =
    Inr (build_offline_claim did n prev ''T'' action (sha256_hex E payload))"
proof -
  let ?i = "signed_item E priv did n prev action payload"
  let ?c = "build_offline_claim did n prev ''T'' action (sha256_hex E payload)"
  have l: "dget ?i ''output'' = JObj payload" "dget_def ?i ''local_seq'' (JInt (- 1)) = JInt n"
    "dget ?i ''prev_local'' = prev" "dget_def ?i ''occurred_at'' (JStr []) = JStr ''T''"
    "dget_def ?i ''action'' (JStr []) = JStr action" "dget ?i ''payload_hash'' = JStr (sha256_hex E payload)"
    "client_signature ?i = hex (ed_sign E priv (digest E (canonical_bytes ?c)))"
    by (simp_all add: signed_item_def dget_def dget_def_def client_signature_def py_str_def)
  have "verify_hex E pem (offline_claim_hash E ?c) (client_signature ?i) = Inr True"
    using assms(1) by (simp add: l(7) verify_hex_def load_public_key_def ed_pair_def offline_claim_hash_def
        sha256_hex_def fromhex_hex res_of_option_def)
  then show ?thesis using assms(2)
    by (auto simp: verify_item_iff l claim_of_def py_str_def)
qed

lemma verify_signed_segment:
  assumes "ed_pair E priv (dv_public_pem device)" "did = dv_device_id device"
    and "a = build_offline_claim did 1 JNull ''T'' ''x'' (sha256_hex E [])"
    and "b = build_offline_claim did 2 (JStr (offline_claim_hash E a)) ''T'' ''x'' (sha256_hex E [])"
    and "c = build_offline_claim did 3 (JStr (offline_claim_hash E b)) ''T'' ''x'' (sha256_hex E [])"
  shows "verify_segment E device
      [signed_item E priv did 1 JNull ''x'' [], signed_item E priv did 2 (JStr (offline_claim_hash E a)) ''x'' [],
       signed_item E priv did 3 (JStr (offline_claim_hash E b)) ''x'' []] =
    Inr [(signed_item E priv did 1 JNull ''x'' [], a),
      (signed_item E priv did 2 (JStr (offline_claim_hash E a)) ''x'' [], b),
      (signed_item E priv did 3 (JStr (offline_claim_hash E b)) ''x'' [], c)]"
proof -
  have ne: "offline_claim_hash E q \<noteq> []" for q
    using length_digest [of E "canonical_bytes q"]
    by (cases "digest E (canonical_bytes q)") (simp_all add: offline_claim_hash_def sha256_hex_def hex_def hex_byte_def)
  have tr: "py_or (JStr (offline_claim_hash E q)) (JStr []) = JStr (offline_claim_hash E q)" for q
    using ne [of q] by (simp add: py_or_def)
  have "verify_item E (dv_public_pem device) did None (signed_item E priv did 1 JNull ''x'' []) = Inr a"
    unfolding assms(3) by (rule signed_item_verifies [OF assms(1)]) simp
  moreover have "verify_item E (dv_public_pem device) did (Some (offline_claim_hash E a))
      (signed_item E priv did 2 (JStr (offline_claim_hash E a)) ''x'' []) = Inr b"
    unfolding assms(4) by (rule signed_item_verifies [OF assms(1)]) (simp add: tr)
  moreover have "verify_item E (dv_public_pem device) did (Some (offline_claim_hash E b))
      (signed_item E priv did 3 (JStr (offline_claim_hash E b)) ''x'' []) = Inr c"
    unfolding assms(5) by (rule signed_item_verifies [OF assms(1)]) (simp add: tr)
  ultimately show ?thesis using assms(2) by (simp add: verify_segment_def)
qed

lemma two_env_pair: "ed_pair two_env ''D'' (dv_public_pem demo_device)"
  by (simp add: ed_pair_def two_env_def demo_env_def demo_device_def)

lemma jnorm_eq_JInt: "jnorm v = JInt i \<longleftrightarrow> v = JInt i"
  by (cases v) auto

lemma claim_plain: "is_str p \<or> p = JNull \<Longrightarrow> jplain (JObj (build_offline_claim did n p w act h))"
  by (cases p) (auto simp: build_offline_claim_def py_or_def)

lemma two_env_hash:
  assumes "jplain (JObj q)" "map_of q ''local_seq'' \<noteq> Some (JInt 1)"
  shows "sha256_hex two_env q = hex (word_bytes 1)"
proof -
  have "canonical_bytes q \<noteq> canonical_bytes first_claim"
  proof
    assume "canonical_bytes q = canonical_bytes first_claim"
    moreover have "jplain (JObj first_claim)" unfolding first_claim_def by (rule claim_plain) simp
    moreover have "map_of first_claim ''local_seq'' = Some (JInt 1)"
      by (simp add: first_claim_def build_offline_claim_def)
    ultimately show False
      using canonical_bytes_lookup [OF assms(1), of first_claim "''local_seq''"] assms(2)
      by (auto simp: jnorm_eq_JInt)
  qed
  then show ?thesis by (simp add: sha256_hex_def digest_def two_env_def)
qed

theorem offline_removal_detected_witness:
  "\<exists>x y z vs err. verify_segment two_env demo_device [x, y, z] = Inr vs \<and>
     verify_segment two_env demo_device [x, z] = Inl err"
proof -
  define a where "a = build_offline_claim ''device-1'' 1 JNull ''T'' ''x'' (sha256_hex two_env [])"
  define b where "b = build_offline_claim ''device-1'' 2 (JStr (offline_claim_hash two_env a)) ''T'' ''x'' (sha256_hex two_env [])"
  define c where "c = build_offline_claim ''device-1'' 3 (JStr (offline_claim_hash two_env b)) ''T'' ''x'' (sha256_hex two_env [])"
  let ?x = "signed_item two_env ''D'' ''device-1'' 1 JNull ''x'' []"
  let ?y = "signed_item two_env ''D'' ''device-1'' 2 (JStr (offline_claim_hash two_env a)) ''x'' []"
  let ?z = "signed_item two_env ''D'' ''device-1'' 3 (JStr (offline_claim_hash two_env b)) ''x'' []"
  have v: "verify_segment two_env demo_device ([?x] @ ?y # [?z]) = Inr [(?x, a), (?y, b), (?z, c)]"
    using verify_signed_segment [OF two_env_pair _ a_def b_def c_def] by (simp add: demo_device_def)
  have "sha256_hex two_env [] = hex (word_bytes 1)" by (rule two_env_hash) simp_all
  then have "a = first_claim" by (simp add: a_def first_claim_def)
  then have "offline_claim_hash two_env a = hex (word_bytes 0)"
    by (simp add: offline_claim_hash_def sha256_hex_def digest_def two_env_def)
  moreover have "offline_claim_hash two_env b = hex (word_bytes 1)"
    unfolding offline_claim_hash_def
  proof (rule two_env_hash)
    show "jplain (JObj b)" unfolding b_def by (rule claim_plain) simp
    show "map_of b ''local_seq'' \<noteq> Some (JInt 1)" by (simp add: b_def build_offline_claim_def)
  qed
  moreover have "word_bytes 0 \<noteq> word_bytes 1" by code_simp
  then have "hex (word_bytes 0) \<noteq> hex (word_bytes 1)" using fromhex_hex by (metis option.inject)
  ultimately have "offline_claim_hash two_env b \<noteq> offline_claim_hash two_env a" by simp
  then have "\<exists>err. verify_segment two_env demo_device ([?x] @ [?z]) = Inl err"
    by (intro offline_removal_detected [OF v]) simp_all
  with v show ?thesis by auto
qed


lemma run_gate_new_trace:
  "run_gate E R org action output None pv None db =
   run_gate E R org action output (Some (uuid4 E (draws db))) pv None (db\<lparr>draws := Suc (draws db)\<rparr>)"
  by (simp add: run_gate_def new_uuid_def)

theorem graft_records_all_witness:
  "\<exists>item rs db'. graft_offline_segment demo_env demo_rewriter (\<lambda>_. None) (demo_org ''standard'' None) ''device-1''
      [item] (empty_db\<lparr>sdk_devices := [demo_device]\<rparr>) = Inr (rs, db') \<and>
     (\<exists>e \<in> set (events db'). e_deferred e \<and> e_client_device_id e = Some ''device-1'')"
proof -
  let ?db = "empty_db\<lparr>sdk_devices := [demo_device]\<rparr>"
  let ?org = "demo_org ''standard'' None"
  let ?item = "signed_item demo_env ''D'' ''device-1'' 1 JNull ''x'' []"
  let ?claim = "build_offline_claim ''device-1'' 1 JNull ''T'' ''x'' (sha256_hex demo_env [])"
  have "ed_pair demo_env ''D'' ''D''" by (simp add: ed_pair_def demo_env_def)
  from signed_item_verifies [OF this, of None]
  have seg: "verify_segment demo_env demo_device [?item] = Inr [(?item, ?claim)]"
    by (simp add: verify_segment_def demo_device_def)
  have dev: "get_device ?db (o_id ?org) ''device-1'' = Some demo_device"
    by (simp add: get_device_def is_device_def demo_device_def demo_org_def)
  let ?db1 = "?db\<lparr>draws := Suc (draws ?db)\<rparr>" and ?t = "uuid4 demo_env (draws ?db)"
  have ok: "log_ok demo_env ?db" by (rule log_ok_same [OF log_ok_empty]) simp_all
  have ok1: "log_ok demo_env ?db1" by (rule log_ok_same [OF ok]) simp_all
  have none: "chosen_policy ?db1 (o_id ?org) None = None"
    by (simp add: chosen_policy_def get_active_policy_def empty_db_def)
  have "can_write demo_env ?db1 (o_id ?org) ?t"
    using demo_can_sign
    by (simp add: can_write_def empty_db_def get_trace_by_id_def trace_events_def wrapping_pem_def
        get_org_by_id_def)
  moreover have "evaluable ?db1 ?org ''x'' [] None" unfolding evaluable_def none by simp
  moreover have "strip ''x'' \<noteq> []" by code_simp
  ultimately obtain v db' where v: "run_gate demo_env demo_rewriter ?org ''x'' [] (Some ?t) None None ?db1 = Inr (v, db')"
    using gate_total [OF ok1 demo_keys_ok(1), of ?org ?t "''x''" demo_rewriter "[]" None None]
    by (auto simp: demo_rewriter_def)
  have "item_trace ?item = Inr None" "item_action ?item = ''x''" "item_output ?item = []"
    by (simp_all add: item_trace_def item_action_def item_output_def signed_item_def dget_def dget_def_def py_str_def)
  with v obtain r db2 where "graft_item demo_env demo_rewriter (\<lambda>_. None) ?org ''device-1'' (?item, ?claim) ?db = Inr (r, db2)"
    by (simp add: graft_item_def run_gate_new_trace Let_def)
  then obtain rs db2 where "graft_offline_segment demo_env demo_rewriter (\<lambda>_. None) ?org ''device-1'' [?item] ?db = Inr (rs, db2)"
    using dev seg by (simp add: graft_offline_segment_def) (simp add: demo_device_def)
  with graft_records_all [OF ok demo_keys_ok(1) this] show ?thesis by fastforce
qed

end
