(* ===== verification/SdkPolicy.thy ===== *)
theory SdkPolicy
  imports Policy
begin

text \<open>
  The local evaluation of the SDK: \<^verbatim>\<open>attest_sdk/policy\<close> and the cached bundle of
  \<^verbatim>\<open>attest_sdk/offline.py\<close>.  Its \<^verbatim>\<open>tiers.py\<close>, \<^verbatim>\<open>layers.py\<close>, phrase patterns and decision tables are the
  server's, text for text, and the server's definitions are used for them; what differs is defined
  here.  The theorems say when a local verdict is the server's and where it is not.
\<close>

section \<open>pii.py\<close>

definition sdk_PATTERNS :: "(string \<times> re) list" where
  "sdk_PATTERNS =
     [(''emirates_id'',
       seqs [WordB, lit ''784'', dash, Rep 4 is_digit, dash, Rep 7 is_digit, dash, Cls is_digit, WordB]),
      (''iban_ae'',
       seqs [WordB, lit ''AE'', Rep 2 is_digit, Rep 3 is_digit, Rep 16 is_digit, WordB]),
      (''email'',
       seqs [WordB, Plus (\<lambda>c. is_word_char c \<or> c \<in> set ''.+-''), lit ''@'',
             Plus (\<lambda>c. is_word_char c \<or> c = CHR ''-''), lit ''.'',
             Plus (\<lambda>c. is_word_char c \<or> c \<in> set ''.-''), WordB]),
      (''phone_ae'',
       seqs [WordB, Alt (seqs [Opt (lit ''+''), lit ''971'']) (lit ''0''), lit ''5'', Rep 8 is_digit, WordB])]"

fun sdk_scan :: "json \<Rightarrow> string list"
  and sdk_scan_list :: "json list \<Rightarrow> string list"
  and sdk_scan_obj :: "dict \<Rightarrow> string list" where
  "sdk_scan (JObj d) = sdk_scan_obj d"
| "sdk_scan (JList xs) = sdk_scan_list xs"
| "sdk_scan (JStr s) = map fst (filter (\<lambda>(label, pattern). search pattern s) sdk_PATTERNS)"
| "sdk_scan v = []"
| "sdk_scan_list [] = []"
| "sdk_scan_list (x # xs) = sdk_scan x @ sdk_scan_list xs"
| "sdk_scan_obj [] = []"
| "sdk_scan_obj ((k, v) # d) = sdk_scan v @ sdk_scan_obj d"

definition sdk_detect_pii_labels :: "dict \<Rightarrow> string list" where
  "sdk_detect_pii_labels payload = sorted_set (sdk_scan_obj payload)"

section \<open>features.py\<close>

definition sdk_extract_features :: "string \<Rightarrow> dict \<Rightarrow> feature_vector res" where
  "sdk_extract_features action payload =
     (let labels = sdk_detect_pii_labels payload;
          n = (case dget payload ''citations'' of
                 JBool b \<Rightarrow> (if b then 1 else 0)
               | JInt i \<Rightarrow> max 0 i
               | JList xs \<Rightarrow> int (length xs)
               | _ \<Rightarrow> 0)
      in
      bind_res (py_float (dget payload ''amount_aed'')) (\<lambda>amount.
      Inr \<lparr>f_action = action,
           f_citation_count = n,
           f_has_pii = (labels \<noteq> []),
           f_pii_labels = labels,
           f_cross_border =
             truthy (py_or (dget payload ''cross_border'') (dget payload ''transfer_abroad'')),
           f_lawful_basis_present =
             truthy (py_or (dget payload ''lawful_basis'') (dget payload ''cross_border_lawful_basis'')),
           f_prohibited_phrases = detect_prohibited_phrases payload,
           f_amount_aed = amount\<rparr>))"

section \<open>rules.py\<close>

definition sdk_match_classifier :: "dict \<Rightarrow> dict \<Rightarrow> bool" where
  "sdk_match_classifier payload m =
     (dget m ''feature'' = JStr ''classifier'' \<and>
      (let hint = dget payload ''_classifier_tier'' in truthy hint \<and> py_eq (dget m ''equals'') hint))"

definition sdk_rule_matches :: "string \<Rightarrow> dict \<Rightarrow> feature_vector \<Rightarrow> dict \<Rightarrow> bool res" where
  "sdk_rule_matches action payload f rule =
     (case dget rule ''match'' of
        JObj m \<Rightarrow>
          any_res
            [Inr (match_action action m),
             Inr (dget m ''has_pii'' = JBool True \<and> f_has_pii f),
             match_citations f m,
             Inr (match_features f m),
             Inr (sdk_match_classifier payload m),
             match_payload_key payload m,
             Inr (match_contains payload m)]
      | _ \<Rightarrow> Inr False)"

section \<open>evaluator.py\<close>

record local_evaluation =
  le_tier :: tier
  le_decision :: decision
  le_allowed :: bool
  le_reasons :: "string list"
  le_rule_id :: "string option"
  le_risk_score :: int
  le_mitigations :: "string list"
  le_local_only :: bool

definition local_evaluation_to_dict :: "local_evaluation \<Rightarrow> dict" where
  "local_evaluation_to_dict e =
     [(''tier'', JStr (tier_str (le_tier e))), (''decision'', JStr (decision_str (le_decision e))),
      (''allowed'', JBool (le_allowed e)), (''reasons'', jstrs (le_reasons e)),
      (''rule_id'', jopt JStr (le_rule_id e)), (''risk_score'', JInt (le_risk_score e)),
      (''mitigations'', jstrs (le_mitigations e)), (''local_only'', JBool (le_local_only e))]"

record sdk_rule_hit =
  sh_tier :: tier
  sh_decision :: decision
  sh_reason :: string
  sh_rule_id :: string

definition sdk_hit_of :: "nat \<Rightarrow> tier \<Rightarrow> dict \<Rightarrow> sdk_rule_hit" where
  "sdk_hit_of index t r =
     \<lparr>sh_tier = t,
      sh_decision = rule_decision t r,
      sh_reason =
        py_str (py_or (dget r ''reason'')
          (JStr (''Rule matched: '' @ py_str (dget_def r ''id'' (JInt (int index)))))),
      sh_rule_id = py_str (dget_def r ''id'' (JStr (''rule_'' @ nat_str index)))\<rparr>"

fun sdk_match_loop ::
  "string \<Rightarrow> dict \<Rightarrow> feature_vector \<Rightarrow> (nat \<times> json) list \<Rightarrow> sdk_rule_hit option res" where
  "sdk_match_loop action payload f [] = Inr None"
| "sdk_match_loop action payload f ((index, rule) # rest) =
     (case rule of
        JObj r \<Rightarrow>
          bind_res (tier_member (dget_def r ''tier'' (JStr ''yellow''))) (\<lambda>t.
          case t of
            None \<Rightarrow>
              Inl (PolicyEngineError
                (''invalid tier in rule '' @ py_str (dget_def r ''id'' (JInt (int index)))))
          | Some t \<Rightarrow>
              bind_res (sdk_rule_matches action payload f r) (\<lambda>hit.
              if hit then Inr (Some (sdk_hit_of index t r)) else sdk_match_loop action payload f rest))
      | _ \<Rightarrow>
          Inl (PolicyEngineError (''policy.rules['' @ nat_str index @ ''] must be an object'')))"

definition sdk_first_matching_rule ::
  "string \<Rightarrow> dict \<Rightarrow> feature_vector \<Rightarrow> dict \<Rightarrow> sdk_rule_hit option res" where
  "sdk_first_matching_rule action payload f rules_doc =
     (case dget rules_doc ''rules'' of
        JNull \<Rightarrow> Inr None
      | JList raw_rules \<Rightarrow> bind_res (sorted_rules raw_rules) (sdk_match_loop action payload f)
      | _ \<Rightarrow> Inl (PolicyEngineError ''policy.rules must be a list''))"

definition evaluate_local :: "string \<Rightarrow> dict \<Rightarrow> dict \<Rightarrow> string \<Rightarrow> local_evaluation res" where
  "evaluate_local action payload rules_doc fail_mode =
     bind_res (sdk_extract_features action payload) (\<lambda>f.
     let layers = run_deterministic_layers f;
         fl = layer_floor_tier layers
     in
     bind_res (sdk_first_matching_rule action payload f rules_doc) (\<lambda>rule_hit.
     let (t, reasons, rule_id, d) =
       (case rule_hit of
          Some h \<Rightarrow> (max_tier fl (sh_tier h), [sh_reason h], Some (sh_rule_id h), sh_decision h)
        | None \<Rightarrow>
            (fl, (if layers \<noteq> [] then layer_reasons layers else [''No policy rule matched'']), None,
             default_decision fl))
     in Inr \<lparr>le_tier = t, le_decision = d, le_allowed = decision_allowed t d fail_mode,
             le_reasons = reasons, le_rule_id = rule_id, le_risk_score = TIER_SCORE t,
             le_mitigations = MITIGATIONS_BY_TIER t, le_local_only = True\<rparr>))"

definition needs_server_escalation :: "local_evaluation \<Rightarrow> bool" where
  "needs_server_escalation e = (le_tier e \<in> {Orange, Red} \<or> \<not> le_allowed e)"

section \<open>defaults.py, bundle.py\<close>

definition DEFAULT_POLICY_RULES :: dict where
  "DEFAULT_POLICY_RULES =
     [(''schema_version'', JInt 1), (''engine'', JStr ''json''),
      (''rules'', JList
        [JObj [(''id'', JStr ''wire_transfer''), (''priority'', JInt 1000), (''tier'', JStr ''red''),
               (''decision'', JStr ''deny''), (''match'', JObj [(''action'', jstrs [''wire_transfer''])]),
               (''reason'', JStr ''High-risk financial action requires human approval'')],
         JObj [(''id'', JStr ''cross_border_no_basis''), (''priority'', JInt 980), (''tier'', JStr ''red''),
               (''decision'', JStr ''deny''),
               (''match'', JObj [(''feature'', JStr ''cross_border''), (''without_lawful_basis'', JBool True)]),
               (''reason'', JStr ''Cross-border transfer without lawful basis'')],
         JObj [(''id'', JStr ''pii_in_output''), (''priority'', JInt 800), (''tier'', JStr ''orange''),
               (''decision'', JStr ''flag''), (''match'', JObj [(''has_pii'', JBool True)]),
               (''reason'', JStr ''PII detected in request payload'')],
         JObj [(''id'', JStr ''uncited_factual_claim''), (''priority'', JInt 700), (''tier'', JStr ''yellow''),
               (''decision'', JStr ''flag''),
               (''match'', JObj [(''feature'', JStr ''citation_count''), (''lt'', JInt 1)]),
               (''reason'', JStr ''Factual output without citations'')]])]"

record policy_bundle =
  pb_rules_doc :: dict
  pb_version :: string
  pb_fail_mode :: string

definition bundle_evaluate :: "policy_bundle \<Rightarrow> string \<Rightarrow> dict \<Rightarrow> local_evaluation res" where
  "bundle_evaluate b action payload = evaluate_local action payload (pb_rules_doc b) (pb_fail_mode b)"

definition bundle_from_api_response :: "dict \<Rightarrow> string \<Rightarrow> policy_bundle" where
  "bundle_from_api_response body fail_mode =
     \<lparr>pb_rules_doc = (case dget body ''rules'' of JObj d \<Rightarrow> d | _ \<Rightarrow> DEFAULT_POLICY_RULES),
      pb_version = py_str (dget_def body ''version'' (JStr ''unknown'')),
      pb_fail_mode = fail_mode\<rparr>"

definition bundle_default :: "string \<Rightarrow> policy_bundle" where
  "bundle_default fail_mode =
     \<lparr>pb_rules_doc = DEFAULT_POLICY_RULES, pb_version = ''bundled'', pb_fail_mode = fail_mode\<rparr>"

section \<open>offline.py\<close>

definition offline_finding :: "dict \<Rightarrow> dict \<Rightarrow> tier \<Rightarrow> dict" where
  "offline_finding pack rule t =
     [(''pack_code'', dget pack ''code''), (''jurisdiction'', dget pack ''jurisdiction''),
      (''instrument'', dget pack ''instrument''), (''rule_id'', dget rule ''id''),
      (''tier'', JStr (tier_str t)), (''reason'', dget_def rule ''reason'' (JStr [])),
      (''topic'', dget rule ''topic''), (''provision'', dget rule ''provision''),
      (''guidance'', dget rule ''guidance''), (''source_url'', dget pack ''source_url''),
      (''verification_status'', dget pack ''verification_status''),
      (''enforcement'', JStr ''advisory''), (''advisory_only'', JBool True)]"

definition offline_rule_findings ::
  "string \<Rightarrow> dict \<Rightarrow> feature_vector \<Rightarrow> dict \<Rightarrow> json \<Rightarrow> (tier \<times> dict) list res" where
  "offline_rule_findings action payload f pack rule =
     (case rule of
        JObj r \<Rightarrow>
          bind_res (tier_member (dget_def r ''tier'' (JStr ''yellow''))) (\<lambda>t.
          Inr (case t of
                 None \<Rightarrow> []
               | Some t \<Rightarrow>
                   if sdk_rule_matches action payload f r = Inr True
                   then [(t, offline_finding pack r t)] else []))
      | _ \<Rightarrow> Inr [])"

definition offline_pack_findings ::
  "string \<Rightarrow> dict \<Rightarrow> feature_vector \<Rightarrow> json \<Rightarrow> (tier \<times> dict) list res" where
  "offline_pack_findings action payload f p =
     bind_res (as_dict p) (\<lambda>pack.
     bind_res (py_iter (dget_def pack ''rules'' (JList []))) (\<lambda>rules.
     bind_res (map_res (offline_rule_findings action payload f pack) rules) (\<lambda>fss.
     Inr (concat fss))))"

definition offline_findings :: "dict \<Rightarrow> string \<Rightarrow> dict \<Rightarrow> (tier \<times> dict) list res" where
  "offline_findings data action payload =
     bind_res (sdk_extract_features action payload) (\<lambda>f.
     bind_res (py_iter (dget_def data ''packs'' (JList []))) (\<lambda>packs.
     bind_res (map_res (offline_pack_findings action payload f) packs) (\<lambda>fss.
     Inr (sort_key (\<lambda>x. - int (TIER_RANK (fst x))) (concat fss)))))"

record offline_verdict =
  ov_status :: string
  ov_allowed :: bool
  ov_tier :: "tier option"
  ov_reasons :: "string list"
  ov_findings :: "dict list"
  ov_jurisdictions :: "json list"
  ov_policy_version :: "string option"

fun distinct_json :: "json list \<Rightarrow> json list \<Rightarrow> json list" where
  "distinct_json seen [] = seen"
| "distinct_json seen (j # js) =
     distinct_json (if list_ex (\<lambda>s. py_eq s j) seen then seen else seen @ [j]) js"

definition bundle_is_empty :: "dict \<Rightarrow> bool" where
  "bundle_is_empty data = (\<not> truthy (dget data ''policy_rules'') \<and> \<not> truthy (dget data ''packs''))"

definition bundle_policy_version :: "dict \<Rightarrow> string option" where
  "bundle_policy_version data =
     (let v = dget data ''policy_version'' in if truthy v then Some (py_str v) else None)"

definition offline_evaluate :: "dict \<Rightarrow> string \<Rightarrow> dict \<Rightarrow> offline_verdict res" where
  "offline_evaluate data action payload =
     (if bundle_is_empty data
      then Inr \<lparr>ov_status = STATUS_UNEVALUATED, ov_allowed = True, ov_tier = None,
                ov_reasons = [''No cached rules available offline; output recorded only.''],
                ov_findings = [], ov_jurisdictions = [], ov_policy_version = None\<rparr>
      else
      bind_res (as_dict (py_or (dget data ''policy_rules'') (JObj []))) (\<lambda>rules_doc.
      bind_res (evaluate_local action payload rules_doc
                  (py_str (dget_def data ''fail_mode'' (JStr ''deny_on_error'')))) (\<lambda>own.
      bind_res (offline_findings data action payload) (\<lambda>findings.
      let t = foldl (\<lambda>t x. if TIER_RANK t < TIER_RANK (fst x) then fst x else t) (le_tier own) findings;
          allowed = le_allowed own;
          status = (if \<not> allowed then STATUS_BLOCKED
                    else if tier_str t \<in> set FLAGGING_TIERS \<or> findings \<noteq> [] then STATUS_FLAGGED
                    else STATUS_COMPLIANT)
      in Inr \<lparr>ov_status = status, ov_allowed = allowed, ov_tier = Some t,
              ov_reasons = le_reasons own, ov_findings = map snd findings,
              ov_jurisdictions = distinct_json [] (map (\<lambda>x. dget (snd x) ''jurisdiction'') findings),
              ov_policy_version = bundle_policy_version data\<rparr>))))"

section \<open>Lemmas\<close>

lemma sdk_rule_matches_eq:
  "\<not> truthy (dget payload ''classifier'') \<Longrightarrow>
   sdk_rule_matches action payload f rule = rule_matches action payload f rule"
  by (simp add: sdk_rule_matches_def rule_matches_def sdk_match_classifier_def match_classifier_def py_or_def
      split: json.split)

definition sdk_of :: "rule_hit \<Rightarrow> sdk_rule_hit" where
  "sdk_of h = \<lparr>sh_tier = rh_tier h, sh_decision = rh_decision h, sh_reason = rh_reason h, sh_rule_id = rh_rule_id h\<rparr>"

lemma sdk_of_hit: "sdk_of (hit_of i t r) = sdk_hit_of i t r"
  by (simp add: sdk_of_def hit_of_def sdk_hit_of_def)

lemma map_sum_bind: "map_sum id g (bind_res r f) = bind_res r (\<lambda>x. map_sum id g (f x))"
  by (cases r) simp_all

lemma sdk_match_loop_eq:
  assumes "\<not> truthy (dget payload ''classifier'')"
  shows "sdk_match_loop action payload f rs = map_sum id (map_option sdk_of) (match_loop action payload f rs)"
proof (induction rs)
  case (Cons p rs)
  obtain i rule where p: "p = (i, rule)" by (cases p)
  show ?case
  proof (cases rule)
    case (JObj r)
    then show ?thesis using Cons
      by (auto simp: p map_sum_bind sdk_rule_matches_eq [OF assms] sdk_of_hit bind_res_def
          split: sum.split option.split)
  qed (simp_all add: p)
qed simp

lemma sdk_first_matching_eq:
  assumes "\<not> truthy (dget payload ''classifier'')"
  shows "sdk_first_matching_rule action payload f doc =
    map_sum id (map_option sdk_of) (first_matching_rule action payload f doc)"
proof -
  have "sdk_match_loop action payload f = (\<lambda>rs. map_sum id (map_option sdk_of) (match_loop action payload f rs))"
    using sdk_match_loop_eq [OF assms] by blast
  then show ?thesis
    by (simp add: sdk_first_matching_rule_def first_matching_rule_def map_sum_bind split: json.split)
qed

lemma sdk_features_eq:
  assumes "sdk_detect_pii_labels payload = detect_pii_labels payload"
  shows "sdk_extract_features action payload = extract_features action payload"
  by (simp add: sdk_extract_features_def extract_features_def assms citation_count_def Let_def)

definition local_view :: "policy_output \<Rightarrow> local_evaluation" where
  "local_view out =
     \<lparr>le_tier = po_tier out, le_decision = po_decision out, le_allowed = po_allowed out,
      le_reasons = po_reasons out, le_rule_id = po_rule_id out, le_risk_score = po_risk_score out,
      le_mitigations = po_mitigations out, le_local_only = True\<rparr>"

lemma evaluate_local_eq:
  assumes "sdk_detect_pii_labels payload = detect_pii_labels payload"
    and "\<not> truthy (dget payload ''classifier'')"
    and "extract_features action payload = Inr f"
    and "layer_floor_tier (run_deterministic_layers f) \<noteq> Red \<or> first_matching_rule action payload f doc \<noteq> Inr None"
  shows "evaluate_local action payload doc fail_mode =
    map_sum id local_view (evaluate_policy_input
      \<lparr>pi_org_id = org, pi_action = action, pi_payload = payload, pi_fail_mode = fail_mode,
       pi_policy_version = ver, pi_features = f\<rparr> doc)"
proof (cases "first_matching_rule action payload f doc")
  case (Inl e)
  then show ?thesis
    by (simp add: evaluate_local_def evaluate_policy_input_def sdk_features_eq [OF assms(1)] assms(3)
        sdk_first_matching_eq [OF assms(2)] Let_def)
next
  case (Inr h)
  show ?thesis
  proof (cases h)
    case None
    let ?fl = "layer_floor_tier (run_deterministic_layers f)"
    have "?fl \<noteq> Red" using assms(4) Inr None by simp
    then have "decision_allowed ?fl (default_decision ?fl) fail_mode" "default_decision ?fl \<noteq> Deny"
      by (cases ?fl; simp add: decision_allowed_def)+
    then show ?thesis using None Inr
      by (simp add: evaluate_local_def evaluate_policy_input_def sdk_features_eq [OF assms(1)] assms(3)
          sdk_first_matching_eq [OF assms(2)] Let_def local_view_def)
  next
    case (Some x)
    then show ?thesis using Inr
      by (simp add: evaluate_local_def evaluate_policy_input_def sdk_features_eq [OF assms(1)] assms(3)
          sdk_first_matching_eq [OF assms(2)] Let_def local_view_def sdk_of_def)
  qed
qed

text \<open>Inclusion of patterns: wherever the one ends, so does the other.\<close>

definition covered :: "re \<Rightarrow> re \<Rightarrow> bool" where
  "covered r q \<longleftrightarrow> (\<forall>s i. set (ends r s i) \<subseteq> set (ends q s i))"

lemma covered_refl: "covered r r" by (simp add: covered_def)

lemma covered_Seq: "covered a a' \<Longrightarrow> covered b b' \<Longrightarrow> covered (Seq a b) (Seq a' b')"
  by (fastforce simp: covered_def)

lemma covered_Alt: "covered a a' \<Longrightarrow> covered b b' \<Longrightarrow> covered (Alt a b) (Alt a' b')"
  by (fastforce simp: covered_def)

lemma covered_skip: "covered a b \<Longrightarrow> covered a (Seq (Opt q) b)"
  by (fastforce simp: covered_def)

lemma covered_skip_end: "covered a b \<Longrightarrow> covered a (Seq b (Opt q))"
  by (fastforce simp: covered_def)

lemma covered_trans [trans]: "covered a b \<Longrightarrow> covered b c \<Longrightarrow> covered a c"
  by (fastforce simp: covered_def)

lemma covered_Rep: "covered (Rep (m + n) P) (Seq (Rep m P) (Rep n P))"
  by (auto simp: covered_def take_add drop_drop add.commute)

lemma covered_Rep1: "covered (Rep 1 P) (Cls P)"
  by (auto simp: covered_def list_all_length take_Suc_conv_app_nth)

lemma covered_assoc: "covered (Seq (Seq a b) c) (Seq a (Seq b c))" "covered (Seq a (Seq b c)) (Seq (Seq a b) c)"
  by (auto simp: covered_def)

lemma search_covered: "covered r q \<Longrightarrow> search r s \<Longrightarrow> search q s"
  unfolding covered_def search_def list_ex_iff by (metis empty_subsetI set_empty subset_antisym)

lemma phone_digits:
  "covered (Seq (Rep 8 P) w) (Seq (Cls P) (Seq sep (Seq (Rep 3 P) (Seq sep (Seq (Rep 4 P) w)))))"
proof -
  have "covered (Rep (1 + 7) P) (Seq (Rep 1 P) (Rep (3 + 4) P))" using covered_Rep [of 1 7 P] by simp
  moreover have "covered (Seq (Rep 1 P) (Rep (3 + 4) P)) (Seq (Cls P) (Seq (Rep 3 P) (Rep 4 P)))"
    by (intro covered_Seq covered_Rep1 covered_Rep)
  ultimately have "covered (Rep 8 P) (Seq (Cls P) (Seq (Rep 3 P) (Rep 4 P)))"
    using covered_trans by fastforce
  then have "covered (Seq (Rep 8 P) w) (Seq (Seq (Cls P) (Seq (Rep 3 P) (Rep 4 P))) w)"
    by (intro covered_Seq covered_refl)
  also have "covered \<dots> (Seq (Cls P) (Seq (Rep 3 P) (Seq (Rep 4 P) w)))"
    by (auto simp: covered_def)
  also have "covered \<dots> (Seq (Cls P) (Seq sep (Seq (Rep 3 P) (Seq sep (Seq (Rep 4 P) w)))))"
    unfolding sep_def by (intro covered_Seq covered_skip covered_refl)
  finally show ?thesis .
qed

lemma phone_covered:
  "covered (seqs [WordB, Alt (seqs [Opt (lit ''+''), lit ''971'']) (lit ''0''), lit ''5'', Rep 8 is_digit, WordB])
     (seqs [WordB, Alt (seqs [Opt (lit ''+''), lit ''971'', sep]) (lit ''0''), lit ''5'', Cls is_digit,
             sep, Rep 3 is_digit, sep, Rep 4 is_digit, WordB])"
  unfolding seqs.simps
  by (intro covered_Seq covered_Alt covered_refl phone_digits) (unfold sep_def, rule covered_skip_end, rule covered_refl)

lemma sdk_labels_of_text:
  "set (map fst (filter (\<lambda>(label, pattern). search pattern s) sdk_PATTERNS)) \<subseteq> set (scan_str s)"
  using search_covered [OF phone_covered, of s]
  by (auto simp: sdk_PATTERNS_def PATTERNS_def scan_str_def simp del: seqs.simps)

lemma sdk_scan_subset:
  "set (sdk_scan v) \<subseteq> set (scan v)" "set (sdk_scan_list vs) \<subseteq> set (scan_list vs)" "set (sdk_scan_obj d) \<subseteq> set (scan_obj d)"
proof (induction v and vs and d rule: sdk_scan_sdk_scan_list_sdk_scan_obj.induct)
  case (3 s)
  show ?case using sdk_labels_of_text [of s] by simp
qed auto

section \<open>Properties\<close>

text \<open>C27. When the local verdict is the server's: if the two detectors find the same labels, the payload
  carries no \<^verbatim>\<open>classifier\<close> and either a rule of the policy matches or the built-in layers stay below
  red, the SDK's evaluation of any policy document is the server's, errors included.\<close>

theorem local_evaluation_agrees:
  assumes "sdk_detect_pii_labels payload = detect_pii_labels payload"
    and "\<not> truthy (dget payload ''classifier'')"
    and "extract_features action payload = Inr f"
    and "layer_floor_tier (run_deterministic_layers f) \<noteq> Red \<or> first_matching_rule action payload f doc \<noteq> Inr None"
  shows "evaluate_local action payload doc fail_mode =
    map_sum id
      (\<lambda>out. \<lparr>le_tier = po_tier out, le_decision = po_decision out, le_allowed = po_allowed out,
              le_reasons = po_reasons out, le_rule_id = po_rule_id out, le_risk_score = po_risk_score out,
              le_mitigations = po_mitigations out, le_local_only = True\<rparr>)
      (evaluate_policy_input
        \<lparr>pi_org_id = org, pi_action = action, pi_payload = payload, pi_fail_mode = fail_mode,
         pi_policy_version = ver, pi_features = f\<rparr> doc)"
  using evaluate_local_eq [OF assms] by (simp add: local_view_def [abs_def])

theorem local_evaluation_agrees_witness:
  "evaluate_local ''send'' demo_payload demo_rules ''deny_on_error'' =
    map_sum id
      (\<lambda>out. \<lparr>le_tier = po_tier out, le_decision = po_decision out, le_allowed = po_allowed out,
              le_reasons = po_reasons out, le_rule_id = po_rule_id out, le_risk_score = po_risk_score out,
              le_mitigations = po_mitigations out, le_local_only = True\<rparr>)
      (evaluate_policy_input
        \<lparr>pi_org_id = ''o'', pi_action = ''send'', pi_payload = demo_payload, pi_fail_mode = ''deny_on_error'',
         pi_policy_version = ''1'', pi_features = demo_features\<rparr> demo_rules)"
proof (rule local_evaluation_agrees)
  show "sdk_detect_pii_labels demo_payload = detect_pii_labels demo_payload" by code_simp
  show "\<not> truthy (dget demo_payload ''classifier'')" by code_simp
  show "extract_features ''send'' demo_payload = Inr demo_features" by code_simp
  show "layer_floor_tier (run_deterministic_layers demo_features) \<noteq> Red \<or>
      first_matching_rule ''send'' demo_payload demo_features demo_rules \<noteq> Inr None"
    using demo_match by simp
qed

text \<open>The SDK's detector never reports personal data that the server's does not.\<close>

theorem sdk_labels_subset:
  "set (sdk_detect_pii_labels payload) \<subseteq> set (detect_pii_labels payload)"
  using sdk_scan_subset(3) by (simp add: sdk_detect_pii_labels_def detect_pii_labels_def)

text \<open>Where the two differ: a telephone number written with spaces is personal data for the server
  and not for the SDK; and a transfer abroad without lawful basis, of which the organization's
  policy says nothing, is allowed by the server and refused by the SDK.\<close>

theorem sdk_diverges_from_server:
  "(sdk_detect_pii_labels [(''output'', JStr ''call +971 50 123 4567'')] = [] \<and>
    detect_pii_labels [(''output'', JStr ''call +971 50 123 4567'')] = [''phone_ae'']) \<and>
   (\<exists>f out le. extract_features ''send'' [(''cross_border'', JBool True), (''citations'', JInt 1)] = Inr f \<and>
      evaluate_policy_input \<lparr>pi_org_id = ''o'', pi_action = ''send'',
        pi_payload = [(''cross_border'', JBool True), (''citations'', JInt 1)], pi_fail_mode = ''deny_on_error'',
        pi_policy_version = ''1'', pi_features = f\<rparr> [(''rules'', JList [])] = Inr out \<and> po_allowed out \<and>
      evaluate_local ''send'' [(''cross_border'', JBool True), (''citations'', JInt 1)] [(''rules'', JList [])]
        ''deny_on_error'' = Inr le \<and> \<not> le_allowed le)"
proof (intro conjI)
  show "sdk_detect_pii_labels [(''output'', JStr ''call +971 50 123 4567'')] = []" by code_simp
  show "detect_pii_labels [(''output'', JStr ''call +971 50 123 4567'')] = [''phone_ae'']" by code_simp
  let ?p = "[(''cross_border'', JBool True), (''citations'', JInt 1)]"
  let ?f = "\<lparr>f_action = ''send'', f_citation_count = 1, f_has_pii = False, f_pii_labels = [],
      f_cross_border = True, f_lawful_basis_present = False, f_prohibited_phrases = [],
      f_amount_aed = None\<rparr>"
  have f: "extract_features ''send'' ?p = Inr ?f" by code_simp
  have "map_sum id po_allowed (evaluate_policy_input \<lparr>pi_org_id = ''o'', pi_action = ''send'',
        pi_payload = ?p, pi_fail_mode = ''deny_on_error'',
        pi_policy_version = ''1'', pi_features = ?f\<rparr> [(''rules'', JList [])]) = Inr True" by code_simp
  moreover have "map_sum id le_allowed (evaluate_local ''send'' ?p [(''rules'', JList [])] ''deny_on_error'') = Inr False"
    by code_simp
  ultimately obtain out le where "evaluate_policy_input \<lparr>pi_org_id = ''o'', pi_action = ''send'',
        pi_payload = ?p, pi_fail_mode = ''deny_on_error'',
        pi_policy_version = ''1'', pi_features = ?f\<rparr> [(''rules'', JList [])] = Inr out" "po_allowed out"
    "evaluate_local ''send'' ?p [(''rules'', JList [])] ''deny_on_error'' = Inr le" "\<not> le_allowed le"
    by (auto simp: map_sum_def split: sum.splits)
  with f show "\<exists>f out le. extract_features ''send'' ?p = Inr f \<and>
      evaluate_policy_input \<lparr>pi_org_id = ''o'', pi_action = ''send'',
        pi_payload = ?p, pi_fail_mode = ''deny_on_error'',
        pi_policy_version = ''1'', pi_features = f\<rparr> [(''rules'', JList [])] = Inr out \<and> po_allowed out \<and>
      evaluate_local ''send'' ?p [(''rules'', JList [])] ''deny_on_error'' = Inr le \<and> \<not> le_allowed le" by blast
qed

end
