(* ===== verification/SdkStore.thy ===== *)
theory SdkStore
  imports PayloadStore Policy
begin

text \<open>
  The state directory of the SDK: \<^verbatim>\<open>attest_sdk/store.py\<close>, the durable encrypted queue of events
  recorded while the service was unreachable with the head of the local chain, and
  \<^verbatim>\<open>attest_sdk/device.py\<close>, the device key.  A file is its bytes, or None while it does not exist.
  The queue is shown to refine a plain list: appending, reading and dropping act on the records as
  on a list, through encryption, base64 and the lines of the file.
\<close>

section \<open>The state directory\<close>

record sdk_dir =
  sd_key :: "bytes option"
  sd_queue :: "bytes option"
  sd_chain :: "bytes option"
  sd_device :: "bytes option"
  sd_bundle :: "bytes option"
  sd_draws :: nat

definition empty_dir :: sdk_dir where
  "empty_dir = \<lparr>sd_key = None, sd_queue = None, sd_chain = None, sd_device = None, sd_bundle = None, sd_draws = 0\<rparr>"

text \<open>\<^verbatim>\<open>str.splitlines()\<close>: the text after a line boundary at the front, if there is one.\<close>

definition line_end :: "string \<Rightarrow> string option" where
  "line_end s =
     (if is_prefix [CHR 0x0D, CHR 0x0A] s then Some (drop 2 s)
      else if s \<noteq> [] \<and> nat_of_char (hd s) \<in> {10, 11, 12, 13, 28, 29, 30} then Some (tl s)
      else if is_prefix [CHR 0xC2, CHR 0x85] s then Some (drop 2 s)
      else if is_prefix [CHR 0xE2, CHR 0x80, CHR 0xA8] s \<or> is_prefix [CHR 0xE2, CHR 0x80, CHR 0xA9] s
      then Some (drop 3 s)
      else None)"

lemma length_line_end: "line_end (c # s) = Some r \<Longrightarrow> length r \<le> length s"
  by (auto simp: line_end_def split: if_splits)

function splitlines_from :: "string \<Rightarrow> string \<Rightarrow> string list" where
  "splitlines_from acc [] = (if acc = [] then [] else [rev acc])"
| "splitlines_from acc (c # s) =
     (case line_end (c # s) of
        Some r \<Rightarrow> rev acc # splitlines_from [] r
      | None \<Rightarrow> splitlines_from (c # acc) s)"
  by pat_completeness auto
termination
  by (relation "measure (\<lambda>(acc, s). length s)") (auto dest: length_line_end)

definition splitlines :: "string \<Rightarrow> string list" where
  "splitlines s = splitlines_from [] s"

text \<open>\<^verbatim>\<open>Path.read_text()\<close> decodes the file and raises \<open>UnicodeDecodeError\<close>, a \<open>ValueError\<close>, when it is
  not UTF-8; the lines that are not blank.\<close>

definition read_text :: "bytes \<Rightarrow> string res" where
  "read_text b = (if utf8_ok b then Inr b else Inl ValueError)"

definition queue_lines :: "string \<Rightarrow> string list" where
  "queue_lines text = filter (\<lambda>l. strip l \<noteq> []) (splitlines text)"

section \<open>store.py\<close>

definition STORE_AAD :: bytes where
  "STORE_AAD = ''attest-offline''"

text \<open>\<^verbatim>\<open>AESGCM(key)\<close> accepts keys of 128, 192 and 256 bits.\<close>

definition aes_key_ok :: "bytes \<Rightarrow> bool" where
  "aes_key_ok key \<longleftrightarrow> length key \<in> {16, 24, 32}"

definition load_or_create_key :: "env \<Rightarrow> sdk_dir \<Rightarrow> (bytes \<times> sdk_dir) res" where
  "load_or_create_key E d =
     (case sd_key d of
        Some text \<Rightarrow>
          bind_res (read_text text) (\<lambda>t.
          bind_res (res_of_option ValueError (b64decode (strip t))) (\<lambda>key. Inr (key, d)))
      | None \<Rightarrow>
          let key = urandom E (sd_draws d) 32
          in Inr (key, d\<lparr>sd_key := Some (b64encode key), sd_draws := Suc (sd_draws d)\<rparr>))"

definition seal_line :: "env \<Rightarrow> bytes \<Rightarrow> bytes \<Rightarrow> dict \<Rightarrow> string" where
  "seal_line E key nonce record =
     b64encode (nonce @ aes_encrypt E key nonce (dumps_ascii '', '' '': '' (JObj record)) STORE_AAD)"

definition store_append :: "env \<Rightarrow> bytes \<Rightarrow> dict \<Rightarrow> sdk_dir \<Rightarrow> sdk_dir res" where
  "store_append E key record d =
     (let nonce = urandom E (sd_draws d) 12 in
      if \<not> aes_key_ok key then Inl ValueError
      else
        let line = seal_line E key nonce record;
            old = (case sd_queue d of None \<Rightarrow> [] | Some t \<Rightarrow> t)
        in Inr (d\<lparr>sd_queue := Some (old @ line @ [CHR 0x0A]), sd_draws := Suc (sd_draws d)\<rparr>))"

text \<open>A line that does not decode, decrypt or parse is skipped.\<close>

definition open_line :: "env \<Rightarrow> bytes \<Rightarrow> string \<Rightarrow> json option" where
  "open_line E key line =
     (case b64decode line of
        None \<Rightarrow> None
      | Some raw \<Rightarrow>
          if \<not> aes_key_ok key then None
          else Option.bind (aes_decrypt E key (take 12 raw) (drop 12 raw) STORE_AAD) loads)"

definition read_all :: "env \<Rightarrow> bytes \<Rightarrow> sdk_dir \<Rightarrow> json list res" where
  "read_all E key d =
     (case sd_queue d of
        None \<Rightarrow> Inr []
      | Some b \<Rightarrow>
          bind_res (read_text b) (\<lambda>text. Inr (List.map_filter (open_line E key) (queue_lines text))))"

definition store_drop :: "int \<Rightarrow> sdk_dir \<Rightarrow> sdk_dir res" where
  "store_drop count d =
     (case sd_queue d of
        None \<Rightarrow> Inr d
      | Some b \<Rightarrow>
          if count \<le> 0 then Inr d
          else
            bind_res (read_text b) (\<lambda>text.
            let remaining = drop (nat count) (queue_lines text)
            in Inr (d\<lparr>sd_queue :=
                 Some (join [CHR 0x0A] remaining @ (if remaining = [] then [] else [CHR 0x0A]))\<rparr>)))"

definition pending :: "env \<Rightarrow> bytes \<Rightarrow> sdk_dir \<Rightarrow> nat res" where
  "pending E key d = bind_res (read_all E key d) (\<lambda>rs. Inr (length rs))"

text \<open>\<^verbatim>\<open>v[k]\<close> on a value that was read from a file.\<close>

definition py_sub :: "json \<Rightarrow> string \<Rightarrow> json res" where
  "py_sub v k = (case v of JObj d \<Rightarrow> res_of_option KeyError (map_of d k) | _ \<Rightarrow> Inl TypeError)"

definition py_get :: "json \<Rightarrow> string \<Rightarrow> json \<Rightarrow> json res" where
  "py_get v k dflt = (case v of JObj d \<Rightarrow> Inr (dget_def d k dflt) | _ \<Rightarrow> Inl AttributeError)"

definition load_file :: "bytes \<Rightarrow> json res" where
  "load_file b = bind_res (read_text b) (\<lambda>t. res_of_option ValueError (loads t))"

definition chain_state :: "env \<Rightarrow> bytes \<Rightarrow> sdk_dir \<Rightarrow> (int \<times> json) res" where
  "chain_state E key d =
     bind_res (read_all E key d) (\<lambda>records.
     if records \<noteq> [] then
       let last = last records in
       bind_res (bind_res (py_sub last ''local_seq'') py_int) (\<lambda>n.
       bind_res (py_sub last ''claim_hash'') (\<lambda>h. Inr (n + 1, JStr (py_str h))))
     else
       case sd_chain d of
         None \<Rightarrow> Inr (1, JNull)
       | Some b \<Rightarrow>
           bind_res (load_file b) (\<lambda>data.
           bind_res (bind_res (py_get data ''next_seq'' (JInt 1)) py_int) (\<lambda>n.
           bind_res (py_get data ''prev_local'' JNull) (\<lambda>p. Inr (n, p)))))"

definition remember_head :: "int \<Rightarrow> json \<Rightarrow> sdk_dir \<Rightarrow> sdk_dir" where
  "remember_head next_seq prev_local d =
     d\<lparr>sd_chain := Some (dumps_ascii '', '' '': '' (JObj [(''next_seq'', JInt next_seq), (''prev_local'', prev_local)]))\<rparr>"

section \<open>device.py\<close>

record device_key =
  dk_device_id :: string
  dk_private_pem :: bytes
  dk_public_pem :: bytes

text \<open>\<^verbatim>\<open>data["private_pem"].encode()\<close> needs a string.\<close>

definition str_field :: "json \<Rightarrow> string \<Rightarrow> string res" where
  "str_field data k =
     bind_res (py_sub data k) (\<lambda>v. case v of JStr s \<Rightarrow> Inr s | _ \<Rightarrow> Inl AttributeError)"

definition device_load_or_create :: "env \<Rightarrow> string option \<Rightarrow> sdk_dir \<Rightarrow> (device_key \<times> sdk_dir) res" where
  "device_load_or_create E hostname d =
     (case sd_device d of
        Some b \<Rightarrow>
          bind_res (load_file b) (\<lambda>data.
          bind_res (py_sub data ''device_id'') (\<lambda>i.
          bind_res (str_field data ''private_pem'') (\<lambda>priv.
          bind_res (str_field data ''public_pem'') (\<lambda>pub.
          Inr (\<lparr>dk_device_id = py_str i, dk_private_pem = priv, dk_public_pem = pub\<rparr>, d)))))
      | None \<Rightarrow>
          let (priv, pub) = ed_generate E (sd_draws d);
              host = (case hostname of Some h \<Rightarrow> take 32 h | None \<Rightarrow> ''host'');
              device_id = host @ ''-'' @ hex (urandom E (Suc (sd_draws d)) 8);
              payload = dumps_ascii '', '' '': '' (JObj
                [(''device_id'', JStr device_id), (''private_pem'', JStr priv), (''public_pem'', JStr pub)])
          in Inr (\<lparr>dk_device_id = device_id, dk_private_pem = priv, dk_public_pem = pub\<rparr>,
                  d\<lparr>sd_device := Some payload, sd_draws := sd_draws d + 2\<rparr>))"

definition device_sign_hex :: "env \<Rightarrow> device_key \<Rightarrow> string \<Rightarrow> string res" where
  "device_sign_hex E device message_hex =
     (case load_pem_private E (dk_private_pem device) of
        None \<Rightarrow> Inl ValueError
      | Some k \<Rightarrow>
          if k \<noteq> Ed25519Key then Inl ValueError
          else bind_res (res_of_option ValueError (fromhex message_hex)) (\<lambda>msg.
               Inr (hex (ed_sign E (dk_private_pem device) msg))))"

section \<open>The queue as a list\<close>

text \<open>A durable queue: the contract the client relies on.  \<open>holds s rs\<close> says that the state holds the
  records \<open>rs\<close>; appending and dropping succeed and act as on a list, and reading gives the records.\<close>

datatype 'r queue_op = Append 'r | Drop nat

fun list_queue :: "'r queue_op \<Rightarrow> 'r list \<Rightarrow> 'r list" where
  "list_queue (Append r) rs = rs @ [r]"
| "list_queue (Drop n) rs = drop n rs"

fun run_queue ::
  "('r \<Rightarrow> 's \<Rightarrow> 's res) \<Rightarrow> (nat \<Rightarrow> 's \<Rightarrow> 's res) \<Rightarrow> 'r queue_op list \<Rightarrow> 's \<Rightarrow> 's res" where
  "run_queue enq deq [] s = Inr s"
| "run_queue enq deq (Append r # ops) s = bind_res (enq r s) (run_queue enq deq ops)"
| "run_queue enq deq (Drop n # ops) s = bind_res (deq n s) (run_queue enq deq ops)"

fun appended :: "'r queue_op list \<Rightarrow> 'r list" where
  "appended [] = []"
| "appended (Append r # ops) = r # appended ops"
| "appended (Drop n # ops) = appended ops"

locale durable_queue =
  fixes holds :: "'s \<Rightarrow> 'r list \<Rightarrow> bool" and storable :: "'r \<Rightarrow> bool" and view :: "'r \<Rightarrow> 'v"
    and enq :: "'r \<Rightarrow> 's \<Rightarrow> 's res" and deq :: "nat \<Rightarrow> 's \<Rightarrow> 's res" and items :: "'s \<Rightarrow> 'v list res"
  assumes items_holds: "holds s rs \<Longrightarrow> items s = Inr (map view rs)"
    and enq_holds: "holds s rs \<Longrightarrow> storable r \<Longrightarrow> \<exists>s'. enq r s = Inr s' \<and> holds s' (rs @ [r])"
    and deq_holds: "holds s rs \<Longrightarrow> \<exists>s'. deq n s = Inr s' \<and> holds s' (drop n rs)"
begin

lemma run_holds:
  "holds s rs \<Longrightarrow> list_all storable (appended ops) \<Longrightarrow>
   \<exists>s'. run_queue enq deq ops s = Inr s' \<and> holds s' (fold list_queue ops rs)"
proof (induction ops arbitrary: s rs)
  case (Cons op ops)
  show ?case
  proof (cases op)
    case (Append r)
    then obtain s1 where "enq r s = Inr s1" "holds s1 (rs @ [r])" using enq_holds Cons.prems by force
    then show ?thesis using Cons.IH Cons.prems Append by simp
  next
    case (Drop n)
    then obtain s1 where "deq n s = Inr s1" "holds s1 (drop n rs)" using deq_holds Cons.prems by blast
    then show ?thesis using Cons.IH Cons.prems Drop by simp
  qed
qed simp

lemma run_items:
  assumes "holds s rs" "list_all storable (appended ops)"
  shows "\<exists>s'. run_queue enq deq ops s = Inr s' \<and> items s' = Inr (map view (fold list_queue ops rs))"
  using run_holds [OF assms] items_holds by blast

end

text \<open>The lines of a queue file.\<close>

definition visible :: "char \<Rightarrow> bool" where
  "visible c \<longleftrightarrow> is_ascii_range 33 126 c"

definition lines_text :: "string list \<Rightarrow> string" where
  "lines_text ls = concat (map (\<lambda>l. l @ [CHR 0x0A]) ls)"

definition line_ok :: "string \<Rightarrow> bool" where
  "line_ok l \<longleftrightarrow> l \<noteq> [] \<and> list_all visible l"

lemma nat_of_char_lits: "nat_of_char (CHR 0x0A) = 10" "nat_of_char (CHR 0x0D) = 13"
  "nat_of_char (CHR 0xC2) = 194" "nat_of_char (CHR 0xE2) = 226"
  by (simp_all add: nat_of_char_def)

lemma visible_line_end: "visible c \<Longrightarrow> line_end (c # s) = None"
  using nat_of_char_lits by (auto simp: line_end_def visible_def)

lemma line_end_newline: "line_end (CHR 0x0A # s) = Some s"
  by (simp add: line_end_def nat_of_char_lits)

lemma splitlines_from_line:
  "list_all visible l \<Longrightarrow> splitlines_from acc (l @ CHR 0x0A # s) = (rev acc @ l) # splitlines_from [] s"
  by (induction l arbitrary: acc) (simp_all add: visible_line_end line_end_newline)

lemma splitlines_lines_text: "list_all line_ok ls \<Longrightarrow> splitlines (lines_text ls) = ls"
  unfolding splitlines_def
  by (induction ls) (simp_all add: lines_text_def line_ok_def splitlines_from_line)

lemma visible_not_space: "visible c \<Longrightarrow> \<not> is_space c"
  by (auto simp: visible_def is_space_def)

lemma strip_line_ok: "line_ok l \<Longrightarrow> strip l \<noteq> []"
  by (cases l) (auto simp: line_ok_def strip_def visible_not_space dropWhile_eq_Nil_conv)

lemma queue_lines_text: "list_all line_ok ls \<Longrightarrow> queue_lines (lines_text ls) = ls"
  by (simp add: queue_lines_def splitlines_lines_text) (auto simp: list_all_iff strip_line_ok)

definition is_ascii :: "char \<Rightarrow> bool" where
  "is_ascii c \<longleftrightarrow> nat_of_char c < 128"

lemma is_ascii_Char [simp]: "is_ascii (Char b0 b1 b2 b3 b4 b5 b6 b7) \<longleftrightarrow> \<not> b7"
  by (simp add: is_ascii_def nat_of_char_def)

lemma ascii_utf8_ok: "list_all is_ascii s \<Longrightarrow> utf8_ok s"
proof -
  assume a: "list_all is_ascii s"
  then have "concat (map utf8 (map nat_of_char s)) = s" by (induction s) (simp_all add: utf8_def is_ascii_def)
  moreover have "list_all scalar (map nat_of_char s)" using a by (auto simp: list_all_iff scalar_def is_ascii_def)
  ultimately show ?thesis using utf8_ok_utf8 by metis
qed

lemma read_text_lines: "list_all line_ok ls \<Longrightarrow> read_text (lines_text ls) = Inr (lines_text ls)"
proof -
  assume "list_all line_ok ls"
  then have "list_all is_ascii (lines_text ls)"
    by (fastforce simp: lines_text_def list_all_iff line_ok_def visible_def is_ascii_def nat_of_char_lits)
  then show ?thesis by (simp add: read_text_def ascii_utf8_ok)
qed

lemma join_lines_text: "join [CHR 0x0A] ls @ (if ls = [] then [] else [CHR 0x0A]) = lines_text ls"
  by (induction "[CHR 0x0A]" ls rule: join.induct) (simp_all add: lines_text_def)

text \<open>A sealed record is one visible line, and opens to the record.\<close>

definition storable :: "dict \<Rightarrow> bool" where
  "storable r \<longleftrightarrow> jplain (JObj r) \<and> list_all utf8_ok (jstrings (JObj r))"

lemma b64_visible: "list_all visible (b64encode s)"
proof (simp add: list_all_iff, intro ballI)
  fix c assume "c \<in> set (b64encode s)"
  then have "b64_val c \<noteq> None \<or> c = CHR ''=''" by (rule b64_alphabet)
  moreover have "nat_of_char (CHR ''='') = 61" by (simp add: nat_of_char_def)
  ultimately show "visible c" by (auto simp: b64_val_def visible_def is_digit_def split: if_splits)
qed

lemma b64encode_Nil: "b64encode s = [] \<longleftrightarrow> s = []"
  by (cases s rule: b64encode.cases) (simp_all add: Let_def)

lemma seal_line_ok: "length nonce = 12 \<Longrightarrow> line_ok (seal_line E key nonce r)"
  by (auto simp: line_ok_def seal_line_def b64_visible b64encode_Nil)

lemma loads_storable: "storable r \<Longrightarrow> loads (dumps_ascii '', '' '': '' (JObj r)) = Some (JObj r)"
  by (intro ascii.loads_dumps_with) (simp_all add: storable_def seps_def)

lemma open_seal_line:
  assumes "aead_ok E" "aes_key_ok key" "length nonce = 12" "storable r"
  shows "open_line E key (seal_line E key nonce r) = Some (JObj r)"
  using assms loads_storable [OF assms(4)] by (simp add: open_line_def seal_line_def aead_ok_def)

definition sealed_as :: "env \<Rightarrow> bytes \<Rightarrow> string \<Rightarrow> dict \<Rightarrow> bool" where
  "sealed_as E key l r \<longleftrightarrow> storable r \<and> (\<exists>nonce. length nonce = 12 \<and> l = seal_line E key nonce r)"

definition queue_holds :: "env \<Rightarrow> bytes \<Rightarrow> sdk_dir \<Rightarrow> dict list \<Rightarrow> bool" where
  "queue_holds E key d rs \<longleftrightarrow> aead_ok E \<and> urandom_ok E \<and> aes_key_ok key \<and>
     (\<exists>ls. list_all2 (sealed_as E key) ls rs \<and>
        (case sd_queue d of None \<Rightarrow> ls = [] | Some t \<Rightarrow> t = lines_text ls))"

lemma sealed_lines_ok: "list_all2 (sealed_as E key) ls rs \<Longrightarrow> list_all line_ok ls"
  by (induction rule: list_all2_induct) (auto simp: sealed_as_def seal_line_ok)

lemma open_lines:
  assumes "aead_ok E" "aes_key_ok key"
  shows "list_all2 (sealed_as E key) ls rs \<Longrightarrow> List.map_filter (open_line E key) ls = map JObj rs"
  by (induction rule: list_all2_induct)
    (auto simp: sealed_as_def open_seal_line assms List.map_filter_simps)

lemma read_all_holds: "queue_holds E key d rs \<Longrightarrow> read_all E key d = Inr (map JObj rs)"
  by (auto simp: queue_holds_def read_all_def read_text_lines queue_lines_text sealed_lines_ok open_lines
      split: option.splits)

lemma append_holds:
  assumes "queue_holds E key d rs" "storable r"
  shows "\<exists>d'. store_append E key r d = Inr d' \<and> queue_holds E key d' (rs @ [r])"
proof -
  obtain ls where ls: "list_all2 (sealed_as E key) ls rs"
    and t: "case sd_queue d of None \<Rightarrow> ls = [] | Some t \<Rightarrow> t = lines_text ls"
    and ok: "aead_ok E" "urandom_ok E" "aes_key_ok key"
    using assms(1) by (auto simp: queue_holds_def)
  let ?l = "seal_line E key (urandom E (sd_draws d) 12) r"
  have "sealed_as E key ?l r" using assms(2) ok(2) by (auto simp: sealed_as_def urandom_ok_def)
  then have "list_all2 (sealed_as E key) (ls @ [?l]) (rs @ [r])" using ls by (simp add: list_all2_appendI)
  moreover have "(case sd_queue d of None \<Rightarrow> [] | Some t \<Rightarrow> t) @ ?l @ [CHR 0x0A] = lines_text (ls @ [?l])"
    using t by (auto simp: lines_text_def split: option.splits)
  ultimately show ?thesis using ok by (auto simp: store_append_def queue_holds_def Let_def)
qed

lemma drop_holds:
  assumes "queue_holds E key d rs"
  shows "\<exists>d'. store_drop (int n) d = Inr d' \<and> queue_holds E key d' (drop n rs)"
proof -
  obtain ls where ls: "list_all2 (sealed_as E key) ls rs"
    and t: "case sd_queue d of None \<Rightarrow> ls = [] | Some t \<Rightarrow> t = lines_text ls"
    and ok: "aead_ok E" "urandom_ok E" "aes_key_ok key"
    using assms(1) by (auto simp: queue_holds_def)
  have l: "list_all2 (sealed_as E key) (drop n ls) (drop n rs)" using ls by (rule list_all2_dropI)
  show ?thesis
  proof (cases "sd_queue d = None \<or> n = 0")
    case True
    with ls t ok show ?thesis by (auto simp: store_drop_def queue_holds_def split: option.splits)
  next
    case False
    then have "sd_queue d = Some (lines_text ls)" using t by (auto split: option.splits)
    moreover have "read_text (lines_text ls) = Inr (lines_text ls)" "queue_lines (lines_text ls) = ls"
      using ls by (simp_all add: read_text_lines queue_lines_text sealed_lines_ok)
    ultimately have "store_drop (int n) d = Inr (d\<lparr>sd_queue := Some (lines_text (drop n ls))\<rparr>)"
      using False unfolding store_drop_def join_lines_text [of "drop n ls", symmetric] by (simp add: Let_def)
    with l ok show ?thesis by (auto simp: queue_holds_def)
  qed
qed

interpretation store: durable_queue "queue_holds E key" storable JObj "store_append E key"
  "\<lambda>n. store_drop (int n)" "read_all E key" for E key
  by unfold_locales (auto simp: read_all_holds append_holds drop_holds)

section \<open>Restarts\<close>

lemma strip_visible: "list_all visible l \<Longrightarrow> strip l = l"
proof -
  assume v: "list_all visible l"
  then have "dropWhile is_space l = l" by (cases l) (auto simp: visible_not_space)
  moreover have "dropWhile is_space (rev l) = rev l"
    using v by (cases "rev l") (auto simp: list_all_iff visible_not_space simp flip: set_rev [of l])
  ultimately show ?thesis by (simp add: strip_def)
qed

lemma visible_text: "list_all visible l \<Longrightarrow> read_text l = Inr l"
proof -
  assume "list_all visible l"
  then have "list_all is_ascii l" by (rule list.pred_mono_strong) (simp add: visible_def is_ascii_def)
  then show ?thesis by (simp add: read_text_def ascii_utf8_ok)
qed

lemma key_survives:
  assumes "load_or_create_key E d = Inr (key, d')"
  shows "load_or_create_key E d' = Inr (key, d')"
  using assms
  by (auto simp: load_or_create_key_def visible_text strip_visible b64_visible Let_def bind_res_eq_Inr
      split: option.splits)

lemma load_file_dumps:
  assumes "storable r" "list_all is_ascii (dumps_ascii '', '' '': '' (JObj r))"
  shows "load_file (dumps_ascii '', '' '': '' (JObj r)) = Inr (JObj r)"
  using assms by (simp add: load_file_def read_text_def ascii_utf8_ok loads_storable del: dumps_with.simps)

text \<open>With \<^verbatim>\<open>ensure_ascii\<close> the text of a value without floats is ASCII.\<close>

lemma is_ascii_digit: "is_digit c \<Longrightarrow> is_ascii c"
  by (simp add: is_digit_def is_ascii_def)

lemma hex_digit_ascii: "n < 16 \<Longrightarrow> is_ascii (hex_digit n)"
  by (auto simp: hex_digit_def is_ascii_def)

lemma json_escape_ascii: "is_ascii c \<Longrightarrow> list_all is_ascii (json_escape c)"
  using nat_of_char_less [of c]
  by (auto simp: json_escape_def hex_byte_def hex_digit_ascii less_mult_imp_div_less)

lemma u_escape_ascii: "n < 0x10000 \<Longrightarrow> list_all is_ascii (u_escape n)"
  by (auto simp: u_escape_def hex_digit_ascii less_mult_imp_div_less)

lemma is_ascii_char_of: "(n::nat) < 128 \<Longrightarrow> is_ascii (char_of n)"
  by (simp add: is_ascii_def)

lemma ascii_escape_ascii: "scalar n \<Longrightarrow> list_all is_ascii (ascii_escape n)"
  by (auto simp: ascii_escape_def scalar_def json_escape_ascii u_escape_ascii less_mult_imp_div_less
      is_ascii_char_of)

lemma json_str_ascii_ascii: "utf8_ok s \<Longrightarrow> list_all is_ascii (json_str_ascii s)"
  using ascii_escape_ascii
  by (force simp: json_str_ascii_def utf8_ok_def list_all_iff)

lemma int_str_ascii: "list_all is_ascii (int_str i)"
  using is_digit_nat_str by (auto simp: int_str_def list_all_iff intro: is_ascii_digit)

lemma dumps_ascii_ascii:
  "jplain j \<Longrightarrow> list_all utf8_ok (jstrings j) \<Longrightarrow>
     list_all is_ascii (dumps_ascii '', '' '': '' j)"
  "jplain_list xs \<Longrightarrow> list_all utf8_ok (jstrings_list xs) \<Longrightarrow>
     list_all is_ascii (dumps_list json_str_ascii '', '' '': '' xs)"
  "jplain_obj d \<Longrightarrow> list_all utf8_ok (jstrings_obj d) \<Longrightarrow>
     list_all is_ascii (dumps_obj json_str_ascii '', '' '': '' d)"
proof (induction j and xs and d rule: jstrings_jstrings_list_jstrings_obj.induct)
  case (6 x xs)
  then show ?case by (cases xs) simp_all
next
  case (8 k v d)
  then show ?case by (cases d) (simp_all add: json_str_ascii_ascii)
qed (simp_all add: json_str_ascii_ascii int_str_ascii)

lemma load_file_storable: "storable r \<Longrightarrow> load_file (dumps_ascii '', '' '': '' (JObj r)) = Inr (JObj r)"
  by (rule load_file_dumps) (simp_all add: storable_def dumps_ascii_ascii(1) del: dumps_with.simps)

lemma ascii_storable:
  "distinct (map fst r) \<Longrightarrow> list_all (\<lambda>(k, v). \<exists>s. v = JStr s \<and> list_all is_ascii k \<and> list_all is_ascii s) r \<Longrightarrow>
   storable r"
  unfolding storable_def by (induction r) (auto simp: ascii_utf8_ok)

lemma hex_ascii: "list_all is_ascii (hex b)"
  by (auto simp: hex_def list_all_iff hex_byte_def hex_digit_ascii less_mult_imp_div_less)

text \<open>PEM texts and host names are ASCII.\<close>

definition pem_ascii :: "env \<Rightarrow> bool" where
  "pem_ascii E \<longleftrightarrow> (\<forall>n. list_all is_ascii (fst (ed_generate E n)) \<and> list_all is_ascii (snd (ed_generate E n)))"

lemma device_survives:
  assumes "device_load_or_create E hostname d = Inr (dev, d')"
    and "pem_ascii E" "case hostname of None \<Rightarrow> True | Some h \<Rightarrow> list_all is_ascii h"
  shows "device_load_or_create E hostname' d' = Inr (dev, d')"
proof (cases "sd_device d")
  case None
  obtain priv pub where g: "ed_generate E (sd_draws d) = (priv, pub)" by fastforce
  define i where "i = (case hostname of Some h \<Rightarrow> take 32 h | None \<Rightarrow> ''host'') @ ''-'' @ hex (urandom E (Suc (sd_draws d)) 8)"
  define r where "r = [(''device_id'', JStr i), (''private_pem'', JStr priv), (''public_pem'', JStr pub)]"
  have dev: "dev = \<lparr>dk_device_id = i, dk_private_pem = priv, dk_public_pem = pub\<rparr>"
    and d': "sd_device d' = Some (dumps_ascii '', '' '': '' (JObj r))"
    using assms(1) None g
    by (auto simp: device_load_or_create_def Let_def i_def r_def simp del: dumps_with.simps)
  have "list_all is_ascii priv" "list_all is_ascii pub"
    using assms(2) g by (auto simp: pem_ascii_def dest: spec [of _ "sd_draws d"])
  moreover have "list_all is_ascii i"
    using assms(3) hex_ascii by (auto simp: i_def list_all_iff dest: in_set_takeD split: option.splits)
  ultimately have "storable r" by (intro ascii_storable) (simp_all add: r_def)
  then have "load_file (dumps_ascii '', '' '': '' (JObj r)) = Inr (JObj r)" by (rule load_file_storable)
  then show ?thesis
    by (simp add: device_load_or_create_def d' dev py_sub_def str_field_def py_str_def del: dumps_with.simps)
      (simp add: r_def py_str_def)
qed (use assms(1) in \<open>auto simp: device_load_or_create_def bind_res_eq_Inr\<close>)

section \<open>Properties\<close>


definition demo_key :: bytes where
  "demo_key = replicate 32 (CHR ''k'')"

lemma demo_queue: "queue_holds demo_env demo_key empty_dir []"
  by (simp add: queue_holds_def demo_env_ok demo_urandom_ok demo_key_def aes_key_ok_def empty_dir_def)


text \<open>A restart changes nothing: opening the state directory again gives the encryption key and the
  device key that the first run created or found, so what was queued and signed stays readable and
  verifiable.\<close>

theorem sdk_state_survives_restart:
  assumes "load_or_create_key E d = Inr (key, d1)" "device_load_or_create E hostname d1 = Inr (dev, d2)"
    and "pem_ascii E" "case hostname of None \<Rightarrow> True | Some h \<Rightarrow> list_all is_ascii h"
  shows "load_or_create_key E d2 = Inr (key, d2) \<and> device_load_or_create E hostname' d2 = Inr (dev, d2)"
proof -
  have "sd_key d2 = sd_key d1" using assms(2)
    by (auto simp: device_load_or_create_def Let_def bind_res_eq_Inr split: option.splits prod.splits)
  moreover have "sd_key d1 \<noteq> None" using assms(1)
    by (auto simp: load_or_create_key_def Let_def bind_res_eq_Inr split: option.splits)
  ultimately have "load_or_create_key E d2 = Inr (key, d2)"
    using key_survives [OF assms(1)] by (auto simp: load_or_create_key_def bind_res_eq_Inr)
  with device_survives [OF assms(2-4)] show ?thesis by simp
qed

theorem sdk_state_survives_restart_witness:
  "\<exists>key d1 dev d2. load_or_create_key demo_env empty_dir = Inr (key, d1) \<and>
     device_load_or_create demo_env (Some ''web-1'') d1 = Inr (dev, d2) \<and>
     load_or_create_key demo_env d2 = Inr (key, d2) \<and> device_load_or_create demo_env None d2 = Inr (dev, d2)"
proof -
  obtain key d1 where k: "load_or_create_key demo_env empty_dir = Inr (key, d1)" "sd_device d1 = None"
    by (auto simp: load_or_create_key_def empty_dir_def Let_def)
  then obtain dev d2 where d: "device_load_or_create demo_env (Some ''web-1'') d1 = Inr (dev, d2)"
    by (cases "ed_generate demo_env (sd_draws d1)") (simp add: device_load_or_create_def Let_def)
  have "pem_ascii demo_env"
    using is_digit_nat_str by (auto simp: pem_ascii_def demo_env_def list_all_iff intro: is_ascii_digit)
  from sdk_state_survives_restart [OF k(1) d this, of None] k(1) d show ?thesis by auto
qed

end
