(* ===== verification/SdkClient.thy ===== *)
theory SdkClient
  imports Offline SdkPolicy SdkStore
begin

text \<open>
  \<^verbatim>\<open>attest_sdk/attest.py\<close> and \<^verbatim>\<open>attest_sdk/gate.py\<close>: the client a customer embeds.  It asks the service
  for a verdict, falls back to a local verdict and a signed, queued record while the service is
  unreachable, hands the queue over when it is back, and applies a complete cure where it is
  configured to.  The client is a record, the network a function of the path, the body and the state
  of the world behind it, so that the client can be run against the service itself.
\<close>

section \<open>Actions\<close>

text \<open>A method of the client: it returns or raises, and in both cases leaves a state.\<close>

type_synonym ('s, 'a) act = "'s \<Rightarrow> 'a res \<times> 's"

definition bind_act :: "('s, 'a) act \<Rightarrow> ('a \<Rightarrow> ('s, 'b) act) \<Rightarrow> ('s, 'b) act" where
  "bind_act m f = (\<lambda>s. case m s of (Inl e, s') \<Rightarrow> (Inl e, s') | (Inr x, s') \<Rightarrow> f x s')"

definition return_act :: "'a \<Rightarrow> ('s, 'a) act" where
  "return_act x = (\<lambda>s. (Inr x, s))"

definition lift_res :: "'a res \<Rightarrow> ('s, 'a) act" where
  "lift_res r = (\<lambda>s. (r, s))"

section \<open>The network\<close>

text \<open>An answer is a status code and the JSON value of the body, None when it is not JSON; or a
  \<^verbatim>\<open>requests.RequestException\<close> with its text.\<close>

datatype reply = Reply int "json option" | NoReply string

type_synonym 'w net = "string \<Rightarrow> dict \<Rightarrow> 'w \<Rightarrow> reply \<times> 'w"

text \<open>\<^verbatim>\<open>response.raise_for_status()\<close> raises for 4xx and 5xx.\<close>

definition reply_ok :: "reply \<Rightarrow> bool" where
  "reply_ok r = (case r of Reply c _ \<Rightarrow> \<not> (400 \<le> c \<and> c < 600) | NoReply _ \<Rightarrow> False)"

fun reply_json :: "reply \<Rightarrow> json res" where
  "reply_json (Reply _ (Some j)) = Inr j"
| "reply_json _ = Inl ValueError"

fun reply_error :: "reply \<Rightarrow> string" where
  "reply_error (NoReply t) = t"
| "reply_error (Reply c _) = int_str c"

section \<open>gate.py\<close>

definition ERROR :: string where
  "ERROR = ''error''"

definition MISCONFIGURED :: string where
  "MISCONFIGURED = ''misconfigured''"

record gate_result =
  gs_status :: json
  gs_allowed :: bool
  gs_trace_id :: json
  gs_output_hash :: json
  gs_signature :: json
  gs_tier :: json
  gs_reasons :: "json list"
  gs_findings :: "json list"
  gs_jurisdictions :: "json list"
  gs_policy_version :: json
  gs_output_seq :: json
  gs_decision_seq :: json
  gs_approval_id :: json
  gs_recorded :: bool
  gs_buffered :: bool
  gs_offline :: bool
  gs_error :: json
  gs_suggested_fix :: json
  gs_remediation_of :: json
  gs_auto_remediation :: json

text \<open>The defaults of the dataclass.\<close>

definition gate_result_of :: "json \<Rightarrow> bool \<Rightarrow> json \<Rightarrow> gate_result" where
  "gate_result_of status allowed trace_id =
     \<lparr>gs_status = status, gs_allowed = allowed, gs_trace_id = trace_id, gs_output_hash = JStr [],
      gs_signature = JStr [], gs_tier = JNull, gs_reasons = [], gs_findings = [], gs_jurisdictions = [],
      gs_policy_version = JNull, gs_output_seq = JNull, gs_decision_seq = JNull, gs_approval_id = JNull,
      gs_recorded = True, gs_buffered = False, gs_offline = False, gs_error = JNull,
      gs_suggested_fix = JNull, gs_remediation_of = JNull, gs_auto_remediation = JNull\<rparr>"

definition compliant :: "gate_result \<Rightarrow> bool" where
  "compliant g = py_eq (gs_status g) (JStr STATUS_COMPLIANT)"

definition flagged :: "gate_result \<Rightarrow> bool" where
  "flagged g = py_eq (gs_status g) (JStr STATUS_FLAGGED)"

definition blocked :: "gate_result \<Rightarrow> bool" where
  "blocked g = py_eq (gs_status g) (JStr STATUS_BLOCKED)"

definition evaluated :: "gate_result \<Rightarrow> bool" where
  "evaluated g = (compliant g \<or> flagged g \<or> blocked g)"

definition rewrite_of :: "gate_result \<Rightarrow> json res" where
  "rewrite_of g = py_get (py_or (gs_suggested_fix g) (JObj [])) ''rewrite'' JNull"

text \<open>\<^verbatim>\<open>dict(v)\<close> of a value of the answer; a value that is not an object raises.\<close>

definition dict_of :: "json \<Rightarrow> dict res" where
  "dict_of v = (case v of JObj d \<Rightarrow> Inr d | _ \<Rightarrow> Inl TypeError)"

definition apply_rewrite :: "gate_result \<Rightarrow> dict res" where
  "apply_rewrite g =
     bind_res (rewrite_of g) (\<lambda>rw.
     if \<not> truthy rw then Inl ValueError
     else bind_res (py_get rw ''output'' JNull) (\<lambda>out.
          if \<not> truthy out then Inl ValueError else dict_of out))"

definition has_fix :: "gate_result \<Rightarrow> bool res" where
  "has_fix g =
     (if \<not> truthy (gs_suggested_fix g) then Inr False
      else bind_res (py_get (gs_suggested_fix g) ''revised_output'' JNull) (\<lambda>r. Inr (truthy r)))"

definition apply_suggestion :: "gate_result \<Rightarrow> dict res" where
  "apply_suggestion g =
     bind_res (has_fix g) (\<lambda>b.
     if \<not> b then Inl ValueError
     else bind_res (py_sub (gs_suggested_fix g) ''revised_output'') dict_of)"

definition from_offline :: "offline_verdict \<Rightarrow> string \<Rightarrow> gate_result" where
  "from_offline v trace_id =
     (gate_result_of (JStr (ov_status v)) (ov_allowed v) (JStr trace_id))
       \<lparr>gs_tier := (case ov_tier v of None \<Rightarrow> JNull | Some t \<Rightarrow> JStr (tier_str t)),
        gs_reasons := map JStr (ov_reasons v), gs_findings := map JObj (ov_findings v),
        gs_jurisdictions := ov_jurisdictions v,
        gs_policy_version := (case ov_policy_version v of None \<Rightarrow> JNull | Some p \<Rightarrow> JStr p),
        gs_recorded := False, gs_buffered := True, gs_offline := True\<rparr>"

definition from_response :: "json \<Rightarrow> gate_result res" where
  "from_response body =
     bind_res (as_dict body) (\<lambda>b.
     let get = (\<lambda>k. dget b k); items = (\<lambda>k. py_iter (py_or (dget b k) (JList []))) in
     bind_res (items ''reasons'') (\<lambda>reasons.
     bind_res (items ''findings'') (\<lambda>findings.
     bind_res (items ''jurisdictions'') (\<lambda>jurisdictions.
     Inr ((gate_result_of (dget_def b ''status'' (JStr STATUS_UNEVALUATED))
             (truthy (dget_def b ''allowed'' (JBool True))) (dget_def b ''trace_id'' (JStr [])))
          \<lparr>gs_output_hash := dget_def b ''output_hash'' (JStr []),
           gs_signature := dget_def b ''signature'' (JStr []),
           gs_tier := get ''tier'', gs_reasons := reasons, gs_findings := findings,
           gs_jurisdictions := jurisdictions, gs_policy_version := get ''policy_version'',
           gs_output_seq := get ''output_seq'', gs_decision_seq := get ''decision_seq'',
           gs_approval_id := get ''approval_id'', gs_recorded := True,
           gs_suggested_fix := get ''suggested_fix'', gs_remediation_of := get ''remediation_of''\<rparr>)))))"

definition misconfigured :: "dict \<Rightarrow> string \<Rightarrow> gate_result" where
  "misconfigured detail trace_id =
     (gate_result_of (JStr MISCONFIGURED) True (JStr trace_id))
       \<lparr>gs_reasons := [JStr (py_str (dget_def detail ''message'' (JStr ''configuration required'')))],
        gs_recorded := False, gs_buffered := False,
        gs_error := JStr (py_str (dget_def detail ''code'' (JStr ''misconfigured'')))\<rparr>"

definition unreachable :: "string \<Rightarrow> string \<Rightarrow> gate_result" where
  "unreachable exc trace_id =
     (gate_result_of (JStr ERROR) True (JStr trace_id))
       \<lparr>gs_reasons := [JStr (''attest unreachable: '' @ exc)], gs_recorded := False, gs_error := JStr exc\<rparr>"

section \<open>The client\<close>

record sdk_client =
  cl_offline_enabled :: bool
  cl_auto_remediate :: "(string \<times> string) list"
  cl_dir :: sdk_dir
  cl_device :: "device_key option"
  cl_store :: "bytes option"
  cl_bundle :: "json option"
  cl_registered :: bool
  cl_prepared :: bool

text \<open>\<^verbatim>\<open>__init__\<close> checks the remediation policy; nothing is opened until it is needed.\<close>

definition new_client :: "bool \<Rightarrow> (string \<times> string) list \<Rightarrow> sdk_dir \<Rightarrow> sdk_client res" where
  "new_client offline_enabled auto_remediate dir =
     (if list_ex (\<lambda>(k, v). k \<notin> {''yellow'', ''orange'', ''red''} \<or> v \<notin> {''auto'', ''human''}) auto_remediate
      then Inl ValueError
      else Inr \<lparr>cl_offline_enabled = offline_enabled, cl_auto_remediate = auto_remediate, cl_dir = dir,
                cl_device = None, cl_store = None, cl_bundle = None, cl_registered = False,
                cl_prepared = False\<rparr>)"

text \<open>\<^verbatim>\<open>_configuration_error\<close>: a 409 whose body is JSON but not an object has no \<^verbatim>\<open>get\<close>.\<close>

definition configuration_error :: "reply \<Rightarrow> dict option res" where
  "configuration_error r =
     (case r of
        Reply c (Some j) \<Rightarrow>
          if c \<noteq> 409 then Inr None
          else
            bind_res (as_dict j) (\<lambda>b.
            Inr (case dget b ''detail'' of
                   JObj detail \<Rightarrow> if truthy (dget detail ''code'') then Some detail else None
                 | _ \<Rightarrow> None))
      | _ \<Rightarrow> Inr None)"

definition the_device :: "env \<Rightarrow> string option \<Rightarrow> (sdk_client \<times> 'w, device_key) act" where
  "the_device E hostname = (\<lambda>(c, w).
     case cl_device c of
       Some dev \<Rightarrow> (Inr dev, (c, w))
     | None \<Rightarrow>
         (case device_load_or_create E hostname (cl_dir c) of
            Inl e \<Rightarrow> (Inl e, (c, w))
          | Inr (dev, d) \<Rightarrow> (Inr dev, (c\<lparr>cl_device := Some dev, cl_dir := d\<rparr>, w))))"

definition the_store :: "env \<Rightarrow> (sdk_client \<times> 'w, bytes) act" where
  "the_store E = (\<lambda>(c, w).
     case cl_store c of
       Some key \<Rightarrow> (Inr key, (c, w))
     | None \<Rightarrow>
         (case load_or_create_key E (cl_dir c) of
            Inl e \<Rightarrow> (Inl e, (c, w))
          | Inr (key, d) \<Rightarrow> (Inr key, (c\<lparr>cl_store := Some key, cl_dir := d\<rparr>, w))))"

text \<open>\<^verbatim>\<open>OfflineBundle.load\<close>: a bundle file that cannot be read counts as empty.\<close>

definition bundle_load :: "sdk_dir \<Rightarrow> json" where
  "bundle_load d =
     (case sd_bundle d of
        None \<Rightarrow> JObj []
      | Some b \<Rightarrow> (case load_file b of Inl _ \<Rightarrow> JObj [] | Inr j \<Rightarrow> j))"

definition the_bundle :: "(sdk_client \<times> 'w, json) act" where
  "the_bundle = (\<lambda>(c, w).
     case cl_bundle c of
       Some b \<Rightarrow> (Inr b, (c, w))
     | None \<Rightarrow> (let b = bundle_load (cl_dir c) in (Inr b, (c\<lparr>cl_bundle := Some b\<rparr>, w))))"

definition send :: "'w net \<Rightarrow> string \<Rightarrow> dict \<Rightarrow> (sdk_client \<times> 'w, reply) act" where
  "send net path body = (\<lambda>(c, w). case net path body w of (r, w') \<Rightarrow> (Inr r, (c, w')))"

text \<open>A step on the state directory that may raise.\<close>

definition on_dir :: "(sdk_dir \<Rightarrow> sdk_dir res) \<Rightarrow> (sdk_client \<times> 'w, unit) act" where
  "on_dir f = (\<lambda>(c, w).
     case f (cl_dir c) of Inl e \<Rightarrow> (Inl e, (c, w)) | Inr d \<Rightarrow> (Inr (), (c\<lparr>cl_dir := d\<rparr>, w)))"

definition of_dir :: "(sdk_dir \<Rightarrow> 'a res) \<Rightarrow> (sdk_client \<times> 'w, 'a) act" where
  "of_dir f = (\<lambda>(c, w). (f (cl_dir c), (c, w)))"

definition of_client :: "(sdk_client \<Rightarrow> 'a) \<Rightarrow> (sdk_client \<times> 'w, 'a) act" where
  "of_client f = (\<lambda>(c, w). (Inr (f c), (c, w)))"

definition set_client :: "(sdk_client \<Rightarrow> sdk_client) \<Rightarrow> (sdk_client \<times> 'w, unit) act" where
  "set_client f = (\<lambda>(c, w). (Inr (), (f c, w)))"

section \<open>Offline resilience\<close>

definition ensure_device_registered ::
  "env \<Rightarrow> string option \<Rightarrow> 'w net \<Rightarrow> (sdk_client \<times> 'w, bool) act" where
  "ensure_device_registered E hostname net =
     bind_act (of_client cl_registered) (\<lambda>done.
     if done then return_act True
     else
       bind_act (the_device E hostname) (\<lambda>device.
       bind_act (send net ''/v1/sdk/devices''
         [(''device_id'', JStr (dk_device_id device)), (''public_pem'', JStr (dk_public_pem device))]) (\<lambda>r.
       if \<not> reply_ok r then return_act False
       else bind_act (set_client (cl_registered_update (\<lambda>_. True))) (\<lambda>_. return_act True))))"

definition refresh_offline_bundle :: "'w net \<Rightarrow> (sdk_client \<times> 'w, bool) act" where
  "refresh_offline_bundle net =
     bind_act (of_client cl_offline_enabled) (\<lambda>on.
     if \<not> on then return_act False
     else
       bind_act (send net ''/v1/sdk/bundle'' []) (\<lambda>r.
       if \<not> reply_ok r then return_act False
       else
         bind_act the_bundle (\<lambda>_.
         bind_act (lift_res (reply_json r)) (\<lambda>data.
         bind_act (set_client (cl_bundle_update (\<lambda>_. Some data))) (\<lambda>_.
         bind_act (on_dir (\<lambda>d. Inr (d\<lparr>sd_bundle := Some (dumps_ascii '', '' '': '' data)\<rparr>))) (\<lambda>_.
         return_act True))))))"

definition prepare_offline :: "env \<Rightarrow> string option \<Rightarrow> 'w net \<Rightarrow> (sdk_client \<times> 'w, bool) act" where
  "prepare_offline E hostname net =
     bind_act (ensure_device_registered E hostname net) (\<lambda>registered.
     bind_act (refresh_offline_bundle net) (\<lambda>refreshed.
     return_act (registered \<and> refreshed)))"

text \<open>The record of one output; \<open>t\<close> is the time of the call.\<close>

definition offline_record ::
  "env \<Rightarrow> device_key \<Rightarrow> int \<Rightarrow> json \<Rightarrow> int \<Rightarrow> string \<Rightarrow> dict \<Rightarrow> string option \<Rightarrow> string \<Rightarrow> dict res" where
  "offline_record E device local_seq prev_local t action output trace status =
     (let occurred_at = isoformat t;
          claim = build_offline_claim (dk_device_id device) local_seq prev_local occurred_at action
                    (sha256_hex E output);
          claim_hash = offline_claim_hash E claim
      in bind_res (device_sign_hex E device claim_hash) (\<lambda>sig.
         Inr [(''action'', JStr action), (''output'', JObj output), (''occurred_at'', JStr occurred_at),
              (''local_seq'', JInt local_seq), (''prev_local'', prev_local),
              (''payload_hash'', dget claim ''payload_hash''), (''client_signature'', JStr sig),
              (''claim_hash'', JStr claim_hash), (''trace_id'', jopt_str trace),
              (''local_status'', JStr status)]))"

definition gate_offline ::
  "env \<Rightarrow> string option \<Rightarrow> int \<Rightarrow> string \<Rightarrow> dict \<Rightarrow> string option \<Rightarrow> (sdk_client \<times> 'w, gate_result) act" where
  "gate_offline E hostname t action output trace =
     bind_act the_bundle (\<lambda>bundle.
     bind_act (lift_res (bind_res (as_dict bundle) (\<lambda>data. offline_evaluate data action output))) (\<lambda>verdict.
     bind_act (the_store E) (\<lambda>key.
     bind_act (the_device E hostname) (\<lambda>device.
     bind_act (of_dir (chain_state E key)) (\<lambda>(local_seq, prev_local).
     bind_act (lift_res (offline_record E device local_seq prev_local t action output trace (ov_status verdict)))
       (\<lambda>r.
     bind_act (on_dir (store_append E key r)) (\<lambda>_.
     bind_act (on_dir (\<lambda>d. Inr (remember_head (local_seq + 1) (dget r ''claim_hash'') d))) (\<lambda>_.
     return_act (from_offline verdict (case trace of None \<Rightarrow> [] | Some tr \<Rightarrow> tr))))))))))"

section \<open>Handing the queue over\<close>

definition BATCH :: nat where
  "BATCH = 100"

definition replay_item :: "json \<Rightarrow> dict res" where
  "replay_item r =
     bind_res (map_res (\<lambda>k. bind_res (py_sub r k) (\<lambda>v. Inr (k, v)))
       [''action'', ''output'', ''occurred_at'', ''local_seq'', ''prev_local'', ''payload_hash'',
        ''client_signature'']) (\<lambda>fields.
     bind_res (py_get r ''trace_id'' JNull) (\<lambda>tr.
     bind_res (py_get r ''local_status'' JNull) (\<lambda>ls.
     Inr (fields @ [(''trace_id'', tr), (''local_status'', ls)]))))"

function drain_loop ::
  "'w net \<Rightarrow> string \<Rightarrow> json list \<Rightarrow> (sdk_client \<times> 'w, int) act" where
  "drain_loop net device_id pend =
     (if pend = [] then return_act 0
      else
        let chunk = take BATCH pend in
        bind_act (lift_res (map_res replay_item chunk)) (\<lambda>items.
        bind_act (send net ''/v1/sdk/replay''
          [(''device_id'', JStr device_id), (''items'', JList (map JObj items))]) (\<lambda>r.
        if \<not> reply_ok r then return_act 0
        else
          bind_act (on_dir (store_drop (int (length chunk)))) (\<lambda>_.
          bind_act (drain_loop net device_id (drop BATCH pend)) (\<lambda>sent.
          return_act (int (length chunk) + sent))))))"
  by pat_completeness auto
termination
  by (relation "measure (\<lambda>(net, did, pend). length pend)") (auto simp: BATCH_def)

declare drain_loop.simps [simp del]

definition drain_offline :: "env \<Rightarrow> string option \<Rightarrow> 'w net \<Rightarrow> (sdk_client \<times> 'w, int) act" where
  "drain_offline E hostname net =
     bind_act (of_client cl_offline_enabled) (\<lambda>on.
     if \<not> on then return_act 0
     else
       bind_act (the_store E) (\<lambda>key.
       bind_act (of_dir (read_all E key)) (\<lambda>pend.
       if pend = [] then return_act 0
       else
         bind_act (the_device E hostname) (\<lambda>device.
         bind_act (ensure_device_registered E hostname net) (\<lambda>_.
         drain_loop net (dk_device_id device) pend)))))"

definition pending_offline :: "env \<Rightarrow> (sdk_client \<times> 'w, nat) act" where
  "pending_offline E =
     bind_act (of_client cl_offline_enabled) (\<lambda>on.
     if \<not> on then return_act 0
     else bind_act (the_store E) (\<lambda>key. of_dir (pending E key)))"

section \<open>gate and auto-remediation\<close>

text \<open>One call of \<^verbatim>\<open>gate\<close> up to the remediation of its result; \<open>remediates\<close> is the sequence number of
  the decision that this output cures, \<open>raising\<close> is \<^verbatim>\<open>on_error == "raise"\<close>.  \<open>RequestException\<close>
  stands for the exception that is propagated.\<close>

definition gate_body :: "string \<Rightarrow> dict \<Rightarrow> string option \<Rightarrow> string option \<Rightarrow> json option \<Rightarrow> dict" where
  "gate_body action output trace policy_version remediates =
     [(''action'', JStr action), (''output'', JObj output)] @
     (case trace of Some t \<Rightarrow> if t = [] then [] else [(''trace_id'', JStr t)] | None \<Rightarrow> []) @
     (case policy_version of Some p \<Rightarrow> if p = [] then [] else [(''policy_version'', JStr p)] | None \<Rightarrow> []) @
     (case remediates of Some n \<Rightarrow> [(''remediates'', n)] | None \<Rightarrow> [])"

definition gate_once ::
  "env \<Rightarrow> string option \<Rightarrow> 'w net \<Rightarrow> int \<Rightarrow> dict \<Rightarrow> string \<Rightarrow> string option \<Rightarrow> string option \<Rightarrow> json option \<Rightarrow>
   bool \<Rightarrow> (sdk_client \<times> 'w, gate_result) act" where
  "gate_once E hostname net t output action trace policy_version remediates raising =
     (let trace_text = (case trace of None \<Rightarrow> [] | Some tr \<Rightarrow> tr) in
      bind_act (of_client (\<lambda>c. cl_offline_enabled c \<and> \<not> cl_prepared c)) (\<lambda>first.
      bind_act (if first
                then bind_act (set_client (cl_prepared_update (\<lambda>_. True))) (\<lambda>_. prepare_offline E hostname net)
                else return_act True) (\<lambda>_.
      bind_act (send net ''/v1/gate'' (gate_body action output trace policy_version remediates)) (\<lambda>r.
      if \<not> reply_ok r then
        bind_act (lift_res (configuration_error r)) (\<lambda>config_error.
        case config_error of
          Some detail \<Rightarrow> if raising then lift_res (Inl RequestException) else return_act (misconfigured detail trace_text)
        | None \<Rightarrow>
            if raising then lift_res (Inl RequestException)
            else if remediates \<noteq> None then return_act (unreachable (reply_error r) trace_text)
            else
              bind_act (of_client cl_offline_enabled) (\<lambda>on.
              if on then gate_offline E hostname t action output trace
              else return_act (unreachable (reply_error r) trace_text)))
      else
        bind_act (lift_res (reply_json r)) (\<lambda>data.
        bind_act (drain_offline E hostname net) (\<lambda>_.
        lift_res (from_response data)))))))"

text \<open>\<^verbatim>\<open>_complete_cure\<close>: the payload and its kind.\<close>

definition complete_cure :: "gate_result \<Rightarrow> (dict \<times> string) option res" where
  "complete_cure g =
     (let sfix = py_or (gs_suggested_fix g) (JObj []) in
      bind_res (py_get sfix ''rewrite'' JNull) (\<lambda>rw.
      bind_res (if \<not> truthy rw then Inr None
                else
                  bind_res (py_get rw ''output'' JNull) (\<lambda>out.
                  bind_res (py_get rw ''requires_human_confirmation'' JNull) (\<lambda>human.
                  if truthy out \<and> \<not> truthy human then map_sum id Some (dict_of out) else Inr None)))
        (\<lambda>drafted.
      case drafted of
        Some d \<Rightarrow> Inr (Some (d, ''rewrite''))
      | None \<Rightarrow>
          bind_res (py_get sfix ''revised_output'' JNull) (\<lambda>revised.
          bind_res (py_get sfix ''unresolved'' JNull) (\<lambda>unresolved.
          bind_res (py_get sfix ''requirements'' JNull) (\<lambda>requirements.
          if truthy revised \<and> \<not> truthy unresolved \<and> \<not> truthy requirements
          then bind_res (dict_of revised) (\<lambda>d. Inr (Some (d, ''deterministic'')))
          else Inr None))))))"

definition remediation_note :: "bool \<Rightarrow> string \<Rightarrow> dict \<Rightarrow> gate_result \<Rightarrow> dict" where
  "remediation_note applied kind cure g =
     [(''applied'', JBool applied), (''cure'', JStr kind), (''output'', JObj cure),
      (''remediated_seq'', gs_decision_seq g), (''original_tier'', gs_tier g),
      (''original_status'', gs_status g)]"

text \<open>\<^verbatim>\<open>self.auto_remediate.get(first.tier or "")\<close>: a tier that is not a string is not a key.\<close>

definition auto_tier :: "sdk_client \<Rightarrow> json \<Rightarrow> bool" where
  "auto_tier c tier =
     (case py_or tier (JStr []) of JStr t \<Rightarrow> map_of (cl_auto_remediate c) t = Some ''auto'' | _ \<Rightarrow> False)"

definition maybe_auto_remediate ::
  "env \<Rightarrow> string option \<Rightarrow> 'w net \<Rightarrow> int \<Rightarrow> gate_result \<Rightarrow> string \<Rightarrow> string option \<Rightarrow> bool \<Rightarrow>
   (sdk_client \<times> 'w, gate_result option) act" where
  "maybe_auto_remediate E hostname net t g action policy_version raising =
     bind_act (of_client (\<lambda>c. auto_tier c (gs_tier g))) (\<lambda>automatic.
     if \<not> flagged g \<or> \<not> automatic \<or> gs_offline g \<or> \<not> truthy (gs_trace_id g) \<or> gs_decision_seq g = JNull
     then return_act None
     else
       bind_act (lift_res (complete_cure g)) (\<lambda>cure.
       case cure of
         None \<Rightarrow> return_act None
       | Some (d, kind) \<Rightarrow>
           bind_act (gate_once E hostname net t d action (Some (py_str (gs_trace_id g))) policy_version
                       (Some (gs_decision_seq g)) raising) (\<lambda>second.
           return_act (Some
             (if \<not> evaluated second
              then g\<lparr>gs_auto_remediation := JObj (remediation_note False kind d g @ [(''error'', gs_error second)])\<rparr>
              else second\<lparr>gs_auto_remediation := JObj (remediation_note True kind d g)\<rparr>)))))"

text \<open>The results that \<^verbatim>\<open>gate\<close> returns early, without an answer of the service, are those with \<^verbatim>\<open>recorded\<close>
  False.\<close>

definition client_gate ::
  "env \<Rightarrow> string option \<Rightarrow> 'w net \<Rightarrow> int \<Rightarrow> dict \<Rightarrow> string \<Rightarrow> string option \<Rightarrow> string option \<Rightarrow> json option \<Rightarrow>
   bool \<Rightarrow> (sdk_client \<times> 'w, gate_result) act" where
  "client_gate E hostname net t output action trace policy_version remediates raising =
     bind_act (gate_once E hostname net t output action trace policy_version remediates raising) (\<lambda>result.
     if remediates \<noteq> None \<or> \<not> gs_recorded result then return_act result
     else
       bind_act (maybe_auto_remediate E hostname net t result action policy_version raising) (\<lambda>cured.
       return_act (case cured of Some c \<Rightarrow> c | None \<Rightarrow> result)))"

section \<open>Lemmas\<close>

lemma bind_act_Inr:
  "bind_act m f s = (Inr y, s') \<longleftrightarrow> (\<exists>x s1. m s = (Inr x, s1) \<and> f x s1 = (Inr y, s'))"
  by (auto simp: bind_act_def split: prod.splits sum.splits)

lemma bind_act_pure [simp]:
  "bind_act (return_act x) f s = f x s" "bind_act (lift_res (Inr x)) f s = f x s"
  "bind_act (lift_res (Inl e)) f s = (Inl e, s)"
  by (simp_all add: bind_act_def return_act_def lift_res_def)

lemma bind_act_of_client [simp]: "bind_act (of_client g) f (c, w) = f (g c) (c, w)"
  by (simp add: bind_act_def of_client_def)

lemma bind_act_set_client [simp]: "bind_act (set_client h) f (c, w) = f () (h c, w)"
  by (simp add: bind_act_def set_client_def)

lemma bind_act_eqs:
  "m s = (Inr x, s1) \<Longrightarrow> bind_act m f s = f x s1" "m s = (Inl e, s1) \<Longrightarrow> bind_act m f s = (Inl e, s1)"
  by (simp_all add: bind_act_def)

lemma act_simps [simp]: "return_act x s = (Inr x, s)" "lift_res r s' = (r, s')"
  by (simp_all add: return_act_def lift_res_def)

lemma client_act_simps [simp]: "of_client g (c, w) = (Inr (g c), (c, w))"
  "set_client h (c, w) = (Inr (), (h c, w))" "of_dir k (c, w) = (k (cl_dir c), (c, w))"
  by (simp_all add: of_client_def set_client_def of_dir_def)

text \<open>What an action leaves true whether it returns or raises.\<close>

definition keeps :: "('s \<Rightarrow> bool) \<Rightarrow> ('s, 'a) act \<Rightarrow> bool" where
  "keeps P m \<longleftrightarrow> (\<forall>s. P s \<longrightarrow> P (snd (m s)))"

lemma keepsD: "keeps P m \<Longrightarrow> P s \<Longrightarrow> m s = (r, s') \<Longrightarrow> P s'"
  by (auto simp: keeps_def dest: spec [of _ s])

lemma keeps_bind: "keeps P m \<Longrightarrow> (\<And>x. keeps P (f x)) \<Longrightarrow> keeps P (bind_act m f)"
  unfolding keeps_def bind_act_def by (fastforce split: prod.splits sum.splits)

lemma keeps_pure [simp]: "keeps P (return_act x)" "keeps P (lift_res r)"
  by (simp_all add: keeps_def)

lemma keeps_read [simp]: "keeps P (of_client g)" "keeps P (of_dir h)"
  by (simp_all add: keeps_def of_client_def of_dir_def split_beta)

lemma keeps_if: "(b \<Longrightarrow> keeps P m) \<Longrightarrow> (\<not> b \<Longrightarrow> keeps P n) \<Longrightarrow> keeps P (if b then m else n)"
  by simp

text \<open>A service that takes replays: it keeps an invariant of the world, never takes back what was
  delivered, and when it accepts a segment every item of it is delivered.\<close>

definition replay_fields :: "string list" where
  "replay_fields = [''action'', ''output'', ''occurred_at'', ''local_seq'', ''prev_local'', ''payload_hash'',
     ''client_signature'', ''trace_id'', ''local_status'']"

definition opt_str :: "json \<Rightarrow> bool" where
  "opt_str v \<longleftrightarrow> v = JNull \<or> is_str v"

text \<open>An item of the types that \<^verbatim>\<open>schemas.ReplayItemIn\<close> declares.\<close>

definition replay_typed :: "dict \<Rightarrow> bool" where
  "replay_typed i \<longleftrightarrow>
     map fst i = replay_fields \<and> (\<exists>a. dget i ''action'' = JStr a \<and> a \<noteq> []) \<and> is_obj (dget i ''output'') \<and>
     is_str (dget i ''occurred_at'') \<and> (\<exists>n. dget i ''local_seq'' = JInt n) \<and> opt_str (dget i ''prev_local'') \<and>
     is_str (dget i ''payload_hash'') \<and> is_str (dget i ''client_signature'') \<and>
     opt_str (dget i ''trace_id'') \<and> opt_str (dget i ''local_status'')"

definition replay_body :: "string \<Rightarrow> dict list \<Rightarrow> dict" where
  "replay_body device_id items = [(''device_id'', JStr device_id), (''items'', JList (map JObj items))]"

definition sdk_paths :: "string set" where
  "sdk_paths = {''/v1/sdk/devices'', ''/v1/sdk/replay''}"

locale replay_service =
  fixes net :: "'w net" and inv :: "'w \<Rightarrow> bool" and delivered :: "string \<Rightarrow> dict \<Rightarrow> 'w \<Rightarrow> bool"
  assumes net_inv: "inv w \<Longrightarrow> p \<in> sdk_paths \<Longrightarrow> net p b w = (r, w') \<Longrightarrow> inv w'"
    and net_stays: "inv w \<Longrightarrow> p \<in> sdk_paths \<Longrightarrow> delivered did i w \<Longrightarrow> net p b w = (r, w') \<Longrightarrow> delivered did i w'"
    and net_accepts: "inv w \<Longrightarrow> list_all replay_typed items \<Longrightarrow>
      net ''/v1/sdk/replay'' (replay_body did items) w = (r, w') \<Longrightarrow> reply_ok r \<Longrightarrow> i \<in> set items \<Longrightarrow>
      delivered did i w'"

definition sendable :: "dict \<Rightarrow> bool" where
  "sendable r \<longleftrightarrow> (\<exists>i. replay_item (JObj r) = Inr i \<and> replay_typed i)"

definition item_of :: "dict \<Rightarrow> dict" where
  "item_of r = (case replay_item (JObj r) of Inr i \<Rightarrow> i | Inl _ \<Rightarrow> [])"

lemma sendable_item: "sendable r \<Longrightarrow> replay_item (JObj r) = Inr (item_of r) \<and> replay_typed (item_of r)"
  by (auto simp: sendable_def item_of_def)

lemma sendable_items:
  "list_all sendable rs \<Longrightarrow> map_res replay_item (map JObj rs) = Inr (map item_of rs) \<and>
     list_all replay_typed (map item_of rs)"
  by (induction rs) (simp_all add: sendable_item)

context replay_service
begin

text \<open>The outcome of a replay of the records \<open>rs\<close>: the first \<open>n\<close> have left the queue, all delivered.\<close>

definition handed_over :: "env \<Rightarrow> bytes \<Rightarrow> string \<Rightarrow> dict list \<Rightarrow> nat \<Rightarrow> sdk_client \<times> 'w \<Rightarrow> bool" where
  "handed_over E key did rs n s \<longleftrightarrow>
     n \<le> length rs \<and> queue_holds E key (cl_dir (fst s)) (drop n rs) \<and> inv (snd s) \<and>
     (\<forall>i < n. delivered did (item_of (rs ! i)) (snd s))"

lemma drain_loop_delivers:
  assumes "queue_holds E key (cl_dir c) (drop m rs)" "list_all sendable rs" "m \<le> length rs"
    and "handed_over E key did rs m (c, w)"
    and "drain_loop net did (map JObj (drop m rs)) (c, w) = (r, (c', w'))"
  shows "\<exists>n. handed_over E key did rs n (c', w') \<and> (\<forall>k. r = Inr k \<longrightarrow> int n = int m + k)"
  using assms
proof (induction "length rs - m" arbitrary: m c w r rule: less_induct)
  case less
  show ?case
  proof (cases "drop m rs = []")
    case True
    then show ?thesis using less.prems by (subst (asm) drain_loop.simps) auto
  next
    case False
    let ?chunk = "take BATCH (drop m rs)"
    have sc: "list_all sendable ?chunk" using less.prems(2) by (auto simp: list_all_iff dest!: in_set_takeD in_set_dropD)
    note it = sendable_items [OF sc]
    obtain rep w1 where n: "net ''/v1/sdk/replay'' (replay_body did (map item_of ?chunk)) w = (rep, w1)" by fastforce
    have inv: "inv w" using less.prems(4) by (simp add: handed_over_def)
    have inv1: "inv w1" using net_inv [OF inv _ n] by (simp add: sdk_paths_def)
    have st: "delivered did i w \<Longrightarrow> delivered did i w1" for i
      using net_stays [OF inv _ _ n] by (simp add: sdk_paths_def)
    have run: "drain_loop net did (map JObj (drop m rs)) (c, w) =
      (if \<not> reply_ok rep then (Inr 0, (c, w1))
       else bind_act (on_dir (store_drop (int (length ?chunk)))) (\<lambda>_.
          bind_act (drain_loop net did (map JObj (drop (m + BATCH) rs))) (\<lambda>sent.
          return_act (int (length ?chunk) + sent))) (c, w1))"
      using False n it by (subst drain_loop.simps)
        (simp add: Let_def take_map drop_map add.commute bind_act_def send_def replay_body_def del: length_take length_drop)
    show ?thesis
    proof (cases "reply_ok rep")
      case False
      then have "r = Inr 0" "c' = c" "w' = w1" using run less.prems(5) by auto
      then show ?thesis using less.prems(4) inv1 st by (intro exI [of _ m]) (auto simp: handed_over_def)
    next
      case True
      let ?m = "m + length ?chunk"
      obtain d where d: "store_drop (int (length ?chunk)) (cl_dir c) = Inr d"
        "queue_holds E key d (drop (length ?chunk) (drop m rs))"
        using drop_holds [OF less.prems(1)] by blast
      let ?c = "c\<lparr>cl_dir := d\<rparr>"
      have dm: "drop (m + BATCH) rs = drop ?m rs" by (simp add: min_def)
      have h: "handed_over E key did rs ?m (?c, w1)"
      proof -
        have "delivered did (item_of (rs ! i)) w1" if "i < ?m" for i
        proof (cases "i < m")
          case True
          then show ?thesis using less.prems(4) st by (simp add: handed_over_def)
        next
          case False
          then have "rs ! i = ?chunk ! (i - m)" "i - m < length ?chunk" using that by auto
          then have "item_of (rs ! i) \<in> set (map item_of ?chunk)" by (metis imageI list.set_map nth_mem)
          then show ?thesis using net_accepts [OF inv _ n True] it by blast
        qed
        then show ?thesis using d(2) inv1 less.prems(3) by (simp add: handed_over_def add.commute)
      qed
      have od: "on_dir (store_drop (int (length ?chunk))) (c, w1) = (Inr (), (?c, w1))"
        by (simp add: on_dir_def d(1) del: length_take)
      obtain r2 s2 where dl: "drain_loop net did (map JObj (drop ?m rs)) (?c, w1) = (r2, s2)" by (meson surj_pair)
      have "(r, (c', w')) = (case r2 of Inl e \<Rightarrow> Inl e | Inr k \<Rightarrow> Inr (int (length ?chunk) + k), s2)"
        using run True less.prems(5) od dl unfolding dm
        by (auto simp: bind_act_def split: sum.splits prod.splits)
      moreover have "length rs - ?m < length rs - m" using False less.prems(3) by (auto simp: BATCH_def)
      moreover have "queue_holds E key (cl_dir ?c) (drop ?m rs)" "?m \<le> length rs"
        using h by (simp_all add: handed_over_def)
      ultimately show ?thesis using less.hyps [of ?m ?c w1 r2] h dl less.prems(2)
        by (cases s2; cases r2) auto
    qed
  qed
qed

end

context replay_service
begin

lemma registration_frame:
  assumes "ensure_device_registered E h net (c, w) = (r, (c1, w1))" "inv w" "cl_device c = Some dev"
  shows "cl_dir c1 = cl_dir c \<and> cl_store c1 = cl_store c \<and> cl_device c1 = cl_device c \<and> inv w1 \<and> (\<exists>b. r = Inr b)"
proof (cases "cl_registered c")
  case True
  with assms show ?thesis by (auto simp: ensure_device_registered_def)
next
  case False
  let ?b = "[(''device_id'', JStr (dk_device_id dev)), (''public_pem'', JStr (dk_public_pem dev))]"
  obtain rep w2 where n: "net ''/v1/sdk/devices'' ?b w = (rep, w2)" by (meson surj_pair)
  have "inv w2" using net_inv [OF assms(2) _ n] by (simp add: sdk_paths_def)
  with n False assms show ?thesis
    by (auto simp: ensure_device_registered_def bind_act_def the_device_def send_def split: if_splits)
qed

lemma drain_offline_delivers:
  assumes "queue_holds E key (cl_dir c) rs" "cl_store c = Some key" "cl_device c = Some dev"
    and "list_all sendable rs" "inv w" "drain_offline E h net (c, w) = (r, (c', w'))"
  shows "\<exists>n. handed_over E key (dk_device_id dev) rs n (c', w') \<and> (\<forall>k. r = Inr k \<longrightarrow> k = int n)"
proof (cases "cl_offline_enabled c \<and> rs \<noteq> []")
  case False
  then have "r = Inr 0 \<and> c' = c \<and> w' = w" using assms
    by (auto simp: drain_offline_def the_store_def bind_act_def read_all_holds split: if_splits)
  then show ?thesis using assms(1,5) by (intro exI [of _ 0]) (simp add: handed_over_def)
next
  case True
  obtain b c1 w1 where e: "ensure_device_registered E h net (c, w) = (b, (c1, w1))" by (metis prod.exhaust)
  note f = registration_frame [OF e assms(5,3)]
  obtain x where x: "b = Inr x" using f by blast
  have "drain_loop net (dk_device_id dev) (map JObj rs) (c1, w1) = (r, (c', w'))"
    using assms True e x by (auto simp: drain_offline_def the_store_def the_device_def bind_act_def read_all_holds)
  then show ?thesis
    using drain_loop_delivers [of E key c1 0 rs "dk_device_id dev" w1 r c' w'] f assms(1,4)
    by (auto simp: handed_over_def)
qed

end

section \<open>The chain of the device\<close>

text \<open>Records whose positions follow one another from \<open>n\<close> and whose links follow one another from
  \<open>prev\<close>; the head is what the next record links to.\<close>

fun signed_chain :: "env \<Rightarrow> device_key \<Rightarrow> json \<Rightarrow> int \<Rightarrow> dict list \<Rightarrow> bool" where
  "signed_chain E dev prev n [] = True"
| "signed_chain E dev prev n (r # rs) =
     ((\<exists>t action output trace status. action \<noteq> [] \<and> offline_record E dev n prev t action output trace status = Inr r) \<and>
      signed_chain E dev (dget r ''claim_hash'') (n + 1) rs)"

definition chain_head :: "json \<Rightarrow> dict list \<Rightarrow> json" where
  "chain_head prev rs = (if rs = [] then prev else dget (last rs) ''claim_hash'')"

lemma chain_head_simps [simp]:
  "chain_head prev [] = prev" "chain_head prev (rs @ [r]) = dget r ''claim_hash''"
  "chain_head prev (r # rs) = chain_head (dget r ''claim_hash'') rs"
  by (simp_all add: chain_head_def)

lemma signed_chain_append:
  "signed_chain E dev prev n (xs @ ys) \<longleftrightarrow> signed_chain E dev prev n xs \<and>
     signed_chain E dev (chain_head prev xs) (n + int (length xs)) ys"
  by (induction xs arbitrary: prev n) (simp_all add: algebra_simps)

lemma chain_head_append: "chain_head prev (xs @ ys) = chain_head (chain_head prev xs) ys"
  by (simp add: chain_head_def)

lemma signed_chain_drop:
  assumes "signed_chain E dev prev n rs" "m \<le> length rs"
  shows "signed_chain E dev (chain_head prev (take m rs)) (n + int m) (drop m rs) \<and>
    chain_head (chain_head prev (take m rs)) (drop m rs) = chain_head prev rs"
  using assms signed_chain_append [of E dev prev n "take m rs" "drop m rs"]
    chain_head_append [of prev "take m rs" "drop m rs"] by (simp add: min_absorb2)

lemma claim_hash_nonempty: "offline_claim_hash E q \<noteq> []"
  using length_digest [of E "canonical_bytes q"]
  by (cases "digest E (canonical_bytes q)") (simp_all add: offline_claim_hash_def sha256_hex_def hex_def hex_byte_def)

text \<open>What a record holds, the item it becomes and the claim its signature covers.\<close>

lemma offline_record_Inr:
  assumes "offline_record E dev n prev t action output trace status = Inr r"
  defines "claim \<equiv> build_offline_claim (dk_device_id dev) n prev (isoformat t) action (sha256_hex E output)"
  obtains sig where "device_sign_hex E dev (offline_claim_hash E claim) = Inr sig"
    "r = [(''action'', JStr action), (''output'', JObj output), (''occurred_at'', JStr (isoformat t)),
          (''local_seq'', JInt n), (''prev_local'', prev), (''payload_hash'', JStr (sha256_hex E output)),
          (''client_signature'', JStr sig), (''claim_hash'', JStr (offline_claim_hash E claim)),
          (''trace_id'', jopt_str trace), (''local_status'', JStr status)]"
    "item_of r = [(''action'', JStr action), (''output'', JObj output), (''occurred_at'', JStr (isoformat t)),
          (''local_seq'', JInt n), (''prev_local'', prev), (''payload_hash'', JStr (sha256_hex E output)),
          (''client_signature'', JStr sig), (''trace_id'', jopt_str trace), (''local_status'', JStr status)]"
    "replay_item (JObj r) = Inr (item_of r)"
proof -
  obtain sig where s: "device_sign_hex E dev (offline_claim_hash E claim) = Inr sig"
    and r: "r = [(''action'', JStr action), (''output'', JObj output), (''occurred_at'', JStr (isoformat t)),
          (''local_seq'', JInt n), (''prev_local'', prev), (''payload_hash'', JStr (sha256_hex E output)),
          (''client_signature'', JStr sig), (''claim_hash'', JStr (offline_claim_hash E claim)),
          (''trace_id'', jopt_str trace), (''local_status'', JStr status)]"
    using assms(1) by (auto simp: offline_record_def Let_def bind_res_eq_Inr claim_def build_offline_claim_def dget_def dget_def_def)
  have "replay_item (JObj r) = Inr [(''action'', JStr action), (''output'', JObj output), (''occurred_at'', JStr (isoformat t)),
          (''local_seq'', JInt n), (''prev_local'', prev), (''payload_hash'', JStr (sha256_hex E output)),
          (''client_signature'', JStr sig), (''trace_id'', jopt_str trace), (''local_status'', JStr status)]"
    by (simp add: replay_item_def r py_sub_def py_get_def dget_def_def)
  with s r show thesis by (intro that) (simp_all add: item_of_def)
qed

lemma jopt_str_opt: "opt_str (jopt_str x)"
  by (cases x) (simp_all add: opt_str_def jopt_str_def)

lemma offline_record_sendable:
  assumes "offline_record E dev n prev t action output trace status = Inr r" "action \<noteq> []" "opt_str prev"
  shows "sendable r \<and> opt_str (dget r ''claim_hash'')"
  using offline_record_Inr [OF assms(1)]
proof (rule offline_record_Inr [OF assms(1)], goal_cases)
  case (1 sig)
  then show ?case using assms(2,3) jopt_str_opt [of trace]
    by (simp add: sendable_def replay_typed_def replay_fields_def dget_def dget_def_def opt_str_def [of "JStr _"])
qed

lemma signed_chain_sendable:
  "signed_chain E dev prev n rs \<Longrightarrow> opt_str prev \<Longrightarrow> list_all sendable rs \<and> opt_str (chain_head prev rs)"
  by (induction rs arbitrary: prev n) (auto dest: offline_record_sendable)

lemma record_verifies:
  assumes "offline_record E dev n prev t action output trace status = Inr r"
    and "ed_pair E (dk_private_pem dev) pem"
    and "\<And>l. link = Some l \<Longrightarrow> prev = JStr l \<and> l \<noteq> []"
  shows "\<exists>claim. verify_item E pem (dk_device_id dev) link (item_of r) = Inr claim \<and>
    dget r ''claim_hash'' = JStr (offline_claim_hash E claim)"
proof (rule offline_record_Inr [OF assms(1)], goal_cases)
  case (1 sig)
  let ?c = "build_offline_claim (dk_device_id dev) n prev (isoformat t) action (sha256_hex E output)"
  have "verify_hex E pem (offline_claim_hash E ?c) sig = Inr True"
    using 1(1) assms(2) by (auto simp: device_sign_hex_def verify_hex_def load_public_key_def ed_pair_def bind_res_eq_Inr
        split: option.splits)
  moreover have "claim_of E (dk_device_id dev) (item_of r) output n = ?c"
    by (simp add: 1(3) claim_of_def dget_def dget_def_def py_str_def)
  moreover have "client_signature (item_of r) = sig"
    by (simp add: 1(3) client_signature_def dget_def_def py_str_def)
  moreover have "py_or prev (JStr []) = JStr l" if "link = Some l" for l
    using assms(3) [OF that] by (auto simp: py_or_def)
  ultimately have "verify_item E pem (dk_device_id dev) link (item_of r) = Inr ?c"
    unfolding verify_item_iff by (simp add: 1(3) dget_def dget_def_def)
  then show ?case by (simp add: 1(2) dget_def dget_def_def)
qed

lemma signed_chain_verifies:
  assumes "ed_pair E (dk_private_pem dev) pem" "signed_chain E dev prev n rs"
    and "\<And>l. link = Some l \<Longrightarrow> prev = JStr l \<and> l \<noteq> []"
  shows "\<exists>vs. verify_items E pem (dk_device_id dev) link (map item_of rs) = Inr vs"
  using assms(2,3)
proof (induction rs arbitrary: prev n link)
  case (Cons r rs)
  then obtain t a out tr st where "offline_record E dev n prev t a out tr st = Inr r" by auto
  from record_verifies [OF this assms(1) Cons.prems(2)] obtain claim where
    v: "verify_item E pem (dk_device_id dev) link (item_of r) = Inr claim"
    and h: "dget r ''claim_hash'' = JStr (offline_claim_hash E claim)" by blast
  have "\<exists>vs. verify_items E pem (dk_device_id dev) (Some (offline_claim_hash E claim)) (map item_of rs) = Inr vs"
    using Cons.prems(1) h by (intro Cons.IH [of "dget r ''claim_hash''" "n + 1"]) (auto simp: claim_hash_nonempty)
  with v show ?case by auto
qed simp

section \<open>The state of the client\<close>

definition head_ok :: "sdk_dir \<Rightarrow> int \<Rightarrow> json \<Rightarrow> bool" where
  "head_ok d n p \<longleftrightarrow>
     (case sd_chain d of
        None \<Rightarrow> n = 1 \<and> p = JNull
      | Some b \<Rightarrow> load_file b = Inr (JObj [(''next_seq'', JInt n), (''prev_local'', p)]))"

text \<open>A client with its store and device open, whose queue holds the records \<open>rs\<close>, a chain signed by the
  device that starts at position \<open>n\<close> after \<open>p\<close>, and whose head file says where the chain goes on.\<close>

definition sdk_ok :: "env \<Rightarrow> bytes \<Rightarrow> device_key \<Rightarrow> int \<Rightarrow> json \<Rightarrow> dict list \<Rightarrow> sdk_client \<Rightarrow> bool" where
  "sdk_ok E key dev n p rs c \<longleftrightarrow>
     cl_store c = Some key \<and> cl_device c = Some dev \<and> queue_holds E key (cl_dir c) rs \<and> opt_str p \<and>
     signed_chain E dev p n rs \<and> head_ok (cl_dir c) (n + int (length rs)) (chain_head p rs)"

lemma chain_state_ok:
  assumes "sdk_ok E key dev n p rs c"
  shows "chain_state E key (cl_dir c) = Inr (n + int (length rs), chain_head p rs)"
proof (cases "rs = []")
  case True
  then show ?thesis using assms
    by (auto simp: sdk_ok_def chain_state_def read_all_holds head_ok_def py_get_def dget_def_def split: option.splits)
next
  case False
  then obtain xs r where rs: "rs = xs @ [r]" by (cases rs rule: rev_cases) auto
  obtain t a out tr st where o: "offline_record E dev (n + int (length xs)) (chain_head p xs) t a out tr st = Inr r"
    using assms by (auto simp: sdk_ok_def rs signed_chain_append)
  have f: "py_sub (JObj r) ''local_seq'' = Inr (JInt (n + int (length xs))) \<and>
      (\<exists>h. py_sub (JObj r) ''claim_hash'' = Inr (JStr h) \<and> dget r ''claim_hash'' = JStr h)"
    by (rule offline_record_Inr [OF o]) (simp add: py_sub_def dget_def dget_def_def)
  have "read_all E key (cl_dir c) = Inr (map JObj xs @ [JObj r])"
    using assms read_all_holds [of E key "cl_dir c" "xs @ [r]"] by (simp add: sdk_ok_def rs)
  then show ?thesis using f by (auto simp: chain_state_def rs py_str_def)
qed

lemma status_values:
  "offline_evaluate data action payload = Inr v \<Longrightarrow>
   ov_status v \<in> {STATUS_UNEVALUATED, STATUS_BLOCKED, STATUS_FLAGGED, STATUS_COMPLIANT}"
  by (auto simp: offline_evaluate_def bind_res_eq_Inr Let_def split: if_splits)

lemma status_ascii:
  "s \<in> {STATUS_UNEVALUATED, STATUS_BLOCKED, STATUS_FLAGGED, STATUS_COMPLIANT} \<Longrightarrow> utf8_ok s"
  by (auto simp: STATUS_UNEVALUATED_def STATUS_BLOCKED_def STATUS_FLAGGED_def STATUS_COMPLIANT_def intro!: ascii_utf8_ok)

lemma isoformat_ascii: "list_all is_ascii (isoformat t)"
proof -
  have n: "list_all is_ascii (pad0 k m)" for k m
    using is_digit_nat_str [of _ m] by (auto simp: pad0_def list_all_iff intro: is_ascii_digit)
  show ?thesis by (simp add: isoformat_def Let_def n split: prod.splits)
qed

lemma sha256_hex_ascii: "list_all is_ascii (sha256_hex E d)"
  by (simp add: sha256_hex_def hex_ascii)

text \<open>What a caller may hand in: text that is UTF-8 and JSON without floats or repeated keys.\<close>

definition recordable :: "string \<Rightarrow> dict \<Rightarrow> string option \<Rightarrow> bool" where
  "recordable action output trace \<longleftrightarrow>
     action \<noteq> [] \<and> utf8_ok action \<and> storable output \<and> (case trace of None \<Rightarrow> True | Some t \<Rightarrow> utf8_ok t)"

lemma record_storable:
  assumes "offline_record E dev n p t action output trace status = Inr r"
    and "recordable action output trace" "utf8_ok status" "opt_str p" "case p of JStr s \<Rightarrow> utf8_ok s | _ \<Rightarrow> True"
  shows "storable r"
  using assms(1)
proof (rule offline_record_Inr, goal_cases)
  case (1 sig)
  have "list_all is_ascii sig"
    using 1(1) by (auto simp: device_sign_hex_def bind_res_eq_Inr hex_ascii split: option.splits if_splits)
  then have a: "utf8_ok sig" "utf8_ok (isoformat t)" "utf8_ok (sha256_hex E output)"
    "\<And>q. utf8_ok (offline_claim_hash E q)"
    by (simp_all add: ascii_utf8_ok isoformat_ascii sha256_hex_ascii offline_claim_hash_def)
  have p: "jplain p \<and> list_all utf8_ok (jstrings p)" using assms(4,5) by (cases p) (simp_all add: opt_str_def)
  have t: "jplain (jopt_str trace) \<and> list_all utf8_ok (jstrings (jopt_str trace))"
    using assms(2) by (cases trace) (simp_all add: jopt_str_def recordable_def)
  have k: "utf8_ok ''action''" "utf8_ok ''output''" "utf8_ok ''occurred_at''" "utf8_ok ''local_seq''"
    "utf8_ok ''prev_local''" "utf8_ok ''payload_hash''" "utf8_ok ''client_signature''" "utf8_ok ''claim_hash''"
    "utf8_ok ''trace_id''" "utf8_ok ''local_status''" by (simp_all add: ascii_utf8_ok)
  show ?case using assms(2,3) a p t k by (simp add: 1(2) storable_def recordable_def)
qed

lemma chain_head_utf8:
  assumes "signed_chain E dev p n rs" "case p of JStr s \<Rightarrow> utf8_ok s | _ \<Rightarrow> True"
  shows "case chain_head p rs of JStr s \<Rightarrow> utf8_ok s | _ \<Rightarrow> True"
proof (cases "rs = []")
  case False
  then obtain xs r where rs: "rs = xs @ [r]" by (cases rs rule: rev_cases) auto
  obtain t a out tr st where "offline_record E dev (n + int (length xs)) (chain_head p xs) t a out tr st = Inr r"
    using assms(1) by (auto simp: rs signed_chain_append)
  from this show ?thesis
    by (rule offline_record_Inr)
      (simp add: rs dget_def dget_def_def ascii_utf8_ok sha256_hex_ascii offline_claim_hash_def)
qed (use assms in simp)

lemma head_remembered:
  assumes "opt_str p" "case p of JStr s \<Rightarrow> utf8_ok s | _ \<Rightarrow> True"
  shows "head_ok (remember_head n p d) n p"
proof -
  have "jplain p \<and> list_all utf8_ok (jstrings p)" using assms by (cases p) (simp_all add: opt_str_def)
  moreover have "utf8_ok ''next_seq''" "utf8_ok ''prev_local''" by (simp_all add: ascii_utf8_ok)
  ultimately have "storable [(''next_seq'', JInt n), (''prev_local'', p)]" by (simp add: storable_def)
  from load_file_storable [OF this] show ?thesis by (simp add: head_ok_def remember_head_def del: dumps_with.simps)
qed

lemma queue_holds_head: "queue_holds E key (remember_head n p d) rs \<longleftrightarrow> queue_holds E key d rs"
  by (simp add: queue_holds_def remember_head_def)

lemma on_dir_Inr [simp]:
  "on_dir f (c, w) = (Inr u, s') \<longleftrightarrow> (\<exists>d. f (cl_dir c) = Inr d \<and> s' = (c\<lparr>cl_dir := d\<rparr>, w))"
  by (auto simp: on_dir_def split: sum.splits)

lemma append_chain: "store_append E key r d = Inr d' \<Longrightarrow> sd_chain d' = sd_chain d"
  by (auto simp: store_append_def Let_def split: if_splits)

lemma drop_chain: "store_drop k d = Inr d' \<Longrightarrow> sd_chain d' = sd_chain d"
  by (auto simp: store_drop_def Let_def bind_res_eq_Inr split: if_splits option.splits)

text \<open>An offline gate call appends one signed record to the chain.\<close>

lemma gate_offline_appends:
  assumes ok: "sdk_ok E key dev n p rs c" "case p of JStr s \<Rightarrow> utf8_ok s | _ \<Rightarrow> True"
    and rec: "recordable action output trace"
    and run: "gate_offline E h t action output trace (c, w) = (Inr g, (c', w'))"
  shows "\<exists>r. sdk_ok E key dev n p (rs @ [r]) c' \<and> dget r ''action'' = JStr action \<and> dget r ''output'' = JObj output \<and>
    dget r ''local_status'' = gs_status g \<and> gs_buffered g \<and> gs_offline g \<and> \<not> gs_recorded g \<and> w' = w"
proof -
  let ?n = "n + int (length rs)" and ?p = "chain_head p rs"
  obtain b c1 where b: "the_bundle (c, w) = (Inr b, (c1, w))"
    and c1: "cl_dir c1 = cl_dir c" "cl_store c1 = Some key" "cl_device c1 = Some dev"
    using ok(1) by (cases "cl_bundle c") (auto simp: the_bundle_def sdk_ok_def Let_def)
  note cs = chain_state_ok [OF ok(1)]
  obtain data v r d where v: "as_dict b = Inr data" "offline_evaluate data action output = Inr v"
    and r: "offline_record E dev ?n ?p t action output trace (ov_status v) = Inr r"
    and d: "store_append E key r (cl_dir c) = Inr d"
    and c': "c' = c1\<lparr>cl_dir := remember_head (?n + 1) (dget r ''claim_hash'') d\<rparr>" "w' = w"
    and g: "g = from_offline v (case trace of None \<Rightarrow> [] | Some tr \<Rightarrow> tr)"
    using run b c1 cs
    by (auto simp: gate_offline_def bind_act_Inr bind_res_eq_Inr the_store_def the_device_def)
  have sc: "signed_chain E dev p n rs" "opt_str p" using ok(1) by (simp_all add: sdk_ok_def)
  have ph: "opt_str ?p" "case ?p of JStr s \<Rightarrow> utf8_ok s | _ \<Rightarrow> True"
    using signed_chain_sendable [OF sc] chain_head_utf8 [OF sc(1) ok(2)] by simp_all
  have st: "storable r"
    using record_storable [OF r rec _ ph] status_ascii [OF status_values [OF v(2)]] by simp
  have q: "queue_holds E key d (rs @ [r])"
    using append_holds [OF _ st, of E key "cl_dir c" rs] ok(1) d by (auto simp: sdk_ok_def)
  have ne: "action \<noteq> []" using rec by (simp add: recordable_def)
  have ch: "signed_chain E dev p n (rs @ [r])" 
    using sc(1) r ne unfolding signed_chain_append by (simp, blast)
  have hd: "head_ok (remember_head (?n + 1) (dget r ''claim_hash'') d) (?n + 1) (dget r ''claim_hash'')"
    using signed_chain_sendable [OF ch sc(2)] chain_head_utf8 [OF ch ok(2)] by (intro head_remembered) simp_all
  have "sdk_ok E key dev n p (rs @ [r]) c'"
    using c1 q ch hd sc(2) by (simp add: sdk_ok_def c' queue_holds_head algebra_simps)
  moreover from r have "dget r ''action'' = JStr action \<and> dget r ''output'' = JObj output \<and>
      dget r ''local_status'' = JStr (ov_status v)"
    by (rule offline_record_Inr) (simp add: dget_def dget_def_def)
  ultimately show ?thesis
    by (intro exI [of _ r]) (simp add: g c'(2) from_offline_def gate_result_of_def)
qed

section \<open>What the client promises\<close>

definition cached_bundle :: "sdk_client \<Rightarrow> json" where
  "cached_bundle c = (case cl_bundle c of Some b \<Rightarrow> b | None \<Rightarrow> bundle_load (cl_dir c))"

lemma the_bundle_cached:
  "\<exists>c1. the_bundle (c, w) = (Inr (cached_bundle c), (c1, w)) \<and> cl_dir c1 = cl_dir c \<and>
     cl_store c1 = cl_store c \<and> cl_device c1 = cl_device c"
  by (cases "cl_bundle c") (simp_all add: the_bundle_def cached_bundle_def Let_def)

lemma device_signs:
  "load_pem_private E (dk_private_pem dev) = Some Ed25519Key \<Longrightarrow>
   \<exists>r. offline_record E dev n p t action output trace status = Inr r"
  by (simp add: offline_record_def Let_def device_sign_hex_def offline_claim_hash_def sha256_hex_def res_of_option_def)

lemma gate_offline_returns:
  assumes ok: "sdk_ok E key dev n p rs c" "case p of JStr s \<Rightarrow> utf8_ok s | _ \<Rightarrow> True"
    and rec: "recordable action output trace"
    and dev: "load_pem_private E (dk_private_pem dev) = Some Ed25519Key"
    and verdict: "cached_bundle c = JObj data" "offline_evaluate data action output = Inr v"
  shows "\<exists>g c' r. gate_offline E h t action output trace (c, w) = (Inr g, (c', w)) \<and>
    sdk_ok E key dev n p (rs @ [r]) c' \<and> dget r ''action'' = JStr action \<and> dget r ''output'' = JObj output \<and>
    dget r ''local_status'' = gs_status g \<and> gs_allowed g = ov_allowed v \<and> gs_status g = JStr (ov_status v)"
proof -
  let ?n = "n + int (length rs)" and ?p = "chain_head p rs"
  have sc: "signed_chain E dev p n rs" "opt_str p" using ok(1) by (simp_all add: sdk_ok_def)
  obtain c1 where b: "the_bundle (c, w) = (Inr (JObj data), (c1, w))"
    and c1: "cl_dir c1 = cl_dir c" "cl_store c1 = Some key" "cl_device c1 = Some dev"
    using the_bundle_cached [of c w] ok(1) verdict(1) by (auto simp: sdk_ok_def)
  obtain r where r: "offline_record E dev ?n ?p t action output trace (ov_status v) = Inr r"
    using device_signs [OF dev] by blast
  have "storable r"
    using record_storable [OF r rec] status_ascii [OF status_values [OF verdict(2)]]
      signed_chain_sendable [OF sc] chain_head_utf8 [OF sc(1) ok(2)] by simp
  then obtain d where d: "store_append E key r (cl_dir c) = Inr d"
    using append_holds [of E key "cl_dir c" rs r] ok(1) by (auto simp: sdk_ok_def)
  define g where "g = from_offline v (case trace of None \<Rightarrow> [] | Some tr \<Rightarrow> tr)"
  have run: "\<exists>c'. gate_offline E h t action output trace (c, w) = (Inr g, (c', w))"
    using b c1 verdict(2) r d chain_state_ok [OF ok(1)]
    by (simp add: gate_offline_def bind_act_def the_store_def the_device_def on_dir_def as_dict_def g_def)
  then obtain c' where c': "gate_offline E h t action output trace (c, w) = (Inr g, (c', w))" by blast
  from gate_offline_appends [OF ok rec c'] c' show ?thesis
    by (fastforce simp: g_def from_offline_def gate_result_of_def)
qed


definition demo_device_key :: device_key where
  "demo_device_key = \<lparr>dk_device_id = ''device-1'', dk_private_pem = ''D'', dk_public_pem = ''D''\<rparr>"

definition demo_client :: sdk_client where
  "demo_client = \<lparr>cl_offline_enabled = True, cl_auto_remediate = [(''yellow'', ''auto'')], cl_dir = empty_dir,
     cl_device = Some demo_device_key, cl_store = Some demo_key, cl_bundle = Some (JObj []),
     cl_registered = True, cl_prepared = True\<rparr>"

lemma demo_client_ok: "sdk_ok demo_env demo_key demo_device_key 1 JNull [] demo_client"
  using demo_queue by (simp add: sdk_ok_def demo_client_def head_ok_def opt_str_def empty_dir_def)

lemma demo_recordable: "recordable ''a'' [(''text'', JStr ''hi'')] None"
  by (simp add: recordable_def storable_def ascii_utf8_ok is_ascii_def)


text \<open>Every run of consecutive records of a device's chain, whatever the client has sent before, passes
  the service's check of an offline segment under the key of the device.\<close>

theorem offline_chain_verifies:
  assumes "ed_pair E (dk_private_pem dev) (dv_public_pem device)" "dv_device_id device = dk_device_id dev"
    and "signed_chain E dev p n rs"
  shows "\<exists>vs. verify_segment E device (map item_of (take k (drop m rs))) = Inr vs"
proof -
  have "signed_chain E dev p n (take m rs @ take k (drop m rs) @ drop k (drop m rs))"
    using assms(3) by (simp only: append_take_drop_id)
  then have "signed_chain E dev (chain_head p (take m rs)) (n + int (length (take m rs))) (take k (drop m rs))"
    unfolding signed_chain_append by blast
  from signed_chain_verifies [OF assms(1) this, of None] show ?thesis
    by (simp add: verify_segment_def assms(2))
qed

theorem offline_chain_verifies_witness:
  "\<exists>r1 r2 vs. verify_segment demo_env demo_device (map item_of [r1, r2]) = Inr vs \<and>
     signed_chain demo_env demo_device_key JNull 1 [r1, r2]"
proof -
  have l: "load_pem_private demo_env (dk_private_pem demo_device_key) = Some Ed25519Key"
    by (simp add: demo_env_def demo_device_key_def)
  obtain r1 where r1: "offline_record demo_env demo_device_key 1 JNull 0 ''a'' [] None ''compliant'' = Inr r1"
    using device_signs [OF l] by blast
  obtain r2 where r2: "offline_record demo_env demo_device_key 2 (dget r1 ''claim_hash'') 5 ''b'' [] None ''flagged'' = Inr r2"
    using device_signs [OF l] by blast
  have ch: "signed_chain demo_env demo_device_key JNull 1 [r1, r2]"
    using r1 r2 by (simp, metis list.distinct(1))
  have "ed_pair demo_env (dk_private_pem demo_device_key) ''D''"
    by (simp add: ed_pair_def demo_env_def demo_device_key_def)
  with offline_chain_verifies [OF _ _ ch, of demo_device 2 0] ch show ?thesis
    by (fastforce simp: demo_device_key_def demo_device_def)
qed

section \<open>Auto-remediation\<close>

lemma results_fresh [simp]:
  "gs_auto_remediation (misconfigured d tr) = JNull" "gs_auto_remediation (unreachable e tr) = JNull"
  "gs_auto_remediation (from_offline v tr) = JNull"
  by (simp_all add: misconfigured_def unreachable_def from_offline_def gate_result_of_def)

lemma from_response_fresh: "from_response b = Inr g \<Longrightarrow> gs_auto_remediation g = JNull"
  by (auto simp: from_response_def bind_res_eq_Inr Let_def gate_result_of_def)

text \<open>What every value an action returns has.\<close>

definition gives :: "('a \<Rightarrow> bool) \<Rightarrow> ('s, 'a) act \<Rightarrow> bool" where
  "gives P m \<longleftrightarrow> (\<forall>s x s'. m s = (Inr x, s') \<longrightarrow> P x)"

lemma gives_bind: "(\<And>x. gives P (f x)) \<Longrightarrow> gives P (bind_act m f)"
  unfolding gives_def bind_act_Inr by blast

lemma gives_pure: "P x \<Longrightarrow> gives P (return_act x)" "(\<And>x. r = Inr x \<Longrightarrow> P x) \<Longrightarrow> gives P (lift_res r)"
  by (simp_all add: gives_def)

abbreviation fresh :: "gate_result \<Rightarrow> bool" where
  "fresh g \<equiv> gs_auto_remediation g = JNull"

lemma gate_offline_fresh: "gives fresh (gate_offline E h t a out tr)"
  unfolding gate_offline_def split_def by (intro gives_bind gives_pure) simp

lemma gate_once_fresh: "gives fresh (gate_once E h net t out a tr pv rem raising)"
  unfolding gate_once_def Let_def
  by (intro gives_bind, split if_split option.split, intro conjI impI allI)
    (auto intro!: gives_bind gives_pure gate_offline_fresh dest: from_response_fresh split: option.split)

text \<open>Nothing a client does changes its configuration.\<close>

abbreviation configured :: "(string \<times> string) list \<Rightarrow> sdk_client \<times> 'w \<Rightarrow> bool" where
  "configured A s \<equiv> cl_auto_remediate (fst s) = A"

lemma configured_steps [simp]:
  "keeps (configured A) (the_bundle)" "keeps (configured A) (the_store E)" "keeps (configured A) (the_device E h)"
  "keeps (configured A) (send net p b)" "keeps (configured A) (on_dir f)"
  "(\<And>c. cl_auto_remediate (k c) = cl_auto_remediate c) \<Longrightarrow> keeps (configured A) (set_client k)"
  by (auto simp: keeps_def the_bundle_def the_store_def the_device_def send_def on_dir_def set_client_def Let_def
      split: option.splits sum.splits prod.splits)

lemma configured_prepare [simp]: "keeps (configured A) (prepare_offline E h net)"
  unfolding prepare_offline_def ensure_device_registered_def refresh_offline_bundle_def
  by (intro keeps_bind keeps_if) simp_all

lemma configured_offline [simp]: "keeps (configured A) (gate_offline E h t a out tr)"
  unfolding gate_offline_def by (intro keeps_bind) (auto intro!: keeps_bind split: prod.splits)

lemma configured_loop [simp]: "keeps (configured A) (drain_loop net did rs)"
proof (induction rs rule: length_induct)
  case (1 rs)
  then have "rs \<noteq> [] \<Longrightarrow> keeps (configured A) (drain_loop net did (drop BATCH rs))" by (simp add: BATCH_def)
  then show ?case by (subst drain_loop.simps) (auto simp: Let_def intro!: keeps_bind keeps_if)
qed

lemma configured_drain [simp]: "keeps (configured A) (drain_offline E h net)"
  unfolding drain_offline_def ensure_device_registered_def by (intro keeps_bind keeps_if) simp_all

lemma configured_gate: "keeps (configured A) (gate_once E h net t out a tr pv rem raising)"
  unfolding gate_once_def Let_def
  by (intro keeps_bind keeps_if) (auto intro!: keeps_bind keeps_if split: option.splits)

lemma complete_cure_cases:
  assumes "complete_cure g = Inr (Some (d, kind))"
  obtains f where "py_or (gs_suggested_fix g) (JObj []) = JObj f"
    "(kind = ''rewrite'' \<and> (\<exists>rw. dget f ''rewrite'' = JObj rw \<and> dget rw ''output'' = JObj d \<and>
        \<not> truthy (dget rw ''requires_human_confirmation''))) \<or>
     (kind = ''deterministic'' \<and> dget f ''revised_output'' = JObj d \<and>
        \<not> truthy (dget f ''unresolved'') \<and> \<not> truthy (dget f ''requirements''))"
  using assms
  by (auto simp: complete_cure_def Let_def bind_res_eq_Inr py_get_def dget_def dict_of_def 
      split: json.splits if_splits option.splits)

text \<open>What the client may submit on its own: a drafted rewrite that needs no human confirmation, or a
  deterministic revision that leaves nothing unresolved and nothing required of the customer.\<close>

definition complete_fix :: "dict \<Rightarrow> dict \<Rightarrow> bool" where
  "complete_fix f d \<longleftrightarrow>
     (\<exists>rw. dget f ''rewrite'' = JObj rw \<and> dget rw ''output'' = JObj d \<and>
        \<not> truthy (dget rw ''requires_human_confirmation'')) \<or>
     (dget f ''revised_output'' = JObj d \<and> \<not> truthy (dget f ''unresolved'') \<and> \<not> truthy (dget f ''requirements''))"

lemma maybe_auto_remediate_Some:
  assumes "maybe_auto_remediate E h net t g action pv raising s = (Inr (Some g'), s')"
  shows "flagged g \<and> auto_tier (fst s) (gs_tier g) \<and> \<not> gs_offline g \<and>
    (\<exists>f d kind second. py_or (gs_suggested_fix g) (JObj []) = JObj f \<and> complete_fix f d \<and>
       gate_once E h net t d action (Some (py_str (gs_trace_id g))) pv (Some (gs_decision_seq g)) raising s = (Inr second, s') \<and>
       g' = (if evaluated second
             then second\<lparr>gs_auto_remediation := JObj (remediation_note True kind d g)\<rparr>
             else g\<lparr>gs_auto_remediation := JObj (remediation_note False kind d g @ [(''error'', gs_error second)])\<rparr>))"
proof -
  obtain c w where s: "s = (c, w)" by fastforce
  have guard: "flagged g" "auto_tier c (gs_tier g)" "\<not> gs_offline g"
    using assms by (auto simp: maybe_auto_remediate_def s split: if_splits)
  obtain d kind second where cure: "complete_cure g = Inr (Some (d, kind))"
    and run: "gate_once E h net t d action (Some (py_str (gs_trace_id g))) pv (Some (gs_decision_seq g)) raising s = (Inr second, s')"
    and g': "g' = (if \<not> evaluated second
       then g\<lparr>gs_auto_remediation := JObj (remediation_note False kind d g @ [(''error'', gs_error second)])\<rparr>
       else second\<lparr>gs_auto_remediation := JObj (remediation_note True kind d g)\<rparr>)"
    using assms by (auto simp: maybe_auto_remediate_def s bind_act_Inr split: if_splits option.splits)
  from cure obtain f where "py_or (gs_suggested_fix g) (JObj []) = JObj f" "complete_fix f d"
    by (rule complete_cure_cases) (auto simp: complete_fix_def)
  with guard run g' show ?thesis by (auto simp: s)
qed

text \<open>A result that reports an automatic remediation comes from one first call of the gate that was
  recorded by the service and flagged, at a tier configured as automatic, with a fix of the service that is
  complete; the call made with that fix names the first decision, and is the only further one.\<close>

theorem auto_remediation_limits:
  assumes "client_gate E h net t output action trace pv rem raising (c, w) = (Inr g, s')"
    and "gs_auto_remediation g \<noteq> JNull"
  shows "\<exists>first s1 f d second. rem = None \<and>
    gate_once E h net t output action trace pv None raising (c, w) = (Inr first, s1) \<and>
    gs_recorded first \<and> flagged first \<and> \<not> gs_offline first \<and> auto_tier c (gs_tier first) \<and>
    py_or (gs_suggested_fix first) (JObj []) = JObj f \<and> complete_fix f d \<and>
    gate_once E h net t d action (Some (py_str (gs_trace_id first))) pv (Some (gs_decision_seq first)) raising s1 =
      (Inr second, s') \<and>
    (evaluated second \<longrightarrow> gs_status g = gs_status second \<and> gs_allowed g = gs_allowed second) \<and>
    (\<not> evaluated second \<longrightarrow> gs_status g = gs_status first \<and> gs_allowed g = gs_allowed first)"
proof -
  obtain first s1 where first: "gate_once E h net t output action trace pv rem raising (c, w) = (Inr first, s1)"
    and rest: "(if rem \<noteq> None \<or> \<not> gs_recorded first then return_act first
       else bind_act (maybe_auto_remediate E h net t first action pv raising) (\<lambda>cured.
         return_act (case cured of Some c \<Rightarrow> c | None \<Rightarrow> first))) s1 = (Inr g, s')"
    using assms(1) by (auto simp: client_gate_def bind_act_Inr)
  have "gives fresh (gate_once E h net t output action trace pv rem raising)" by (rule gate_once_fresh)
  then have fresh: "fresh first" using first unfolding gives_def by blast
  with rest assms(2) have g: "rem = None" "gs_recorded first"
    "maybe_auto_remediate E h net t first action pv raising s1 = (Inr (Some g), s')"
    by (auto simp: bind_act_Inr split: if_splits option.splits)
  have "auto_tier (fst s1) tier = auto_tier c tier" for tier
    using keepsD [OF configured_gate _ first, of "cl_auto_remediate c"]
    by (simp add: auto_tier_def split: json.split)
  with maybe_auto_remediate_Some [OF g(3)] first g(1,2) show ?thesis by (fastforce split: if_splits)
qed

definition demo_net :: "unit net" where
  "demo_net path body w =
     (Reply 200 (Some (JObj
        (if dget body ''remediates'' = JNull
         then [(''status'', JStr STATUS_FLAGGED), (''allowed'', JBool True), (''trace_id'', JStr ''t''),
               (''tier'', JStr ''yellow''), (''decision_seq'', JInt 2),
               (''suggested_fix'', JObj [(''revised_output'', JObj [(''text'', JStr ''ok'')])])]
         else [(''status'', JStr STATUS_COMPLIANT), (''allowed'', JBool True), (''trace_id'', JStr ''t'')]))), w)"

theorem auto_remediation_limits_witness:
  "\<exists>g first s1. fst (client_gate demo_env None demo_net 0 [(''text'', JStr ''no'')] ''a'' None None None False
      (demo_client\<lparr>cl_offline_enabled := False\<rparr>, ())) = Inr g \<and> gs_status g = JStr STATUS_COMPLIANT \<and>
    gate_once demo_env None demo_net 0 [(''text'', JStr ''no'')] ''a'' None None None False
      (demo_client\<lparr>cl_offline_enabled := False\<rparr>, ()) = (Inr first, s1) \<and> flagged first"
proof -
  let ?c = "demo_client\<lparr>cl_offline_enabled := False\<rparr>"
  note defs = gate_once_def client_gate_def maybe_auto_remediate_def complete_cure_def demo_net_def demo_client_def
    send_def reply_ok_def from_response_def gate_body_def drain_offline_def auto_tier_def flagged_def dict_of_def
    py_get_def py_sub_def py_or_def dget_def dget_def_def gate_result_of_def bind_act_def as_dict_def
    evaluated_def compliant_def STATUS_COMPLIANT_def STATUS_FLAGGED_def STATUS_UNEVALUATED_def
    remediation_note_def Let_def py_str_def
  obtain g s' where g: "client_gate demo_env None demo_net 0 [(''text'', JStr ''no'')] ''a'' None None None False (?c, ()) = (Inr g, s')"
      "gs_auto_remediation g \<noteq> JNull" "gs_status g = JStr STATUS_COMPLIANT"
    by (simp add: defs)
  from auto_remediation_limits [OF g(1,2)] g(1,3) show ?thesis by fastforce
qed

end
