(* ===== verification/Profile.thy ===== *)
theory Profile
  imports Policy
begin

text \<open>
  Obligations derived from an institution's profile: \<^verbatim>\<open>domain/sectors.py\<close>, \<^verbatim>\<open>domain/jurisdictions.py\<close>,
  \<^verbatim>\<open>services/regulation_packs.py\<close> (publishing packs, subscriptions), \<^verbatim>\<open>services/org_profile.py\<close> (the
  profile, its change control and the reconciliation of the applied packs) and
  \<^verbatim>\<open>services/onboarding.py\<close>.  Text columns are ordered by their bytes.
\<close>

section \<open>sectors.py, jurisdictions.py\<close>

definition SECTOR_CODES :: "string list" where
  "SECTOR_CODES =
     [''banking'', ''insurance_takaful'', ''capital_markets'', ''asset_management'', ''advisory'',
      ''payments'', ''virtual_assets'', ''healthcare_provider'', ''health_insurance'', ''pharma_medtech'',
      ''government'', ''law_enforcement'', ''legal'', ''accounting_audit'', ''consulting'', ''technology'',
      ''telecoms'', ''media'', ''education'', ''real_estate'', ''construction'', ''retail_consumer'',
      ''hospitality'', ''transport_logistics'', ''energy_utilities'', ''manufacturing'', ''agriculture'',
      ''mining'', ''hr_employment'', ''other'']"

definition JURISDICTIONS :: "string list" where
  "JURISDICTIONS = [''difc'', ''adgm'', ''uae_onshore'', ''internal'']"

definition cleaned_codes :: "string list \<Rightarrow> string list" where
  "cleaned_codes codes = sorted_set (map strip (filter (\<lambda>c. c \<noteq> [] \<and> strip c \<noteq> []) codes))"

definition validate_sectors :: "string list \<Rightarrow> string list res" where
  "validate_sectors codes =
     (let cleaned = cleaned_codes codes
      in if list_ex (\<lambda>c. c \<notin> set SECTOR_CODES) cleaned then Inl ValueError else Inr cleaned)"

section \<open>regulation\_packs.py\<close>

text \<open>Columns of a pack document: a missing key raises, a value of another type is refused by the
  database.\<close>

definition doc_str :: "dict \<Rightarrow> string \<Rightarrow> string res" where
  "doc_str doc k =
     bind_res (res_of_option KeyError (map_of doc k)) (\<lambda>v.
     case v of JStr s \<Rightarrow> Inr s | _ \<Rightarrow> Inl DataError)"

definition doc_opt :: "dict \<Rightarrow> string \<Rightarrow> string option res" where
  "doc_opt doc k = (case dget doc k of JNull \<Rightarrow> Inr None | JStr s \<Rightarrow> Inr (Some s) | _ \<Rightarrow> Inl DataError)"

text \<open>The columns of type \<^verbatim>\<open>VARCHAR(32)\<close> refuse a longer text.\<close>

definition varchar :: "nat \<Rightarrow> string \<Rightarrow> string res" where
  "varchar n s = (if length (code_points s) \<le> n then Inr s else Inl DataError)"

definition is_version :: "string \<Rightarrow> string \<Rightarrow> regulation_pack \<Rightarrow> bool" where
  "is_version code version p \<longleftrightarrow> rp_code p = code \<and> rp_version p = version"

definition pack_rules_doc :: "dict \<Rightarrow> string \<Rightarrow> json" where
  "pack_rules_doc doc jurisdiction =
     JObj [(''schema_version'', dget_def doc ''schema_version'' (JInt 2)),
           (''engine'', dget_def doc ''engine'' (JStr ''json'')),
           (''rules'', dget_def doc ''rules'' (JList [])),
           (''jurisdictions'', py_or (dget doc ''jurisdictions'') (JList [JStr jurisdiction])),
           (''sectors'', py_or (dget doc ''sectors'') (JList [JStr ''*'']))]"

definition upsert_pack :: "env \<Rightarrow> dict \<Rightarrow> db \<Rightarrow> (regulation_pack \<times> db) res" where
  "upsert_pack E doc db =
     bind_res (doc_str doc ''code'') (\<lambda>code.
     bind_res (doc_str doc ''version'') (\<lambda>version.
     bind_res (if truthy (dget doc ''jurisdictions'') then Inr [] else doc_str doc ''jurisdiction'') (\<lambda>j.
     let rules = pack_rules_doc doc j in
     bind_res (doc_opt doc ''instrument_notes'') (\<lambda>notes.
     bind_res (doc_opt doc ''source_url'') (\<lambda>url.
     bind_res (doc_opt doc ''effective_date'') (\<lambda>effective.
     bind_res (doc_str doc ''name'') (\<lambda>name.
     bind_res (doc_str doc ''instrument'') (\<lambda>instrument.
     bind_res (doc_str ((''verification_status'', dget_def doc ''verification_status'' (JStr ''unverified'')) # [])
                 ''verification_status'') (\<lambda>status.
     bind_res (map_res (varchar 32) (version # status # (case effective of None \<Rightarrow> [] | Some t \<Rightarrow> [t]))) (\<lambda>_.
     let fill = (\<lambda>p. p\<lparr>rp_name := name, rp_instrument := instrument, rp_instrument_notes := notes,
                       rp_source_url := url, rp_effective_date := effective,
                       rp_verification_status := status, rp_rules := rules\<rparr>)
     in case one_or_none (is_version code version) (regulation_packs db) of
          Some p \<Rightarrow>
            Inr (fill p, db\<lparr>regulation_packs := update_where (is_version code version) fill (regulation_packs db)\<rparr>)
        | None \<Rightarrow>
            bind_res (doc_str doc ''jurisdiction'') (\<lambda>t.
            bind_res (varchar 32 t) (\<lambda>jurisdiction.
            let (pid, db) = new_uuid E db;
                p = fill \<lparr>rp_id = pid, rp_code = code, rp_jurisdiction = jurisdiction, rp_name = [],
                          rp_version = version, rp_instrument = [], rp_instrument_notes = None,
                          rp_source_url = None, rp_effective_date = None, rp_verification_status = [],
                          rp_reviewed_by = None, rp_reviewed_at = None, rp_rules = JNull,
                          rp_created_at = now E\<rparr>
            in Inr (p, db\<lparr>regulation_packs := regulation_packs db @ [p]\<rparr>)))))))))))))"

definition latest_pack_by_code :: "db \<Rightarrow> string \<Rightarrow> regulation_pack option" where
  "latest_pack_by_code db code =
     first (order_desc rp_created_at (filter (\<lambda>p. rp_code p = code) (regulation_packs db)))"

definition list_packs :: "db \<Rightarrow> string option \<Rightarrow> regulation_pack list" where
  "list_packs db jurisdiction =
     sort_key rp_jurisdiction (sort_key rp_code
       (case jurisdiction of
          None \<Rightarrow> regulation_packs db
        | Some j \<Rightarrow> filter (\<lambda>p. rp_jurisdiction p = j) (regulation_packs db)))"

definition is_subscription :: "string \<Rightarrow> string \<Rightarrow> org_regulation_pack \<Rightarrow> bool" where
  "is_subscription org_id pack_id s \<longleftrightarrow> op_org_id s = org_id \<and> op_pack_id s = pack_id"

definition subscribe_org ::
  "env \<Rightarrow> string \<Rightarrow> string \<Rightarrow> bool \<Rightarrow> string \<Rightarrow> db \<Rightarrow> (org_regulation_pack \<times> db) res" where
  "subscribe_org E org_id pack_code enabled enforcement db =
     (if enforcement \<noteq> ''advisory'' then Inl PackError
      else
        case latest_pack_by_code db pack_code of
          None \<Rightarrow> Inl PackError
        | Some pack \<Rightarrow>
            (case one_or_none (is_subscription org_id (rp_id pack)) (org_regulation_packs db) of
               None \<Rightarrow>
                 let row = \<lparr>op_org_id = org_id, op_pack_id = rp_id pack, op_enforcement = enforcement,
                            op_enabled = enabled, op_created_at = now E\<rparr>
                 in Inr (row, db\<lparr>org_regulation_packs := org_regulation_packs db @ [row]\<rparr>)
             | Some row \<Rightarrow>
                 let f = (\<lambda>r. r\<lparr>op_enabled := enabled, op_enforcement := enforcement\<rparr>)
                 in Inr (f row, db\<lparr>org_regulation_packs :=
                      update_where (is_subscription org_id (rp_id pack)) f (org_regulation_packs db)\<rparr>)))"

definition org_subscriptions :: "db \<Rightarrow> string \<Rightarrow> (regulation_pack \<times> org_regulation_pack) list" where
  "org_subscriptions db org_id =
     sort_key (\<lambda>x. rp_jurisdiction (fst x)) (sort_key (\<lambda>x. rp_code (fst x))
       [(p, s). p \<leftarrow> regulation_packs db, s \<leftarrow> org_regulation_packs db,
          op_pack_id s = rp_id p \<and> op_org_id s = org_id])"

section \<open>org\_profile.py\<close>

definition validate_jurisdictions :: "string list \<Rightarrow> string list res" where
  "validate_jurisdictions codes =
     (let cleaned = cleaned_codes codes
      in if list_ex (\<lambda>c. c \<notin> set JURISDICTIONS \<or> c = ''internal'') cleaned then Inl ProfileError else Inr cleaned)"

definition is_profile :: "string \<Rightarrow> org_profile \<Rightarrow> bool" where
  "is_profile org_id p \<longleftrightarrow> pr_org_id p = org_id"

definition get_profile :: "db \<Rightarrow> string \<Rightarrow> org_profile option" where
  "get_profile db org_id = one_or_none (is_profile org_id) (org_profiles db)"

text \<open>\<^verbatim>\<open>"*" in v or bool(set(v) & set(mine))\<close>: building a set of lists or objects raises.\<close>

definition targets :: "json \<Rightarrow> string list \<Rightarrow> bool res" where
  "targets v mine =
     bind_res (py_iter v) (\<lambda>xs.
     if JStr ''*'' \<in> set xs then Inr True
     else if list_ex (\<lambda>x. case x of JList _ \<Rightarrow> True | JObj _ \<Rightarrow> True | _ \<Rightarrow> False) xs then Inl TypeError
     else Inr (list_ex (\<lambda>m. JStr m \<in> set xs) mine))"

definition pack_applies :: "regulation_pack \<Rightarrow> string list \<Rightarrow> string list \<Rightarrow> bool res" where
  "pack_applies pack jurisdictions sectors =
     (let doc = (case rp_rules pack of JObj d \<Rightarrow> d | _ \<Rightarrow> []) in
      bind_res (targets (py_or (dget doc ''jurisdictions'') (JList [JStr (rp_jurisdiction pack)])) jurisdictions)
        (\<lambda>juris_hit.
      bind_res (targets (py_or (dget doc ''sectors'') (JList [JStr ''*''])) sectors) (\<lambda>sector_hit.
      Inr (juris_hit \<and> sector_hit))))"

definition mandatory_packs :: "db \<Rightarrow> string \<Rightarrow> regulation_pack list res" where
  "mandatory_packs db org_id =
     (case get_profile db org_id of
        None \<Rightarrow> Inr []
      | Some profile \<Rightarrow>
          bind_res (map_res (\<lambda>p. bind_res (pack_applies p (pr_jurisdictions profile) (pr_sectors profile))
                               (\<lambda>b. Inr (p, b))) (sort_key rp_code (regulation_packs db))) (\<lambda>pbs.
          Inr (map fst (filter snd pbs))))"

text \<open>The keys of a dictionary built from a list of pairs, in order of first insertion.\<close>

definition dict_keys :: "string list \<Rightarrow> string list" where
  "dict_keys ks = rev (remdups (rev ks))"

fun subscribe_all :: "env \<Rightarrow> string \<Rightarrow> string list \<Rightarrow> db \<Rightarrow> db res" where
  "subscribe_all E org_id [] db = Inr db"
| "subscribe_all E org_id (code # codes) db =
     bind_res (subscribe_org E org_id code True ''advisory'' db) (\<lambda>(_, db). subscribe_all E org_id codes db)"

definition reconcile_packs :: "env \<Rightarrow> string \<Rightarrow> db \<Rightarrow> ((string list \<times> string list) \<times> db) res" where
  "reconcile_packs E org_id db =
     bind_res (mandatory_packs db org_id) (\<lambda>packs.
     let required = dict_keys (map rp_code packs);
         subs = org_subscriptions db org_id;
         current = map_of (rev (map (\<lambda>(p, s). (rp_code p, s)) subs));
         current_codes = dict_keys (map (\<lambda>(p, s). rp_code p) subs);
         added = filter (\<lambda>c. c \<notin> set current_codes) required;
         removed = filter (\<lambda>c. c \<notin> set required) current_codes
     in bind_res (subscribe_all E org_id added db) (\<lambda>db.
        let gone = (\<lambda>s. list_ex (\<lambda>c. case current c of None \<Rightarrow> False
                                        | Some r \<Rightarrow> is_subscription org_id (op_pack_id r) s) removed)
        in Inr ((sort added, sort removed),
                db\<lparr>org_regulation_packs := filter (\<lambda>s. \<not> gone s) (org_regulation_packs db)\<rparr>)))"

text \<open>\<^verbatim>\<open>_apply\<close>\<close>

definition apply_profile ::
  "env \<Rightarrow> string \<Rightarrow> string list \<Rightarrow> string list \<Rightarrow> string \<Rightarrow> db \<Rightarrow> (org_profile \<times> db) res" where
  "apply_profile E org_id jurisdictions sectors actor db =
     (let set_it = (\<lambda>p. p\<lparr>pr_jurisdictions := jurisdictions, pr_sectors := sectors, pr_updated_at := now E,
                          pr_updated_by := Some actor\<rparr>);
          new = set_it \<lparr>pr_org_id = org_id, pr_jurisdictions = [], pr_sectors = [], pr_updated_at = 0,
                        pr_updated_by = None\<rparr>;
          db = (case get_profile db org_id of
                  None \<Rightarrow> db\<lparr>org_profiles := org_profiles db @ [new]\<rparr>
                | Some _ \<Rightarrow> db\<lparr>org_profiles := update_where (is_profile org_id) set_it (org_profiles db)\<rparr>)
      in bind_res (reconcile_packs E org_id db) (\<lambda>(_, db). Inr (new, db)))"

datatype profile_outcome = Applied org_profile | Requested profile_change_request

definition removed_codes :: "org_profile option \<Rightarrow> string list \<Rightarrow> string list \<Rightarrow> string list" where
  "removed_codes current jurisdictions sectors =
     (case current of
        None \<Rightarrow> []
      | Some p \<Rightarrow> sorted_set (filter (\<lambda>c. c \<notin> set jurisdictions) (pr_jurisdictions p) @
                              filter (\<lambda>c. c \<notin> set sectors) (pr_sectors p)))"

definition set_profile ::
  "env \<Rightarrow> string \<Rightarrow> string list \<Rightarrow> string list \<Rightarrow> string \<Rightarrow> string \<Rightarrow> bool \<Rightarrow> db \<Rightarrow> (profile_outcome \<times> db) res" where
  "set_profile E org_id jurisdictions sectors actor reason allow_reduction db =
     bind_res (validate_jurisdictions jurisdictions) (\<lambda>jurisdictions.
     bind_res (validate_sectors sectors) (\<lambda>sectors.
     if jurisdictions = [] \<or> sectors = [] then Inl ProfileError
     else
       let removed = removed_codes (get_profile db org_id) jurisdictions sectors in
       if removed \<noteq> [] \<and> \<not> allow_reduction then
         (if strip reason = [] then Inl ProfileError
          else
            let (rid, db) = new_uuid E db;
                request = \<lparr>cr_id = rid, cr_org_id = org_id, cr_requested_by = actor, cr_reason = strip reason,
                           cr_proposed_jurisdictions = jurisdictions, cr_proposed_sectors = sectors,
                           cr_removed = removed, cr_status = ''pending'', cr_decided_by = None,
                           cr_decided_at = None, cr_created_at = now E\<rparr>
            in Inr (Requested request,
                    db\<lparr>profile_change_requests := profile_change_requests db @ [request]\<rparr>))
       else
         bind_res (apply_profile E org_id jurisdictions sectors actor db) (\<lambda>(p, db). Inr (Applied p, db))))"

definition is_request :: "string \<Rightarrow> profile_change_request \<Rightarrow> bool" where
  "is_request rid r \<longleftrightarrow> cr_id r = rid"

definition decide_change_request ::
  "env \<Rightarrow> string \<Rightarrow> bool \<Rightarrow> string \<Rightarrow> db \<Rightarrow> (profile_change_request \<times> db) res" where
  "decide_change_request E request_id approve decided_by db =
     (case one_or_none (is_request request_id) (profile_change_requests db) of
        None \<Rightarrow> Inl ProfileError
      | Some request \<Rightarrow>
          if cr_status request \<noteq> ''pending'' then Inr (request, db)
          else
            let f = (\<lambda>r. r\<lparr>cr_status := (if approve then ''approved'' else ''denied''),
                           cr_decided_by := Some decided_by, cr_decided_at := Some (now E)\<rparr>);
                db = db\<lparr>profile_change_requests :=
                          update_where (is_request request_id) f (profile_change_requests db)\<rparr>
            in bind_res
                 (if approve
                  then bind_res (apply_profile E (cr_org_id request) (cr_proposed_jurisdictions request)
                         (cr_proposed_sectors request) (''attest:'' @ decided_by) db) (\<lambda>(_, db). Inr db)
                  else Inr db) (\<lambda>db.
               Inr (f request, db)))"

definition pending_change_requests :: "db \<Rightarrow> string option \<Rightarrow> profile_change_request list" where
  "pending_change_requests db org_id =
     order_desc cr_created_at
       (filter (\<lambda>r. cr_status r = ''pending'' \<and> (case org_id of None \<Rightarrow> True | Some i \<Rightarrow> cr_org_id r = i))
         (profile_change_requests db))"

section \<open>onboarding.py\<close>

definition profile_is_complete :: "db \<Rightarrow> org \<Rightarrow> bool" where
  "profile_is_complete db org =
     (case get_profile db (o_id org) of
        None \<Rightarrow> False
      | Some p \<Rightarrow> pr_jurisdictions p \<noteq> [] \<and> pr_sectors p \<noteq> [])"

definition require_onboarded :: "db \<Rightarrow> org \<Rightarrow> unit res" where
  "require_onboarded db org =
     (if \<not> o_requires_profile org then Inr ()
      else if profile_is_complete db org then Inr ()
      else Inl (HTTPException 409))"

section \<open>Lemmas\<close>

lemma latest_pack_mem: "latest_pack_by_code db code = Some p \<Longrightarrow> p \<in> set (regulation_packs db) \<and> rp_code p = code"
  by (auto simp: latest_pack_by_code_def dest!: first_Some)

lemma subscribe_frame:
  assumes "subscribe_org E org code en enf db = Inr (row, db')"
  shows "\<exists>rows. db' = db\<lparr>org_regulation_packs := rows\<rparr>"
  using assms by (auto simp: subscribe_org_def Let_def split: if_splits option.splits)

lemma subscribe_all_frame:
  "subscribe_all E org codes db = Inr db' \<Longrightarrow> \<exists>rows. db' = db\<lparr>org_regulation_packs := rows\<rparr>"
proof (induction codes arbitrary: db)
  case Nil
  then show ?case by (auto intro: exI [of _ "org_regulation_packs db"])
next
  case (Cons c codes)
  then obtain row db1 where "subscribe_org E org c True ''advisory'' db = Inr (row, db1)"
    "subscribe_all E org codes db1 = Inr db'" by (auto simp: bind_res_eq_Inr)
  with subscribe_frame Cons.IH show ?case by fastforce
qed

lemma reconcile_frame:
  "reconcile_packs E org db = Inr (r, db') \<Longrightarrow> \<exists>rows. db' = db\<lparr>org_regulation_packs := rows\<rparr>"
  by (auto simp: reconcile_packs_def Let_def bind_res_eq_Inr dest!: subscribe_all_frame)

lemma find_profile_set:
  "(\<And>p. pr_org_id (f p) = pr_org_id p) \<Longrightarrow>
   one_or_none (is_profile org') (update_where (is_profile org) f rows) =
     map_option (if org' = org then f else id) (one_or_none (is_profile org') rows)"
  by (induction rows) (auto simp: update_where_def is_profile_def one_or_none_def)

lemma apply_profile_get:
  assumes "apply_profile E org js ss actor db = Inr (p, db')"
  shows "get_profile db' org = Some p \<and> pr_jurisdictions p = js \<and> pr_sectors p = ss \<and>
    (\<forall>org'. org' \<noteq> org \<longrightarrow> get_profile db' org' = get_profile db org') \<and>
    profile_change_requests db' = profile_change_requests db"
proof -
  let ?f = "\<lambda>p. p\<lparr>pr_jurisdictions := js, pr_sectors := ss, pr_updated_at := now E, pr_updated_by := Some actor\<rparr>"
  have p: "p = \<lparr>pr_org_id = org, pr_jurisdictions = js, pr_sectors = ss, pr_updated_at = now E, pr_updated_by = Some actor\<rparr>"
    using assms by (auto simp: apply_profile_def Let_def bind_res_eq_Inr)
  show ?thesis
  proof (cases "get_profile db org")
    case None
    then obtain rows where "db' = db\<lparr>org_profiles := org_profiles db @ [p], org_regulation_packs := rows\<rparr>"
      using assms by (auto simp: apply_profile_def Let_def p bind_res_eq_Inr dest!: reconcile_frame)
    with None show ?thesis
      by (auto simp: p get_profile_def one_or_none_append is_profile_def split: option.splits)
  next
    case (Some q)
    then obtain rows where db': "db' = db\<lparr>org_profiles := update_where (is_profile org) ?f (org_profiles db),
        org_regulation_packs := rows\<rparr>"
      using assms by (auto simp: apply_profile_def Let_def p bind_res_eq_Inr dest!: reconcile_frame)
    from Some have "pr_org_id q = org" by (auto simp: get_profile_def is_profile_def dest!: one_or_none_Some)
    with Some show ?thesis by (auto simp: db' p get_profile_def find_profile_set option.map_id)
  qed
qed

text \<open>The subscriptions as pairs of organization and pack.\<close>

definition sub_key :: "org_regulation_pack \<Rightarrow> string \<times> string" where
  "sub_key s = (op_org_id s, op_pack_id s)"

definition subscriptions :: "db \<Rightarrow> (string \<times> string) set" where
  "subscriptions db = sub_key ` set (org_regulation_packs db)"

text \<open>One version of every pack, ids that are keys, and no subscription to a pack that does not exist.\<close>

definition packs_ok :: "db \<Rightarrow> bool" where
  "packs_ok db \<longleftrightarrow> distinct (map rp_id (regulation_packs db)) \<and> distinct (map rp_code (regulation_packs db)) \<and>
     snd ` subscriptions db \<subseteq> rp_id ` set (regulation_packs db)"

lemma subscribe_subscriptions:
  assumes "subscribe_org E org code en enf db = Inr (row, db')"
  obtains p where "p \<in> set (regulation_packs db)" "rp_code p = code"
    "subscriptions db' = insert (org, rp_id p) (subscriptions db)"
proof -
  obtain p where p: "latest_pack_by_code db code = Some p"
    using assms by (auto simp: subscribe_org_def split: if_splits option.splits)
  have "subscriptions db' = insert (org, rp_id p) (subscriptions db)"
  proof (cases "one_or_none (is_subscription org (rp_id p)) (org_regulation_packs db)")
    case None
    with assms p show ?thesis
      by (auto simp: subscribe_org_def subscriptions_def sub_key_def Let_def split: if_splits)
  next
    case (Some r)
    then have "(org, rp_id p) \<in> subscriptions db"
      by (force simp: subscriptions_def sub_key_def is_subscription_def dest!: one_or_none_Some)
    moreover have "sub_key ` set (update_where P (\<lambda>r. r\<lparr>op_enabled := en, op_enforcement := enf\<rparr>) rows) = sub_key ` set rows"
      for P rows by (induction rows) (auto simp: update_where_def sub_key_def)
    ultimately show ?thesis using assms p Some
      by (simp add: subscribe_org_def subscriptions_def Let_def insert_absorb split: if_splits) force
  qed
  with latest_pack_mem [OF p] show thesis using that by blast
qed

lemma subscribe_all_subscriptions:
  assumes "packs_ok db" "subscribe_all E org codes db = Inr db'"
  shows "packs_ok db' \<and> regulation_packs db' = regulation_packs db \<and>
    subscriptions db' = subscriptions db \<union> (Pair org) ` rp_id ` {p \<in> set (regulation_packs db). rp_code p \<in> set codes}"
  using assms
proof (induction codes arbitrary: db)
  case (Cons c codes)
  then obtain row db1 where s: "subscribe_org E org c True ''advisory'' db = Inr (row, db1)"
    and r: "subscribe_all E org codes db1 = Inr db'" by (auto simp: bind_res_eq_Inr)
  from s obtain p where p: "p \<in> set (regulation_packs db)" "rp_code p = c"
    "subscriptions db1 = insert (org, rp_id p) (subscriptions db)" by (rule subscribe_subscriptions)
  have rp: "regulation_packs db1 = regulation_packs db" using subscribe_frame [OF s] by auto
  have ok1: "packs_ok db1" using Cons.prems(1) p by (simp add: packs_ok_def rp)
  have "{q \<in> set (regulation_packs db). rp_code q = c} = {p}"
    using Cons.prems(1) p(1,2) by (auto simp: packs_ok_def distinct_map inj_on_def)
  then have "{q \<in> set (regulation_packs db). rp_code q \<in> set (c # codes)} =
      insert p {q \<in> set (regulation_packs db). rp_code q \<in> set codes}" by auto
  then show ?case using Cons.IH [OF ok1 r] p(3) by (simp add: rp)
qed simp

lemma set_dict_keys [simp]: "set (dict_keys ks) = set ks"
  by (simp add: dict_keys_def)

lemma list_ex_removed:
  "list_ex P (filter (\<lambda>c. c \<notin> set (dict_keys ys)) (dict_keys xs)) \<longleftrightarrow> (\<exists>c \<in> set xs - set ys. P c)"
  by (auto simp: list_ex_iff)

lemma case_option_ex: "(case x of None \<Rightarrow> False | Some r \<Rightarrow> Q r) \<longleftrightarrow> (\<exists>r. x = Some r \<and> Q r)"
  by (cases x) auto

lemma set_org_subscriptions:
  "(p, s) \<in> set (org_subscriptions db org) \<longleftrightarrow> p \<in> set (regulation_packs db) \<and>
     s \<in> set (org_regulation_packs db) \<and> op_pack_id s = rp_id p \<and> op_org_id s = org"
  by (auto simp: org_subscriptions_def)

lemma mandatory_mem:
  assumes "mandatory_packs db org = Inr ps"
  shows "set ps \<subseteq> set (regulation_packs db)"
proof (cases "get_profile db org")
  case (Some profile)
  let ?f = "\<lambda>p. bind_res (pack_applies p (pr_jurisdictions profile) (pr_sectors profile)) (\<lambda>b. Inr (p, b))"
  obtain pbs where m: "map_res ?f (sort_key rp_code (regulation_packs db)) = Inr pbs"
    and ps: "ps = map fst (filter snd pbs)"
    using assms Some by (auto simp: mandatory_packs_def bind_res_eq_Inr)
  show ?thesis
  proof
    fix p assume "p \<in> set ps"
    then obtain b where "(p, b) \<in> set pbs" by (auto simp: ps)
    from map_res_eq_Inr_set [OF m this] show "p \<in> set (regulation_packs db)" by (auto simp: bind_res_eq_Inr)
  qed
qed (use assms in \<open>simp add: mandatory_packs_def\<close>)

text \<open>The subscription that the dictionary by code holds is the one of the pack of that code.\<close>

lemma current_sub:
  assumes "packs_ok db" "p \<in> set (regulation_packs db)"
    and "rp_code p \<in> set (map (\<lambda>(p, s). rp_code p) (org_subscriptions db org))"
  shows "\<exists>s. map_of (rev (map (\<lambda>(p, s). (rp_code p, s)) (org_subscriptions db org))) (rp_code p) = Some s \<and>
    op_pack_id s = rp_id p"
proof -
  let ?m = "rev (map (\<lambda>(p, s). (rp_code p, s)) (org_subscriptions db org))"
  have "rp_code p \<in> fst ` set ?m" using assms(3) by force
  then obtain s where s: "map_of ?m (rp_code p) = Some s" by (cases "map_of ?m (rp_code p)") (auto simp: map_of_eq_None_iff)
  then have "(rp_code p, s) \<in> set ?m" by (rule map_of_SomeD)
  then obtain q where "(q, s) \<in> set (org_subscriptions db org)" "rp_code q = rp_code p" by auto
  then have "q = p" "op_pack_id s = rp_id q"
    using assms(1,2) by (auto simp: set_org_subscriptions packs_ok_def distinct_map inj_on_def)
  with s show ?thesis by blast
qed

lemma packs_unique:
  assumes "packs_ok db" "p \<in> set (regulation_packs db)" "q \<in> set (regulation_packs db)"
  shows "rp_code p = rp_code q \<Longrightarrow> p = q" "rp_id p = rp_id q \<Longrightarrow> p = q"
  using assms by (auto simp: packs_ok_def distinct_map inj_on_def)

definition sub_codes :: "db \<Rightarrow> string \<Rightarrow> string list" where
  "sub_codes db org = map (\<lambda>(p, s). rp_code p) (org_subscriptions db org)"

definition current_row :: "db \<Rightarrow> string \<Rightarrow> string \<Rightarrow> org_regulation_pack option" where
  "current_row db org = map_of (rev (map (\<lambda>(p, s). (rp_code p, s)) (org_subscriptions db org)))"

lemma code_subscribed:
  assumes "packs_ok db" "p \<in> set (regulation_packs db)"
  shows "rp_code p \<in> set (sub_codes db org) \<longleftrightarrow> (org, rp_id p) \<in> subscriptions db"
proof
  assume "rp_code p \<in> set (sub_codes db org)"
  then obtain q s where "(q, s) \<in> set (org_subscriptions db org)" "rp_code q = rp_code p"
    by (auto simp: sub_codes_def)
  moreover from this have "q = p" using packs_unique(1) [OF assms(1)] assms(2) by (simp add: set_org_subscriptions)
  ultimately show "(org, rp_id p) \<in> subscriptions db"
    by (force simp: set_org_subscriptions subscriptions_def sub_key_def)
next
  assume "(org, rp_id p) \<in> subscriptions db"
  then obtain s where "s \<in> set (org_regulation_packs db)" "op_org_id s = org" "op_pack_id s = rp_id p"
    by (auto simp: subscriptions_def sub_key_def)
  then have "(p, s) \<in> set (org_subscriptions db org)" using assms(2) by (simp add: set_org_subscriptions)
  then show "rp_code p \<in> set (sub_codes db org)" by (force simp: sub_codes_def)
qed

lemma row_of_code:
  assumes "packs_ok db" "p \<in> set (regulation_packs db)" "rp_code p \<in> set (sub_codes db org)"
  shows "(\<exists>r. current_row db org (rp_code p) = Some r \<and> is_subscription org (op_pack_id r) s) \<longleftrightarrow>
    op_org_id s = org \<and> op_pack_id s = rp_id p"
proof -
  obtain t where "current_row db org (rp_code p) = Some t" "op_pack_id t = rp_id p"
    using current_sub [OF assms(1,2), of org] assms(3) unfolding sub_codes_def current_row_def by blast
  then show ?thesis by (auto simp: is_subscription_def)
qed

lemma reconcile_Inr:
  assumes "packs_ok db" "mandatory_packs db org = Inr ps" "reconcile_packs E org db = Inr (r, db')"
  obtains db1 gone where
    "subscribe_all E org (filter (\<lambda>c. c \<notin> set (dict_keys (sub_codes db org))) (dict_keys (map rp_code ps))) db = Inr db1"
    "db' = db1\<lparr>org_regulation_packs := filter (\<lambda>s. \<not> gone s) (org_regulation_packs db1)\<rparr>"
    "\<forall>s. gone s \<longleftrightarrow> op_org_id s = org \<and> (\<exists>p \<in> set (regulation_packs db). op_pack_id s = rp_id p \<and>
       rp_code p \<in> set (sub_codes db org) \<and> rp_code p \<notin> rp_code ` set ps)"
proof -
  let ?gone = "\<lambda>s. list_ex (\<lambda>c. case current_row db org c of None \<Rightarrow> False | Some r \<Rightarrow> is_subscription org (op_pack_id r) s)
     (filter (\<lambda>c. c \<notin> set (dict_keys (map rp_code ps))) (dict_keys (sub_codes db org)))"
  obtain db1 where db1:
    "subscribe_all E org (filter (\<lambda>c. c \<notin> set (dict_keys (sub_codes db org))) (dict_keys (map rp_code ps))) db = Inr db1"
    "db' = db1\<lparr>org_regulation_packs := filter (\<lambda>s. \<not> ?gone s) (org_regulation_packs db1)\<rparr>"
    using assms(2,3) unfolding reconcile_packs_def Let_def sub_codes_def [symmetric] current_row_def [symmetric]
    by (auto simp: bind_res_eq_Inr)
  have "?gone s \<longleftrightarrow> (\<exists>c \<in> set (sub_codes db org) - rp_code ` set ps.
      \<exists>r. current_row db org c = Some r \<and> is_subscription org (op_pack_id r) s)" for s
    by (simp only: list_ex_removed case_option_ex set_map)
  moreover have "set (sub_codes db org) \<subseteq> rp_code ` set (regulation_packs db)"
    by (auto simp: sub_codes_def set_org_subscriptions)
  ultimately have "?gone s \<longleftrightarrow> op_org_id s = org \<and> (\<exists>p \<in> set (regulation_packs db). op_pack_id s = rp_id p \<and>
       rp_code p \<in> set (sub_codes db org) \<and> rp_code p \<notin> rp_code ` set ps)" for s
    using row_of_code [OF assms(1), where org = org and s = s] by blast
  then show thesis by (intro that [OF db1] allI)
qed

lemma subscriptions_filter:
  assumes "\<And>s. gone s \<longleftrightarrow> G (sub_key s)"
  shows "subscriptions (db\<lparr>org_regulation_packs := filter (\<lambda>s. \<not> gone s) (org_regulation_packs db)\<rparr>) =
    {k \<in> subscriptions db. \<not> G k}"
  by (auto simp: subscriptions_def assms)

section \<open>Properties\<close>

text \<open>C31. Obligations are not shed unilaterally: a change of profile without Attest's approval keeps
  every jurisdiction and every sector of the profile before it, leaves the profiles of all other
  organizations alone, and either completes the profile or files a pending request that names
  exactly what would be removed and changes neither profile nor applied packs.\<close>

theorem profile_shrinks_only_by_approval:
  assumes "set_profile E org js ss actor reason False db = Inr (out, db')"
  shows "(\<forall>p. get_profile db org = Some p \<longrightarrow>
      (\<exists>p'. get_profile db' org = Some p' \<and> set (pr_jurisdictions p) \<subseteq> set (pr_jurisdictions p') \<and>
            set (pr_sectors p) \<subseteq> set (pr_sectors p'))) \<and>
    (\<forall>org'. org' \<noteq> org \<longrightarrow> get_profile db' org' = get_profile db org') \<and>
    (case out of
       Applied p \<Rightarrow> get_profile db' org = Some p \<and> pr_jurisdictions p \<noteq> [] \<and> pr_sectors p \<noteq> []
     | Requested r \<Rightarrow>
         org_profiles db' = org_profiles db \<and> org_regulation_packs db' = org_regulation_packs db \<and>
         profile_change_requests db' = profile_change_requests db @ [r] \<and> cr_status r = ''pending'' \<and>
         cr_org_id r = org \<and> cr_removed r \<noteq> [] \<and>
         (\<exists>p. get_profile db org = Some p \<and>
            set (cr_removed r) = (set (pr_jurisdictions p) - set (cr_proposed_jurisdictions r)) \<union>
                                 (set (pr_sectors p) - set (cr_proposed_sectors r))))"
proof -
  obtain js' ss' where ne: "js' \<noteq> []" "ss' \<noteq> []" and
    cases: "(let removed = removed_codes (get_profile db org) js' ss' in
       if removed \<noteq> [] then
         (if strip reason = [] then Inl ProfileError
          else
            let (rid, db) = new_uuid E db;
                request = \<lparr>cr_id = rid, cr_org_id = org, cr_requested_by = actor, cr_reason = strip reason,
                           cr_proposed_jurisdictions = js', cr_proposed_sectors = ss',
                           cr_removed = removed, cr_status = ''pending'', cr_decided_by = None,
                           cr_decided_at = None, cr_created_at = now E\<rparr>
            in Inr (Requested request,
                    db\<lparr>profile_change_requests := profile_change_requests db @ [request]\<rparr>))
       else
         bind_res (apply_profile E org js' ss' actor db) (\<lambda>(p, db). Inr (Applied p, db))) = Inr (out, db')"
    using assms by (auto simp: set_profile_def bind_res_eq_Inr split: if_splits)
  show ?thesis
  proof (cases "removed_codes (get_profile db org) js' ss' = []")
    case True
    then obtain p where out: "out = Applied p" and a: "apply_profile E org js' ss' actor db = Inr (p, db')"
      using cases by (auto simp: Let_def bind_res_eq_Inr)
    have "set (pr_jurisdictions q) \<subseteq> set js' \<and> set (pr_sectors q) \<subseteq> set ss'" if "get_profile db org = Some q" for q
      using True that by (auto simp: removed_codes_def filter_empty_conv)
    with apply_profile_get [OF a] ne show ?thesis by (auto simp: out)
  next
    case False
    then obtain r where out: "out = Requested r" and db': "org_profiles db' = org_profiles db"
      "org_regulation_packs db' = org_regulation_packs db"
      "profile_change_requests db' = profile_change_requests db @ [r]"
      and r: "cr_status r = ''pending''" "cr_org_id r = org" "cr_removed r = removed_codes (get_profile db org) js' ss'"
      "cr_proposed_jurisdictions r = js'" "cr_proposed_sectors r = ss'"
      using cases by (auto simp: Let_def new_uuid_def split: if_splits)
    obtain p where p: "get_profile db org = Some p" using False by (auto simp: removed_codes_def split: option.splits)
    have "get_profile db' = get_profile db" by (auto simp: get_profile_def db')
    with False r db' p show ?thesis by (auto simp: out removed_codes_def)
  qed
qed

definition demo_profile :: org_profile where
  "demo_profile = \<lparr>pr_org_id = ''o'', pr_jurisdictions = [''adgm'', ''difc''], pr_sectors = [''banking''],
     pr_updated_at = 0, pr_updated_by = None\<rparr>"

definition profile_db :: db where
  "profile_db = empty_db\<lparr>org_profiles := [demo_profile]\<rparr>"

definition requested_removal :: "profile_outcome \<Rightarrow> string list option" where
  "requested_removal out = (case out of Applied _ \<Rightarrow> None | Requested r \<Rightarrow> Some (cr_removed r))"

lemma map_sum_fst_Inr:
  assumes "map_sum id (\<lambda>x. f (fst x)) r = Inr y"
  obtains a b where "r = Inr (a, b)" "f a = y"
  using assms by (cases r) auto

lemma removal_requested:
  "map_sum id (\<lambda>x. requested_removal (fst x))
     (set_profile demo_env ''o'' [''difc''] [''banking''] ''admin'' ''left ADGM'' False profile_db) = Inr (Some [''adgm''])"
  by code_simp

theorem profile_shrinks_only_by_approval_witness:
  "\<exists>r db'. set_profile demo_env ''o'' [''difc''] [''banking''] ''admin'' ''left ADGM'' False profile_db =
       Inr (Requested r, db') \<and> cr_removed r = [''adgm''] \<and> get_profile db' ''o'' = Some demo_profile"
proof -
  obtain out db' where o: "set_profile demo_env ''o'' [''difc''] [''banking''] ''admin'' ''left ADGM'' False profile_db =
       Inr (out, db')" "requested_removal out = Some [''adgm'']"
    using removal_requested by (rule map_sum_fst_Inr)
  then obtain r where r: "out = Requested r" "cr_removed r = [''adgm'']"
    by (auto simp: requested_removal_def split: profile_outcome.splits)
  from profile_shrinks_only_by_approval [OF o(1)] o(1) r show ?thesis
    by (auto simp: get_profile_def profile_db_def one_or_none_def is_profile_def demo_profile_def)
qed

definition stale_approval :: "(string list option \<times> string list) res" where
  "stale_approval =
     bind_res (set_profile demo_env ''o'' [''difc''] [''banking''] ''admin'' ''left ADGM'' False profile_db) (\<lambda>(out, db).
     bind_res (set_profile demo_env ''o'' [''adgm'', ''difc'', ''uae_onshore''] [''banking''] ''admin'' [] False db)
       (\<lambda>(_, db).
     bind_res (decide_change_request demo_env ''u0'' True ''ops'' db) (\<lambda>(_, db).
     Inr (requested_removal out,
          case get_profile db ''o'' of None \<Rightarrow> [] | Some p \<Rightarrow> pr_jurisdictions p))))"

text \<open>Approving a request applies the lists it proposed, not the removal it names: an obligation taken
  on after the request was filed is lost when the request is approved, although the request does not
  list it.\<close>

theorem stale_approval_sheds_more:
  "stale_approval = Inr (Some [''adgm''], [''difc''])"
  by code_simp

text \<open>C32. Applied rulebooks are exactly the derived ones: while every pack has one version, a
  reconciliation leaves the organization subscribed to precisely the packs its profile makes
  mandatory, and touches the subscriptions of no other organization.\<close>

theorem reconcile_exact:
  assumes "packs_ok db" "mandatory_packs db org = Inr ps" "reconcile_packs E org db = Inr (r, db')"
  shows "{i. (org, i) \<in> subscriptions db'} = rp_id ` set ps \<and>
    (\<forall>org' i. org' \<noteq> org \<longrightarrow> ((org', i) \<in> subscriptions db' \<longleftrightarrow> (org', i) \<in> subscriptions db))"
proof -
  obtain db1 gone where
    db1: "subscribe_all E org (filter (\<lambda>c. c \<notin> set (dict_keys (sub_codes db org))) (dict_keys (map rp_code ps))) db = Inr db1"
    and db': "db' = db1\<lparr>org_regulation_packs := filter (\<lambda>s. \<not> gone s) (org_regulation_packs db1)\<rparr>"
    and gone: "\<forall>s. gone s \<longleftrightarrow> op_org_id s = org \<and> (\<exists>p \<in> set (regulation_packs db). op_pack_id s = rp_id p \<and>
       rp_code p \<in> set (sub_codes db org) \<and> rp_code p \<notin> rp_code ` set ps)"
    by (rule reconcile_Inr [OF assms])
  define dropped where "dropped = rp_id ` {p \<in> set (regulation_packs db). rp_code p \<in> set (sub_codes db org) \<and>
    rp_code p \<notin> rp_code ` set ps}"
  have "gone s \<longleftrightarrow> (fst (sub_key s) = org \<and> snd (sub_key s) \<in> dropped)" for s
    by (auto simp: gone sub_key_def dropped_def)
  then have subs': "subscriptions db' = {k \<in> subscriptions db1. \<not> (fst k = org \<and> snd k \<in> dropped)}"
    unfolding db' by (rule subscriptions_filter)
  define added where "added = rp_id ` {p \<in> set (regulation_packs db). rp_code p \<in> rp_code ` set ps \<and>
    rp_code p \<notin> set (sub_codes db org)}"
  have subs1: "subscriptions db1 = subscriptions db \<union> Pair org ` added"
    using subscribe_all_subscriptions [OF assms(1) db1] by (simp add: added_def conj_commute)
  have ps: "set ps \<subseteq> set (regulation_packs db)" by (rule mandatory_mem [OF assms(2)])
  have req: "rp_code p \<in> rp_code ` set ps \<longleftrightarrow> p \<in> set ps" if "p \<in> set (regulation_packs db)" for p
    using packs_unique(1) [OF assms(1) that] ps by blast
  have own: "(org, rp_id p) \<in> subscriptions db' \<longleftrightarrow> p \<in> set ps" if "p \<in> set (regulation_packs db)" for p
  proof -
    have mem: "rp_id p \<in> rp_id ` {q \<in> set (regulation_packs db). P q} \<longleftrightarrow> P p" for P
      using packs_unique(2) [OF assms(1) that] that by blast
    have "rp_id p \<in> dropped \<longleftrightarrow> (org, rp_id p) \<in> subscriptions db \<and> p \<notin> set ps"
      unfolding dropped_def mem using req [OF that] code_subscribed [OF assms(1) that] by simp
    moreover have "rp_id p \<in> added \<longleftrightarrow> p \<in> set ps \<and> (org, rp_id p) \<notin> subscriptions db"
      unfolding added_def mem using req [OF that] code_subscribed [OF assms(1) that] by simp
    ultimately show ?thesis unfolding subs' subs1 by auto
  qed
  have "i \<in> rp_id ` set (regulation_packs db)" if "(org, i) \<in> subscriptions db'" for i
    using that assms(1) unfolding subs' subs1 by (force simp: packs_ok_def added_def)
  with own ps have "{i. (org, i) \<in> subscriptions db'} = rp_id ` set ps" by blast
  moreover have "(org', i) \<in> subscriptions db' \<longleftrightarrow> (org', i) \<in> subscriptions db" if "org' \<noteq> org" for org' i
    using that unfolding subs' subs1 by auto
  ultimately show ?thesis by blast
qed

definition demo_pack :: "string \<Rightarrow> string \<Rightarrow> regulation_pack" where
  "demo_pack i j = \<lparr>rp_id = i, rp_code = i, rp_jurisdiction = j, rp_name = i, rp_version = ''1'', rp_instrument = i,
     rp_instrument_notes = None, rp_source_url = None, rp_effective_date = None,
     rp_verification_status = ''unverified'', rp_reviewed_by = None, rp_reviewed_at = None,
     rp_rules = JObj [(''jurisdictions'', JList [JStr j]), (''sectors'', JList [JStr ''*''])], rp_created_at = 0\<rparr>"

definition packs_db :: db where
  "packs_db = profile_db\<lparr>regulation_packs := [demo_pack ''a'' ''adgm'', demo_pack ''u'' ''uae_onshore''],
     org_regulation_packs := [\<lparr>op_org_id = ''o'', op_pack_id = ''u'', op_enforcement = ''advisory'',
       op_enabled = True, op_created_at = 0\<rparr>]\<rparr>"

lemma demo_reconcile:
  "mandatory_packs packs_db ''o'' = Inr [demo_pack ''a'' ''adgm'']"
  "map_sum id fst (reconcile_packs demo_env ''o'' packs_db) = Inr ([''a''], [''u''])"
  by code_simp+

theorem reconcile_exact_witness:
  "\<exists>r db'. reconcile_packs demo_env ''o'' packs_db = Inr (r, db') \<and> {i. (''o'', i) \<in> subscriptions db'} = {''a''}"
proof -
  obtain r db' where r: "reconcile_packs demo_env ''o'' packs_db = Inr (r, db')"
    using demo_reconcile(2) by (cases "reconcile_packs demo_env ''o'' packs_db") auto
  have "packs_ok packs_db"
    by (simp add: packs_ok_def packs_db_def demo_pack_def subscriptions_def sub_key_def)
  from reconcile_exact [OF this demo_reconcile(1) r] r show ?thesis by (auto simp: demo_pack_def)
qed

end
