(* ===== verification/SdkApi.thy ===== *)
theory SdkApi
  imports SdkClient Profile
begin

text \<open>
  The endpoints the SDK talks to, \<^verbatim>\<open>app/api/sdk.py\<close> and \<^verbatim>\<open>app/api/gate.py\<close>, as one service over the
  database, and the client run against it: what is queued is in the log before it leaves the queue, and
  a verdict the client reports as recorded has its event in the log.
\<close>

section \<open>Answers\<close>

text \<open>\<^verbatim>\<open>except E as exc: db.rollback(); raise HTTPException(status_code=c)\<close>: the exceptions of the table become
  answers; any other is not caught, which the framework answers with 500.\<close>

definition raises_as :: "(exn \<times> int) list \<Rightarrow> 'a res \<Rightarrow> 'a res" where
  "raises_as handlers r =
     (case r of
        Inl e \<Rightarrow> Inl (HTTPException (case map_of handlers e of Some c \<Rightarrow> c | None \<Rightarrow> 500))
      | Inr x \<Rightarrow> Inr x)"

text \<open>What the framework makes of an endpoint: an uncaught exception is an answer 500 without JSON, and an
  endpoint that raises leaves the database as it was.  \<open>detail\<close> gives the detail of an error answer.\<close>

definition answer :: "(int \<Rightarrow> json) \<Rightarrow> db \<Rightarrow> (dict \<times> db) res \<Rightarrow> reply \<times> db" where
  "answer detail db r =
     (case r of
        Inr (body, db') \<Rightarrow> (Reply 200 (Some (JObj body)), db')
      | Inl e \<Rightarrow>
          (case e of
             HTTPException c \<Rightarrow>
               (Reply c (if c = 500 then None else Some (JObj [(''detail'', detail c)])), db)
           | _ \<Rightarrow> (Reply 500 None, db)))"

section \<open>schemas.py\<close>

text \<open>Pydantic reads a body into the fields of a model, None when it refuses it: the readings are
  parameters.  The constraints that the models declare are written out.\<close>

record readers =
  read_device :: "dict \<Rightarrow> (string \<times> string \<times> string option) option"
  read_replay :: "dict \<Rightarrow> (string \<times> dict list) option"
  read_gate :: "dict \<Rightarrow> (string \<times> dict \<times> string option \<times> string option \<times> int option) option"

definition DeviceRegisterIn :: "readers \<Rightarrow> dict \<Rightarrow> (string \<times> string \<times> string option) option" where
  "DeviceRegisterIn P body =
     (case read_device P body of
        Some (device_id, public_pem, label) \<Rightarrow>
          if 8 \<le> length device_id \<and> length device_id \<le> 128 \<and> 1 \<le> length public_pem
          then Some (device_id, public_pem, label) else None
      | None \<Rightarrow> None)"

definition ReplayIn :: "readers \<Rightarrow> dict \<Rightarrow> (string \<times> dict list) option" where
  "ReplayIn P body =
     (case read_replay P body of
        Some (device_id, items) \<Rightarrow>
          if 8 \<le> length device_id \<and> 1 \<le> length items \<and> length items \<le> 500 \<and>
             list_all (\<lambda>i. dget i ''action'' \<noteq> JStr []) items
          then Some (device_id, items) else None
      | None \<Rightarrow> None)"

definition GateIn :: "readers \<Rightarrow> dict \<Rightarrow> (string \<times> dict \<times> string option \<times> string option \<times> int option) option" where
  "GateIn P body =
     (case read_gate P body of
        Some (action, output, trace_id, policy_version, remediates) \<Rightarrow>
          if 1 \<le> length action \<and> (case remediates of Some n \<Rightarrow> 1 \<le> n | None \<Rightarrow> True)
          then Some (action, output, trace_id, policy_version, remediates) else None
      | None \<Rightarrow> None)"

text \<open>The answer of the gate as \<^verbatim>\<open>GateOut\<close> serialises it.\<close>

definition jopt_int :: "int option \<Rightarrow> json" where
  "jopt_int n = (case n of None \<Rightarrow> JNull | Some i \<Rightarrow> JInt i)"

definition GateOut :: "gate_verdict \<Rightarrow> dict" where
  "GateOut v =
     [(''trace_id'', JStr (gv_trace_id v)), (''status'', JStr (gv_status v)),
      (''allowed'', JBool (gv_allowed v)), (''tier'', jopt_str (map_option tier_str (gv_tier v))),
      (''reasons'', JList (map JStr (gv_reasons v))), (''findings'', JList (map JObj (gv_findings v))),
      (''jurisdictions'', JList (map JStr (gv_jurisdictions v))),
      (''policy_version'', jopt_str (gv_policy_version v)), (''decision_seq'', jopt_int (gv_decision_seq v)),
      (''output_seq'', JInt (gv_output_seq v)), (''output_hash'', JStr (gv_output_hash v)),
      (''signature'', JStr (gv_signature v)), (''approval_id'', jopt_str (gv_approval_id v)),
      (''suggested_fix'', (case gv_suggested_fix v of None \<Rightarrow> JNull | Some p \<Rightarrow> JObj (plan_to_dict p))),
      (''remediation_of'', jopt_int (gv_remediation_of v))]"

section \<open>api/sdk.py\<close>

definition register_sdk_device ::
  "env \<Rightarrow> org \<Rightarrow> string \<Rightarrow> string \<Rightarrow> string option \<Rightarrow> db \<Rightarrow> (dict \<times> db) res" where
  "register_sdk_device E org device_id public_pem label db =
     bind_res (raises_as [(OfflineSegmentError, 409)]
                 (register_device E (o_id org) device_id public_pem label db)) (\<lambda>(device, db).
     Inr ([(''device_id'', JStr (dv_device_id device)), (''registered'', JBool True)], db))"

text \<open>The rules of a pack, \<^verbatim>\<open>(pack.rules or {}).get("rules", [])\<close>.\<close>

definition bundle_pack :: "regulation_pack \<Rightarrow> dict res" where
  "bundle_pack p =
     bind_res (py_get (py_or (rp_rules p) (JObj [])) ''rules'' (JList [])) (\<lambda>rules.
     Inr [(''code'', JStr (rp_code p)), (''jurisdiction'', JStr (rp_jurisdiction p)),
          (''instrument'', JStr (rp_instrument p)), (''version'', JStr (rp_version p)),
          (''verification_status'', JStr (rp_verification_status p)),
          (''source_url'', jopt_str (rp_source_url p)), (''rules'', rules)])"

definition offline_bundle :: "org \<Rightarrow> db \<Rightarrow> dict res" where
  "offline_bundle org db =
     (let policy = get_active_policy db (o_id org) in
      bind_res (map_res bundle_pack
                  (map fst (filter (\<lambda>(pack, sub). op_enabled sub) (org_subscriptions db (o_id org))))) (\<lambda>packs.
      Inr [(''policy_version'', jopt_str (map_option pol_version policy)),
           (''policy_rules'', py_or (case policy of Some p \<Rightarrow> pol_rules p | None \<Rightarrow> JNull) (JObj [])),
           (''packs'', JList (map JObj packs)), (''fail_mode'', JStr (o_fail_mode org))]))"

definition ReplayResult :: "graft_result \<Rightarrow> dict" where
  "ReplayResult r =
     GateOut (gate_verdict.truncate r) @
     [(''deferred'', JBool (gr_deferred r)), (''occurred_at'', gr_occurred_at r),
      (''local_status'', gr_local_status r), (''verdict_changed'', JBool (gr_verdict_changed r))]"

definition replay_offline_segment ::
  "env \<Rightarrow> rewriter \<Rightarrow> (string \<Rightarrow> int option) \<Rightarrow> org \<Rightarrow> string \<Rightarrow> dict list \<Rightarrow> db \<Rightarrow> (dict \<times> db) res" where
  "replay_offline_segment E R fromiso org device_id items db =
     bind_res (raises_as [(OfflineSegmentError, 422)]
                 (graft_offline_segment E R fromiso org device_id items db)) (\<lambda>(results, db).
     Inr ([(''accepted'', JInt (int (length results))), (''results'', jobjs (map ReplayResult results))], db))"

section \<open>api/gate.py\<close>

definition gate_endpoint ::
  "env \<Rightarrow> rewriter \<Rightarrow> org \<Rightarrow> string \<Rightarrow> dict \<Rightarrow> string option \<Rightarrow> string option \<Rightarrow> int option \<Rightarrow> db \<Rightarrow>
   (gate_verdict \<times> db) res" where
  "gate_endpoint E R org action output trace policy_version remediates db =
     bind_res (require_onboarded db org) (\<lambda>_.
     bind_res (case trace of
                 None \<Rightarrow> Inr None
               | Some t \<Rightarrow>
                   if t = [] then Inr None
                   else raises_as [(ValueError, 422)] (map_sum id Some (uuid_of t))) (\<lambda>trace_id.
     raises_as [(RemediationRefError, 422), (TraceAccessDeniedError, 403), (InvalidEventTypeError, 422),
                (EventSequenceError, 409)]
       (run_gate E R org action output trace_id policy_version remediates db)))"

section \<open>The service\<close>

definition PROFILE_REQUIRED_MESSAGE :: string where
  "PROFILE_REQUIRED_MESSAGE =
     ''This organisation has not completed onboarding. Attest checks every AI '' @
     ''output against the regulations that apply to you, so you must first declare '' @
     ''where you are licensed and what sectors you operate in. Open the Attest '' @
     ''console and complete Settings, then retry. Nothing is recorded until then.''"

definition profile_required :: dict where
  "profile_required =
     [(''code'', JStr ''profile_required''), (''message'', JStr PROFILE_REQUIRED_MESSAGE),
      (''settings_path'', JStr ''/console#settings'')]"

text \<open>The routes, for the organization that the API key of the client belongs to.  A body that a model
  refuses is an answer 422; \<open>msg\<close> gives the text of an error answer.\<close>

definition sdk_service ::
  "env \<Rightarrow> rewriter \<Rightarrow> (string \<Rightarrow> int option) \<Rightarrow> readers \<Rightarrow> (int \<Rightarrow> string) \<Rightarrow> org \<Rightarrow> db net" where
  "sdk_service E R fromiso P msg org path body db =
     (let refused = (\<lambda>c. (Reply c (Some (JObj [(''detail'', JStr (msg c))])), db));
          detail = (\<lambda>c. if require_onboarded db org = Inl (HTTPException c) then JObj profile_required
                        else JStr (msg c))
      in if path = ''/v1/gate'' then
           (case GateIn P body of
              None \<Rightarrow> refused 422
            | Some (action, output, trace_id, policy_version, remediates) \<Rightarrow>
                answer detail db
                  (map_sum id (map_prod GateOut id)
                     (gate_endpoint E R org action output trace_id policy_version remediates db)))
         else if path = ''/v1/sdk/devices'' then
           (case DeviceRegisterIn P body of
              None \<Rightarrow> refused 422
            | Some (device_id, public_pem, label) \<Rightarrow>
                answer (JStr \<circ> msg) db (register_sdk_device E org device_id public_pem label db))
         else if path = ''/v1/sdk/bundle'' then
           answer (JStr \<circ> msg) db (map_sum id (\<lambda>b. (b, db)) (offline_bundle org db))
         else if path = ''/v1/sdk/replay'' then
           (case ReplayIn P body of
              None \<Rightarrow> refused 422
            | Some (device_id, items) \<Rightarrow>
                answer (JStr \<circ> msg) db (replay_offline_segment E R fromiso org device_id items db))
         else refused 404)"

section \<open>The service as the client sees it\<close>

text \<open>What the readings must satisfy: a body of the declared types that is accepted is read as it is.\<close>

definition readers_ok :: "readers \<Rightarrow> bool" where
  "readers_ok P \<longleftrightarrow>
     (\<forall>did items. list_all replay_typed items \<longrightarrow>
        read_replay P (replay_body did items) \<in> {None, Some (did, items)}) \<and>
     (\<forall>action output trace pv rem x. read_gate P (gate_body action output trace pv (map_option JInt rem)) = Some x \<longrightarrow>
        (\<exists>trace' pv'. x = (action, output, trace', pv', rem)))"

definition service_ok :: "env \<Rightarrow> readers \<Rightarrow> db \<Rightarrow> bool" where
  "service_ok E P db \<longleftrightarrow> log_ok E db \<and> service_key_ok E \<and> readers_ok P"

definition in_log :: "env \<Rightarrow> org \<Rightarrow> string \<Rightarrow> dict \<Rightarrow> db \<Rightarrow> bool" where
  "in_log E org did i db \<longleftrightarrow>
     (\<exists>e \<in> set (events db). e_org_id e = o_id org \<and> e_type e = item_action i \<and>
        e_payload_hash e = sha256_hex E (fst (redact_payload (item_output i))) \<and>
        e_deferred e \<and> e_client_device_id e = Some did \<and> e_client_signature e = Some (client_signature i))"

lemma raises_as_Inr [simp]: "raises_as hs r = Inr x \<longleftrightarrow> r = Inr x"
  by (cases r) (simp_all add: raises_as_def)

lemma answer_cases:
  assumes "answer detail db r = (rep, db')"
  shows "(\<exists>b. r = Inr (b, db') \<and> rep = Reply 200 (Some (JObj b))) \<or>
    (\<exists>e. r = Inl e \<and> db' = db \<and>
       (\<exists>c j. rep = Reply c j \<and> (e = HTTPException c \<or> c = 500) \<and> (c \<noteq> 500 \<longrightarrow> j = Some (JObj [(''detail'', detail c)]))))"
  using assms by (auto simp: answer_def split: sum.splits exn.splits if_splits)

lemma register_frame:
  "register_sdk_device E org did pem label db = Inr (b, db') \<Longrightarrow>
   events db' = events db \<and> (log_ok E db \<longrightarrow> log_ok E db')"
  by (auto simp: register_sdk_device_def bind_res_eq_Inr register_device_def touch_device_def new_uuid_def Let_def
      split: option.splits if_splits prod.splits elim!: log_ok_same)

text \<open>An answer of one of the SDK routes leaves the log intact and keeps every event.\<close>

lemma sdk_routes_frame:
  assumes "service_ok E P db" "path \<in> sdk_paths" "sdk_service E R fromiso P msg org path body db = (rep, db')"
  shows "service_ok E P db' \<and> set (events db) \<subseteq> set (events db')"
proof -
  note ok = assms(1) [unfolded service_ok_def]
  consider "path = ''/v1/sdk/devices''" | "path = ''/v1/sdk/replay''" using assms(2) by (auto simp: sdk_paths_def)
  then show ?thesis
  proof cases
    case 1
    then show ?thesis using assms(3) ok
      by (auto simp: sdk_service_def service_ok_def Let_def split: option.splits dest!: answer_cases register_frame)
  next
    case 2
    have "db' = db \<or> (\<exists>did items rs. graft_offline_segment E R fromiso org did items db = Inr (rs, db'))"
      using assms(3) 2
      by (auto simp: sdk_service_def Let_def replay_offline_segment_def bind_res_eq_Inr split: option.splits
          dest!: answer_cases)
    then show ?thesis using graft_segment_log ok by (auto simp: service_ok_def; blast)
  qed
qed

lemma replay_in_log:
  assumes "service_ok E P db" "list_all replay_typed items"
    and "sdk_service E R fromiso P msg org ''/v1/sdk/replay'' (replay_body did items) db = (rep, db')"
    and "reply_ok rep" "i \<in> set items"
  shows "in_log E org did i db'"
proof -
  have r: "read_replay P (replay_body did items) \<in> {None, Some (did, items)}"
    using assms(1,2) by (simp add: service_ok_def readers_ok_def)
  have "ReplayIn P (replay_body did items) = Some (did, items)"
  proof (cases "ReplayIn P (replay_body did items)")
    case None
    then have "rep = Reply 422 (Some (JObj [(''detail'', JStr (msg 422))]))"
      using assms(3) by (simp add: sdk_service_def Let_def)
    then show ?thesis using assms(4) by (simp add: reply_ok_def)
  next
    case (Some x)
    then show ?thesis using r by (auto simp: ReplayIn_def split: option.splits if_splits)
  qed
  with assms(3) have a: "answer (JStr \<circ> msg) db (replay_offline_segment E R fromiso org did items db) = (rep, db')"
    by (simp add: sdk_service_def Let_def)
  then obtain rs where g: "graft_offline_segment E R fromiso org did items db = Inr (rs, db')"
    using answer_cases [OF a] assms(4)
    by (auto simp: replay_offline_segment_def bind_res_eq_Inr reply_ok_def raises_as_def
        split: sum.splits if_splits)
  have "log_ok E db" "service_key_ok E" using assms(1) by (simp_all add: service_ok_def)
  from graft_segment_log [OF this g] assms(5) show ?thesis by (fastforce simp: in_log_def in_set_conv_nth)
qed

interpretation sdk: replay_service "sdk_service E R fromiso P msg org" "service_ok E P" "in_log E org"
  for E R fromiso P msg org
proof
  fix db p b r db' did i items
  show "service_ok E P db \<Longrightarrow> p \<in> sdk_paths \<Longrightarrow> sdk_service E R fromiso P msg org p b db = (r, db') \<Longrightarrow> service_ok E P db'"
    using sdk_routes_frame by blast
  show "service_ok E P db \<Longrightarrow> p \<in> sdk_paths \<Longrightarrow> in_log E org did i db \<Longrightarrow>
      sdk_service E R fromiso P msg org p b db = (r, db') \<Longrightarrow> in_log E org did i db'"
    using sdk_routes_frame unfolding in_log_def by blast
  show "service_ok E P db \<Longrightarrow> list_all replay_typed items \<Longrightarrow>
      sdk_service E R fromiso P msg org ''/v1/sdk/replay'' (replay_body did items) db = (r, db') \<Longrightarrow>
      reply_ok r \<Longrightarrow> i \<in> set items \<Longrightarrow> in_log E org did i db'"
    by (rule replay_in_log)
qed

section \<open>The client against the service\<close>

lemma bundle_frame:
  assumes "sdk_service E R fromiso P msg org ''/v1/sdk/bundle'' b db = (r, db')"
  shows "db' = db"
  using assms by (cases "offline_bundle org db")
    (auto simp: sdk_service_def Let_def dest!: answer_cases)

definition on_world :: "('w \<Rightarrow> bool) \<Rightarrow> sdk_client \<times> 'w \<Rightarrow> bool" where
  "on_world Q s = Q (snd s)"

definition holding :: "env \<Rightarrow> readers \<Rightarrow> event set \<Rightarrow> db \<Rightarrow> bool" where
  "holding E P es db \<longleftrightarrow> service_ok E P db \<and> es \<subseteq> set (events db)"

lemma local_steps_keep [simp]:
  "keeps (on_world Q) the_bundle" "keeps (on_world Q) (the_store E)" "keeps (on_world Q) (the_device E h)"
  "keeps (on_world Q) (on_dir f)" "keeps (on_world Q) (set_client k)"
  by (auto simp: keeps_def on_world_def the_bundle_def the_store_def the_device_def on_dir_def set_client_def Let_def
      split: option.splits sum.splits prod.splits)

lemma send_keeps:
  assumes "p \<in> sdk_paths \<or> p = ''/v1/sdk/bundle''"
  shows "keeps (on_world (holding E P es)) (send (sdk_service E R fromiso P msg org) p b)"
proof -
  have "holding E P es db'" if "holding E P es db" "sdk_service E R fromiso P msg org p b db = (r, db')" for db r db'
  proof (cases "p = ''/v1/sdk/bundle''")
    case True
    then show ?thesis using that bundle_frame by blast
  next
    case False
    then show ?thesis using assms that sdk_routes_frame [OF _ _ that(2)] by (auto simp: holding_def)
  qed
  then show ?thesis by (auto simp: keeps_def on_world_def send_def split: prod.splits)
qed

lemma sdk_send_keeps [simp]:
  "keeps (on_world (holding E P es)) (send (sdk_service E R fromiso P msg org) ''/v1/sdk/devices'' b)"
  "keeps (on_world (holding E P es)) (send (sdk_service E R fromiso P msg org) ''/v1/sdk/replay'' b)"
  "keeps (on_world (holding E P es)) (send (sdk_service E R fromiso P msg org) ''/v1/sdk/bundle'' b)"
  by (simp_all add: send_keeps sdk_paths_def)

lemma prepare_keeps: "keeps (on_world (holding E P es)) (prepare_offline E h (sdk_service E R fromiso P msg org))"
  unfolding prepare_offline_def ensure_device_registered_def refresh_offline_bundle_def
  by (intro keeps_bind keeps_if) simp_all

lemma loop_keeps: "keeps (on_world (holding E P es)) (drain_loop (sdk_service E R fromiso P msg org) did rs)"
proof (induction rs rule: length_induct)
  case (1 rs)
  then have "rs \<noteq> [] \<Longrightarrow>
      keeps (on_world (holding E P es)) (drain_loop (sdk_service E R fromiso P msg org) did (drop BATCH rs))"
    by (simp add: BATCH_def)
  then show ?case by (subst drain_loop.simps) (auto simp: Let_def intro!: keeps_bind keeps_if)
qed

lemma drain_keeps: "keeps (on_world (holding E P es)) (drain_offline E h (sdk_service E R fromiso P msg org))"
  unfolding drain_offline_def ensure_device_registered_def
  by (intro keeps_bind keeps_if) (simp_all add: loop_keeps)

lemma answered:
  assumes "answer detail db r = (rep, db')" "reply_ok rep" "\<And>e. r = Inl e \<Longrightarrow> \<exists>c. e = HTTPException c \<and> 400 \<le> c \<and> c < 600"
  obtains b where "r = Inr (b, db')" "rep = Reply 200 (Some (JObj b))"
  using answer_cases [OF assms(1)] assms(2,3) by (fastforce simp: reply_ok_def)

lemma gate_endpoint_raises:
  "gate_endpoint E R org action output tr pv rem db = Inl e \<Longrightarrow> \<exists>c. e = HTTPException c \<and> 400 \<le> c \<and> c < 600"
  by (auto simp: gate_endpoint_def raises_as_def require_onboarded_def bind_res_def
      split: sum.splits option.splits if_splits)

text \<open>The gate route answers only when the gate ran.\<close>

lemma gate_route:
  assumes "readers_ok P" "reply_ok rep"
    and "sdk_service E R fromiso P msg org ''/v1/gate'' (gate_body action output trace pv (map_option JInt rem)) db = (rep, db')"
  shows "\<exists>tid pv' v. run_gate E R org action output tid pv' rem db = Inr (v, db') \<and>
    rep = Reply 200 (Some (JObj (GateOut v)))"
proof -
  let ?b = "gate_body action output trace pv (map_option JInt rem)"
  obtain x where x: "GateIn P ?b = Some x"
  proof (cases "GateIn P ?b")
    case None
    then have "rep = Reply 422 (Some (JObj [(''detail'', JStr (msg 422))]))" using assms(3) by (simp add: sdk_service_def Let_def)
    then show ?thesis using assms(2) by (simp add: reply_ok_def)
  qed
  then have "read_gate P ?b = Some x" by (auto simp: GateIn_def split: option.splits if_splits)
  then obtain tr pv' where x': "x = (action, output, tr, pv', rem)" using assms(1) unfolding readers_ok_def by blast
  let ?r = "gate_endpoint E R org action output tr pv' rem db"
  from assms(3) x x' obtain detail where "answer detail db (map_sum id (map_prod GateOut id) ?r) = (rep, db')"
    by (auto simp: sdk_service_def Let_def)
  then obtain b where b: "map_sum id (map_prod GateOut id) ?r = Inr (b, db')" "rep = Reply 200 (Some (JObj b))"
    using assms(2) by (rule answered) (cases ?r; auto dest: gate_endpoint_raises)
  then obtain v where "?r = Inr (v, db')" "b = GateOut v" by (cases ?r) auto
  with b(2) show ?thesis by (auto simp: gate_endpoint_def bind_res_eq_Inr)
qed

lemma gate_route_other:
  assumes "service_ok E P db" "\<not> reply_ok rep"
    and "sdk_service E R fromiso P msg org ''/v1/gate'' b db = (rep, db')"
  shows "db' = db"
  using assms(2,3) by (auto simp: sdk_service_def Let_def reply_ok_def split: option.splits dest!: answer_cases)

text \<open>C13. A record leaves the queue of the client only when the service has it in its log: after a drain, the
  first \<open>m\<close> records are gone from the queue and the rest are in it, in order; each of the first \<open>m\<close> is in the
  log as a deferred event with its action, content hash, device and signature; the log is intact; and \<open>m\<close> is
  the number the drain returns, if it returns.\<close>

theorem drained_records_are_in_the_log:
  assumes "sdk_ok E key dev n p rs c" "service_ok E P db"
    and "drain_offline E h (sdk_service E R fromiso P msg org) (c, db) = (r, (c', db'))"
  shows "\<exists>m \<le> length rs. queue_holds E key (cl_dir c') (drop m rs) \<and> log_ok E db' \<and>
    (\<forall>i < m. in_log E org (dk_device_id dev) (item_of (rs ! i)) db') \<and> (\<forall>k. r = Inr k \<longrightarrow> k = int m)"
proof -
  have c: "queue_holds E key (cl_dir c) rs" "cl_store c = Some key" "cl_device c = Some dev" "list_all sendable rs"
    using assms(1) signed_chain_sendable [of E dev p n rs] by (simp_all add: sdk_ok_def)
  from sdk.drain_offline_delivers [OF c assms(2,3)] show ?thesis
    by (auto simp: sdk.handed_over_def service_ok_def)
qed

lemma gate_offline_unrecorded:
  assumes "gate_offline E h t a out tr s = (Inr g, s')"
  shows "\<not> gs_recorded g"
proof -
  have "gives (\<lambda>g. \<not> gs_recorded g) (gate_offline E h t a out tr)"
    unfolding gate_offline_def split_def by (intro gives_bind gives_pure) (simp add: from_offline_def)
  with assms show ?thesis unfolding gives_def by blast
qed

text \<open>A result marked as recorded comes from an answer of the service.\<close>

lemma recorded_run:
  assumes "service_ok E P db" "gs_recorded g"
    and "gate_once E h (sdk_service E R fromiso P msg org) t output action trace pv (map_option JInt rem) raising
      (c, db) = (Inr g, (c', db'))"
  obtains c1 db1 rep db2 data k where "holding E P {} db1"
    "sdk_service E R fromiso P msg org ''/v1/gate'' (gate_body action output trace pv (map_option JInt rem)) db1 = (rep, db2)"
    "reply_ok rep" "reply_json rep = Inr data"
    "drain_offline E h (sdk_service E R fromiso P msg org) (c1, db2) = (Inr k, (c', db'))"
    "from_response data = Inr g"
proof -
  let ?net = "sdk_service E R fromiso P msg org"
  let ?b = "gate_body action output trace pv (map_option JInt rem)"
  let ?first = "if cl_offline_enabled c \<and> \<not> cl_prepared c
    then bind_act (set_client (cl_prepared_update (\<lambda>_. True))) (\<lambda>_. prepare_offline E h ?net) else return_act True"
  obtain x c1 db1 where first: "?first (c, db) = (x, (c1, db1))" by (metis prod.exhaust)
  have "keeps (on_world (holding E P {})) ?first"
    by (intro keeps_if keeps_bind) (simp_all add: prepare_keeps)
  from keepsD [OF this _ first] have pre: "holding E P {} db1"
    using assms(1) by (simp add: on_world_def holding_def)
  obtain rep db2 where send: "?net ''/v1/gate'' ?b db1 = (rep, db2)" by fastforce
  show thesis
  proof (cases "reply_ok rep")
    case False
    have "\<not> gs_recorded g"
      using assms(3) first send False
      by (cases x; cases "configuration_error rep")
        (auto simp: gate_once_def Let_def bind_act_def send_def misconfigured_def unreachable_def
          dest!: gate_offline_unrecorded split: option.splits if_splits prod.splits sum.splits)
    with assms(2) show thesis by simp
  next
    case True
    with assms(3) first send obtain data k where "reply_json rep = Inr data"
      "drain_offline E h ?net (c1, db2) = (Inr k, (c', db'))" "from_response data = Inr g"
      by (cases x) (auto simp: gate_once_def Let_def bind_act_def send_def split: prod.splits sum.splits)
    with pre send True show thesis by (rule that)
  qed
qed

text \<open>C14. What the client reports as recorded is recorded: when a call of the gate returns a result marked as
  recorded, the log of the service is intact and holds the event at the trace and position of the result, with
  the action and the hash of the redacted output, whatever the queue did on the way.\<close>

theorem client_report_is_true:
  assumes "service_ok E P db" "gs_recorded g"
    and "gate_once E h (sdk_service E R fromiso P msg org) t output action trace pv (map_option JInt rem) raising
      (c, db) = (Inr g, (c', db'))"
  shows "log_ok E db' \<and> (\<exists>e \<in> set (events db'). e_org_id e = o_id org \<and> e_type e = action \<and>
    e_payload_hash e = sha256_hex E (fst (redact_payload output)) \<and>
    gs_trace_id g = JStr (e_trace_id e) \<and> gs_output_seq g = JInt (e_seq e))"
proof -
  let ?net = "sdk_service E R fromiso P msg org" and ?b = "gate_body action output trace pv (map_option JInt rem)"
  obtain c1 db1 rep db2 data k where pre: "holding E P {} db1"
    and send: "?net ''/v1/gate'' ?b db1 = (rep, db2)" and rep: "reply_ok rep"
    and json: "reply_json rep = Inr data" and drain: "drain_offline E h ?net (c1, db2) = (Inr k, (c', db'))"
    and g: "from_response data = Inr g"
    using assms by (rule recorded_run)
  have ok: "log_ok E db1" "service_key_ok E" "readers_ok P" using pre by (simp_all add: holding_def service_ok_def)
  obtain tid pv' v where v: "run_gate E R org action output tid pv' rem db1 = Inr (v, db2)"
    and r: "rep = Reply 200 (Some (JObj (GateOut v)))"
    using gate_route [OF ok(3) rep send] by blast
  from gate_log [OF ok(1,2) v] obtain ds e where ev: "events db2 = events db1 @ ds @ [e]" and e: "log_ok E db2"
    "e_org_id e = o_id org" "e_trace_id e = gv_trace_id v" "e_type e = action" "e_seq e = gv_output_seq v"
    "e_payload_hash e = sha256_hex E (fst (redact_payload output))" by blast
  have "on_world (holding E P {e}) (c1, db2)" using e ev ok by (simp add: on_world_def holding_def service_ok_def)
  from keepsD [OF drain_keeps this drain] have "log_ok E db'" "e \<in> set (events db')"
    by (simp_all add: on_world_def holding_def service_ok_def)
  moreover have "gs_trace_id g = JStr (gv_trace_id v) \<and> gs_output_seq g = JInt (gv_output_seq v)"
    using g json r by (auto simp: from_response_def as_dict_def GateOut_def dget_def dget_def_def bind_res_eq_Inr
        gate_result_of_def)
  ultimately show ?thesis using e by auto
qed

text \<open>An organization that has not declared its profile is told so, and nothing is kept for later: the call
  returns a result marked as misconfigured that allows the action, it is neither recorded nor buffered, and
  client, queue and database are as before.\<close>

theorem missing_profile_is_not_buffered:
  assumes "require_onboarded db org = Inl (HTTPException 409)"
    and "cl_offline_enabled c \<longrightarrow> cl_prepared c"
    and "GateIn P (gate_body action output trace pv (map_option JInt rem)) \<noteq> None"
  shows "\<exists>g. gate_once E h (sdk_service E R fromiso P msg org) t output action trace pv (map_option JInt rem) False
      (c, db) = (Inr g, (c, db)) \<and>
    gs_status g = JStr MISCONFIGURED \<and> gs_error g = JStr ''profile_required'' \<and> gs_allowed g \<and>
    \<not> gs_recorded g \<and> \<not> gs_buffered g"
proof -
  let ?b = "gate_body action output trace pv (map_option JInt rem)"
  obtain a out tr pv' rem' where x: "GateIn P ?b = Some (a, out, tr, pv', rem')" using assms(3) by auto
  have "gate_endpoint E R org a out tr pv' rem' db = Inl (HTTPException 409)"
    by (simp add: gate_endpoint_def assms(1))
  then have "sdk_service E R fromiso P msg org ''/v1/gate'' ?b db =
      (Reply 409 (Some (JObj [(''detail'', JObj profile_required)])), db)"
    by (simp add: sdk_service_def Let_def x answer_def assms(1))
  with assms(2) show ?thesis
    by (auto simp: gate_once_def Let_def bind_act_def send_def reply_ok_def configuration_error_def as_dict_def
        profile_required_def dget_def dget_def_def misconfigured_def gate_result_of_def py_str_def)
qed

section \<open>Witnesses\<close>

text \<open>Readings that take exactly the declared types.\<close>

definition json_opt_str :: "json \<Rightarrow> string option" where
  "json_opt_str v = (case v of JStr s \<Rightarrow> Some s | _ \<Rightarrow> None)"

definition strict_readers :: readers where
  "strict_readers =
     \<lparr>read_device = (\<lambda>b. case (dget b ''device_id'', dget b ''public_pem'') of
         (JStr d, JStr p) \<Rightarrow> Some (d, p, json_opt_str (dget b ''label'')) | _ \<Rightarrow> None),
      read_replay = (\<lambda>b. case (dget b ''device_id'', dget b ''items'') of
         (JStr d, JList js) \<Rightarrow>
           Some (d, map (\<lambda>j. case j of JObj i \<Rightarrow> i | _ \<Rightarrow> []) js) | _ \<Rightarrow> None),
      read_gate = (\<lambda>b. case (dget b ''action'', dget b ''output'') of
         (JStr a, JObj o') \<Rightarrow> Some (a, o', json_opt_str (dget b ''trace_id''), json_opt_str (dget b ''policy_version''),
            (case dget b ''remediates'' of JInt n \<Rightarrow> Some n | _ \<Rightarrow> None)) | _ \<Rightarrow> None)\<rparr>"

lemma strict_readers_ok: "readers_ok strict_readers"
proof -
  have "read_replay strict_readers (replay_body did items) = Some (did, items)" for did items
    by (simp add: strict_readers_def replay_body_def dget_def dget_def_def comp_def)
  moreover have "\<exists>trace' pv'. read_gate strict_readers (gate_body action out trace pv (map_option JInt rem)) =
      Some (action, out, trace', pv', rem)" for action out trace pv rem
    by (cases trace; cases pv; cases rem) (simp_all add: strict_readers_def gate_body_def dget_def dget_def_def)
  ultimately show ?thesis unfolding readers_ok_def by (metis insertI1 insertI2 option.inject)
qed

lemma demo_service_ok: "service_ok demo_env strict_readers empty_db"
  by (simp add: service_ok_def log_ok_empty demo_keys_ok strict_readers_ok)

abbreviation demo_service :: "org \<Rightarrow> db net" where
  "demo_service org \<equiv> sdk_service demo_env demo_rewriter (\<lambda>_. None) strict_readers (\<lambda>_. ''error'') org"

theorem drained_records_are_in_the_log_witness:
  "\<exists>c r x c' db' m. sdk_ok demo_env demo_key demo_device_key 1 JNull [r] c \<and>
    drain_offline demo_env None (demo_service (demo_org ''standard'' None)) (c, empty_db) = (x, (c', db')) \<and>
    m \<le> 1 \<and> queue_holds demo_env demo_key (cl_dir c') (drop m [r]) \<and> log_ok demo_env db'"
proof -
  have l: "load_pem_private demo_env (dk_private_pem demo_device_key) = Some Ed25519Key"
    by (simp add: demo_env_def demo_device_key_def)
  have b: "cached_bundle demo_client = JObj []" by (simp add: cached_bundle_def demo_client_def)
  have e: "bundle_is_empty []" by (simp add: bundle_is_empty_def dget_def dget_def_def)
  obtain v where "offline_evaluate [] ''a'' [(''text'', JStr ''hi'')] = Inr v"
    using e by (simp add: offline_evaluate_def)
  from gate_offline_returns [OF demo_client_ok _ demo_recordable l b this, of None 0 "()"]
  obtain c r where c: "sdk_ok demo_env demo_key demo_device_key 1 JNull [r] c" by auto
  obtain x c' db' where d: "drain_offline demo_env None (demo_service (demo_org ''standard'' None)) (c, empty_db) = (x, (c', db'))"
    by (metis prod.exhaust)
  from drained_records_are_in_the_log [OF c demo_service_ok d] obtain m where
    m: "m \<le> length [r]" "queue_holds demo_env demo_key (cl_dir c') (drop m [r])" "log_ok demo_env db'" by blast
  from m(1) have "m \<le> 1" by simp
  with c d m(2,3) show ?thesis by blast
qed

theorem missing_profile_is_not_buffered_witness:
  "\<exists>g. gate_once demo_env None (demo_service (demo_org ''standard'' None\<lparr>o_requires_profile := True\<rparr>)) 0
      [] ''a'' None None None False (demo_client, empty_db) = (Inr g, (demo_client, empty_db)) \<and> \<not> gs_buffered g"
proof -
  have r: "require_onboarded empty_db (demo_org ''standard'' None\<lparr>o_requires_profile := True\<rparr>) = Inl (HTTPException 409)"
    by (simp add: require_onboarded_def profile_is_complete_def get_profile_def empty_db_def one_or_none_def)
  have p: "cl_offline_enabled demo_client \<longrightarrow> cl_prepared demo_client" by (simp add: demo_client_def)
  have "GateIn strict_readers (gate_body ''a'' [] None None (map_option JInt None)) \<noteq> None"
    by (simp add: GateIn_def strict_readers_def gate_body_def dget_def dget_def_def)
  from missing_profile_is_not_buffered [OF r p this] show ?thesis by fastforce
qed

lemma demo_new_gate:
  "\<exists>v db'. run_gate demo_env demo_rewriter (demo_org ''standard'' None) ''x'' [] None None None empty_db = Inr (v, db')"
proof -
  let ?org = "demo_org ''standard'' None" and ?db = "empty_db\<lparr>draws := Suc (draws empty_db)\<rparr>"
    and ?t = "uuid4 demo_env (draws empty_db)"
  have ok: "log_ok demo_env ?db" by (rule log_ok_same [OF log_ok_empty]) simp_all
  have none: "chosen_policy ?db (o_id ?org) None = None"
    by (simp add: chosen_policy_def get_active_policy_def empty_db_def order_desc_def)
  have "can_write demo_env ?db (o_id ?org) ?t"
    using demo_can_sign
    by (simp add: can_write_def empty_db_def get_trace_by_id_def trace_events_def wrapping_pem_def get_org_by_id_def)
  moreover have "evaluable ?db ?org ''x'' [] None" unfolding evaluable_def none by simp
  moreover have "strip ''x'' \<noteq> []" by code_simp
  ultimately show ?thesis
    using gate_total [OF ok demo_keys_ok(1), of ?org ?t "''x''" demo_rewriter "[]" None None]
    unfolding run_gate_new_trace by (simp add: demo_rewriter_def)
qed

lemma GateOut_lists:
  "dget (GateOut v) ''reasons'' = JList (map JStr (gv_reasons v))"
  "dget (GateOut v) ''findings'' = JList (map JObj (gv_findings v))"
  "dget (GateOut v) ''jurisdictions'' = JList (map JStr (gv_jurisdictions v))"
  by (simp_all add: GateOut_def dget_def dget_def_def)

lemma listed: "py_iter (py_or (JList xs) (JList [])) = Inr xs"
  by (simp add: py_or_def)

theorem client_report_is_true_witness:
  "\<exists>g db' e. gate_once demo_env None (demo_service (demo_org ''standard'' None)) 0 [] ''x'' None None
      (map_option JInt None) False (demo_client\<lparr>cl_offline_enabled := False\<rparr>, empty_db) =
      (Inr g, (demo_client\<lparr>cl_offline_enabled := False\<rparr>, db')) \<and>
    e \<in> set (events db') \<and> gs_trace_id g = JStr (e_trace_id e)"
proof -
  let ?c = "demo_client\<lparr>cl_offline_enabled := False\<rparr>" and ?org = "demo_org ''standard'' None"
  obtain v db' where v: "run_gate demo_env demo_rewriter ?org ''x'' [] None None None empty_db = Inr (v, db')"
    using demo_new_gate by blast
  have r: "require_onboarded empty_db ?org = Inr ()" by (simp add: require_onboarded_def demo_org_def)
  have "GateIn strict_readers (gate_body ''x'' [] None None None) = Some (''x'', [], None, None, None)"
    by (simp add: GateIn_def strict_readers_def gate_body_def dget_def dget_def_def json_opt_str_def)
  then have s: "demo_service ?org ''/v1/gate'' (gate_body ''x'' [] None None None) empty_db =
      (Reply 200 (Some (JObj (GateOut v))), db')"
    by (simp add: sdk_service_def Let_def gate_endpoint_def v r answer_def raises_as_def)
  obtain g where g: "from_response (JObj (GateOut v)) = Inr g" "gs_recorded g"
    using GateOut_lists [of v] by (auto simp: from_response_def as_dict_def listed gate_result_of_def Let_def)
  have run: "gate_once demo_env None (demo_service ?org) 0 [] ''x'' None None (map_option JInt None) False (?c, empty_db) =
      (Inr g, (?c, db'))"
    using s g(1) by (simp add: gate_once_def Let_def bind_act_def send_def reply_ok_def drain_offline_def demo_client_def)
  from client_report_is_true [OF demo_service_ok g(2) run] run show ?thesis by blast
qed

end
