(* ===== verification/HumanAuth.thy ===== *)
theory HumanAuth
  imports Approvals
begin

text \<open>
  \<^verbatim>\<open>services/human_auth.py\<close> with the authentication of requests (\<^verbatim>\<open>auth.py\<close>, \<^verbatim>\<open>api/deps.py\<close>) and the login
  routes (\<^verbatim>\<open>api/humans.py\<close>): one-time codes, passwords with a lockout, sessions.  The time of a request is
  \<open>now E\<close>, so a history of requests runs in environments that differ in it.  The lemmas bound what a
  guesser can try, over any history.
\<close>

section \<open>The environment of the sign-in\<close>

text \<open>The settings that \<^verbatim>\<open>human_auth\<close> reads from the process environment, the Argon2 library and the random
  numbers.  \<open>ph_verify\<close> answers False for \<^verbatim>\<open>VerifyMismatchError\<close> and \<^verbatim>\<open>InvalidHashError\<close>, any other exception
  of the library is propagated; \<open>ph_hash\<close> draws a salt.\<close>

record auth_env =
  CODE_TTL_MINUTES :: int
  MAX_ATTEMPTS :: int
  SESSION_TTL_HOURS :: int
  MAX_ISSUED_PER_WINDOW :: int
  LOCKOUT_THRESHOLD :: int
  LOCKOUT_MINUTES :: int
  dev_mode :: bool
  ph_hash :: "nat \<Rightarrow> string \<Rightarrow> string"
  ph_verify :: "string \<Rightarrow> string \<Rightarrow> bool res"
  ph_needs_rehash :: "string \<Rightarrow> bool"
  randbelow :: "nat \<Rightarrow> nat \<Rightarrow> nat"

definition PASSWORD_MIN_LENGTH :: nat where "PASSWORD_MIN_LENGTH = 12"
definition PASSWORD_MAX_LENGTH :: nat where "PASSWORD_MAX_LENGTH = 128"

definition ROLES :: "string list" where
  "ROLES = [''admin'', ''officer'', ''viewer'']"

definition minutes :: "int \<Rightarrow> int" where "minutes m = m * 60000000"
definition hours :: "int \<Rightarrow> int" where "hours h = h * 3600000000"

definition sha256_text :: "env \<Rightarrow> string \<Rightarrow> string" where
  "sha256_text E text = hex (digest E text)"

section \<open>human\_auth.py: codes and sessions\<close>

definition find_user :: "db \<Rightarrow> string \<Rightarrow> user option" where
  "find_user db email =
     one_or_none (\<lambda>u. u_email u = lower (strip email) \<and> \<not> u_disabled u) (users db)"

definition is_user :: "string \<Rightarrow> user \<Rightarrow> bool" where
  "is_user i u \<longleftrightarrow> u_id u = i"

definition update_user :: "user \<Rightarrow> db \<Rightarrow> db" where
  "update_user u db = db\<lparr>users := update_where (is_user (u_id u)) (\<lambda>_. u) (users db)\<rparr>"

definition request_code :: "env \<Rightarrow> auth_env \<Rightarrow> string \<Rightarrow> db \<Rightarrow> string option \<times> db" where
  "request_code E A email db =
     (case find_user db email of
        None \<Rightarrow> (None, db)
      | Some user \<Rightarrow>
          let window_start = now E - minutes (CODE_TTL_MINUTES A);
              issued_recently = length (filter (\<lambda>c. lc_user_id c = u_id user \<and> lc_created_at c \<ge> window_start)
                                          (login_codes db))
          in if int issued_recently \<ge> MAX_ISSUED_PER_WINDOW A then (None, db)
             else
               let db = db\<lparr>login_codes :=
                     update_where (\<lambda>c. lc_user_id c = u_id user \<and> lc_used_at c = None)
                       (\<lambda>c. c\<lparr>lc_used_at := Some (now E)\<rparr>) (login_codes db)\<rparr>;
                   code = pad0 6 (randbelow A (draws db) 1000000);
                   (cid, db) = new_uuid E db
               in (Some code,
                   db\<lparr>login_codes := login_codes db @
                     [\<lparr>lc_id = cid, lc_user_id = u_id user, lc_code_hash = sha256_text E code, lc_attempts = 0,
                       lc_expires_at = now E + minutes (CODE_TTL_MINUTES A), lc_used_at = None,
                       lc_created_at = now E\<rparr>]\<rparr>))"

text \<open>\<^verbatim>\<open>secrets.token_urlsafe(32)\<close>\<close>

definition token_urlsafe :: "env \<Rightarrow> nat \<Rightarrow> string" where
  "token_urlsafe E n =
     map (\<lambda>c. if c = CHR ''+'' then CHR ''-'' else if c = CHR ''/'' then CHR ''_'' else c)
       (filter (\<lambda>c. c \<noteq> CHR ''='') (b64encode (urandom E n 32)))"

definition create_session :: "env \<Rightarrow> auth_env \<Rightarrow> user \<Rightarrow> string \<Rightarrow> db \<Rightarrow> (string \<times> int) \<times> db" where
  "create_session E A user method db =
     (let token = token_urlsafe E (draws db);
          expires_at = now E + hours (SESSION_TTL_HOURS A);
          (sid, db) = new_uuid E db
      in ((token, expires_at),
          db\<lparr>auth_sessions := auth_sessions db @
            [\<lparr>as_id = sid, as_user_id = u_id user, as_token_hash = sha256_text E token, as_method = method,
              as_expires_at = expires_at, as_revoked_at = None, as_created_at = now E\<rparr>]\<rparr>))"

text \<open>The code that a guess is compared with: the newest live one of the user.\<close>

definition login_candidate :: "env \<Rightarrow> db \<Rightarrow> user \<Rightarrow> login_code option" where
  "login_candidate E db user =
     first (order_desc lc_created_at
       (filter (\<lambda>c. lc_user_id c = u_id user \<and> lc_used_at c = None \<and> lc_expires_at c > now E)
          (login_codes db)))"

definition verify_code ::
  "env \<Rightarrow> auth_env \<Rightarrow> string \<Rightarrow> string \<Rightarrow> db \<Rightarrow> (user \<times> string \<times> int) option \<times> db" where
  "verify_code E A email code db =
     (case find_user db email of
        None \<Rightarrow> (None, db)
      | Some user \<Rightarrow>
          (case login_candidate E db user of
             None \<Rightarrow> (None, db)
           | Some cand \<Rightarrow>
               let db = db\<lparr>login_codes := update_where (\<lambda>c. lc_id c = lc_id cand)
                            (\<lambda>c. c\<lparr>lc_attempts := lc_attempts c + 1\<rparr>) (login_codes db)\<rparr>
               in if lc_attempts cand + 1 > MAX_ATTEMPTS A then (None, db)
                  else if lc_code_hash cand \<noteq> sha256_text E code then (None, db)
                  else
                    let db = db\<lparr>login_codes := update_where (\<lambda>c. lc_id c = lc_id cand)
                                 (\<lambda>c. c\<lparr>lc_used_at := Some (now E)\<rparr>) (login_codes db)\<rparr>;
                        ((token, expires_at), db) = create_session E A user ''code'' db
                    in (Some (user, token, expires_at), db)))"

definition live_session :: "env \<Rightarrow> db \<Rightarrow> string \<Rightarrow> auth_session option" where
  "live_session E db token =
     one_or_none (\<lambda>s. as_token_hash s = sha256_text E token \<and> as_revoked_at s = None \<and> as_expires_at s > now E)
       (auth_sessions db)"

definition enabled_user :: "db \<Rightarrow> string \<Rightarrow> user option" where
  "enabled_user db user_id = one_or_none (\<lambda>u. u_id u = user_id \<and> \<not> u_disabled u) (users db)"

definition session_user :: "env \<Rightarrow> db \<Rightarrow> string \<Rightarrow> user option" where
  "session_user E db token =
     (if token = [] then None
      else case live_session E db token of
             None \<Rightarrow> None
           | Some row \<Rightarrow> enabled_user db (as_user_id row))"

definition revoke_session :: "env \<Rightarrow> string \<Rightarrow> db \<Rightarrow> bool \<times> db" where
  "revoke_session E token db =
     (case one_or_none (\<lambda>s. as_token_hash s = sha256_text E token \<and> as_revoked_at s = None) (auth_sessions db) of
        None \<Rightarrow> (False, db)
      | Some row \<Rightarrow>
          (True, db\<lparr>auth_sessions := update_where (\<lambda>s. as_id s = as_id row)
                       (\<lambda>s. s\<lparr>as_revoked_at := Some (now E)\<rparr>) (auth_sessions db)\<rparr>))"

text \<open>The address is unique; a second user of the same one is an \<^verbatim>\<open>IntegrityError\<close>.\<close>

definition create_user :: "env \<Rightarrow> string \<Rightarrow> string \<Rightarrow> string \<Rightarrow> string \<Rightarrow> db \<Rightarrow> (user \<times> db) res" where
  "create_user E org_id email display_name role db =
     (if role \<notin> set ROLES then Inl ValueError
      else
        let (uid, db) = new_uuid E db;
            u = \<lparr>u_id = uid, u_org_id = org_id, u_email = lower (strip email), u_display_name = strip display_name,
                 u_role = role, u_password_hash = None, u_failed_logins = 0, u_locked_until = None,
                 u_disabled = False, u_created_at = now E\<rparr>
        in if u_email u \<in> u_email ` set (users db) then Inl IntegrityError
           else Inr (u, db\<lparr>users := users db @ [u]\<rparr>))"

section \<open>human\_auth.py: passwords\<close>

definition session_with_user :: "env \<Rightarrow> db \<Rightarrow> string \<Rightarrow> (user \<times> auth_session) option" where
  "session_with_user E db token =
     (if token = [] then None
      else case live_session E db token of
             None \<Rightarrow> None
           | Some row \<Rightarrow>
               (case enabled_user db (as_user_id row) of None \<Rightarrow> None | Some user \<Rightarrow> Some (user, row)))"

definition validate_password :: "string \<Rightarrow> string \<Rightarrow> unit res" where
  "validate_password password email =
     (if length (code_points password) < PASSWORD_MIN_LENGTH then Inl PasswordPolicyError
      else if length (code_points password) > PASSWORD_MAX_LENGTH then Inl PasswordPolicyError
      else if lower (strip password) = lower (strip email) then Inl PasswordPolicyError
      else Inr ())"

text \<open>\<^verbatim>\<open>_burn_dummy_verification\<close> only spends time.\<close>

definition locked :: "env \<Rightarrow> user \<Rightarrow> bool" where
  "locked E user = (case u_locked_until user of None \<Rightarrow> False | Some t \<Rightarrow> t > now E)"

definition login_password ::
  "env \<Rightarrow> auth_env \<Rightarrow> string \<Rightarrow> string \<Rightarrow> db \<Rightarrow> ((user \<times> string \<times> int) option \<times> db) res" where
  "login_password E A email password db =
     (case find_user db email of
        None \<Rightarrow> Inr (None, db)
      | Some user \<Rightarrow>
          (case u_password_hash user of
             None \<Rightarrow> Inr (None, db)
           | Some h \<Rightarrow>
               if locked E user then Inr (None, db)
               else
                 bind_res (ph_verify A h password) (\<lambda>ok.
                 if \<not> ok then
                   let user = user\<lparr>u_failed_logins := u_failed_logins user + 1\<rparr>;
                       user = (if u_failed_logins user \<ge> LOCKOUT_THRESHOLD A
                               then user\<lparr>u_locked_until := Some (now E + minutes (LOCKOUT_MINUTES A)),
                                         u_failed_logins := 0\<rparr>
                               else user)
                   in Inr (None, update_user user db)
                 else
                   let (user, db) = (if ph_needs_rehash A h
                                     then (user\<lparr>u_password_hash := Some (ph_hash A (draws db) password)\<rparr>,
                                           db\<lparr>draws := Suc (draws db)\<rparr>)
                                     else (user, db));
                       user = user\<lparr>u_failed_logins := 0, u_locked_until := None\<rparr>;
                       ((token, expires_at), db) = create_session E A user ''password'' (update_user user db)
                   in Inr (Some (user, token, expires_at), db))))"

definition set_password ::
  "env \<Rightarrow> auth_env \<Rightarrow> user \<Rightarrow> auth_session \<Rightarrow> string \<Rightarrow> string option \<Rightarrow> db \<Rightarrow> db res" where
  "set_password E A user session new_password current_password db =
     bind_res (validate_password new_password (u_email user)) (\<lambda>_.
     bind_res
       (case u_password_hash user of
          Some h \<Rightarrow>
            if as_method session = ''password'' then
              (case current_password of
                 None \<Rightarrow> Inl WrongCurrentPasswordError
               | Some cur \<Rightarrow>
                   if cur = [] then Inl WrongCurrentPasswordError
                   else bind_res (ph_verify A h cur) (\<lambda>ok.
                        if ok then Inr () else Inl WrongCurrentPasswordError))
            else Inr ()
        | None \<Rightarrow> Inr ()) (\<lambda>_.
     let user = user\<lparr>u_password_hash := Some (ph_hash A (draws db) new_password), u_failed_logins := 0,
                     u_locked_until := None\<rparr>;
         db = update_user user (db\<lparr>draws := Suc (draws db)\<rparr>)
     in Inr (db\<lparr>auth_sessions :=
               update_where (\<lambda>s. as_user_id s = u_id user \<and> as_id s \<noteq> as_id session \<and> as_revoked_at s = None)
                 (\<lambda>s. s\<lparr>as_revoked_at := Some (now E)\<rparr>) (auth_sessions db)\<rparr>)))"

section \<open>auth.py and api/deps.py\<close>

definition hash_api_key :: "env \<Rightarrow> string \<Rightarrow> string" where
  "hash_api_key E api_key = hex (digest E api_key)"

definition resolve_org :: "env \<Rightarrow> db \<Rightarrow> string \<Rightarrow> org option" where
  "resolve_org E db api_key = one_or_none (\<lambda>r. o_api_key_hash r = hash_api_key E api_key) (orgs db)"

definition org_by_id :: "db \<Rightarrow> string \<Rightarrow> org option" where
  "org_by_id db org_id = one_or_none (\<lambda>r. o_id r = org_id) (orgs db)"

text \<open>The token of a request: the bearer header, else the cookie; absent is the empty string.\<close>

definition bearer_token :: "string option \<Rightarrow> string option \<Rightarrow> string" where
  "bearer_token authorization cookie =
     (case authorization of
        Some a \<Rightarrow> if is_prefix ''bearer '' (lower a) then strip (drop 7 a)
                  else (case cookie of Some c \<Rightarrow> c | None \<Rightarrow> [])
      | None \<Rightarrow> (case cookie of Some c \<Rightarrow> c | None \<Rightarrow> []))"

definition get_authenticated_org ::
  "env \<Rightarrow> db \<Rightarrow> string \<Rightarrow> string option \<Rightarrow> string option \<Rightarrow> string option \<Rightarrow> org res" where
  "get_authenticated_org E db request_method x_api_key authorization attest_session =
     (let key = (case x_api_key of Some k \<Rightarrow> k | None \<Rightarrow> []);
          token = bearer_token authorization attest_session
      in if key \<noteq> [] then
           (case resolve_org E db key of None \<Rightarrow> Inl (HTTPException 401) | Some org \<Rightarrow> Inr org)
         else if token \<noteq> [] then
           (case session_user E db token of
              None \<Rightarrow> Inl (HTTPException 401)
            | Some user \<Rightarrow>
                if u_role user = ''viewer'' \<and> request_method \<notin> {''GET'', ''HEAD''} then Inl (HTTPException 403)
                else case org_by_id db (u_org_id user) of
                       None \<Rightarrow> Inl (HTTPException 401)
                     | Some org \<Rightarrow> Inr org)
         else Inl (HTTPException 401))"

record actor =
  ac_org :: org
  ac_user :: "user option"

definition get_actor ::
  "env \<Rightarrow> db \<Rightarrow> string option \<Rightarrow> string option \<Rightarrow> string option \<Rightarrow> actor res" where
  "get_actor E db x_api_key authorization attest_session =
     (let key = (case x_api_key of Some k \<Rightarrow> k | None \<Rightarrow> []);
          token = bearer_token authorization attest_session
      in if token \<noteq> [] then
           (case session_user E db token of
              None \<Rightarrow> Inl (HTTPException 401)
            | Some user \<Rightarrow>
                (case org_by_id db (u_org_id user) of
                   None \<Rightarrow> Inl (HTTPException 401)
                 | Some org \<Rightarrow> Inr \<lparr>ac_org = org, ac_user = Some user\<rparr>))
         else if key \<noteq> [] then
           (case resolve_org E db key of
              None \<Rightarrow> Inl (HTTPException 401)
            | Some org \<Rightarrow> Inr \<lparr>ac_org = org, ac_user = None\<rparr>)
         else Inl (HTTPException 401))"

text \<open>\<^verbatim>\<open>secrets.compare_digest\<close> of two texts raises when one is not ASCII.\<close>

definition compare_digest :: "string \<Rightarrow> string \<Rightarrow> bool res" where
  "compare_digest a b =
     (if list_all (\<lambda>c. nat_of_char c < 128) (a @ b) then Inr (a = b) else Inl TypeError)"

definition require_admin :: "string \<Rightarrow> string \<Rightarrow> unit res" where
  "require_admin admin_api_key x_admin_key =
     (if admin_api_key = [] then Inl (HTTPException 503)
      else bind_res (compare_digest x_admin_key admin_api_key) (\<lambda>ok.
           if ok then Inr () else Inl (HTTPException 401)))"

section \<open>api/humans.py\<close>

text \<open>A route answers or raises, and leaves the database it has committed; the session cookie that the answer
  sets is part of it.\<close>

record session_cookie =
  ck_value :: string
  ck_httponly :: bool
  ck_samesite :: string
  ck_secure :: bool
  ck_max_age :: int

definition set_session_cookie :: "auth_env \<Rightarrow> string \<Rightarrow> session_cookie" where
  "set_session_cookie A token =
     \<lparr>ck_value = token, ck_httponly = True, ck_samesite = ''lax'', ck_secure = (\<not> dev_mode A),
      ck_max_age = SESSION_TTL_HOURS A * 3600\<rparr>"

definition user_out :: "user \<Rightarrow> dict" where
  "user_out u =
     [(''email'', JStr (u_email u)), (''display_name'', JStr (u_display_name u)), (''role'', JStr (u_role u)),
      (''org_id'', JStr (u_org_id u))]"

definition session_out :: "user \<Rightarrow> string \<Rightarrow> int \<Rightarrow> dict" where
  "session_out u token expires_at =
     [(''user'', JObj (user_out u)), (''token'', JStr token), (''expires_at'', JStr (isoformat expires_at))]"

definition request_code_route :: "env \<Rightarrow> auth_env \<Rightarrow> string \<Rightarrow> db \<Rightarrow> dict res \<times> db" where
  "request_code_route E A email db =
     (if \<not> dev_mode A then (Inl (HTTPException 503), db)
      else case request_code E A email db of
             (code, db) \<Rightarrow>
               (Inr ((''ok'', JBool True) # (case code of None \<Rightarrow> [] | Some c \<Rightarrow> [(''dev_code'', JStr c)])), db))"

definition verify_route :: "env \<Rightarrow> auth_env \<Rightarrow> string \<Rightarrow> string \<Rightarrow> db \<Rightarrow> (dict \<times> session_cookie) res \<times> db" where
  "verify_route E A email code db =
     (case verify_code E A email code db of
        (None, db) \<Rightarrow> (Inl (HTTPException 401), db)
      | (Some (user, token, expires_at), db) \<Rightarrow>
          (Inr (session_out user token expires_at, set_session_cookie A token), db))"

definition login_route :: "env \<Rightarrow> auth_env \<Rightarrow> string \<Rightarrow> string \<Rightarrow> db \<Rightarrow> (dict \<times> session_cookie) res \<times> db" where
  "login_route E A email password db =
     (case login_password E A email password db of
        Inl e \<Rightarrow> (Inl e, db)
      | Inr (None, db) \<Rightarrow> (Inl (HTTPException 401), db)
      | Inr (Some (user, token, expires_at), db) \<Rightarrow>
          (Inr (session_out user token expires_at, set_session_cookie A token), db))"

definition set_password_route ::
  "env \<Rightarrow> auth_env \<Rightarrow> string \<Rightarrow> string option \<Rightarrow> string option \<Rightarrow> string option \<Rightarrow> db \<Rightarrow> dict res \<times> db" where
  "set_password_route E A new_password current_password authorization attest_session db =
     (case session_with_user E db (bearer_token authorization attest_session) of
        None \<Rightarrow> (Inl (HTTPException 401), db)
      | Some (user, session) \<Rightarrow>
          (case set_password E A user session new_password current_password db of
             Inl e \<Rightarrow>
               (Inl (if e = PasswordPolicyError then HTTPException 422
                     else if e = WrongCurrentPasswordError then HTTPException 403 else e), db)
           | Inr db \<Rightarrow> (Inr [(''ok'', JBool True)], db)))"

definition me_route :: "env \<Rightarrow> string option \<Rightarrow> string option \<Rightarrow> db \<Rightarrow> dict res" where
  "me_route E authorization attest_session db =
     (case session_user E db (bearer_token authorization attest_session) of
        None \<Rightarrow> Inl (HTTPException 401)
      | Some user \<Rightarrow> Inr (user_out user))"

definition logout_route :: "env \<Rightarrow> string option \<Rightarrow> string option \<Rightarrow> db \<Rightarrow> dict \<times> db" where
  "logout_route E authorization attest_session db =
     (case revoke_session E (bearer_token authorization attest_session) db of
        (revoked, db) \<Rightarrow> ([(''ok'', JBool True), (''revoked'', JBool revoked)], db))"

definition admin_create_user ::
  "env \<Rightarrow> string \<Rightarrow> string \<Rightarrow> string \<Rightarrow> string \<Rightarrow> db \<Rightarrow> dict res \<times> db" where
  "admin_create_user E org_id email display_name role db =
     (case org_by_id db org_id of
        None \<Rightarrow> (Inl (HTTPException 404), db)
      | Some _ \<Rightarrow>
          (case create_user E org_id email display_name role db of
             Inl e \<Rightarrow> (Inl (if e = IntegrityError then HTTPException 409 else e), db)
           | Inr (user, db) \<Rightarrow> (Inr (user_out user), db)))"

section \<open>Histories\<close>

text \<open>What can reach the service from outside, and a history of it: each step runs at its own time.\<close>

datatype auth_op =
    RequestCode string
  | VerifyCode string string
  | Login string string
  | SetPassword string string "string option"
  | Logout string

definition auth_step :: "env \<Rightarrow> auth_env \<Rightarrow> auth_op \<Rightarrow> db \<Rightarrow> db" where
  "auth_step E A op db =
     (case op of
        RequestCode email \<Rightarrow> snd (request_code E A email db)
      | VerifyCode email code \<Rightarrow> snd (verify_route E A email code db)
      | Login email password \<Rightarrow> snd (login_route E A email password db)
      | SetPassword token new_password current \<Rightarrow>
          snd (set_password_route E A new_password current None (Some token) db)
      | Logout token \<Rightarrow> snd (logout_route E None (Some token) db))"

fun run_auth :: "env \<Rightarrow> auth_env \<Rightarrow> (int \<times> auth_op) list \<Rightarrow> db \<Rightarrow> db" where
  "run_auth E A [] db = db"
| "run_auth E A ((t, op) # ops) db = run_auth E A ops (auth_step (E\<lparr>now := t\<rparr>) A op db)"

text \<open>A guess at a code of the user: a verification that gets as far as comparing.\<close>

definition compares_code :: "env \<Rightarrow> auth_env \<Rightarrow> string \<Rightarrow> auth_op \<Rightarrow> db \<Rightarrow> bool" where
  "compares_code E A uid op db =
     (case op of
        VerifyCode email code \<Rightarrow>
          (case find_user db email of
             None \<Rightarrow> False
           | Some user \<Rightarrow>
               u_id user = uid \<and>
               (case login_candidate E db user of
                  None \<Rightarrow> False
                | Some cand \<Rightarrow> lc_attempts cand + 1 \<le> MAX_ATTEMPTS A))
      | _ \<Rightarrow> False)"

fun code_guesses :: "env \<Rightarrow> auth_env \<Rightarrow> string \<Rightarrow> (int \<times> auth_op) list \<Rightarrow> db \<Rightarrow> int" where
  "code_guesses E A uid [] db = 0"
| "code_guesses E A uid ((t, op) # ops) db =
     (if compares_code (E\<lparr>now := t\<rparr>) A uid op db then 1 else 0) +
     code_guesses E A uid ops (auth_step (E\<lparr>now := t\<rparr>) A op db)"

text \<open>A wrong guess at a password of the user: one that is compared and fails.\<close>

definition misses_password :: "env \<Rightarrow> auth_env \<Rightarrow> string \<Rightarrow> auth_op \<Rightarrow> db \<Rightarrow> bool" where
  "misses_password E A uid op db =
     (case op of
        Login email password \<Rightarrow>
          (case find_user db email of
             None \<Rightarrow> False
           | Some user \<Rightarrow>
               u_id user = uid \<and> \<not> locked E user \<and>
               (case u_password_hash user of None \<Rightarrow> False | Some h \<Rightarrow> ph_verify A h password = Inr False))
      | _ \<Rightarrow> False)"

fun password_misses :: "env \<Rightarrow> auth_env \<Rightarrow> string \<Rightarrow> (int \<times> auth_op) list \<Rightarrow> db \<Rightarrow> int" where
  "password_misses E A uid [] db = 0"
| "password_misses E A uid ((t, op) # ops) db =
     (if misses_password (E\<lparr>now := t\<rparr>) A uid op db then 1 else 0) +
     password_misses E A uid ops (auth_step (E\<lparr>now := t\<rparr>) A op db)"


section \<open>Lemmas on codes\<close>

text \<open>The guesses left to the codes of a user, and the codes issued to the user since \<open>T\<close>.\<close>

definition code_left :: "auth_env \<Rightarrow> string \<Rightarrow> login_code \<Rightarrow> int" where
  "code_left A uid c =
     (if lc_user_id c = uid \<and> lc_used_at c = None then max 0 (MAX_ATTEMPTS A - lc_attempts c) else 0)"

definition guesses_left :: "auth_env \<Rightarrow> string \<Rightarrow> db \<Rightarrow> int" where
  "guesses_left A uid db = sum_list (map (code_left A uid) (login_codes db))"

definition issued_since :: "int \<Rightarrow> string \<Rightarrow> db \<Rightarrow> int" where
  "issued_since T uid db = int (length (filter (\<lambda>c. lc_user_id c = uid \<and> T \<le> lc_created_at c) (login_codes db)))"

lemma code_left_nonneg [simp]: "0 \<le> code_left A uid c"
  by (simp add: code_left_def)

lemma guesses_left_nonneg [simp]: "0 \<le> guesses_left A uid db"
  by (auto simp: guesses_left_def intro!: sum_list_nonneg)

lemma sum_list_le_map: "(\<And>x. x \<in> set xs \<Longrightarrow> g (f x) \<le> (g x :: int)) \<Longrightarrow> (\<Sum>x\<leftarrow>xs. g (f x)) \<le> sum_list (map g xs)"
  by (auto intro: sum_list_mono)

lemma sum_list_less_map:
  assumes "\<And>x. x \<in> set xs \<Longrightarrow> g (f x) \<le> (g x :: int)" "c \<in> set xs" "g (f c) + 1 \<le> g c"
  shows "(\<Sum>x\<leftarrow>xs. g (f x)) + 1 \<le> sum_list (map g xs)"
  using assms
proof (induction xs)
  case (Cons x xs)
  have le: "(\<Sum>x\<leftarrow>xs. g (f x)) \<le> sum_list (map g xs)" using Cons.prems(1) by (intro sum_list_le_map) simp
  show ?case
  proof (cases "c = x")
    case True
    then show ?thesis using le Cons.prems(3) by simp
  next
    case False
    then have "(\<Sum>x\<leftarrow>xs. g (f x)) + 1 \<le> sum_list (map g xs)" using Cons by (intro Cons.IH) auto
    then show ?thesis using Cons.prems(1) [of x] by simp
  qed
qed simp

text \<open>An update that keeps owner and time of every code and never revives one.\<close>

definition spends :: "(login_code \<Rightarrow> login_code) \<Rightarrow> bool" where
  "spends f \<longleftrightarrow> (\<forall>c. lc_user_id (f c) = lc_user_id c \<and> lc_created_at (f c) = lc_created_at c \<and>
     lc_attempts c \<le> lc_attempts (f c) \<and> (lc_used_at (f c) = None \<longrightarrow> lc_used_at c = None))"

lemma spends_left: "spends f \<Longrightarrow> code_left A uid (f c) \<le> code_left A uid c"
  unfolding spends_def code_left_def by (smt (verit))

lemma spent_codes:
  assumes "login_codes db' = map f (login_codes db)" "spends f"
  shows "guesses_left A uid db' \<le> guesses_left A uid db" "issued_since T uid db' = issued_since T uid db"
    "(\<forall>c \<in> set (login_codes db). lc_created_at c < T) \<Longrightarrow> (\<forall>c \<in> set (login_codes db'). lc_created_at c < T)"
proof -
  show "guesses_left A uid db' \<le> guesses_left A uid db"
    using sum_list_le_map [of "login_codes db" "code_left A uid" f] spends_left [OF assms(2)]
    by (simp add: guesses_left_def assms(1) comp_def)
  show "issued_since T uid db' = issued_since T uid db"
    using assms(2) by (simp add: issued_since_def assms(1) filter_map comp_def spends_def)
  show "(\<forall>c \<in> set (login_codes db). lc_created_at c < T) \<Longrightarrow> (\<forall>c \<in> set (login_codes db'). lc_created_at c < T)"
    using assms(2) by (simp add: assms(1) spends_def)
qed

lemma create_session_tables [simp]:
  "login_codes (snd (create_session E A u m db)) = login_codes db" "users (snd (create_session E A u m db)) = users db"
  by (simp_all add: create_session_def Let_def new_uuid_def)

text \<open>One verification: the codes it leaves, and the guess it costs.\<close>

lemma verify_codes:
  "\<exists>f. spends f \<and> login_codes (snd (verify_code E A email code db)) = map f (login_codes db) \<and>
     (compares_code E A uid (VerifyCode email code) db \<longrightarrow>
        (\<exists>c \<in> set (login_codes db). code_left A uid (f c) + 1 \<le> code_left A uid c))"
proof (cases "find_user db email")
  case None
  then show ?thesis by (intro exI [of _ id]) (simp add: verify_code_def compares_code_def spends_def)
next
  case (Some u)
  note u = this
  show ?thesis
  proof (cases "login_candidate E db u")
    case None
    then show ?thesis using u by (intro exI [of _ id]) (simp add: verify_code_def compares_code_def spends_def)
  next
    case (Some c)
    then have c: "c \<in> set (login_codes db)" "lc_user_id c = u_id u" "lc_used_at c = None"
      by (auto simp: login_candidate_def order_desc_def dest!: first_Some)
    let ?g = "\<lambda>x. if lc_id x = lc_id c then x\<lparr>lc_attempts := lc_attempts x + 1\<rparr> else x"
    let ?h = "\<lambda>x. if lc_id x = lc_id c then x\<lparr>lc_used_at := Some (now E)\<rparr> else x"
    let ?f = "if lc_attempts c + 1 > MAX_ATTEMPTS A \<or> lc_code_hash c \<noteq> sha256_text E code then ?g else ?h \<circ> ?g"
    have "login_codes (snd (verify_code E A email code db)) = map ?f (login_codes db)"
      using u Some by (simp add: verify_code_def Let_def update_where_def comp_def split_beta)
    moreover have "spends ?f" by (auto simp: spends_def)
    moreover have "code_left A uid (?f c) + 1 \<le> code_left A uid c" if "compares_code E A uid (VerifyCode email code) db"
      using that c u Some by (auto simp: compares_code_def code_left_def)
    ultimately show ?thesis using c(1) by blast
  qed
qed

lemma request_issues:
  assumes "0 \<le> MAX_ATTEMPTS A"
  shows "(\<exists>f. spends f \<and> login_codes (snd (request_code E A email db)) = map f (login_codes db)) \<or>
    (\<exists>u. find_user db email = Some u \<and>
       int (length (filter (\<lambda>c. lc_user_id c = u_id u \<and> now E - minutes (CODE_TTL_MINUTES A) \<le> lc_created_at c)
              (login_codes db))) < MAX_ISSUED_PER_WINDOW A \<and>
       (\<exists>f n. spends f \<and> login_codes (snd (request_code E A email db)) = map f (login_codes db) @ [n] \<and>
          lc_user_id n = u_id u \<and> lc_created_at n = now E \<and> lc_used_at n = None \<and> lc_attempts n = 0 \<and>
          (\<forall>c. lc_user_id c = u_id u \<longrightarrow> lc_used_at (f c) \<noteq> None)))"
proof (cases "find_user db email")
  case None
  then have "login_codes (snd (request_code E A email db)) = map id (login_codes db)" by (simp add: request_code_def)
  then show ?thesis by (intro disjI1 exI [of _ id]) (simp add: spends_def)
next
  case (Some u)
  let ?f = "\<lambda>c. if lc_user_id c = u_id u \<and> lc_used_at c = None then c\<lparr>lc_used_at := Some (now E)\<rparr> else c"
  have f: "spends ?f" "\<forall>c. lc_user_id c = u_id u \<longrightarrow> lc_used_at (?f c) \<noteq> None" by (auto simp: spends_def)
  show ?thesis
  proof (cases "MAX_ISSUED_PER_WINDOW A \<le>
      int (length (filter (\<lambda>c. lc_user_id c = u_id u \<and> now E - minutes (CODE_TTL_MINUTES A) \<le> lc_created_at c)
        (login_codes db)))")
    case True
    then have "login_codes (snd (request_code E A email db)) = map id (login_codes db)"
      using Some by (simp add: request_code_def Let_def)
    then show ?thesis by (intro disjI1 exI [of _ id]) (simp add: spends_def)
  next
    case False
    then show ?thesis using Some f
      by (intro disjI2 exI [of _ u] conjI exI [of _ ?f])
        (auto simp: request_code_def Let_def new_uuid_def update_where_def)
  qed
qed

lemma filter_length_mono: "(\<And>x. P x \<Longrightarrow> Q x) \<Longrightarrow> length (filter P xs) \<le> length (filter Q xs)"
  by (induction xs) auto

lemma map_left:
  assumes "login_codes db' = map f (login_codes db)" "spends f" "c \<in> set (login_codes db)"
    and "code_left A uid (f c) + 1 \<le> code_left A uid c"
  shows "guesses_left A uid db' + 1 \<le> guesses_left A uid db"
  using sum_list_less_map [of "login_codes db" "code_left A uid" f c] spends_left [OF assms(2)] assms(3,4)
  by (simp add: guesses_left_def assms(1) comp_def)

lemma login_route_codes: "login_codes (snd (login_route E A email password db)) = login_codes db"
  by (auto simp: login_route_def login_password_def update_user_def Let_def bind_res_def split_beta
      split: option.splits sum.splits prod.splits)

lemma set_password_codes: "login_codes (snd (set_password_route E A pw cur auth cookie db)) = login_codes db"
  by (auto simp: set_password_route_def set_password_def update_user_def Let_def bind_res_def
      split: option.splits sum.splits prod.splits)

lemma logout_codes: "login_codes (snd (logout_route E auth cookie db)) = login_codes db"
  by (auto simp: logout_route_def revoke_session_def split: option.splits prod.splits)

text \<open>What one step leaves to a guesser, and what it costs.\<close>

lemma step_budget:
  assumes "0 \<le> MAX_ATTEMPTS A" "T \<le> now E" "now E \<le> T + minutes (CODE_TTL_MINUTES A)"
    and "issued_since T uid db \<le> MAX_ISSUED_PER_WINDOW A"
  defines "budget \<equiv> \<lambda>d. guesses_left A uid d + MAX_ATTEMPTS A * (MAX_ISSUED_PER_WINDOW A - issued_since T uid d)"
  shows "issued_since T uid (auth_step E A op db) \<le> MAX_ISSUED_PER_WINDOW A \<and>
    (if compares_code E A uid op db then 1 else 0) + budget (auth_step E A op db) \<le> budget db"
proof -
  let ?db' = "auth_step E A op db"
  have keep: ?thesis if f: "login_codes ?db' = map f (login_codes db)" "spends f"
    and cost: "compares_code E A uid op db \<Longrightarrow> \<exists>c \<in> set (login_codes db). code_left A uid (f c) + 1 \<le> code_left A uid c" for f
  proof -
    note s = spent_codes [OF f]
    have "(if compares_code E A uid op db then 1 else 0) + guesses_left A uid ?db' \<le> guesses_left A uid db"
      using s(1) cost map_left [OF f] by (smt (verit))
    then show ?thesis using s(2) assms(4) by (simp add: budget_def)
  qed
  have id: "login_codes ?db' = login_codes db \<Longrightarrow> \<not> compares_code E A uid op db \<Longrightarrow> ?thesis"
    by (rule keep [of id]) (simp_all add: spends_def)
  show ?thesis
  proof (cases op)
    case (RequestCode email)
    from request_issues [OF assms(1), of E email db] show ?thesis
    proof (elim disjE exE conjE)
      fix f assume "spends f" "login_codes (snd (request_code E A email db)) = map f (login_codes db)"
      then show ?thesis by (intro keep [of f]) (simp_all add: RequestCode auth_step_def compares_code_def)
    next
      fix u f n
      assume u: "int (length (filter (\<lambda>c. lc_user_id c = u_id u \<and> now E - minutes (CODE_TTL_MINUTES A) \<le> lc_created_at c)
              (login_codes db))) < MAX_ISSUED_PER_WINDOW A"
        and f: "spends f" and codes: "login_codes (snd (request_code E A email db)) = map f (login_codes db) @ [n]"
        and n: "lc_user_id n = u_id u" "lc_created_at n = now E" "lc_used_at n = None" "lc_attempts n = 0"
        and void: "\<forall>c. lc_user_id c = u_id u \<longrightarrow> lc_used_at (f c) \<noteq> None"
      have c: "login_codes ?db' = map f (login_codes db) @ [n]" using codes by (simp add: auth_step_def RequestCode)
      let ?mid = "db\<lparr>login_codes := map f (login_codes db)\<rparr>"
      have mid: "guesses_left A uid ?mid \<le> guesses_left A uid db" "issued_since T uid ?mid = issued_since T uid db"
        using spent_codes(1,2) [of ?mid f db] f by simp_all
      have no: "\<not> compares_code E A uid op db" by (simp add: compares_code_def RequestCode)
      show ?thesis
      proof (cases "u_id u = uid")
        case False
        then have "guesses_left A uid ?db' = guesses_left A uid ?mid" "issued_since T uid ?db' = issued_since T uid ?mid"
          using c n by (simp_all add: guesses_left_def issued_since_def code_left_def)
        then show ?thesis using mid assms(4) no by (simp add: budget_def)
      next
        case True
        have zero: "code_left A uid (f x) = 0" for x
          using void f True by (auto simp: code_left_def spends_def)
        have "guesses_left A uid ?db' = MAX_ATTEMPTS A"
          using c n True assms(1) zero by (simp add: guesses_left_def code_left_def [of _ _ n] comp_def)
        moreover have iss: "issued_since T uid ?db' = issued_since T uid db + 1"
          using c n True assms(2) mid(2) by (simp add: issued_since_def)
        moreover have "issued_since T uid db < MAX_ISSUED_PER_WINDOW A"
        proof -
          have "length (filter (\<lambda>c. lc_user_id c = uid \<and> T \<le> lc_created_at c) (login_codes db)) \<le>
            length (filter (\<lambda>c. lc_user_id c = uid \<and> now E - minutes (CODE_TTL_MINUTES A) \<le> lc_created_at c) (login_codes db))"
            using assms(3) by (intro filter_length_mono) auto
          then show ?thesis using u True by (simp add: issued_since_def)
        qed
        ultimately show ?thesis using no guesses_left_nonneg [of A uid db]
          by (simp add: budget_def algebra_simps)
      qed
    qed
  next
    case (VerifyCode email code)
    obtain f where "spends f" "login_codes (snd (verify_code E A email code db)) = map f (login_codes db)"
      "compares_code E A uid (VerifyCode email code) db \<longrightarrow>
        (\<exists>c \<in> set (login_codes db). code_left A uid (f c) + 1 \<le> code_left A uid c)"
      using verify_codes by blast
    moreover have "snd (verify_route E A email code db) = snd (verify_code E A email code db)"
      by (auto simp: verify_route_def split: prod.splits option.splits)
    ultimately show ?thesis by (intro keep [of f]) (simp_all add: VerifyCode auth_step_def)
  next
    case (Login email password)
    then show ?thesis by (intro id) (simp_all add: auth_step_def compares_code_def login_route_codes)
  next
    case (SetPassword token pw cur)
    then show ?thesis by (intro id) (simp_all add: auth_step_def compares_code_def set_password_codes)
  next
    case (Logout token)
    then show ?thesis by (intro id) (simp_all add: auth_step_def compares_code_def logout_codes)
  qed
qed

text \<open>In any history the guesses stay within the budget of its start.\<close>

lemma run_budget:
  assumes "0 \<le> MAX_ATTEMPTS A" "issued_since T uid db \<le> MAX_ISSUED_PER_WINDOW A"
    and "\<forall>(t, op) \<in> set ops. T \<le> t \<and> t \<le> T + minutes (CODE_TTL_MINUTES A)"
  shows "code_guesses E A uid ops db \<le>
    guesses_left A uid db + MAX_ATTEMPTS A * (MAX_ISSUED_PER_WINDOW A - issued_since T uid db)"
  using assms(2,3)
proof (induction ops arbitrary: db)
  case Nil
  then show ?case using assms(1) guesses_left_nonneg [of A uid db] by (simp add: add_nonneg_nonneg)
next
  case (Cons x ops)
  obtain t op where x: "x = (t, op)" by fastforce
  have "issued_since T uid (auth_step (E\<lparr>now := t\<rparr>) A op db) \<le> MAX_ISSUED_PER_WINDOW A \<and>
      (if compares_code (E\<lparr>now := t\<rparr>) A uid op db then 1 else 0) +
        (guesses_left A uid (auth_step (E\<lparr>now := t\<rparr>) A op db) + MAX_ATTEMPTS A *
          (MAX_ISSUED_PER_WINDOW A - issued_since T uid (auth_step (E\<lparr>now := t\<rparr>) A op db))) \<le>
      guesses_left A uid db + MAX_ATTEMPTS A * (MAX_ISSUED_PER_WINDOW A - issued_since T uid db)"
    using Cons.prems x by (intro step_budget [OF assms(1)]) auto
  with Cons.IH [of "auth_step (E\<lparr>now := t\<rparr>) A op db"] Cons.prems(2) show ?case
    by (simp add: x)
qed

text \<open>Before \<open>T\<close>, a history leaves at most the guesses of one code, and none of the codes is newer than \<open>T\<close>.\<close>

lemma step_before:
  assumes "0 \<le> MAX_ATTEMPTS A" "now E < T"
    and "guesses_left A uid db \<le> MAX_ATTEMPTS A" "\<forall>c \<in> set (login_codes db). lc_created_at c < T"
  shows "guesses_left A uid (auth_step E A op db) \<le> MAX_ATTEMPTS A \<and>
    (\<forall>c \<in> set (login_codes (auth_step E A op db)). lc_created_at c < T)"
proof -
  let ?db' = "auth_step E A op db"
  have keep: ?thesis if "login_codes ?db' = map f (login_codes db)" "spends f" for f
    using spent_codes(1,3) [OF that] assms(3,4) by (meson order_trans)
  have id: "login_codes ?db' = login_codes db \<Longrightarrow> ?thesis"
    by (rule keep [of id]) (simp_all add: spends_def)
  show ?thesis
  proof (cases op)
    case (RequestCode email)
    from request_issues [OF assms(1), of E email db] show ?thesis
    proof (elim disjE exE conjE)
      fix f assume "spends f" "login_codes (snd (request_code E A email db)) = map f (login_codes db)"
      then show ?thesis by (intro keep [of f]) (simp_all add: RequestCode auth_step_def)
    next
      fix u f n
      assume f: "spends f" and codes: "login_codes (snd (request_code E A email db)) = map f (login_codes db) @ [n]"
        and n: "lc_user_id n = u_id u" "lc_created_at n = now E" "lc_used_at n = None" "lc_attempts n = 0"
        and void: "\<forall>c. lc_user_id c = u_id u \<longrightarrow> lc_used_at (f c) \<noteq> None"
      let ?mid = "db\<lparr>login_codes := map f (login_codes db)\<rparr>"
      have c: "login_codes ?db' = map f (login_codes db) @ [n]" using codes by (simp add: auth_step_def RequestCode)
      have mid: "guesses_left A uid ?mid \<le> MAX_ATTEMPTS A" "\<forall>c \<in> set (login_codes ?mid). lc_created_at c < T"
        using order_trans [OF spent_codes(1) [of ?mid f db, OF _ f] assms(3)]
          spent_codes(3) [of ?mid f db, OF _ f assms(4)] by simp_all
      have "guesses_left A uid ?db' \<le> MAX_ATTEMPTS A"
      proof (cases "u_id u = uid")
        case True
        have "code_left A uid (f x) = 0" for x using void f True by (auto simp: code_left_def spends_def)
        then show ?thesis using c n True assms(1) by (simp add: guesses_left_def code_left_def [of _ _ n] comp_def)
      next
        case False
        then show ?thesis using c n mid(1) by (simp add: guesses_left_def code_left_def [of _ _ n])
      qed
      then show ?thesis using c n(2) mid(2) assms(2) by simp
    qed
  next
    case (VerifyCode email code)
    obtain f where "spends f" "login_codes (snd (verify_code E A email code db)) = map f (login_codes db)"
      using verify_codes [of E A email code db uid] by blast
    moreover have "snd (verify_route E A email code db) = snd (verify_code E A email code db)"
      by (auto simp: verify_route_def split: prod.splits option.splits)
    ultimately show ?thesis by (intro keep [of f]) (simp_all add: VerifyCode auth_step_def)
  next
    case (Login email password)
    then show ?thesis by (intro id) (simp add: auth_step_def login_route_codes)
  next
    case (SetPassword token pw cur)
    then show ?thesis by (intro id) (simp add: auth_step_def set_password_codes)
  next
    case (Logout token)
    then show ?thesis by (intro id) (simp add: auth_step_def logout_codes)
  qed
qed

lemma run_before:
  assumes "0 \<le> MAX_ATTEMPTS A" "\<forall>(t, op) \<in> set ops. t < T"
    and "guesses_left A uid db \<le> MAX_ATTEMPTS A" "\<forall>c \<in> set (login_codes db). lc_created_at c < T"
  shows "guesses_left A uid (run_auth E A ops db) \<le> MAX_ATTEMPTS A \<and>
    (\<forall>c \<in> set (login_codes (run_auth E A ops db)). lc_created_at c < T)"
  using assms(2-4)
proof (induction ops arbitrary: db)
  case (Cons x ops)
  obtain t op where x: "x = (t, op)" by fastforce
  have "now (E\<lparr>now := t\<rparr>) < T" using Cons.prems(1) x by simp
  note s = step_before [OF assms(1) this Cons.prems(2,3), of op]
  have "\<forall>(t, op) \<in> set ops. t < T" using Cons.prems(1) by simp
  from Cons.IH [OF this] s show ?case unfolding x run_auth.simps by blast
qed simp

section \<open>What a guesser can try\<close>

text \<open>C21. Whatever is sent to the service, and in whatever order: within one lifetime of a code, at most
  \<open>MAX_ATTEMPTS * (MAX_ISSUED_PER_WINDOW + 1)\<close> guesses are compared with codes of one user, those of the codes
  that are issued in that time and of the one that is outstanding when it begins.\<close>

theorem code_guess_bound:
  assumes "0 \<le> MAX_ATTEMPTS A" "0 \<le> MAX_ISSUED_PER_WINDOW A" "login_codes db = []"
    and "\<forall>(t, op) \<in> set past. t < T"
    and "\<forall>(t, op) \<in> set ops. T \<le> t \<and> t \<le> T + minutes (CODE_TTL_MINUTES A)"
  shows "code_guesses E A uid ops (run_auth E A past db) \<le> MAX_ATTEMPTS A * (MAX_ISSUED_PER_WINDOW A + 1)"
proof -
  have b: "guesses_left A uid (run_auth E A past db) \<le> MAX_ATTEMPTS A"
    "\<forall>c \<in> set (login_codes (run_auth E A past db)). lc_created_at c < T"
    using run_before [OF assms(1,4), of uid db E] assms(1,3) by (simp_all add: guesses_left_def)
  have "filter (\<lambda>c. lc_user_id c = uid \<and> T \<le> lc_created_at c) (login_codes (run_auth E A past db)) = []"
    using b(2) by (force simp: filter_empty_conv)
  then have i: "issued_since T uid (run_auth E A past db) = 0" by (simp add: issued_since_def)
  show ?thesis using run_budget [OF assms(1) _ assms(5), of uid "run_auth E A past db" E] b(1) assms(2)
    by (simp add: i algebra_simps)
qed

text \<open>One person, and settings for the witnesses.\<close>

definition demo_user :: user where
  "demo_user =
     \<lparr>u_id = ''alice'', u_org_id = ''o'', u_email = ''a@b'', u_display_name = ''A'', u_role = ''officer'',
      u_password_hash = Some ''H:correct horse'', u_failed_logins = 0, u_locked_until = None, u_disabled = False,
      u_created_at = 0\<rparr>"

definition demo_auth :: auth_env where
  "demo_auth =
     \<lparr>CODE_TTL_MINUTES = 1, MAX_ATTEMPTS = 1, SESSION_TTL_HOURS = 12, MAX_ISSUED_PER_WINDOW = 1,
      LOCKOUT_THRESHOLD = 2, LOCKOUT_MINUTES = 15, dev_mode = False, ph_hash = (\<lambda>n p. ''H:'' @ p),
      ph_verify = (\<lambda>h p. Inr (h = ''H:'' @ p)), ph_needs_rehash = (\<lambda>_. False), randbelow = (\<lambda>n k. n mod k)\<rparr>"

definition flat_env :: env where
  "flat_env = demo_env\<lparr>sha256 := (\<lambda>_. 0)\<rparr>"

definition auth_db :: db where
  "auth_db = empty_db\<lparr>orgs := [], users := [demo_user]\<rparr>"


lemma flat_hash: "sha256_text (flat_env\<lparr>now := t\<rparr>) x = sha256_text flat_env []"
  by (simp add: sha256_text_def flat_env_def digest_def)

lemma find_alice: "users db = [demo_user] \<Longrightarrow> find_user db ''a@b'' = Some demo_user \<and> find_user db ''A@B '' = Some demo_user"
  by (simp add: find_user_def one_or_none_def demo_user_def) code_simp

lemma flat_uuid [simp]: "uuid4 (flat_env\<lparr>now := t\<rparr>) n = ''u'' @ nat_str n" "now (flat_env\<lparr>now := t\<rparr>) = t"
  by (simp_all add: flat_env_def demo_env_def)

text \<open>A request when the user has only codes out of the window, and a guess at a fresh code.\<close>

lemma flat_request:
  assumes "users db = [demo_user]" "\<forall>c \<in> set (login_codes db). lc_created_at c < t - 60000000 \<and> lc_used_at c \<noteq> None"
    and "m \<in> {''a@b'', ''A@B ''}"
  shows "\<exists>i e. login_codes (auth_step (flat_env\<lparr>now := t\<rparr>) demo_auth (RequestCode m) db) = login_codes db @
      [\<lparr>lc_id = i, lc_user_id = ''alice'', lc_code_hash = sha256_text flat_env [], lc_attempts = 0,
        lc_expires_at = t + 60000000, lc_used_at = None, lc_created_at = t\<rparr>] \<and>
    users (auth_step (flat_env\<lparr>now := t\<rparr>) demo_auth (RequestCode m) db) = [demo_user]"
proof -
  have f: "find_user db m = Some demo_user" using find_alice [OF assms(1)] assms(3) by auto
  have "filter (\<lambda>c. lc_user_id c = u_id demo_user \<and> t - minutes (CODE_TTL_MINUTES demo_auth) \<le> lc_created_at c) (login_codes db) = []"
    using assms(2) by (force simp: filter_empty_conv minutes_def demo_auth_def)
  moreover have "update_where (\<lambda>c. lc_user_id c = u_id demo_user \<and> lc_used_at c = None) g (login_codes db) = login_codes db" for g
    unfolding update_where_def by (rule map_idI) (use assms(2) in auto)
  ultimately show ?thesis using f assms(1)
    by (simp add: auth_step_def request_code_def Let_def new_uuid_def flat_hash)
      (simp add: demo_auth_def minutes_def demo_user_def)
qed

lemma flat_verify:
  assumes "users db = [demo_user]" "login_codes db = cs @ [c]" "\<forall>c \<in> set cs. lc_used_at c \<noteq> None"
    and "lc_user_id c = ''alice''" "lc_used_at c = None" "lc_attempts c = 0" "t < lc_expires_at c"
    and "lc_code_hash c = sha256_text flat_env []"
  shows "compares_code (flat_env\<lparr>now := t\<rparr>) demo_auth ''alice'' (VerifyCode ''a@b'' x) db \<and>
    (\<exists>f. spends f \<and> lc_used_at (f c) \<noteq> None \<and>
       login_codes (auth_step (flat_env\<lparr>now := t\<rparr>) demo_auth (VerifyCode ''a@b'' x) db) = map f (cs @ [c])) \<and>
    users (auth_step (flat_env\<lparr>now := t\<rparr>) demo_auth (VerifyCode ''a@b'' x) db) = [demo_user]"
proof -
  let ?E = "flat_env\<lparr>now := t\<rparr>"
  have f: "find_user db ''a@b'' = Some demo_user" using find_alice [OF assms(1)] by blast
  have id: "u_id demo_user = ''alice''" "MAX_ATTEMPTS demo_auth = 1" by (simp_all add: demo_user_def demo_auth_def)
  have "filter (\<lambda>c. lc_user_id c = ''alice'' \<and> lc_used_at c = None \<and> t < lc_expires_at c) cs = []"
    using assms(3) by (auto simp: filter_empty_conv)
  then have cand: "login_candidate ?E db demo_user = Some c"
    using assms(2,4,5,7) by (simp add: login_candidate_def id order_desc_def)
  let ?f = "\<lambda>r. if lc_id r = lc_id c then r\<lparr>lc_attempts := lc_attempts r + 1, lc_used_at := Some t\<rparr> else r"
  have v: "login_codes (snd (verify_code ?E demo_auth ''a@b'' x db)) = map ?f (cs @ [c])"
    "users (snd (verify_code ?E demo_auth ''a@b'' x db)) = [demo_user]"
    using f cand assms(1,2,6,8) by (simp_all add: verify_code_def Let_def id flat_hash split_beta update_where_def comp_def)
  moreover have "snd (verify_route ?E demo_auth ''a@b'' x db) = snd (verify_code ?E demo_auth ''a@b'' x db)"
    by (auto simp: verify_route_def split: prod.splits option.splits)
  moreover have "spends ?f" "lc_used_at (?f c) \<noteq> None" by (auto simp: spends_def)
  ultimately show ?thesis using f cand assms(6) by (auto simp: compares_code_def id auth_step_def)
qed


text \<open>The witness is tight: the code issued just before the window and the one issued at its end are both
  guessed at, so that the product of the two settings alone, which the module's introduction names, is no
  bound.\<close>

theorem code_guess_bound_witness:
  "code_guesses flat_env demo_auth ''alice''
     [(0, VerifyCode ''a@b'' ''000000''), (60000000, RequestCode ''A@B ''), (60000000, VerifyCode ''a@b'' ''000000'')]
     (run_auth flat_env demo_auth [(-1, RequestCode ''a@b'')] auth_db) = 2 \<and>
   (2::int) \<le> MAX_ATTEMPTS demo_auth * (MAX_ISSUED_PER_WINDOW demo_auth + 1) \<and>
   MAX_ATTEMPTS demo_auth * MAX_ISSUED_PER_WINDOW demo_auth < 2"
proof -
  let ?ops = "[(0, VerifyCode ''a@b'' ''000000''), (60000000, RequestCode ''A@B ''), (60000000, VerifyCode ''a@b'' ''000000'')]"
  let ?db1 = "auth_step (flat_env\<lparr>now := -1\<rparr>) demo_auth (RequestCode ''a@b'') auth_db"
  have 0: "users auth_db = [demo_user]" "login_codes auth_db = []" by (simp_all add: auth_db_def empty_db_def)
  obtain c where 1: "login_codes ?db1 = [] @ [c]" "users ?db1 = [demo_user]" "lc_created_at c = -1"
    and c: "lc_user_id c = ''alice''" "lc_used_at c = None" "lc_attempts c = 0" "0 < lc_expires_at c"
      "lc_code_hash c = sha256_text flat_env []"
    using flat_request [OF 0(1), of "-1" "''a@b''"] 0(2) by fastforce
  let ?db2 = "auth_step (flat_env\<lparr>now := 0\<rparr>) demo_auth (VerifyCode ''a@b'' ''000000'') ?db1"
  obtain f where f: "spends f" "lc_used_at (f c) \<noteq> None" "login_codes ?db2 = [f c]"
    and 2: "users ?db2 = [demo_user]" "compares_code (flat_env\<lparr>now := 0\<rparr>) demo_auth ''alice'' (VerifyCode ''a@b'' ''000000'') ?db1"
    using flat_verify [OF 1(2,1) _ c, of "''000000''"] by auto
  let ?db3 = "auth_step (flat_env\<lparr>now := 60000000\<rparr>) demo_auth (RequestCode ''A@B '') ?db2"
  have "\<forall>c \<in> set (login_codes ?db2). lc_created_at c < 60000000 - 60000000 \<and> lc_used_at c \<noteq> None"
    using f 1(3) by (simp add: spends_def)
  from flat_request [OF 2(1) this, of "''A@B ''"] obtain d where 3: "login_codes ?db3 = [f c] @ [d]" "users ?db3 = [demo_user]"
    and d: "lc_user_id d = ''alice''" "lc_used_at d = None" "lc_attempts d = 0" "60000000 < lc_expires_at d"
      "lc_code_hash d = sha256_text flat_env []"
    unfolding f(3) by fastforce
  have 4: "compares_code (flat_env\<lparr>now := 60000000\<rparr>) demo_auth ''alice'' (VerifyCode ''a@b'' ''000000'') ?db3"
    using flat_verify [OF 3(2,1) _ d, of "''000000''"] f(2) by auto
  have "\<not> compares_code (flat_env\<lparr>now := 60000000\<rparr>) demo_auth ''alice'' (RequestCode ''A@B '') ?db2"
    by (simp add: compares_code_def)
  with 2 4 have n: "code_guesses flat_env demo_auth ''alice'' ?ops (run_auth flat_env demo_auth [(-1, RequestCode ''a@b'')] auth_db) = 2"
    by simp
  have "code_guesses flat_env demo_auth ''alice'' ?ops (run_auth flat_env demo_auth [(-1, RequestCode ''a@b'')] auth_db)
      \<le> MAX_ATTEMPTS demo_auth * (MAX_ISSUED_PER_WINDOW demo_auth + 1)"
    by (rule code_guess_bound [where T = 0]) (simp_all add: demo_auth_def auth_db_def empty_db_def minutes_def)
  with n show ?thesis by (simp add: demo_auth_def)
qed


section \<open>Lemmas on passwords\<close>

text \<open>The rows of the users: one per id, and a counter that has not reached the threshold.\<close>

definition users_ok :: "auth_env \<Rightarrow> db \<Rightarrow> bool" where
  "users_ok A db \<longleftrightarrow> distinct (map u_id (users db)) \<and>
     (\<forall>u \<in> set (users db). 0 \<le> u_failed_logins u \<and> u_failed_logins u < LOCKOUT_THRESHOLD A)"

lemma user_unique: "users_ok A db \<Longrightarrow> u \<in> set (users db) \<Longrightarrow> v \<in> set (users db) \<Longrightarrow> u_id u = u_id v \<Longrightarrow> u = v"
  by (auto simp: users_ok_def distinct_map inj_on_def)

lemma find_user_mem: "find_user db email = Some u \<Longrightarrow> u \<in> set (users db)"
  by (auto simp: find_user_def dest!: one_or_none_Some)

lemma users_update_user: "users (update_user v db) = map (\<lambda>r. if u_id r = u_id v then v else r) (users db)"
  by (simp add: update_user_def update_where_def is_user_def)

lemma users_ok_update:
  assumes "users_ok A db" "0 \<le> u_failed_logins v" "u_failed_logins v < LOCKOUT_THRESHOLD A"
    and "users db' = users (update_user v db)"
  shows "users_ok A db'"
proof -
  have "map u_id (users db') = map u_id (users db)" by (simp add: assms(4) users_update_user)
  then have "distinct (map u_id (users db'))" using assms(1) by (simp only: users_ok_def)
  with assms show ?thesis by (auto simp: users_ok_def users_update_user)
qed

text \<open>The user as a failed login leaves it.\<close>

definition missed :: "env \<Rightarrow> auth_env \<Rightarrow> user \<Rightarrow> user" where
  "missed E A u =
     (if u_failed_logins u + 1 \<ge> LOCKOUT_THRESHOLD A
      then u\<lparr>u_locked_until := Some (now E + minutes (LOCKOUT_MINUTES A)), u_failed_logins := 0\<rparr>
      else u\<lparr>u_failed_logins := u_failed_logins u + 1\<rparr>)"

text \<open>What a login does to the rows of the users, by its outcome.\<close>

lemma login_users:
  obtains (unchanged) "users (snd (login_route E A email pw db)) = users db"
      "\<And>uid. \<not> misses_password E A uid (Login email pw) db"
    | (miss) u where "find_user db email = Some u" "\<not> locked E u"
      "users (snd (login_route E A email pw db)) = users (update_user (missed E A u) db)"
      "\<And>uid. misses_password E A uid (Login email pw) db \<longleftrightarrow> u_id u = uid"
    | (match) u h v where "find_user db email = Some u" "u_password_hash u = Some h" "ph_verify A h pw = Inr True"
      "users (snd (login_route E A email pw db)) = users (update_user v db)" "u_id v = u_id u"
      "u_failed_logins v = 0" "\<And>uid. \<not> misses_password E A uid (Login email pw) db"
proof (cases "find_user db email")
  case None
  then show thesis by (intro unchanged) (simp_all add: login_route_def login_password_def misses_password_def)
next
  case (Some u)
  note u = this
  show thesis
  proof (cases "u_password_hash u")
    case None
    then show thesis using u by (intro unchanged) (simp_all add: login_route_def login_password_def misses_password_def)
  next
    case (Some h)
    show thesis
    proof (cases "locked E u")
      case True
      then show thesis using u Some by (intro unchanged) (simp_all add: login_route_def login_password_def misses_password_def)
    next
      case False
      show thesis
      proof (cases "ph_verify A h pw")
        case (Inl e)
        then show thesis using u Some False
          by (intro unchanged) (simp_all add: login_route_def login_password_def misses_password_def)
      next
        case (Inr ok)
        show thesis
        proof (cases ok)
          case False': False
          then show thesis using u Some False Inr
            by (intro miss [of u]) (simp_all add: login_route_def login_password_def misses_password_def missed_def Let_def)
        next
          case True
          let ?v = "(if ph_needs_rehash A h then u\<lparr>u_password_hash := Some (ph_hash A (draws db) pw)\<rparr> else u)
            \<lparr>u_failed_logins := 0, u_locked_until := None\<rparr>"
          have "users (snd (login_route E A email pw db)) = users (update_user ?v db)"
            using u Some False Inr True
            by (simp add: login_route_def login_password_def Let_def split_beta update_user_def)
          then show thesis using u Some False Inr True
            by (intro match [of u h ?v]) (simp_all add: misses_password_def)
        qed
      qed
    qed
  qed
qed

lemma users_ok_login:
  assumes "users_ok A db" "0 < LOCKOUT_THRESHOLD A"
  shows "users_ok A (snd (login_route E A email pw db))"
proof (rule login_users [of E A email pw db], goal_cases)
  case 1
  then show ?case using assms(1) by (simp add: users_ok_def)
next
  case (2 u)
  have "0 \<le> u_failed_logins u \<and> u_failed_logins u < LOCKOUT_THRESHOLD A"
    using assms(1) find_user_mem [OF 2(1)] by (simp add: users_ok_def)
  then show ?case using assms(2) by (intro users_ok_update [OF assms(1) _ _ 2(3)]) (auto simp: missed_def)
next
  case (3 u h v)
  then show ?case using assms by (intro users_ok_update [OF assms(1) _ _ 3(4)]) simp_all
qed

text \<open>The wrong guesses left to the user until \<open>T\<close>: none while the account is locked until then.\<close>

definition misses_left :: "auth_env \<Rightarrow> int \<Rightarrow> user \<Rightarrow> int" where
  "misses_left A T u =
     (if (\<exists>l. u_locked_until u = Some l \<and> T \<le> l) then 0 else LOCKOUT_THRESHOLD A - u_failed_logins u)"

text \<open>A history that does not give the user's password away: no login with it, no change of it.\<close>

definition knows_not :: "auth_env \<Rightarrow> string \<Rightarrow> auth_op \<Rightarrow> bool" where
  "knows_not A h op = (case op of Login email pw \<Rightarrow> ph_verify A h pw \<noteq> Inr True | SetPassword _ _ _ \<Rightarrow> False | _ \<Rightarrow> True)"

lemma other_ops_users:
  "users (snd (verify_route E A email code db)) = users db" "users (snd (request_code E A email db)) = users db"
  "users (snd (logout_route E auth cookie db)) = users db"
  by (auto simp: verify_route_def verify_code_def request_code_def logout_route_def revoke_session_def new_uuid_def
      create_session_def Let_def split: option.splits prod.splits if_splits)

lemma step_misses:
  assumes "users_ok A db" "u \<in> set (users db)" "u_password_hash u = Some h" "knows_not A h op"
    and "0 < LOCKOUT_THRESHOLD A" "now E < T" "T \<le> now E + minutes (LOCKOUT_MINUTES A)"
  shows "users_ok A (auth_step E A op db) \<and> (\<exists>u' \<in> set (users (auth_step E A op db)).
    u_id u' = u_id u \<and> u_password_hash u' = Some h \<and>
    (if misses_password E A (u_id u) op db then 1 else 0) + misses_left A T u' \<le> misses_left A T u)"
proof -
  have id: ?thesis if "users (auth_step E A op db) = users db" "\<not> misses_password E A (u_id u) op db"
    using that assms(1-3) by (auto simp: users_ok_def)
  show ?thesis
  proof (cases op)
    case (Login email pw)
    have step: "auth_step E A op db = snd (login_route E A email pw db)" by (simp add: auth_step_def Login)
    have ok: "users_ok A (auth_step E A op db)" unfolding step by (rule users_ok_login [OF assms(1,5)])
    show ?thesis
    proof (rule login_users [of E A email pw db], goal_cases)
      case 1
      then show ?case by (intro id) (simp_all add: Login auth_step_def)
    next
      case (2 v)
      show ?case
      proof (cases "u_id v = u_id u")
        case True
        then have v: "v = u" using user_unique [OF assms(1) find_user_mem [OF 2(1)] assms(2)] by blast
        have "missed E A u \<in> set (users (auth_step E A op db))"
          using 2(3) assms(2) by (force simp: step v users_update_user missed_def)
        moreover have "1 + misses_left A T (missed E A u) \<le> misses_left A T u"
          using assms(1,2,5-7) 2(2) by (auto simp: misses_left_def missed_def locked_def v users_ok_def)
        moreover have "u_id (missed E A u) = u_id u" "u_password_hash (missed E A u) = Some h"
          using assms(3) by (simp_all add: missed_def)
        ultimately show ?thesis using ok 2(4) [of "u_id u"] True by (auto simp: Login)
      next
        case False
        then have "u \<in> set (users (auth_step E A op db))" using 2(3) assms(2) by (force simp: step users_update_user missed_def)
        then show ?thesis using ok 2(4) [of "u_id u"] False assms(3) by (auto simp: Login)
      qed
    next
      case (3 v h' w)
      have "u_id v \<noteq> u_id u"
      proof
        assume "u_id v = u_id u"
        then have "v = u" using user_unique [OF assms(1) find_user_mem [OF 3(1)] assms(2)] by blast
        then show False using 3(2,3) assms(3,4) by (simp add: knows_not_def Login)
      qed
      then have "u \<in> set (users (auth_step E A op db))" using 3(4,5) assms(2) by (force simp: step users_update_user)
      then show ?case using ok 3(7) [of "u_id u"] assms(3) by (auto simp: Login)
    qed
  next
    case (SetPassword token pw cur)
    then show ?thesis using assms(4) by (simp add: knows_not_def)
  qed (rule id; simp add: auth_step_def other_ops_users misses_password_def)+
qed

lemma run_misses:
  assumes "users_ok A db" "u \<in> set (users db)" "u_password_hash u = Some h" "0 < LOCKOUT_THRESHOLD A"
    and "\<forall>(t, op) \<in> set ops. t < T \<and> T \<le> t + minutes (LOCKOUT_MINUTES A) \<and> knows_not A h op"
  shows "password_misses E A (u_id u) ops db \<le> misses_left A T u"
  using assms(1-3,5)
proof (induction ops arbitrary: db u)
  case Nil
  then show ?case by (auto simp: misses_left_def users_ok_def)
next
  case (Cons x ops)
  obtain t op where x: "x = (t, op)" by fastforce
  let ?E = "E\<lparr>now := t\<rparr>"
  have k: "knows_not A h op" "now ?E < T" "T \<le> now ?E + minutes (LOCKOUT_MINUTES A)" using Cons.prems(4) x by auto
  obtain u' where u': "users_ok A (auth_step ?E A op db)" "u' \<in> set (users (auth_step ?E A op db))" "u_id u' = u_id u"
    "u_password_hash u' = Some h"
    "(if misses_password ?E A (u_id u) op db then 1 else 0) + misses_left A T u' \<le> misses_left A T u"
    using step_misses [OF Cons.prems(1-3) k(1) assms(4) k(2,3)] by blast
  have "password_misses E A (u_id u') ops (auth_step ?E A op db) \<le> misses_left A T u'"
    using u' Cons.prems(4) by (intro Cons.IH) auto
  then show ?case using u'(5) unfolding x password_misses.simps u'(3) by linarith
qed

text \<open>Whatever is sent to the service in a stretch of time no longer than the lockout, by someone who does
  not have the password of a user: at most \<open>LOCKOUT_THRESHOLD\<close> wrong guesses are compared with it, less those
  that were already counted when it began.\<close>

theorem password_guess_bound:
  assumes "users_ok A db" "u \<in> set (users db)" "u_password_hash u = Some h" "0 < LOCKOUT_THRESHOLD A"
    and "\<forall>(t, op) \<in> set ops. T \<le> t \<and> t < T + minutes (LOCKOUT_MINUTES A)"
    and "\<forall>(t, op) \<in> set ops. knows_not A h op"
  shows "password_misses E A (u_id u) ops db \<le> LOCKOUT_THRESHOLD A - u_failed_logins u"
proof -
  let ?T = "T + minutes (LOCKOUT_MINUTES A)"
  have "password_misses E A (u_id u) ops db \<le> misses_left A ?T u"
    using assms(5,6) by (intro run_misses [OF assms(1-4)]) (auto simp: case_prod_beta)
  moreover have "misses_left A ?T u \<le> LOCKOUT_THRESHOLD A - u_failed_logins u"
    using assms(1,2) by (auto simp: misses_left_def users_ok_def)
  ultimately show ?thesis by simp
qed


lemma demo_users_ok: "users_ok demo_auth auth_db"
  by (simp add: users_ok_def auth_db_def demo_user_def demo_auth_def)

theorem password_guess_bound_witness:
  "password_misses flat_env demo_auth ''alice''
     [(0, Login ''a@b'' ''guess''), (5, Login ''a@b'' ''other''), (9, Login ''a@b'' ''third'')] auth_db = 2 \<and>
   password_misses flat_env demo_auth (u_id demo_user)
     [(0, Login ''a@b'' ''guess''), (5, Login ''a@b'' ''other''), (9, Login ''a@b'' ''third'')] auth_db
     \<le> LOCKOUT_THRESHOLD demo_auth - u_failed_logins demo_user"
proof
  have n: "lower (strip ''a@b'') = ''a@b''" by code_simp
  note defs = auth_step_def login_route_def login_password_def misses_password_def find_user_def one_or_none_def
    update_user_def update_where_def is_user_def locked_def auth_db_def demo_user_def demo_auth_def minutes_def Let_def
  show "password_misses flat_env demo_auth ''alice''
     [(0, Login ''a@b'' ''guess''), (5, Login ''a@b'' ''other''), (9, Login ''a@b'' ''third'')] auth_db = 2"
    by (simp add: defs n)
  show "password_misses flat_env demo_auth (u_id demo_user)
     [(0, Login ''a@b'' ''guess''), (5, Login ''a@b'' ''other''), (9, Login ''a@b'' ''third'')] auth_db
     \<le> LOCKOUT_THRESHOLD demo_auth - u_failed_logins demo_user"
    by (rule password_guess_bound [OF demo_users_ok, where T = 0 and h = "''H:correct horse''"])
      (simp_all add: auth_db_def demo_user_def demo_auth_def knows_not_def minutes_def)
qed

section \<open>Changing a password\<close>

lemma find_map_same:
  "List.find P xs = Some s \<Longrightarrow> (\<And>x. P (f x) \<Longrightarrow> P x) \<Longrightarrow> f s = s \<Longrightarrow> List.find P (map f xs) = Some s"
  by (induction xs) (auto split: if_splits)

lemma find_map_user:
  assumes "List.find P xs = Some u" "\<And>x. x \<in> set xs \<Longrightarrow> u_id x = u_id u \<Longrightarrow> x = u" "P v"
  shows "List.find P (map (\<lambda>r. if u_id r = u_id u then v else r) xs) = Some v"
  using assms
proof (induction xs)
  case (Cons x xs)
  show ?case
  proof (cases "P x")
    case True
    then show ?thesis using Cons.prems by simp
  next
    case False
    then have f: "List.find P xs = Some u" using Cons.prems(1) by simp
    then have "P u" by (auto simp: find_Some_iff)
    then have "u_id x \<noteq> u_id u" using Cons.prems(2) [of x] False by auto
    then show ?thesis using Cons.IH [OF f] Cons.prems False by simp
  qed
qed simp

lemma set_password_Inr:
  assumes "set_password E A user s new cur db = Inr db'"
  obtains v where "u_id v = u_id user" "u_email v = u_email user" "u_disabled v = u_disabled user"
    "u_password_hash v = Some (ph_hash A (draws db) new)" "u_locked_until v = None" "u_failed_logins v = 0"
    "users db' = map (\<lambda>r. if u_id r = u_id user then v else r) (users db)"
    "auth_sessions db' = map (\<lambda>x. if as_user_id x = u_id user \<and> as_id x \<noteq> as_id s \<and> as_revoked_at x = None
       then x\<lparr>as_revoked_at := Some (now E)\<rparr> else x) (auth_sessions db)"
proof -
  let ?v = "user\<lparr>u_password_hash := Some (ph_hash A (draws db) new), u_failed_logins := 0, u_locked_until := None\<rparr>"
  show thesis
    using assms
    by (intro that [of ?v])
      (auto simp: set_password_def bind_res_eq_Inr Let_def update_user_def update_where_def is_user_def)
qed

lemma session_with_user_Some:
  "session_with_user E db tok = Some (u, s) \<longleftrightarrow>
     tok \<noteq> [] \<and> live_session E db tok = Some s \<and> enabled_user db (as_user_id s) = Some u"
  by (auto simp: session_with_user_def split: option.splits)

lemma set_password_route_Inr:
  assumes "set_password_route E A new cur auth cookie db = (Inr b, db')"
  obtains user s where "session_with_user E db (bearer_token auth cookie) = Some (user, s)"
    "set_password E A user s new cur db = Inr db'"
  using assms by (auto simp: set_password_route_def split: option.splits sum.splits if_splits)

text \<open>C30. A change of password ends every other session of the user at once and for good: from then on a token
  that signs this user in belongs to the session that made the change, and that session goes on.\<close>

theorem password_change_ends_other_sessions:
  assumes "session_with_user E db (bearer_token auth cookie) = Some (user, s)"
    and "set_password_route E A new cur auth cookie db = (Inr b, db')"
  shows "(\<forall>t tok v s'. session_with_user (E\<lparr>now := t\<rparr>) db' tok = Some (v, s') \<longrightarrow> u_id v = u_id user \<longrightarrow>
      as_id s' = as_id s) \<and>
    (\<exists>v. session_with_user E db' (bearer_token auth cookie) = Some (v, s) \<and> u_id v = u_id user)"
proof -
  have set: "set_password E A user s new cur db = Inr db'"
    using set_password_route_Inr [OF assms(2)] assms(1) by (metis option.inject prod.inject)
  from set obtain v where v: "u_id v = u_id user" "u_disabled v = u_disabled user"
    "users db' = map (\<lambda>r. if u_id r = u_id user then v else r) (users db)"
    and ss: "auth_sessions db' = map (\<lambda>x. if as_user_id x = u_id user \<and> as_id x \<noteq> as_id s \<and> as_revoked_at x = None
       then x\<lparr>as_revoked_at := Some (now E)\<rparr> else x) (auth_sessions db)"
    by (rule set_password_Inr)
  have live: "live_session E db (bearer_token auth cookie) = Some s" and tok: "bearer_token auth cookie \<noteq> []"
    and user: "enabled_user db (as_user_id s) = Some user"
    using assms(1) by (simp_all add: session_with_user_Some)
  have "as_id s' = as_id s"
    if "session_with_user (E\<lparr>now := t\<rparr>) db' tok' = Some (w, s')" "u_id w = u_id user" for t tok' w s'
  proof -
    have "s' \<in> set (auth_sessions db')" "as_revoked_at s' = None" "as_user_id s' = u_id w"
      using that(1) by (auto simp: session_with_user_Some live_session_def enabled_user_def dest!: one_or_none_Some)
    then show ?thesis using that(2) by (auto simp: ss split: if_splits)
  qed
  moreover have "live_session E db' (bearer_token auth cookie) = Some s"
    using live unfolding live_session_def one_or_none_def ss by (rule find_map_same) (auto split: if_splits)
  moreover have "\<exists>w. enabled_user db' (as_user_id s) = Some w \<and> u_id w = u_id user"
  proof -
    have u: "user \<in> set (users db)" "u_id user = as_user_id s" "\<not> u_disabled user"
      using user by (auto simp: enabled_user_def dest!: one_or_none_Some)
    then have "v \<in> set (users db')" by (force simp: v(3))
    then have "enabled_user db' (as_user_id s) \<noteq> None"
      using u v(1,2) by (auto simp: enabled_user_def one_or_none_def find_None_iff)
    then obtain w where w: "enabled_user db' (as_user_id s) = Some w" by blast
    then have "u_id w = as_user_id s" by (auto simp: enabled_user_def dest!: one_or_none_Some)
    with w u(2) show ?thesis by simp
  qed
  ultimately show ?thesis using tok by (auto simp: session_with_user_Some)
qed

text \<open>What the Argon2 library promises: a password verifies against its own hash.\<close>

definition hasher_ok :: "auth_env \<Rightarrow> bool" where
  "hasher_ok A \<longleftrightarrow> (\<forall>n p. ph_verify A (ph_hash A n p) p = Inr True)"

text \<open>C33. The password just set signs its user in, whatever the state of the account was: a lockout and the
  failures counted before are gone.\<close>

theorem new_password_signs_in:
  assumes "hasher_ok A" "users_ok A db" "find_user db (u_email user) = Some user"
    and "session_with_user E db (bearer_token auth cookie) = Some (user, s)"
    and "set_password_route E A new cur auth cookie db = (Inr b, db')"
  shows "\<exists>v token expires db''. login_password (E\<lparr>now := t\<rparr>) A (u_email user) new db' = Inr (Some (v, token, expires), db'') \<and>
    u_id v = u_id user \<and> (\<exists>r \<in> set (auth_sessions db''). as_token_hash r = sha256_text E token \<and>
      as_user_id r = u_id user \<and> as_revoked_at r = None \<and> as_expires_at r = t + hours (SESSION_TTL_HOURS A))"
proof -
  have set: "set_password E A user s new cur db = Inr db'"
    using set_password_route_Inr [OF assms(5)] assms(4) by (metis option.inject prod.inject)
  from set obtain v where v: "u_id v = u_id user" "u_email v = u_email user" "u_disabled v = u_disabled user"
    "u_password_hash v = Some (ph_hash A (draws db) new)" "u_locked_until v = None"
    and us: "users db' = map (\<lambda>r. if u_id r = u_id user then v else r) (users db)"
    by (rule set_password_Inr)
  have u: "user \<in> set (users db)" by (rule find_user_mem [OF assms(3)])
  have "find_user db' (u_email user) = Some v"
    unfolding find_user_def one_or_none_def us
  proof (rule find_map_user)
    show f: "List.find (\<lambda>u. u_email u = lower (strip (u_email user)) \<and> \<not> u_disabled u) (users db) = Some user"
      using assms(3) by (simp add: find_user_def one_or_none_def)
    then show "u_email v = lower (strip (u_email user)) \<and> \<not> u_disabled v" by (simp add: find_Some_iff v) metis
  qed (use user_unique [OF assms(2)] u in blast)
  moreover have "ph_verify A (ph_hash A (draws db) new) new = Inr True" using assms(1) by (simp add: hasher_ok_def)
  ultimately show ?thesis using v
    by (auto simp: login_password_def locked_def Let_def split_beta create_session_def new_uuid_def sha256_text_def
        digest_def update_user_def)
qed


definition demo_session :: "string \<Rightarrow> string \<Rightarrow> auth_session" where
  "demo_session i h =
     \<lparr>as_id = i, as_user_id = ''alice'', as_token_hash = h, as_method = ''code'',
      as_expires_at = 2000000000000000, as_revoked_at = None, as_created_at = 0\<rparr>"

definition signed_in_db :: db where
  "signed_in_db = auth_db\<lparr>auth_sessions := [demo_session ''s1'' (sha256_text flat_env []), demo_session ''s2'' ''other'']\<rparr>"

lemma demo_signed_in:
  "session_with_user flat_env signed_in_db (bearer_token None (Some ''token'')) =
     Some (demo_user, demo_session ''s1'' (sha256_text flat_env []))"
proof -
  have "sha256_text flat_env ''token'' = sha256_text flat_env []" by (simp add: sha256_text_def flat_env_def digest_def)
  moreover have "now flat_env < 2000000000000000" by (simp add: flat_env_def demo_env_def)
  ultimately show ?thesis
    by (simp add: session_with_user_Some bearer_token_def live_session_def enabled_user_def one_or_none_def
        signed_in_db_def demo_session_def auth_db_def demo_user_def)
qed

lemma demo_set_password:
  "\<exists>b db'. set_password_route flat_env demo_auth ''a longer password'' None None (Some ''token'') signed_in_db = (Inr b, db')"
proof -
  have "validate_password ''a longer password'' ''a@b'' = Inr ()" by code_simp
  then have "\<exists>db'. set_password flat_env demo_auth demo_user (demo_session ''s1'' (sha256_text flat_env [])) ''a longer password''
      None signed_in_db = Inr db'"
    by (simp add: set_password_def demo_session_def demo_user_def Let_def)
  then show ?thesis using demo_signed_in by (auto simp: set_password_route_def)
qed

theorem password_change_ends_other_sessions_witness:
  "\<exists>b db'. set_password_route flat_env demo_auth ''a longer password'' None None (Some ''token'') signed_in_db = (Inr b, db') \<and>
     (\<forall>t tok v s'. session_with_user (flat_env\<lparr>now := t\<rparr>) db' tok = Some (v, s') \<longrightarrow> u_id v = u_id demo_user \<longrightarrow>
        as_id s' = ''s1'')"
proof -
  obtain b db' where r: "set_password_route flat_env demo_auth ''a longer password'' None None (Some ''token'') signed_in_db = (Inr b, db')"
    using demo_set_password by blast
  from password_change_ends_other_sessions [OF demo_signed_in r] r show ?thesis
    by (auto simp: demo_session_def)
qed

theorem new_password_signs_in_witness:
  "\<exists>b db' v token expires db''. set_password_route flat_env demo_auth ''a longer password'' None None (Some ''token'') signed_in_db = (Inr b, db') \<and>
     login_password (flat_env\<lparr>now := 7\<rparr>) demo_auth (u_email demo_user) ''a longer password'' db' = Inr (Some (v, token, expires), db'')"
proof -
  obtain b db' where r: "set_password_route flat_env demo_auth ''a longer password'' None None (Some ''token'') signed_in_db = (Inr b, db')"
    using demo_set_password by blast
  have h: "hasher_ok demo_auth" by (simp add: hasher_ok_def demo_auth_def)
  have o: "users_ok demo_auth signed_in_db" using demo_users_ok by (simp add: users_ok_def signed_in_db_def)
  have f: "find_user signed_in_db (u_email demo_user) = Some demo_user"
    using find_alice [of signed_in_db] by (simp add: signed_in_db_def auth_db_def demo_user_def)
  from new_password_signs_in [OF h o f demo_signed_in r, of 7] r show ?thesis by blast
qed


end
