(* ===== verification/Orgs.thy ===== *)
theory Orgs
  imports HumanAuth Profile
begin

text \<open>
  Organizations: \<^verbatim>\<open>services/orgs.py\<close>, \<^verbatim>\<open>repositories/orgs.py\<close>, \<^verbatim>\<open>domain/org_settings.py\<close>, the routes of
  \<^verbatim>\<open>api/orgs.py\<close> and the routes of \<^verbatim>\<open>api/admin.py\<close> that create an organization, rotate its key and switch its
  onboarding gate.
\<close>

section \<open>org\_settings.py\<close>

definition FAIL_MODES :: "string list" where
  "FAIL_MODES = [''deny_on_error'', ''allow_with_flag'']"

definition REGIONS :: "string list" where
  "REGIONS = [''uae'', ''mena'', ''global'']"

definition DEFAULT_FAIL_MODE :: string where "DEFAULT_FAIL_MODE = ''deny_on_error''"
definition DEFAULT_REGION :: string where "DEFAULT_REGION = ''uae''"

section \<open>repositories/orgs.py\<close>

text \<open>The primary key and the hash of the key are unique.\<close>

definition create_org :: "env \<Rightarrow> string \<Rightarrow> string \<Rightarrow> string \<Rightarrow> string \<Rightarrow> string \<Rightarrow> int \<Rightarrow> db \<Rightarrow> (org \<times> db) res" where
  "create_org E org_id name api_key_hash reg fail_mode retention_days_payload db =
     (let r = \<lparr>o_id = org_id, o_name = name, o_api_key_hash = api_key_hash, o_region = reg,
               o_retention_days_payload = retention_days_payload, o_fail_mode = fail_mode,
               o_confidentiality_mode = ''attest_managed'', o_wrapping_public_pem = None,
               o_requires_profile = True, o_created_at = now E\<rparr>
      in if list_ex (\<lambda>x. o_id x = org_id \<or> o_api_key_hash x = api_key_hash) (orgs db) then Inl IntegrityError
         else Inr (r, db\<lparr>orgs := orgs db @ [r]\<rparr>))"

definition update_org :: "string \<Rightarrow> (org \<Rightarrow> org) \<Rightarrow> db \<Rightarrow> db" where
  "update_org org_id f db = db\<lparr>orgs := update_where (\<lambda>r. o_id r = org_id) f (orgs db)\<rparr>"

definition assign :: "'a option \<Rightarrow> ('a \<Rightarrow> org \<Rightarrow> org) \<Rightarrow> org \<Rightarrow> org" where
  "assign v f r = (case v of None \<Rightarrow> r | Some x \<Rightarrow> f x r)"

definition repo_update_org_settings ::
  "string \<Rightarrow> string option \<Rightarrow> string option \<Rightarrow> int option \<Rightarrow> db \<Rightarrow> (org \<times> db) option" where
  "repo_update_org_settings org_id reg fail_mode retention_days_payload db =
     (case org_by_id db org_id of
        None \<Rightarrow> None
      | Some r \<Rightarrow>
          let f = assign retention_days_payload (\<lambda>x. o_retention_days_payload_update (\<lambda>_. x)) \<circ>
                  assign fail_mode (\<lambda>x. o_fail_mode_update (\<lambda>_. x)) \<circ>
                  assign reg (\<lambda>x. o_region_update (\<lambda>_. x))
          in Some (f r, update_org org_id f db))"

definition org_exists_by_api_key_hash :: "db \<Rightarrow> string \<Rightarrow> bool" where
  "org_exists_by_api_key_hash db api_key_hash = list_ex (\<lambda>r. o_api_key_hash r = api_key_hash) (orgs db)"

definition hash_and_check_unique :: "env \<Rightarrow> db \<Rightarrow> string \<Rightarrow> string res" where
  "hash_and_check_unique E db api_key =
     (let key_hash = hash_api_key E api_key in
      if org_exists_by_api_key_hash db key_hash then Inl ValueError else Inr key_hash)"

section \<open>services/orgs.py\<close>

definition validate_region :: "string \<Rightarrow> string res" where
  "validate_region reg = (if reg \<notin> set REGIONS then Inl InvalidOrgSettingsError else Inr reg)"

definition validate_fail_mode :: "string \<Rightarrow> string res" where
  "validate_fail_mode fail_mode =
     (if fail_mode \<notin> set FAIL_MODES then Inl InvalidOrgSettingsError else Inr fail_mode)"

text \<open>\<open>prefix_\<close> and \<^verbatim>\<open>secrets.token_urlsafe(24)\<close>, of the next draw.\<close>

definition generate_api_key :: "env \<Rightarrow> string \<Rightarrow> db \<Rightarrow> string \<times> db" where
  "generate_api_key E prefix db =
     (prefix @ ''_'' @
      map (\<lambda>c. if c = CHR ''+'' then CHR ''-'' else if c = CHR ''/'' then CHR ''_'' else c)
        (filter (\<lambda>c. c \<noteq> CHR ''='') (b64encode (urandom E (draws db) 24))),
      db\<lparr>draws := Suc (draws db)\<rparr>)"

definition create_org_with_api_key ::
  "env \<Rightarrow> string \<Rightarrow> string \<Rightarrow> string \<Rightarrow> string \<Rightarrow> int \<Rightarrow> string option \<Rightarrow> db \<Rightarrow> ((org \<times> string) \<times> db) res" where
  "create_org_with_api_key E org_id name reg fail_mode retention_days_payload api_key db =
     (if org_by_id db org_id \<noteq> None then Inl ValueError
      else
        bind_res (validate_region reg) (\<lambda>reg.
        bind_res (validate_fail_mode fail_mode) (\<lambda>fail_mode.
        let (plaintext_key, db) =
              (case api_key of
                 Some k \<Rightarrow> if k = [] then generate_api_key E ''wthq'' db else (k, db)
               | None \<Rightarrow> generate_api_key E ''wthq'' db);
            key_hash = hash_api_key E plaintext_key
        in if org_exists_by_api_key_hash db key_hash then Inl ValueError
           else
             bind_res (create_org E org_id name key_hash reg fail_mode retention_days_payload db) (\<lambda>(r, db).
             Inr ((r, plaintext_key), db)))))"

definition enable_customer_key_mode :: "string \<Rightarrow> string \<Rightarrow> db \<Rightarrow> (org \<times> db) res" where
  "enable_customer_key_mode org_id wrapping_public_pem db =
     (case org_by_id db org_id of
        None \<Rightarrow> Inl LookupError
      | Some r \<Rightarrow>
          let f = (\<lambda>r. r\<lparr>o_confidentiality_mode := ''customer_key'',
                        o_wrapping_public_pem := Some wrapping_public_pem\<rparr>)
          in Inr (f r, update_org org_id f db))"

definition checked :: "('a \<Rightarrow> 'a res) \<Rightarrow> 'a option \<Rightarrow> unit res" where
  "checked validate v = (case v of None \<Rightarrow> Inr () | Some x \<Rightarrow> bind_res (validate x) (\<lambda>_. Inr ()))"

definition update_org_settings ::
  "string \<Rightarrow> string option \<Rightarrow> string option \<Rightarrow> int option \<Rightarrow> db \<Rightarrow> (org \<times> db) res" where
  "update_org_settings org_id reg fail_mode retention_days_payload db =
     bind_res (checked validate_region reg) (\<lambda>_.
     bind_res (checked validate_fail_mode fail_mode) (\<lambda>_.
     case repo_update_org_settings org_id reg fail_mode retention_days_payload db of
       None \<Rightarrow> Inl LookupError
     | Some (r, db) \<Rightarrow> Inr (r, db)))"

section \<open>api/orgs.py and api/admin.py\<close>

definition OrgOut :: "org \<Rightarrow> dict" where
  "OrgOut r =
     [(''id'', JStr (o_id r)), (''name'', JStr (o_name r)), (''region'', JStr (o_region r)),
      (''fail_mode'', JStr (o_fail_mode r)), (''retention_days_payload'', JInt (o_retention_days_payload r))]"

text \<open>\<^verbatim>\<open>OrgSettingsUpdate\<close> allows between a day and ten years of retention.\<close>

definition OrgSettingsUpdate :: "int option \<Rightarrow> bool" where
  "OrgSettingsUpdate retention_days_payload =
     (case retention_days_payload of None \<Rightarrow> True | Some n \<Rightarrow> 1 \<le> n \<and> n \<le> 3650)"

definition patch_org_settings ::
  "org \<Rightarrow> string option \<Rightarrow> string option \<Rightarrow> int option \<Rightarrow> db \<Rightarrow> (dict \<times> db) res" where
  "patch_org_settings org reg fail_mode retention_days_payload db =
     (if \<not> OrgSettingsUpdate retention_days_payload then Inl (HTTPException 422)
      else
        case update_org_settings (o_id org) reg fail_mode retention_days_payload db of
          Inl e \<Rightarrow> Inl (HTTPException (if e = InvalidOrgSettingsError then 422 else 500))
        | Inr (r, db) \<Rightarrow> Inr (OrgOut r, db))"

text \<open>The bodies that \<^verbatim>\<open>AdminOrgCreateIn\<close> lets through.\<close>

definition org_id_char :: "char \<Rightarrow> bool" where
  "org_id_char c \<longleftrightarrow>
     is_ascii_range 97 122 c \<or> is_ascii_range 65 90 c \<or> is_ascii_range 48 57 c \<or> c \<in> {CHR ''_'', CHR ''-''}"

definition AdminOrgCreateIn :: "string \<Rightarrow> string \<Rightarrow> string option \<Rightarrow> bool" where
  "AdminOrgCreateIn org_id name api_key \<longleftrightarrow>
     org_id \<noteq> [] \<and> list_all org_id_char org_id \<and> name \<noteq> [] \<and>
     (case api_key of None \<Rightarrow> True | Some k \<Rightarrow> 12 \<le> length (code_points k))"

text \<open>The exceptions that are a \<^verbatim>\<open>ValueError\<close> answer 409.\<close>

definition admin_create_org ::
  "env \<Rightarrow> string \<Rightarrow> string \<Rightarrow> string \<Rightarrow> string option \<Rightarrow> db \<Rightarrow> (dict \<times> db) res" where
  "admin_create_org E org_id name reg api_key db =
     (if \<not> AdminOrgCreateIn org_id name api_key then Inl (HTTPException 422)
      else
        case create_org_with_api_key E org_id name reg DEFAULT_FAIL_MODE 365 api_key db of
          Inl e \<Rightarrow> Inl (HTTPException (if e \<in> {ValueError, InvalidOrgSettingsError} then 409 else 500))
        | Inr ((r, plaintext_key), db) \<Rightarrow>
            Inr ([(''org_id'', JStr (o_id r)), (''api_key'', JStr plaintext_key)], db))"

definition rotate_org_key :: "env \<Rightarrow> string \<Rightarrow> db \<Rightarrow> (dict \<times> db) res" where
  "rotate_org_key E org_id db =
     (case org_by_id db org_id of
        None \<Rightarrow> Inl (HTTPException 404)
      | Some r \<Rightarrow>
          let (plaintext_key, db) = generate_api_key E ''attest'' db;
              key_hash = hash_api_key E plaintext_key
          in if list_ex (\<lambda>x. o_id x \<noteq> org_id \<and> o_api_key_hash x = key_hash) (orgs db) then Inl IntegrityError
             else Inr ([(''org_id'', JStr org_id), (''api_key'', JStr plaintext_key)],
                       update_org org_id (o_api_key_hash_update (\<lambda>_. key_hash)) db))"

definition org_out :: "org \<Rightarrow> org_profile option \<Rightarrow> dict" where
  "org_out r profile =
     (let js = (case profile of None \<Rightarrow> [] | Some p \<Rightarrow> pr_jurisdictions p);
          ss = (case profile of None \<Rightarrow> [] | Some p \<Rightarrow> pr_sectors p)
      in [(''id'', JStr (o_id r)), (''name'', JStr (o_name r)), (''region'', JStr (o_region r)),
          (''confidentiality_mode'', JStr (o_confidentiality_mode r)), (''fail_mode'', JStr (o_fail_mode r)),
          (''created_at'', JStr (isoformat (o_created_at r))),
          (''requires_profile'', JBool (o_requires_profile r)),
          (''profile_configured'', JBool (js \<noteq> [] \<and> ss \<noteq> [])),
          (''jurisdictions'', JList (map JStr js)), (''sectors'', JList (map JStr ss))])"

definition set_require_onboarding :: "string \<Rightarrow> bool \<Rightarrow> db \<Rightarrow> (dict \<times> db) res" where
  "set_require_onboarding org_id required db =
     (case org_by_id db org_id of
        None \<Rightarrow> Inl (HTTPException 404)
      | Some r \<Rightarrow>
          Inr (org_out (r\<lparr>o_requires_profile := required\<rparr>) (get_profile db org_id),
               update_org org_id (o_requires_profile_update (\<lambda>_. required)) db))"

section \<open>The directory of organizations\<close>

datatype org_op =
    CreateOrg string string string "string option"
  | RotateKey string
  | RequireOnboarding string bool
  | PatchSettings org "string option" "string option" "int option"
  | CustomerKey org string

fun org_step :: "env \<Rightarrow> org_op \<Rightarrow> db \<Rightarrow> (dict \<times> db) res" where
  "org_step E (CreateOrg org_id name reg api_key) db = admin_create_org E org_id name reg api_key db"
| "org_step E (RotateKey org_id) db = rotate_org_key E org_id db"
| "org_step E (RequireOnboarding org_id required) db = set_require_onboarding org_id required db"
| "org_step E (PatchSettings org reg fail_mode days) db = patch_org_settings org reg fail_mode days db"
| "org_step E (CustomerKey org pem) db =
     map_sum id (map_prod OrgOut id) (enable_customer_key_mode (o_id org) pem db)"

definition org_ok :: "org \<Rightarrow> bool" where
  "org_ok r \<longleftrightarrow> o_region r \<in> set REGIONS \<and> o_fail_mode r \<in> set FAIL_MODES \<and>
     1 \<le> o_retention_days_payload r \<and> o_retention_days_payload r \<le> 3650 \<and>
     (o_confidentiality_mode r = ''customer_key'' \<longleftrightarrow> o_wrapping_public_pem r \<noteq> None)"

definition directory_ok :: "db \<Rightarrow> bool" where
  "directory_ok db \<longleftrightarrow> distinct (map o_id (orgs db)) \<and> distinct (map o_api_key_hash (orgs db)) \<and>
     list_all org_ok (orgs db)"

lemma org_ok_key [simp]: "org_ok (r\<lparr>o_api_key_hash := h\<rparr>) = org_ok r"
  by (simp add: org_ok_def)

lemma update_org_ok:
  assumes "directory_ok db" "\<And>r. o_id (f r) = o_id r" "\<And>r. o_api_key_hash (f r) = o_api_key_hash r"
    "\<And>r. org_ok r \<Longrightarrow> org_ok (f r)"
  shows "directory_ok (update_org i f db)"
  using assms by (auto simp: directory_ok_def update_org_def map_update_where list_all_iff set_update_where)

lemma distinct_update_key:
  assumes "distinct (map o_id rs)" "distinct (map o_api_key_hash rs)"
    "\<not> list_ex (\<lambda>x. o_id x \<noteq> i \<and> o_api_key_hash x = h) rs"
  shows "distinct (map o_api_key_hash (update_where (\<lambda>r. o_id r = i) (o_api_key_hash_update (\<lambda>_. h)) rs))"
  using assms
proof (induction rs)
  case (Cons r rs)
  let ?u = "update_where (\<lambda>r. o_id r = i) (o_api_key_hash_update (\<lambda>_. h))"
  have h: "x \<in> set (r # rs) \<Longrightarrow> o_id x \<noteq> i \<Longrightarrow> o_api_key_hash x \<noteq> h" for x
    using Cons.prems(3) by (auto simp: list_ex_iff)
  show ?case
  proof (cases "o_id r = i")
    case True
    then have ne: "x \<in> set rs \<Longrightarrow> o_id x \<noteq> i" for x using Cons.prems(1) by (auto simp: image_iff)
    then have "?u rs = rs" by (auto simp: update_where_def intro!: map_idI)
    moreover have "h \<notin> o_api_key_hash ` set rs" using h ne by auto
    ultimately show ?thesis using True Cons.prems(2) by (simp add: update_where_def)
  next
    case False
    then have "o_api_key_hash r \<notin> o_api_key_hash ` set (?u rs)"
      using h [of r] Cons.prems(2) by (auto simp: image_iff set_update_where split: if_splits)
    moreover have "distinct (map o_api_key_hash (?u rs))" using Cons by simp
    moreover have "?u (r # rs) = r # ?u rs" using False by (simp add: update_where_def)
    ultimately show ?thesis by (simp del: map_map)
  qed
qed simp

lemma generate_frame [simp]: "orgs (snd (generate_api_key E p db)) = orgs db"
  by (simp add: generate_api_key_def)

lemma rotate_cases:
  assumes "rotate_org_key E i db = Inr (out, db')"
  obtains r key where "org_by_id db i = Some r" "out = [(''org_id'', JStr i), (''api_key'', JStr key)]"
    "\<not> list_ex (\<lambda>x. o_id x \<noteq> i \<and> o_api_key_hash x = hash_api_key E key) (orgs db)"
    "orgs db' = update_where (\<lambda>r. o_id r = i) (o_api_key_hash_update (\<lambda>_. hash_api_key E key)) (orgs db)"
  using assms
  by (auto simp: rotate_org_key_def generate_api_key_def Let_def update_org_def split: option.splits if_splits)

lemma create_cases:
  assumes "create_org_with_api_key E i name reg fm days k db = Inr ((r, key), db')"
  shows "orgs db' = orgs db @ [r] \<and> o_id r = i \<and> o_api_key_hash r = hash_api_key E key \<and>
    o_region r \<in> set REGIONS \<and> o_fail_mode r \<in> set FAIL_MODES \<and> o_retention_days_payload r = days \<and>
    o_confidentiality_mode r = ''attest_managed'' \<and> o_wrapping_public_pem r = None \<and>
    i \<notin> o_id ` set (orgs db) \<and> hash_api_key E key \<notin> o_api_key_hash ` set (orgs db)"
  using assms
  by (auto simp: create_org_with_api_key_def bind_res_eq_Inr validate_region_def validate_fail_mode_def
      create_org_def generate_api_key_def Let_def list_ex_iff split: if_splits option.splits)

lemma settings_ok:
  assumes "update_org_settings i reg fm days db = Inr (r, db')" "OrgSettingsUpdate days" "directory_ok db"
  shows "directory_ok db'"
proof -
  let ?f = "assign days (\<lambda>x. o_retention_days_payload_update (\<lambda>_. x)) \<circ> assign fm (\<lambda>x. o_fail_mode_update (\<lambda>_. x)) \<circ>
    assign reg (\<lambda>x. o_region_update (\<lambda>_. x))"
  have db': "db' = update_org i ?f db"
    using assms(1) by (auto simp: update_org_settings_def bind_res_eq_Inr repo_update_org_settings_def Let_def
        split: option.splits)
  have "\<And>x. reg = Some x \<Longrightarrow> x \<in> set REGIONS" "\<And>x. fm = Some x \<Longrightarrow> x \<in> set FAIL_MODES"
    using assms(1) by (auto simp: update_org_settings_def bind_res_eq_Inr checked_def validate_region_def
        validate_fail_mode_def split: if_splits)
  then have "org_ok (?f r)" if "org_ok r" for r
    using that assms(2) by (auto simp: org_ok_def assign_def OrgSettingsUpdate_def split: option.splits)
  then show ?thesis unfolding db' by (intro update_org_ok assms(3)) (auto simp: assign_def split: option.splits)
qed

lemma org_step_ok:
  assumes ok: "directory_ok db" and step: "org_step E op db = Inr (out, db')"
  shows "directory_ok db'"
  proof (cases op)
    case (CreateOrg i name reg k)
    then obtain r key where "create_org_with_api_key E i name reg DEFAULT_FAIL_MODE 365 k db = Inr ((r, key), db')"
      using step by (auto simp: admin_create_org_def split: sum.splits prod.splits if_splits)
    from create_cases [OF this] ok show ?thesis
      by (auto simp: directory_ok_def org_ok_def)
  next
    case (RotateKey i)
    with step have "rotate_org_key E i db = Inr (out, db')" by simp
    then obtain key where k: "\<not> list_ex (\<lambda>x. o_id x \<noteq> i \<and> o_api_key_hash x = hash_api_key E key) (orgs db)"
      "orgs db' = update_where (\<lambda>r. o_id r = i) (o_api_key_hash_update (\<lambda>_. hash_api_key E key)) (orgs db)"
      by (rule rotate_cases) blast
    then show ?thesis using ok distinct_update_key [OF _ _ k(1)]
      by (auto simp: directory_ok_def map_update_where list_all_iff set_update_where)
  next
    case (RequireOnboarding i b)
    then show ?thesis using step ok
      by (auto simp: set_require_onboarding_def split: option.splits intro!: update_org_ok simp: org_ok_def)
  next
    case (PatchSettings org reg fm days)
    then obtain r where "OrgSettingsUpdate days" "update_org_settings (o_id org) reg fm days db = Inr (r, db')"
      using step by (auto simp: patch_org_settings_def split: if_splits sum.splits prod.splits)
    then show ?thesis using settings_ok ok by blast
  next
    case (CustomerKey org pem)
    then obtain r where "enable_customer_key_mode (o_id org) pem db = Inr (r, db')"
      using step by (cases "enable_customer_key_mode (o_id org) pem db") auto
    then show ?thesis using ok
      by (auto simp: enable_customer_key_mode_def Let_def split: option.splits intro!: update_org_ok simp: org_ok_def)
qed

text \<open>Each request with the environment it runs in.\<close>

interpretation directory: service "\<lambda>(E, op). org_step E op" directory_ok
  by unfold_locales (auto dest: org_step_ok)

section \<open>Properties\<close>

text \<open>C36. Whatever requests create, configure and re-key organizations, in any order: no two organizations share
  an identifier or the hash of a key, and each has an allowed region, an allowed fail mode, a retention between
  a day and ten years, and a wrapping key exactly when it is in customer-key mode.\<close>

theorem directory_kept: "directory_ok (serve (\<lambda>(E, op). org_step E op) empty_db ops)"
  by (rule directory.serve_inv) (simp add: directory_ok_def empty_db_def)

text \<open>C37. Rotating the key of an organization: the key in the answer opens that organization, a key that opened
  it before opens nothing (unless the two have the same hash), and every other organization keeps its key.\<close>

theorem rotated_key_replaces:
  assumes "directory_ok db" "rotate_org_key E i db = Inr (out, db')"
  shows "\<exists>key r. dget out ''api_key'' = JStr key \<and> resolve_org E db' key = Some r \<and> o_id r = i \<and>
    (\<forall>k r0. resolve_org E db k = Some r0 \<longrightarrow>
       (if o_id r0 \<noteq> i then resolve_org E db' k = Some r0
        else hash_api_key E k = hash_api_key E key \<or> resolve_org E db' k = None))"
proof -
  obtain r key where r: "org_by_id db i = Some r" "out = [(''org_id'', JStr i), (''api_key'', JStr key)]"
    "\<not> list_ex (\<lambda>x. o_id x \<noteq> i \<and> o_api_key_hash x = hash_api_key E key) (orgs db)"
    "orgs db' = update_where (\<lambda>r. o_id r = i) (o_api_key_hash_update (\<lambda>_. hash_api_key E key)) (orgs db)"
    by (rule rotate_cases [OF assms(2)])
  let ?f = "o_api_key_hash_update (\<lambda>_. hash_api_key E key)"
  have "directory_ok db'" using org_step_ok [of db E "RotateKey i"] assms by simp
  then have opens: "x \<in> set (orgs db') \<Longrightarrow> o_api_key_hash x = hash_api_key E k \<Longrightarrow> resolve_org E db' k = Some x" for x k
    using one_or_none_unique [of o_api_key_hash "orgs db'" x] by (simp add: directory_ok_def resolve_org_def)
  have rows: "x \<in> set (orgs db') \<longleftrightarrow> (\<exists>s \<in> set (orgs db). x = (if o_id s = i then ?f s else s))" for x
    by (simp add: r(4) set_update_where)
  have ri: "r \<in> set (orgs db)" "o_id r = i" using one_or_none_Some [OF r(1) [unfolded org_by_id_def]] by auto
  have in_new: "(if o_id s = i then ?f s else s) \<in> set (orgs db')" if "s \<in> set (orgs db)" for s
    unfolding rows using that by blast
  have new: "resolve_org E db' key = Some (?f r)" using in_new [OF ri(1)] ri(2) by (intro opens) simp_all
  have inj: "inj_on o_api_key_hash (set (orgs db))" using assms(1) by (simp add: directory_ok_def distinct_map)
  have old: "if o_id r0 \<noteq> i then resolve_org E db' k = Some r0
      else hash_api_key E k = hash_api_key E key \<or> resolve_org E db' k = None"
    if "resolve_org E db k = Some r0" for k r0
  proof -
    have r0: "r0 \<in> set (orgs db)" "o_api_key_hash r0 = hash_api_key E k"
      using one_or_none_Some [OF that [unfolded resolve_org_def]] by auto
    have only: "s = r0" if "s \<in> set (orgs db)" "o_api_key_hash s = hash_api_key E k" for s
      by (rule inj_onD [OF inj]) (use that r0 in simp_all)
    show ?thesis
    proof (cases "o_id r0 = i")
      case False
      then show ?thesis using in_new [OF r0(1)] r0(2) opens by simp
    next
      case True
      have "hash_api_key E k = hash_api_key E key" if x: "x \<in> set (orgs db')" "o_api_key_hash x = hash_api_key E k" for x
      proof -
        obtain s where s: "s \<in> set (orgs db)" "x = (if o_id s = i then ?f s else s)"
          using x(1) [unfolded rows] by (elim bexE) (rule that)
        show ?thesis
        proof (cases "o_id s = i")
          case False
          then show ?thesis using s x(2) only [of s] True by simp
        qed (use s x(2) in simp)
      qed
      then have "hash_api_key E k = hash_api_key E key \<or> resolve_org E db' k = None"
        unfolding resolve_org_def one_or_none_None by blast
      with True show ?thesis by simp
    qed
  qed
  have "dget out ''api_key'' = JStr key" by (simp add: r(2) dget_def dget_def_def)
  with new old ri(2) show ?thesis by (intro exI [of _ key] exI [of _ "?f r"]) simp
qed

lemma length_api_key_hash [simp]: "length (hash_api_key E k) = 64"
proof -
  have "length (hex bs) = 2 * length bs" for bs by (induction bs) (simp_all add: hex_def hex_byte_def)
  then show ?thesis by (simp add: hash_api_key_def)
qed

definition sample_org :: "string \<Rightarrow> string \<Rightarrow> org" where
  "sample_org i h =
     \<lparr>o_id = i, o_name = i, o_api_key_hash = h, o_region = ''uae'', o_retention_days_payload = 365,
      o_fail_mode = ''deny_on_error'', o_confidentiality_mode = ''attest_managed'',
      o_wrapping_public_pem = None, o_requires_profile = True, o_created_at = 0\<rparr>"

theorem rotated_key_replaces_witness:
  "\<exists>out db'. rotate_org_key demo_env ''a''
       (empty_db\<lparr>orgs := [sample_org ''a'' (hash_api_key demo_env ''key''), sample_org ''b'' ''h'']\<rparr>) = Inr (out, db') \<and>
    (\<exists>key r. dget out ''api_key'' = JStr key \<and> resolve_org demo_env db' key = Some r \<and> o_id r = ''a'')"
proof -
  let ?db = "empty_db\<lparr>orgs := [sample_org ''a'' (hash_api_key demo_env ''key''), sample_org ''b'' ''h'']\<rparr>"
  have ne: "hash_api_key E k \<noteq> ''h''" for E k using length_api_key_hash [of E k] by (auto simp del: length_api_key_hash)
  then have ok: "directory_ok ?db" by (simp add: directory_ok_def org_ok_def sample_org_def REGIONS_def FAIL_MODES_def)
  have "\<exists>out db'. rotate_org_key demo_env ''a'' ?db = Inr (out, db')"
    using ne ne [symmetric] by (simp add: rotate_org_key_def org_by_id_def sample_org_def Let_def split_beta generate_api_key_def)
  then obtain out db' where r: "rotate_org_key demo_env ''a'' ?db = Inr (out, db')" by blast
  from rotated_key_replaces [OF ok r] r show ?thesis by blast
qed

end
