(* ===== verification/AccessReview.thy ===== *)
theory AccessReview
  imports Gate
begin

text \<open>
  \<^verbatim>\<open>services/access_review.py\<close>, \<^verbatim>\<open>services/consent_events.py\<close> and the client side of the ceremony in
  \<^verbatim>\<open>attest_sdk/consent.py\<close>: a request for some records of an organization, its approval by the customer, who
  releases the content keys of those records to the key of the request, and the reads through the grant,
  each of them an event of the request's own trace.
\<close>

section \<open>consent\_events.py\<close>

definition TYPE_REQUEST :: string where "TYPE_REQUEST = ''access_request''"
definition TYPE_APPROVAL :: string where "TYPE_APPROVAL = ''access_approval''"
definition TYPE_RESOLUTION :: string where "TYPE_RESOLUTION = ''access_resolution''"
definition TYPE_READ :: string where "TYPE_READ = ''access_read''"

definition key_fingerprint :: "env \<Rightarrow> string \<Rightarrow> string" where
  "key_fingerprint E pem = hex (digest E pem)"

text \<open>The lock on the trace row serialises writers; a missing row raises.\<close>

definition locked_next_seq :: "db \<Rightarrow> string \<Rightarrow> string \<Rightarrow> int res" where
  "locked_next_seq db org_id trace_id =
     (case get_trace_by_id db trace_id of
        None \<Rightarrow> Inl LookupError
      | Some _ \<Rightarrow> Inr (case last_event_for_trace db org_id trace_id of None \<Rightarrow> 1 | Some l \<Rightarrow> e_seq l + 1))"

definition update_request :: "access_request \<Rightarrow> db \<Rightarrow> db" where
  "update_request req db =
     db\<lparr>access_requests := update_where (\<lambda>r. ar_id r = ar_id req) (\<lambda>_. req) (access_requests db)\<rparr>"

definition start_consent_trace :: "env \<Rightarrow> access_request \<Rightarrow> db \<Rightarrow> (access_request \<times> db) res" where
  "start_consent_trace E req db =
     (let (trace_id, db) = new_uuid E db in
      bind_res (get_or_create_trace E (ar_org_id req) trace_id None db) (\<lambda>(_, db).
      let req = req\<lparr>ar_trace_id := Some trace_id\<rparr> in Inr (req, update_request req db)))"

definition record_consent_event :: "env \<Rightarrow> access_request \<Rightarrow> string \<Rightarrow> dict \<Rightarrow> db \<Rightarrow> db res" where
  "record_consent_event E req event_type payload db =
     (case ar_trace_id req of
        None \<Rightarrow> Inr db
      | Some trace_id \<Rightarrow>
          bind_res (locked_next_seq db (ar_org_id req) trace_id) (\<lambda>seq.
          bind_res (record_event E (ar_org_id req) trace_id seq event_type
                      ((''request_id'', JStr (ar_id req)) # payload) None db) (\<lambda>(_, db). Inr db)))"

section \<open>access\_review.py\<close>

definition get_access_request :: "db \<Rightarrow> string \<Rightarrow> access_request option" where
  "get_access_request db request_id = one_or_none (\<lambda>r. ar_id r = request_id) (access_requests db)"

definition approvals_of :: "db \<Rightarrow> string \<Rightarrow> access_approval list" where
  "approvals_of db request_id = filter (\<lambda>a. aa_request_id a = request_id) (access_approvals db)"

definition approvals_count :: "db \<Rightarrow> string \<Rightarrow> int" where
  "approvals_count db request_id = int (length (approvals_of db request_id))"

definition grants_of :: "db \<Rightarrow> string \<Rightarrow> access_grant_key list" where
  "grants_of db request_id = filter (\<lambda>g. ag_request_id g = request_id) (access_grant_keys db)"

definition is_grant :: "string \<Rightarrow> string \<Rightarrow> access_grant_key \<Rightarrow> bool" where
  "is_grant request_id payload_hash g \<longleftrightarrow> ag_request_id g = request_id \<and> ag_payload_hash g = payload_hash"

text \<open>A payload hash that occurs twice in the scope violates a primary key, as a used id would.\<close>

definition create_access_request ::
  "env \<Rightarrow> string \<Rightarrow> string \<Rightarrow> string list \<Rightarrow> string \<Rightarrow> int \<Rightarrow> int \<Rightarrow> db \<Rightarrow> (access_request \<times> db) res" where
  "create_access_request E org_id requested_by scope reason required_approvals ttl_seconds db =
     (let (private, public) = rsa_generate E (draws db);
          (rid, db) = new_uuid E (db\<lparr>draws := Suc (draws db)\<rparr>);
          req = \<lparr>ar_id = rid, ar_org_id = org_id, ar_requested_by = requested_by, ar_reason = reason,
                 ar_status = ''pending'', ar_required_approvals = max 1 required_approvals,
                 ar_grantee_public_pem = public, ar_grantee_private_pem = private, ar_trace_id = None,
                 ar_created_at = now E, ar_expires_at = now E + ttl_seconds * 1000000\<rparr>
      in if \<not> distinct scope \<or> rid \<in> ar_id ` set (access_requests db) then Inl IntegrityError
         else
           let db = db\<lparr>access_requests := access_requests db @ [req],
                       access_grant_keys := access_grant_keys db @
                         map (\<lambda>h. \<lparr>ag_request_id = rid, ag_payload_hash = h, ag_wrapped_key_b64 = None\<rparr>) scope\<rparr>
           in bind_res (start_consent_trace E req db) (\<lambda>(req, db).
              bind_res (record_consent_event E req TYPE_REQUEST
                [(''requested_by'', JStr requested_by), (''reason'', JStr reason),
                 (''scope'', JList (map JStr (sort scope))),
                 (''required_approvals'', JInt (ar_required_approvals req)),
                 (''expires_at'', JStr (isoformat (ar_expires_at req))),
                 (''grantee_key_fingerprint'', JStr (key_fingerprint E (ar_grantee_public_pem req)))] db) (\<lambda>db.
              Inr (req, db))))"

text \<open>\<^verbatim>\<open>_release_keys\<close>: the loop over the scope; a record without a customer key, or a key that does not open, is
  passed over.\<close>

definition set_grant :: "string \<Rightarrow> string \<Rightarrow> string \<Rightarrow> db \<Rightarrow> db" where
  "set_grant request_id payload_hash wrapped db =
     db\<lparr>access_grant_keys := update_where (is_grant request_id payload_hash)
          (\<lambda>g. g\<lparr>ag_wrapped_key_b64 := Some wrapped\<rparr>) (access_grant_keys db)\<rparr>"

fun release_loop ::
  "env \<Rightarrow> access_request \<Rightarrow> bytes \<Rightarrow> access_grant_key list \<Rightarrow> db \<Rightarrow> (string list \<times> db) res" where
  "release_loop E req org_private_pem [] db = Inr ([], db)"
| "release_loop E req org_private_pem (g # gs) db =
     (case get_payload_key db (ar_org_id req) (ag_payload_hash g) of
        None \<Rightarrow> release_loop E req org_private_pem gs db
      | Some k \<Rightarrow>
          if pk_wrap_alg k = None then release_loop E req org_private_pem gs db
          else
            bind_res (res_of_option ValueError (b64decode (pk_key_b64 k))) (\<lambda>wrapped_for_org.
            case regrant_key E org_private_pem wrapped_for_org (ar_grantee_public_pem req) of
              Inl e \<Rightarrow> if e = KeyWrappingError then release_loop E req org_private_pem gs db else Inl e
            | Inr regranted \<Rightarrow>
                bind_res (release_loop E req org_private_pem gs
                            (set_grant (ar_id req) (ag_payload_hash g) (b64encode regranted) db)) (\<lambda>(rest, db).
                Inr (ag_payload_hash g # rest, db))))"

definition release_keys :: "env \<Rightarrow> access_request \<Rightarrow> bytes \<Rightarrow> db \<Rightarrow> (string list \<times> db) res" where
  "release_keys E req org_private_pem db = release_loop E req org_private_pem (grants_of db (ar_id req)) db"

definition approval_note :: "env \<Rightarrow> string \<Rightarrow> int \<Rightarrow> access_request \<Rightarrow> string list \<Rightarrow> dict" where
  "approval_note E approver_id approvals_now req released =
     [(''approver_id'', JStr approver_id), (''approvals'', JInt approvals_now),
      (''required_approvals'', JInt (ar_required_approvals req)),
      (''released'', JList (map JStr (sort released))), (''status_after'', JStr (ar_status req))]"

definition add_approval :: "env \<Rightarrow> string \<Rightarrow> string \<Rightarrow> db \<Rightarrow> db" where
  "add_approval E request_id approver_id db =
     (let (aid, db) = new_uuid E db in
      db\<lparr>access_approvals := access_approvals db @
        [\<lparr>aa_id = aid, aa_request_id = request_id, aa_approver_id = approver_id, aa_created_at = now E\<rparr>]\<rparr>)"

definition has_approved :: "db \<Rightarrow> string \<Rightarrow> string \<Rightarrow> bool" where
  "has_approved db request_id approver_id =
     list_ex (\<lambda>a. aa_approver_id a = approver_id) (approvals_of db request_id)"

definition approve_access_request ::
  "env \<Rightarrow> string \<Rightarrow> string \<Rightarrow> bytes \<Rightarrow> db \<Rightarrow> (access_request \<times> db) res" where
  "approve_access_request E request_id approver_id org_private_pem db =
     (case get_access_request db request_id of
        None \<Rightarrow> Inl AccessReviewError
      | Some req \<Rightarrow>
          if ar_status req \<noteq> ''pending'' then Inr (req, db)
          else if has_approved db request_id approver_id then Inr (req, db)
          else
            let db = add_approval E request_id approver_id db;
                approvals_now = approvals_count db request_id
            in bind_res (if approvals_now \<ge> ar_required_approvals req
                         then bind_res (release_keys E req org_private_pem db) (\<lambda>(released, db).
                              let req = req\<lparr>ar_status := ''approved''\<rparr>
                              in Inr (released, req, update_request req db))
                         else Inr ([], req, db)) (\<lambda>(released, req, db).
               bind_res (record_consent_event E req TYPE_APPROVAL (approval_note E approver_id approvals_now req released) db)
                 (\<lambda>db. Inr (req, db))))"

definition resolve_access_request :: "env \<Rightarrow> string \<Rightarrow> string \<Rightarrow> db \<Rightarrow> (access_request \<times> db) res" where
  "resolve_access_request E request_id status db =
     (if status \<notin> {''denied'', ''revoked''} then Inl AccessReviewError
      else
      case get_access_request db request_id of
        None \<Rightarrow> Inl AccessReviewError
      | Some req \<Rightarrow>
          if ar_status req = status then Inr (req, db)
          else
            let previous = ar_status req;
                req = req\<lparr>ar_status := status\<rparr>
            in bind_res (record_consent_event E req TYPE_RESOLUTION
                 [(''status_before'', JStr previous), (''status_after'', JStr status)] (update_request req db))
                 (\<lambda>db. Inr (req, db)))"

definition list_access_requests :: "db \<Rightarrow> string \<Rightarrow> string option \<Rightarrow> access_request list" where
  "list_access_requests db org_id status =
     order_desc ar_created_at
       (filter (\<lambda>r. ar_org_id r = org_id \<and> (case status of None \<Rightarrow> True | Some st \<Rightarrow> ar_status r = st))
          (access_requests db))"

text \<open>The scope that the customer's client works on.  An empty \<^verbatim>\<open>wrap_alg\<close> counts as none.\<close>

definition request_scope :: "db \<Rightarrow> string \<Rightarrow> (string \<times> string option) list" where
  "request_scope db request_id =
     (case get_access_request db request_id of
        None \<Rightarrow> []
      | Some req \<Rightarrow>
          map (\<lambda>g. (ag_payload_hash g,
                    case get_payload_key db (ar_org_id req) (ag_payload_hash g) of
                      None \<Rightarrow> None
                    | Some k \<Rightarrow> if pk_wrap_alg k \<in> {None, Some []} then None else Some (pk_key_b64 k)))
            (grants_of db request_id))"

fun store_released :: "string \<Rightarrow> (string \<times> string) list \<Rightarrow> db \<Rightarrow> string list \<times> db" where
  "store_released request_id [] db = ([], db)"
| "store_released request_id ((payload_hash, wrapped) # ks) db =
     (if list_ex (\<lambda>g. ag_payload_hash g = payload_hash) (grants_of db request_id)
      then case store_released request_id ks (set_grant request_id payload_hash wrapped db) of
             (rest, db) \<Rightarrow> (payload_hash # rest, db)
      else store_released request_id ks db)"

definition record_client_approval ::
  "env \<Rightarrow> string \<Rightarrow> string \<Rightarrow> (string \<times> string) list \<Rightarrow> db \<Rightarrow> (access_request \<times> db) res" where
  "record_client_approval E request_id approver_id released_keys db =
     (case get_access_request db request_id of
        None \<Rightarrow> Inl AccessReviewError
      | Some req \<Rightarrow>
          if ar_status req \<noteq> ''pending'' then Inr (req, db)
          else if has_approved db request_id approver_id then Inr (req, db)
          else
            let (released_now, db) = store_released request_id released_keys (add_approval E request_id approver_id db);
                unreleased = filter (\<lambda>g. ag_wrapped_key_b64 g = None) (grants_of db request_id);
                approvals_now = approvals_count db request_id;
                (req, db) = (if approvals_now \<ge> ar_required_approvals req \<and> unreleased = []
                             then let req = req\<lparr>ar_status := ''approved''\<rparr> in (req, update_request req db)
                             else (req, db))
            in bind_res (record_consent_event E req TYPE_APPROVAL (approval_note E approver_id approvals_now req released_now) db)
                 (\<lambda>db. Inr (req, db)))"

definition read_via_grant :: "env \<Rightarrow> string \<Rightarrow> string \<Rightarrow> db \<Rightarrow> (json option \<times> db) res" where
  "read_via_grant E request_id payload_hash db =
     (case get_access_request db request_id of
        None \<Rightarrow> Inr (None, db)
      | Some req \<Rightarrow>
          if ar_status req \<noteq> ''approved'' then Inr (None, db)
          else if ar_expires_at req \<le> now E then Inr (None, db)
          else
          case one_or_none (is_grant request_id payload_hash) (access_grant_keys db) of
            None \<Rightarrow> Inr (None, db)
          | Some item \<Rightarrow>
              (case ag_wrapped_key_b64 item of
                 None \<Rightarrow> Inr (None, db)
               | Some wrapped \<Rightarrow>
                   bind_res (res_of_option ValueError (b64decode wrapped)) (\<lambda>wrapped_key.
                   case unwrap_key E (ar_grantee_private_pem req) wrapped_key of
                     Inl e \<Rightarrow> if e = KeyWrappingError then Inr (None, db) else Inl e
                   | Inr dek \<Rightarrow>
                       (case get_payload db (ar_org_id req) payload_hash of
                          None \<Rightarrow> Inr (None, db)
                        | Some p \<Rightarrow>
                            if p_erased_at p \<noteq> None then Inr (None, db)
                            else
                            case decrypt_content E (p_encrypted_blob p) (b64encode dek)
                                   (aad (p_enc_alg p) (ar_org_id req) payload_hash) of
                              Inl e \<Rightarrow> if e = PayloadShreddedError then Inr (None, db) else Inl e
                            | Inr body \<Rightarrow>
                                bind_res (record_consent_event E req TYPE_READ
                                   [(''payload_hash'', JStr payload_hash), (''reader'', JStr ''attest_admin'')] db)
                                  (\<lambda>db. Inr (Some body, db))))))"

section \<open>The customer's side\<close>

text \<open>\<^verbatim>\<open>ConsentClient.approve\<close>: the keys it releases for the scope it was sent.\<close>

fun released_by_client :: "env \<Rightarrow> bytes \<Rightarrow> bytes \<Rightarrow> (string \<times> string option) list \<Rightarrow> (string \<times> string) list res" where
  "released_by_client E private_pem grantee_public [] = Inr []"
| "released_by_client E private_pem grantee_public ((payload_hash, wrapped_for_org) # scope) =
     (case wrapped_for_org of
        None \<Rightarrow> released_by_client E private_pem grantee_public scope
      | Some b64 \<Rightarrow>
          bind_res (res_of_option ValueError (b64decode b64)) (\<lambda>w.
          bind_res (regrant_key E private_pem w grantee_public) (\<lambda>regranted.
          bind_res (released_by_client E private_pem grantee_public scope) (\<lambda>rest.
          Inr ((payload_hash, b64encode regranted) # rest)))))"

definition client_approve ::
  "env \<Rightarrow> string \<Rightarrow> string \<Rightarrow> bytes \<Rightarrow> db \<Rightarrow> (access_request \<times> db) res" where
  "client_approve E request_id approver_id private_pem db =
     (case get_access_request db request_id of
        None \<Rightarrow> Inl AccessReviewError
      | Some req \<Rightarrow>
          bind_res (released_by_client E private_pem (ar_grantee_public_pem req) (request_scope db request_id))
            (\<lambda>released. record_client_approval E request_id approver_id released db))"

section \<open>Lemmas\<close>

text \<open>A consent event is one event at the end of the trace of the request.\<close>

lemma consent_event:
  assumes "log_ok E db" "service_key_ok E" "record_consent_event E req ty payload db = Inr db'"
  shows "log_ok E db'"
    "case ar_trace_id req of
       None \<Rightarrow> db' = db
     | Some t \<Rightarrow> \<exists>e. events db' = events db @ [e] \<and> e_org_id e = ar_org_id req \<and> e_trace_id e = t \<and> e_type e = ty \<and>
         e_payload_hash e = sha256_hex E (fst (redact_payload ((''request_id'', JStr (ar_id req)) # payload)))"
    "access_requests db' = access_requests db" "access_approvals db' = access_approvals db"
    "access_grant_keys db' = access_grant_keys db"
proof -
  have "log_ok E db' \<and> (case ar_trace_id req of
       None \<Rightarrow> db' = db
     | Some t \<Rightarrow> \<exists>e. events db' = events db @ [e] \<and> e_org_id e = ar_org_id req \<and> e_trace_id e = t \<and> e_type e = ty \<and>
         e_payload_hash e = sha256_hex E (fst (redact_payload ((''request_id'', JStr (ar_id req)) # payload)))) \<and>
    access_requests db' = access_requests db \<and> access_approvals db' = access_approvals db \<and>
    access_grant_keys db' = access_grant_keys db"
  proof (cases "ar_trace_id req")
    case None
    then show ?thesis using assms by (simp add: record_consent_event_def)
  next
    case (Some t)
    then obtain seq out where r: "record_event E (ar_org_id req) t seq ty ((''request_id'', JStr (ar_id req)) # payload) None db = Inr (out, db')"
      using assms(3) by (auto simp: record_consent_event_def bind_res_eq_Inr)
    note l = record_event_log [OF assms(1,2) r]
    from l(5) obtain ts ps ks n where
      db': "db' = db\<lparr>traces := traces db @ ts, payloads := ps, payload_keys := ks, draws := n, events := events db'\<rparr>" by blast
    have "access_requests db' = access_requests db" "access_approvals db' = access_approvals db"
      "access_grant_keys db' = access_grant_keys db" by (subst db'; simp)+
    moreover have "e_org_id (new_event E o' t seq ty p pv h sig kid eid) = o'" "e_trace_id (new_event E o' t seq ty p pv h sig kid eid) = t"
      "e_type (new_event E o' t seq ty p pv h sig kid eid) = ty"
      "e_payload_hash (new_event E o' t seq ty p pv h sig kid eid) = sha256_hex E (fst (redact_payload p))"
      for o' p pv h sig kid eid by (simp_all add: new_event_def Let_def)
    ultimately show ?thesis using l(1,2) Some by force
  qed
  then show "log_ok E db'"
    "case ar_trace_id req of
       None \<Rightarrow> db' = db
     | Some t \<Rightarrow> \<exists>e. events db' = events db @ [e] \<and> e_org_id e = ar_org_id req \<and> e_trace_id e = t \<and> e_type e = ty \<and>
         e_payload_hash e = sha256_hex E (fst (redact_payload ((''request_id'', JStr (ar_id req)) # payload)))"
    "access_requests db' = access_requests db" "access_approvals db' = access_approvals db"
    "access_grant_keys db' = access_grant_keys db" by blast+
qed

text \<open>C19. There is no read without consent and none without a trace: whenever a read through a grant returns
  content, the request is approved and has not expired, the record is in its scope with a released key and has
  not been erased, and the log, still intact, has grown by the event of this very read (for a request with a
  consent trace, which every filed request has).\<close>

theorem read_is_consented_and_recorded:
  assumes "log_ok E db" "service_key_ok E" "read_via_grant E rid h db = Inr (Some body, db')"
  shows "\<exists>req item p. get_access_request db rid = Some req \<and> ar_status req = ''approved'' \<and> now E < ar_expires_at req \<and>
    item \<in> set (access_grant_keys db) \<and> is_grant rid h item \<and> ag_wrapped_key_b64 item \<noteq> None \<and>
    get_payload db (ar_org_id req) h = Some p \<and> p_erased_at p = None \<and> log_ok E db' \<and>
    (\<forall>t. ar_trace_id req = Some t \<longrightarrow> (\<exists>e. events db' = events db @ [e] \<and> e_trace_id e = t \<and> e_type e = TYPE_READ \<and>
       e_payload_hash e = sha256_hex E (fst (redact_payload [(''request_id'', JStr rid), (''payload_hash'', JStr h),
         (''reader'', JStr ''attest_admin'')]))))"
proof -
  note r = assms(3) [unfolded read_via_grant_def]
  obtain req where get: "get_access_request db rid = Some req" using r by (cases "get_access_request db rid") auto
  have st: "ar_status req = ''approved''" "\<not> ar_expires_at req \<le> now E" using r get by (auto split: if_split_asm)
  note r = r [unfolded get option.case, simplified st, simplified]
  obtain item where item: "one_or_none (is_grant rid h) (access_grant_keys db) = Some item"
    using r by (cases "one_or_none (is_grant rid h) (access_grant_keys db)") auto
  note r = r [unfolded item option.case]
  obtain w where w: "ag_wrapped_key_b64 item = Some w" using r by (cases "ag_wrapped_key_b64 item") auto
  note r = r [unfolded w option.case]
  obtain k where k: "b64decode w = Some k" using r by (cases "b64decode w") auto
  note r = r [unfolded k, simplified]
  obtain dek where dek: "unwrap_key E (ar_grantee_private_pem req) k = Inr dek"
    using r by (cases "unwrap_key E (ar_grantee_private_pem req) k") (auto split: if_split_asm)
  note r = r [unfolded dek sum.case]
  obtain p where p: "get_payload db (ar_org_id req) h = Some p" using r by (cases "get_payload db (ar_org_id req) h") auto
  note r = r [unfolded p option.case]
  have er: "p_erased_at p = None" using r by (auto split: if_split_asm)
  obtain c where c: "decrypt_content E (p_encrypted_blob p) (b64encode dek) (aad (p_enc_alg p) (ar_org_id req) h) = Inr c"
    using r er by (cases "decrypt_content E (p_encrypted_blob p) (b64encode dek) (aad (p_enc_alg p) (ar_org_id req) h)")
      (auto split: if_split_asm)
  have rec: "record_consent_event E req TYPE_READ [(''payload_hash'', JStr h), (''reader'', JStr ''attest_admin'')] db = Inr db'"
    using r er c by (auto simp: bind_res_eq_Inr)
  have "ar_id req = rid" using get by (auto simp: get_access_request_def dest!: one_or_none_Some)
  moreover have "item \<in> set (access_grant_keys db)" "is_grant rid h item" using item by (auto dest!: one_or_none_Some)
  ultimately show ?thesis
    using get st w p er consent_event(1,2) [OF assms(1,2) rec] by (auto split: option.splits)
qed

lemma sign_hex_now: "sign_hex (E\<lparr>now := t\<rparr>) = sign_hex E" "verify_hex (E\<lparr>now := t\<rparr>) = verify_hex E"
  by (simp_all add: fun_eq_iff sign_hex_def load_private_key_def verify_hex_def load_public_key_def)

lemma read_file_now: "read_file (E\<lparr>now := t\<rparr>) = read_file E"
  by simp

lemma provider_now:
  "get_signing_provider (E\<lparr>now := t\<rparr>) = get_signing_provider E"
  "provider_sign_hex (E\<lparr>now := t\<rparr>) p m = provider_sign_hex E p m"
  "provider_public_key_pem (E\<lparr>now := t\<rparr>) p = provider_public_key_pem E p"
proof -
  show "get_signing_provider (E\<lparr>now := t\<rparr>) = get_signing_provider E" by (simp add: get_signing_provider_def)
  show "provider_sign_hex (E\<lparr>now := t\<rparr>) p m = provider_sign_hex E p m" by (cases p) (simp_all add: sign_hex_now split: option.split)
  show "provider_public_key_pem (E\<lparr>now := t\<rparr>) p = provider_public_key_pem E p"
    by (cases "(E, p)" rule: provider_public_key_pem.cases) (simp_all add: read_file_now split: option.split)
qed

lemma env_now [simp]:
  "ed_pair (E\<lparr>now := t\<rparr>) = ed_pair E" "sha256_hex (E\<lparr>now := t\<rparr>) = sha256_hex E"
  "load_public_pem (E\<lparr>now := t\<rparr>) = load_public_pem E" "verify_hex (E\<lparr>now := t\<rparr>) = verify_hex E"
  "sign_message_hex (E\<lparr>now := t\<rparr>) = sign_message_hex E"
  by (simp_all add: fun_eq_iff ed_pair_def sha256_hex_def digest_def load_public_pem_def sign_hex_now sign_message_hex_def
      provider_now split: sum.split)

lemma log_ok_now [simp]: "log_ok (E\<lparr>now := t\<rparr>) db = log_ok E db"
  by (simp add: log_ok_def keys_ok_def trace_ok_def event_ok_def del: upt_Suc)

lemma service_key_now [simp]: "service_key_ok (E\<lparr>now := t\<rparr>) = service_key_ok E"
  by (simp add: service_key_ok_def)

section \<open>Histories\<close>

datatype access_op =
    FileRequest string string "string list" string int int
  | ApproveWithKey string string bytes
  | ClientApproval string string "(string \<times> string) list"
  | Resolve string string
  | ReadRecord string string

text \<open>An operation that raises leaves the database as it was.\<close>

definition committed :: "db \<Rightarrow> ('a \<times> db) res \<Rightarrow> db" where
  "committed db r = (case r of Inl _ \<Rightarrow> db | Inr (_, db') \<Rightarrow> db')"

definition access_step :: "env \<Rightarrow> access_op \<Rightarrow> db \<Rightarrow> db" where
  "access_step E op db =
     (case op of
        FileRequest org_id by scope reason n ttl \<Rightarrow> committed db (create_access_request E org_id by scope reason n ttl db)
      | ApproveWithKey rid who priv \<Rightarrow> committed db (approve_access_request E rid who priv db)
      | ClientApproval rid who keys \<Rightarrow> committed db (record_client_approval E rid who keys db)
      | Resolve rid status \<Rightarrow> committed db (resolve_access_request E rid status db)
      | ReadRecord rid h \<Rightarrow> committed db (read_via_grant E rid h db))"

fun run_access :: "env \<Rightarrow> (int \<times> access_op) list \<Rightarrow> db \<Rightarrow> db" where
  "run_access E [] db = db"
| "run_access E ((t, op) # ops) db = run_access E ops (access_step (E\<lparr>now := t\<rparr>) op db)"

text \<open>An approved request has as many approvals as it requires, at least one, each by another approver.\<close>

definition approvers :: "db \<Rightarrow> string \<Rightarrow> string list" where
  "approvers db rid = map aa_approver_id (approvals_of db rid)"

definition quorum_ok :: "db \<Rightarrow> bool" where
  "quorum_ok db \<longleftrightarrow> (\<forall>rid. distinct (approvers db rid)) \<and>
     (\<forall>r \<in> set (access_requests db). 1 \<le> ar_required_approvals r \<and>
        (ar_status r = ''approved'' \<longrightarrow> ar_required_approvals r \<le> approvals_count db (ar_id r)))"

lemma approvals_count_eq: "approvals_count db rid = int (length (approvers db rid))"
  by (simp add: approvals_count_def approvers_def)

lemma add_approval_tables [simp]:
  "access_requests (add_approval E rid who db) = access_requests db"
  "access_grant_keys (add_approval E rid who db) = access_grant_keys db"
  "events (add_approval E rid who db) = events db" "traces (add_approval E rid who db) = traces db"
  "signing_keys (add_approval E rid who db) = signing_keys db" "payloads (add_approval E rid who db) = payloads db"
  "payload_keys (add_approval E rid who db) = payload_keys db"
  by (simp_all add: add_approval_def new_uuid_def Let_def)

lemma approvers_add: "approvers (add_approval E rid who db) r = approvers db r @ (if r = rid then [who] else [])"
  by (simp add: add_approval_def new_uuid_def Let_def approvers_def approvals_of_def)

lemma has_approved_approvers: "has_approved db rid who \<longleftrightarrow> who \<in> set (approvers db rid)"
  by (auto simp: has_approved_def approvers_def list_ex_iff)

text \<open>What the release of keys, the writing of a status and a consent event leave alone.\<close>

definition same_log :: "db \<Rightarrow> db \<Rightarrow> bool" where
  "same_log db db' \<longleftrightarrow> events db' = events db \<and> traces db' = traces db \<and> signing_keys db' = signing_keys db \<and>
     payloads db' = payloads db \<and> payload_keys db' = payload_keys db"

lemma same_log_ok: "log_ok E db \<Longrightarrow> same_log db db' \<Longrightarrow> log_ok E db'"
  by (rule log_ok_same) (simp_all add: same_log_def)

lemma same_log_trans: "same_log a b \<Longrightarrow> same_log b c \<Longrightarrow> same_log a c"
  by (simp add: same_log_def)

lemma update_request_tables [simp]:
  "same_log db (update_request r db)" "access_approvals (update_request r db) = access_approvals db"
  "access_grant_keys (update_request r db) = access_grant_keys db"
  by (simp_all add: update_request_def same_log_def)

lemma release_loop_tables:
  "release_loop E req priv gs db = Inr (rel, db') \<Longrightarrow>
   same_log db db' \<and> access_requests db' = access_requests db \<and> access_approvals db' = access_approvals db"
proof (induction gs arbitrary: db rel)
  case (Cons g gs)
  have s: "same_log d (set_grant a b c d)" "access_requests (set_grant a b c d) = access_requests d"
    "access_approvals (set_grant a b c d) = access_approvals d" for a b c d
    by (simp_all add: set_grant_def same_log_def)
  show ?case
  proof (cases "get_payload_key db (ar_org_id req) (ag_payload_hash g)")
    case None
    then show ?thesis using Cons by simp
  next
    case (Some k)
    note k = this
    show ?thesis
    proof (cases "pk_wrap_alg k = None")
      case True
      then show ?thesis using Cons Some by simp
    next
      case False
      then obtain x where x: "b64decode (pk_key_b64 k) = Some x" using Cons.prems Some
        by (cases "b64decode (pk_key_b64 k)") auto
      show ?thesis
      proof (cases "regrant_key E priv x (ar_grantee_public_pem req)")
        case (Inl e)
        then show ?thesis using Cons k False x by (auto split: if_split_asm)
      next
        case (Inr y)
        then show ?thesis using Cons.prems k False x
          by (auto simp: bind_res_eq_Inr s dest!: Cons.IH intro: same_log_trans [OF s(1)])
      qed
    qed
  qed
qed (simp add: same_log_def)

lemma store_released_tables:
  "store_released rid ks db = (rel, db') \<Longrightarrow>
   same_log db db' \<and> access_requests db' = access_requests db \<and> access_approvals db' = access_approvals db"
proof (induction ks arbitrary: db rel)
  case (Cons k ks)
  obtain h w where k: "k = (h, w)" by fastforce
  have s: "same_log d (set_grant a b c d)" "access_requests (set_grant a b c d) = access_requests d"
    "access_approvals (set_grant a b c d) = access_approvals d" for a b c d
    by (simp_all add: set_grant_def same_log_def)
  from Cons.prems show ?case
    by (auto simp: k split: if_split_asm prod.split_asm dest!: Cons.IH)
      (auto simp: s intro: same_log_trans [OF s(1)])
qed (simp add: same_log_def)

lemma quorum_same:
  "quorum_ok db \<Longrightarrow> access_requests db' = access_requests db \<Longrightarrow> access_approvals db' = access_approvals db \<Longrightarrow> quorum_ok db'"
  by (simp add: quorum_ok_def approvers_def approvals_count_def approvals_of_def)

lemma quorum_update:
  assumes "quorum_ok db" "1 \<le> ar_required_approvals req"
    and "ar_status req = ''approved'' \<longrightarrow> ar_required_approvals req \<le> approvals_count db (ar_id req)"
  shows "quorum_ok (update_request req db)"
  using assms
  by (auto simp: quorum_ok_def approvers_def approvals_count_def approvals_of_def update_request_def set_update_where
      split: if_splits)

lemma quorum_add:
  assumes "quorum_ok db" "\<not> has_approved db rid who"
  shows "quorum_ok (add_approval E rid who db)"
  using assms
  by (auto simp: quorum_ok_def approvers_add has_approved_approvers approvals_count_eq split: if_splits)

lemma quorum_get: "quorum_ok db \<Longrightarrow> get_access_request db rid = Some req \<Longrightarrow>
    1 \<le> ar_required_approvals req \<and> ar_id req = rid \<and> req \<in> set (access_requests db)"
  by (auto simp: get_access_request_def quorum_ok_def dest!: one_or_none_Some)

text \<open>Looking up a request after a write.\<close>

lemma get_request_map:
  "(\<And>r. ar_id (f r) = ar_id r) \<Longrightarrow> access_requests db' = map f (access_requests db) \<Longrightarrow>
   get_access_request db' rid = map_option f (get_access_request db rid)"
proof -
  assume f: "\<And>r. ar_id (f r) = ar_id r" and db': "access_requests db' = map f (access_requests db)"
  have "List.find (\<lambda>r. ar_id r = rid) (map f rs) = map_option f (List.find (\<lambda>r. ar_id r = rid) rs)" for rs
    by (induction rs) (simp_all add: f)
  then show ?thesis by (simp add: get_access_request_def one_or_none_def db')
qed

lemma get_update_request:
  "get_access_request (update_request q db) rid =
     map_option (\<lambda>r. if ar_id r = ar_id q then q else r) (get_access_request db rid)"
  by (rule get_request_map) (simp_all add: update_request_def update_where_def)

definition settled :: "db \<Rightarrow> string \<Rightarrow> bool" where
  "settled db rid \<longleftrightarrow> (\<exists>r. get_access_request db rid = Some r \<and> ar_status r \<in> {''denied'', ''revoked''})"

lemma settled_same: "access_requests db' = access_requests db \<Longrightarrow> settled db' rid = settled db rid"
  by (simp add: settled_def get_access_request_def)

lemma settled_update:
  assumes "settled db rid" "ar_status q \<in> {''denied'', ''revoked''} \<or> \<not> settled db (ar_id q)"
  shows "settled (update_request q db) rid"
proof -
  obtain r where r: "get_access_request db rid = Some r" "ar_status r \<in> {''denied'', ''revoked''}"
    using assms(1) by (auto simp: settled_def)
  then have "ar_id r = rid" by (auto simp: get_access_request_def dest!: one_or_none_Some)
  with r assms show ?thesis by (auto simp: settled_def get_update_request)
qed

text \<open>What every operation keeps.\<close>

definition access_ok :: "env \<Rightarrow> db \<Rightarrow> bool" where
  "access_ok E db \<longleftrightarrow> log_ok E db \<and> quorum_ok db"

definition advances :: "env \<Rightarrow> db \<Rightarrow> db \<Rightarrow> bool" where
  "advances E db db' \<longleftrightarrow> access_ok E db' \<and> (\<forall>rid. settled db rid \<longrightarrow> settled db' rid)"

lemma advances_trans: "advances E a b \<Longrightarrow> advances E b c \<Longrightarrow> advances E a c"
  by (auto simp: advances_def)

lemma advances_same:
  "access_ok E db \<Longrightarrow> same_log db db' \<Longrightarrow> access_requests db' = access_requests db \<Longrightarrow>
   access_approvals db' = access_approvals db \<Longrightarrow> advances E db db'"
  using settled_same same_log_ok quorum_same unfolding advances_def access_ok_def by blast

lemma advances_consent:
  assumes "access_ok E db" "service_key_ok E" "record_consent_event E req ty payload db = Inr db'"
  shows "advances E db db'"
  using consent_event(1,3,4) [OF _ assms(2,3)] assms(1) settled_same quorum_same
  unfolding advances_def access_ok_def by blast

lemma advances_update:
  assumes "access_ok E db" "1 \<le> ar_required_approvals q"
    and "ar_status q = ''approved'' \<longrightarrow> ar_required_approvals q \<le> approvals_count db (ar_id q)"
    and "ar_status q \<in> {''denied'', ''revoked''} \<or> \<not> settled db (ar_id q)"
  shows "advances E db (update_request q db)"
  using assms(1) quorum_update [OF _ assms(2,3)] settled_update [OF _ assms(4)] same_log_ok update_request_tables(1)
  unfolding advances_def access_ok_def by blast

lemma advances_add:
  assumes "access_ok E db" "\<not> has_approved db rid who"
  shows "advances E db (add_approval E' rid who db)"
  using assms quorum_add [OF _ assms(2)] settled_same [of "add_approval E' rid who db" db]
    same_log_ok [of E db "add_approval E' rid who db"]
  by (simp add: advances_def access_ok_def same_log_def)

lemma pending_unsettled: "get_access_request db rid = Some req \<Longrightarrow> ar_status req = ''pending'' \<Longrightarrow> \<not> settled db (ar_id req)"
proof -
  assume g: "get_access_request db rid = Some req" "ar_status req = ''pending''"
  then have "ar_id req = rid" by (auto simp: get_access_request_def dest!: one_or_none_Some)
  with g show ?thesis by (auto simp: settled_def)
qed

lemma advances_resolve:
  assumes "access_ok E db" "service_key_ok E" "resolve_access_request E rid status db = Inr (r, db')"
  shows "advances E db db'"
proof -
  obtain req where get: "get_access_request db rid = Some req" and st: "status \<in> {''denied'', ''revoked''}"
    and res: "ar_status req = status \<and> db' = db \<or>
      (\<exists>p. record_consent_event E (req\<lparr>ar_status := status\<rparr>) TYPE_RESOLUTION p (update_request (req\<lparr>ar_status := status\<rparr>) db) = Inr db')"
    using assms(3) by (auto simp: resolve_access_request_def Let_def bind_res_eq_Inr split: option.split_asm if_split_asm)
  have "1 \<le> ar_required_approvals req" using quorum_get [OF _ get] assms(1) by (simp add: access_ok_def)
  then have u: "advances E db (update_request (req\<lparr>ar_status := status\<rparr>) db)"
    using st by (intro advances_update [OF assms(1)]) auto
  from res show ?thesis
  proof (elim disjE exE)
    assume "ar_status req = status \<and> db' = db"
    then show ?thesis using assms(1) by (simp add: advances_def)
  next
    fix p assume "record_consent_event E (req\<lparr>ar_status := status\<rparr>) TYPE_RESOLUTION p (update_request (req\<lparr>ar_status := status\<rparr>) db) = Inr db'"
    from advances_consent [OF _ assms(2) this] u show ?thesis by (auto simp: advances_def intro: advances_trans)
  qed
qed

lemma find_append: "List.find P (xs @ ys) = (case List.find P xs of None \<Rightarrow> List.find P ys | Some x \<Rightarrow> Some x)"
  by (induction xs) simp_all

lemma advances_approve:
  assumes "access_ok E db" "service_key_ok E" "approve_access_request E rid who priv db = Inr (r, db')"
  shows "advances E db db'"
proof -
  obtain req where get: "get_access_request db rid = Some req" using assms(3)
    by (auto simp: approve_access_request_def split: option.split_asm)
  show ?thesis
  proof (cases "ar_status req \<noteq> ''pending'' \<or> has_approved db rid who")
    case True
    then have "db' = db" using assms(3) get by (auto simp: approve_access_request_def split: if_split_asm)
    then show ?thesis using assms(1) by (simp add: advances_def)
  next
    case False
    let ?d = "add_approval E rid who db"
    have a: "advances E db ?d" using False by (intro advances_add [OF assms(1)]) simp
    have q: "1 \<le> ar_required_approvals req" "ar_id req = rid" using quorum_get [OF _ get] assms(1) by (simp_all add: access_ok_def)
    have p: "\<not> settled ?d rid" using pending_unsettled [OF get] False q(2) settled_same [of ?d db] by simp
    define step where "step = (if approvals_count ?d rid \<ge> ar_required_approvals req
        then bind_res (release_keys E req priv ?d) (\<lambda>(released, db).
               let req = req\<lparr>ar_status := ''approved''\<rparr> in Inr (released, req, update_request req db))
        else Inr ([], req, ?d))"
    have "bind_res step (\<lambda>(released, req, db). bind_res (record_consent_event E req TYPE_APPROVAL
        (approval_note E who (approvals_count ?d rid) req released) db) (\<lambda>db. Inr (req, db))) = Inr (r, db')"
      using assms(3) get False by (simp add: approve_access_request_def Let_def step_def)
    then obtain rel req' d where d: "step = Inr (rel, req', d)"
      and rec: "record_consent_event E req' TYPE_APPROVAL (approval_note E who (approvals_count ?d rid) req' rel) d = Inr db'"
      by (auto simp: bind_res_eq_Inr)
    have "advances E ?d d"
    proof (cases "approvals_count ?d rid \<ge> ar_required_approvals req")
      case False
      then show ?thesis using d a by (auto simp: advances_def step_def)
    next
      case True
      then obtain d1 where k: "release_keys E req priv ?d = Inr (rel, d1)" and d': "d = update_request (req\<lparr>ar_status := ''approved''\<rparr>) d1"
        using d by (auto simp: bind_res_eq_Inr step_def Let_def)
      note t = release_loop_tables [OF k [unfolded release_keys_def]]
      have s: "advances E ?d d1" using t a by (intro advances_same) (auto simp: advances_def)
      have "approvals_count d1 rid = approvals_count ?d rid" using t by (simp add: approvals_count_def approvals_of_def)
      moreover have "\<not> settled d1 rid" using p settled_same [of d1 ?d] t by simp
      ultimately have "advances E d1 d" unfolding d' using s q True by (intro advances_update) (auto simp: advances_def)
      with s show ?thesis by (rule advances_trans)
    qed
    moreover from this have "advances E d db'" using rec by (intro advances_consent [OF _ assms(2) rec]) (simp add: advances_def)
    ultimately show ?thesis using a by (meson advances_trans)
  qed
qed

lemma advances_client:
  assumes "access_ok E db" "service_key_ok E" "record_client_approval E rid who keys db = Inr (r, db')"
  shows "advances E db db'"
proof -
  obtain req where get: "get_access_request db rid = Some req" using assms(3)
    by (auto simp: record_client_approval_def split: option.split_asm)
  show ?thesis
  proof (cases "ar_status req \<noteq> ''pending'' \<or> has_approved db rid who")
    case True
    then have "db' = db" using assms(3) get by (auto simp: record_client_approval_def split: if_split_asm)
    then show ?thesis using assms(1) by (simp add: advances_def)
  next
    case False
    let ?d = "add_approval E rid who db"
    have a: "advances E db ?d" using False by (intro advances_add [OF assms(1)]) simp
    have q: "1 \<le> ar_required_approvals req" "ar_id req = rid" using quorum_get [OF _ get] assms(1) by (simp_all add: access_ok_def)
    obtain rel d1 where k: "store_released rid keys ?d = (rel, d1)" by fastforce
    let ?go = "approvals_count d1 rid \<ge> ar_required_approvals req \<and> filter (\<lambda>g. ag_wrapped_key_b64 g = None) (grants_of d1 rid) = []"
    let ?req = "if ?go then req\<lparr>ar_status := ''approved''\<rparr> else req"
    let ?d2 = "if ?go then update_request (req\<lparr>ar_status := ''approved''\<rparr>) d1 else d1"
    have rec: "record_consent_event E ?req TYPE_APPROVAL (approval_note E who (approvals_count d1 rid) ?req rel) ?d2 = Inr db'"
      using assms(3) get False k by (auto simp: record_client_approval_def Let_def bind_res_eq_Inr split: if_split_asm)
    note t = store_released_tables [OF k]
    have s: "advances E ?d d1" using t a by (intro advances_same) (auto simp: advances_def)
    have "\<not> settled d1 rid" using pending_unsettled [OF get] False q(2) settled_same [of d1 db] t by simp
    then have "advances E d1 (update_request (req\<lparr>ar_status := ''approved''\<rparr>) d1)" if ?go
      using s q that by (intro advances_update) (auto simp: advances_def)
    moreover have "advances E d1 d1" using s by (simp add: advances_def)
    ultimately have "advances E d1 ?d2" by simp
    moreover from this have "advances E ?d2 db'" by (intro advances_consent [OF _ assms(2) rec]) (simp add: advances_def)
    ultimately show ?thesis using a s by (meson advances_trans)
  qed
qed

lemma advances_create:
  assumes "access_ok E db" "service_key_ok E" "create_access_request E o' by' scope reason n ttl db = Inr (r, db')"
  shows "advances E db db'"
proof -
  let ?keys = "rsa_generate E (draws db)" and ?rid = "uuid4 E (Suc (draws db))"
  let ?req = "\<lparr>ar_id = ?rid, ar_org_id = o', ar_requested_by = by', ar_reason = reason, ar_status = ''pending'',
     ar_required_approvals = max 1 n, ar_grantee_public_pem = snd ?keys, ar_grantee_private_pem = fst ?keys,
     ar_trace_id = None, ar_created_at = now E, ar_expires_at = now E + ttl * 1000000\<rparr>"
  let ?d1 = "db\<lparr>draws := Suc (Suc (draws db)), access_requests := access_requests db @ [?req],
     access_grant_keys := access_grant_keys db @ map (\<lambda>h. \<lparr>ag_request_id = ?rid, ag_payload_hash = h, ag_wrapped_key_b64 = None\<rparr>) scope\<rparr>"
  obtain req' d2 p where new: "?rid \<notin> ar_id ` set (access_requests db)"
    and st: "start_consent_trace E ?req ?d1 = Inr (req', d2)"
    and rec: "record_consent_event E req' TYPE_REQUEST p d2 = Inr db'"
    using assms(3)
    by (auto simp: create_access_request_def new_uuid_def Let_def bind_res_eq_Inr split_beta split: if_split_asm)
  let ?d1' = "?d1\<lparr>draws := Suc (Suc (Suc (draws db)))\<rparr>"
  obtain tr t d1 where tr: "get_or_create_trace E o' t None ?d1' = Inr (tr, d1)"
    and req': "req' = ?req\<lparr>ar_trace_id := Some t\<rparr>" and d2: "d2 = update_request req' d1"
    using st by (auto simp: start_consent_trace_def new_uuid_def Let_def bind_res_eq_Inr)
  obtain ts where d1: "d1 = ?d1'\<lparr>traces := traces ?d1' @ ts\<rparr>" using get_or_create_trace_Inr(3) [OF tr] by blast
  have ok: "access_ok E ?d1'"
    using assms(1) new
    by (auto simp: access_ok_def quorum_ok_def approvers_def approvals_of_def approvals_count_def intro: log_ok_same)
  have keep: "settled ?d1' x" if "settled db x" for x
    using that by (auto simp: settled_def get_access_request_def one_or_none_def find_append split: option.splits)
  have "log_ok E d1" using ok get_or_create_log_ok [OF _ tr] by (simp add: access_ok_def)
  moreover have "quorum_ok d1" using ok quorum_same [of ?d1' d1] by (simp add: access_ok_def d1)
  ultimately have ok1: "access_ok E d1" by (simp add: access_ok_def)
  have keep1: "settled d1 x" if "settled db x" for x using keep [OF that] settled_same [of d1 ?d1'] by (simp add: d1)
  have "\<not> settled d1 ?rid"
  proof -
    have "List.find (\<lambda>r. ar_id r = ?rid) (access_requests db) = None" using new unfolding find_None_iff by (metis image_eqI)
    then have "get_access_request d1 ?rid = Some ?req" by (simp add: get_access_request_def one_or_none_def d1 find_append)
    then show ?thesis by (simp add: settled_def)
  qed
  then have "advances E d1 d2" unfolding d2 by (intro advances_update [OF ok1]) (simp_all add: req')
  moreover from this have "advances E d2 db'" by (intro advances_consent [OF _ assms(2) rec]) (simp add: advances_def)
  ultimately show ?thesis using keep1 by (auto simp: advances_def)
qed

lemma advances_read:
  assumes "access_ok E db" "service_key_ok E" "read_via_grant E rid h db = Inr (r, db')"
  shows "advances E db db'"
proof -
  have "db' = db \<or> (\<exists>req p. record_consent_event E req TYPE_READ p db = Inr db')"
    using assms(3)
    by (auto simp: read_via_grant_def bind_res_def split: option.split_asm if_split_asm sum.split_asm)
  then show ?thesis using advances_consent [OF assms(1,2)] assms(1) by (auto simp: advances_def)
qed

lemma advances_step:
  assumes "access_ok E db" "service_key_ok E"
  shows "advances E db (access_step E op db)"
proof -
  have c: "advances E db (committed db r)" if "\<And>x d. r = Inr (x, d) \<Longrightarrow> advances E db d" for r :: "('a \<times> db) res"
    using that assms(1) by (cases r) (auto simp: committed_def advances_def)
  show ?thesis
  proof (cases op)
    case (FileRequest o' w sc re n ttl)
    show ?thesis unfolding FileRequest access_step_def access_op.case by (rule c) (rule advances_create [OF assms])
  next
    case (ApproveWithKey rid who priv)
    show ?thesis unfolding ApproveWithKey access_step_def access_op.case by (rule c) (rule advances_approve [OF assms])
  next
    case (ClientApproval rid who keys)
    show ?thesis unfolding ClientApproval access_step_def access_op.case by (rule c) (rule advances_client [OF assms])
  next
    case (Resolve rid status)
    show ?thesis unfolding Resolve access_step_def access_op.case by (rule c) (rule advances_resolve [OF assms])
  next
    case (ReadRecord rid h)
    show ?thesis unfolding ReadRecord access_step_def access_op.case by (rule c) (rule advances_read [OF assms])
  qed
qed

lemma access_ok_now [simp]: "access_ok (E\<lparr>now := t\<rparr>) db = access_ok E db" "advances (E\<lparr>now := t\<rparr>) = advances E"
  by (simp_all add: access_ok_def advances_def fun_eq_iff)

lemma advances_run: "access_ok E db \<Longrightarrow> service_key_ok E \<Longrightarrow> advances E db (run_access E ops db)"
proof (induction ops arbitrary: db)
  case Nil
  then show ?case by (simp add: advances_def)
next
  case (Cons x ops)
  obtain t op where x: "x = (t, op)" by fastforce
  have s: "advances E db (access_step (E\<lparr>now := t\<rparr>) op db)"
    using advances_step [of "E\<lparr>now := t\<rparr>" db op] Cons.prems by simp
  then show ?case using Cons.IH [of "access_step (E\<lparr>now := t\<rparr>) op db"] Cons.prems(2) advances_trans
    unfolding x run_access.simps by (auto simp: advances_def)
qed

text \<open>C20. Whatever is filed, approved, refused and read, in any order: the log stays intact, and a request is
  approved only with as many approvals as it requires, at least one, each by another approver.\<close>

theorem approval_needs_quorum:
  assumes "access_ok E db" "service_key_ok E"
    and "get_access_request (run_access E ops db) rid = Some req" "ar_status req = ''approved''"
  shows "log_ok E (run_access E ops db) \<and> 1 \<le> ar_required_approvals req \<and>
    distinct (approvers (run_access E ops db) rid) \<and>
    ar_required_approvals req \<le> int (length (approvers (run_access E ops db) rid))"
proof -
  from advances_run [OF assms(1,2), of ops] have ok: "log_ok E (run_access E ops db)" "quorum_ok (run_access E ops db)"
    by (simp_all add: advances_def access_ok_def)
  note g = quorum_get [OF ok(2) assms(3)]
  have "ar_required_approvals req \<le> approvals_count (run_access E ops db) rid"
    using ok(2) g assms(4) by (auto simp: quorum_ok_def)
  with ok g show ?thesis by (simp add: quorum_ok_def approvals_count_eq)
qed

text \<open>A refusal is final: once a request has been denied or revoked, no later history makes a read through
  it return anything, at any time.\<close>

theorem refusal_is_final:
  assumes "access_ok E db" "service_key_ok E" "resolve_access_request E rid status db = Inr (req, db1)"
  shows "\<exists>r. read_via_grant (E\<lparr>now := t\<rparr>) rid h (run_access E ops db1) = Inr (None, r)"
proof -
  have st: "status \<in> {''denied'', ''revoked''}"
    using assms(3) by (auto simp: resolve_access_request_def split: if_split_asm)
  have a: "advances E db db1" by (rule advances_resolve [OF assms])
  have "settled db1 rid"
  proof -
    obtain q where get: "get_access_request db rid = Some q"
      using assms(3) by (auto simp: resolve_access_request_def split: if_split_asm option.split_asm)
    have q: "ar_id q = rid" using get by (auto simp: get_access_request_def dest!: one_or_none_Some)
    show ?thesis
    proof (cases "ar_status q = status")
      case True
      then show ?thesis using assms(3) get st by (auto simp: resolve_access_request_def settled_def)
    next
      case False
      let ?q = "q\<lparr>ar_status := status\<rparr>"
      obtain p where rec: "record_consent_event E ?q TYPE_RESOLUTION p (update_request ?q db) = Inr db1"
        using assms(3) get False by (auto simp: resolve_access_request_def Let_def bind_res_eq_Inr split: if_split_asm)
      have s: "settled (update_request ?q db) rid"
        using get q st by (auto simp: settled_def get_update_request)
      have "1 \<le> ar_required_approvals q" using quorum_get [OF _ get] assms(1) by (simp add: access_ok_def)
      then have "advances E db (update_request ?q db)" using st by (intro advances_update [OF assms(1)]) auto
      then have "advances E (update_request ?q db) db1" by (intro advances_consent [OF _ assms(2) rec]) (simp add: advances_def)
      with s show ?thesis by (simp add: advances_def)
    qed
  qed
  moreover have "advances E db1 (run_access E ops db1)" using a by (intro advances_run [OF _ assms(2)]) (simp add: advances_def)
  ultimately have "settled (run_access E ops db1) rid" by (simp add: advances_def)
  then show ?thesis by (auto simp: settled_def read_via_grant_def)
qed


section \<open>The ceremony\<close>

lemma payload_stays:
  assumes "get_payload db o' h' = Some p" "record_event E org_id t seq ty payload pv db = Inr (out, db')"
  shows "get_payload db' o' h' = Some p"
proof -
  obtain tr db1 db2 e where tr: "get_or_create_trace E org_id t pv db = Inr (tr, db1)"
    and st: "store_encrypted_payload E org_id (e_payload_hash e) (fst (redact_payload payload))
      (snd (redact_payload payload)) db1 = Inr db2"
    and db': "db' = db2\<lparr>draws := Suc (draws db2), events := events db2 @ [e]\<rparr>"
    using assms(2) by (rule record_event_Inr) blast
  have 1: "get_payload db1 o' h' = Some p"
    using assms(1) get_or_create_trace_Inr(3) [OF tr] by (auto simp: get_payload_def)
  have "get_payload db2 o' h' = Some p"
  proof (cases "get_payload db1 org_id (e_payload_hash e)")
    case None
    then show ?thesis using st 1 by (elim store_new) (auto simp: get_payload_append)
  next
    case (Some q)
    then show ?thesis using st 1 by (auto simp: store_encrypted_payload_def)
  qed
  then show ?thesis by (simp add: db' get_payload_def)
qed

lemma consent_payload_stays:
  "get_payload db o' h' = Some p \<Longrightarrow> record_consent_event E req ty payload db = Inr db' \<Longrightarrow> get_payload db' o' h' = Some p"
  by (auto simp: record_consent_event_def bind_res_eq_Inr split: option.split_asm dest: payload_stays)

lemma grant_set:
  "one_or_none (is_grant rid h) (access_grant_keys (set_grant rid' h' v db)) =
     map_option (\<lambda>g. if rid' = rid \<and> h' = h then g\<lparr>ag_wrapped_key_b64 := Some v\<rparr> else g)
       (one_or_none (is_grant rid h) (access_grant_keys db))"
proof -
  have "List.find (is_grant rid h) (update_where (is_grant rid' h') (\<lambda>g. g\<lparr>ag_wrapped_key_b64 := Some v\<rparr>) gs) =
     map_option (\<lambda>g. if rid' = rid \<and> h' = h then g\<lparr>ag_wrapped_key_b64 := Some v\<rparr> else g) (List.find (is_grant rid h) gs)" for gs
    by (induction gs) (auto simp: update_where_def is_grant_def)
  then show ?thesis by (simp add: one_or_none_def set_grant_def)
qed

lemma in_scope: "list_ex (\<lambda>g. ag_payload_hash g = h) (grants_of db rid) \<longleftrightarrow> one_or_none (is_grant rid h) (access_grant_keys db) \<noteq> None"
  by (auto simp: one_or_none_def grants_of_def list_ex_iff is_grant_def find_None_iff)

definition opened :: "string \<Rightarrow> string \<Rightarrow> string \<Rightarrow> db \<Rightarrow> bool" where
  "opened rid h v db \<longleftrightarrow>
     (\<exists>g. one_or_none (is_grant rid h) (access_grant_keys db) = Some g \<and> ag_wrapped_key_b64 g = Some v)"

lemma store_released_opens:
  assumes "store_released rid ks db = (rel, db')" "\<forall>v'. (h, v') \<in> set ks \<longrightarrow> v' = v"
    and "one_or_none (is_grant rid h) (access_grant_keys db) \<noteq> None" "(h, v) \<in> set ks \<or> opened rid h v db"
  shows "opened rid h v db'"
  using assms
proof (induction ks arbitrary: db rel)
  case (Cons k ks)
  obtain h' w where k: "k = (h', w)" by fastforce
  show ?case
  proof (cases "list_ex (\<lambda>g. ag_payload_hash g = h') (grants_of db rid)")
    case False
    then have "h' \<noteq> h" using Cons.prems(3) in_scope by blast
    then show ?thesis using Cons False by (auto simp: k)
  next
    case True
    then obtain rest where r: "store_released rid ks (set_grant rid h' w db) = (rest, db')"
      using Cons.prems(1) by (auto simp: k split: prod.split_asm)
    have "opened rid h v (set_grant rid h' w db)" if "h' = h \<or> opened rid h v db"
      using that Cons.prems(2,3) by (cases "h' = h") (auto simp: opened_def grant_set k)
    then show ?thesis using Cons.prems by (intro Cons.IH [OF r]) (auto simp: k grant_set)
  qed
qed simp

lemma client_step:
  assumes "released_by_client E priv gp ((h, Some b) # scope) = Inr rel"
  obtains w y rest where "b64decode b = Some w" "regrant_key E priv w gp = Inr y"
    "released_by_client E priv gp scope = Inr rest" "rel = (h, b64encode y) # rest"
  using assms by (auto simp: bind_res_eq_Inr)

lemma client_releases:
  assumes "released_by_client E priv gp scope = Inr rel" "(h, v) \<in> set rel"
  shows "\<exists>b w y. (h, Some b) \<in> set scope \<and> b64decode b = Some w \<and> regrant_key E priv w gp = Inr y \<and> v = b64encode y"
  using assms
proof (induction scope arbitrary: rel)
  case (Cons x scope)
  obtain h' b where x: "x = (h', b)" by fastforce
  show ?case
  proof (cases b)
    case None
    then show ?thesis using Cons by (fastforce simp: x)
  next
    case (Some c)
    obtain w y rest where r: "b64decode c = Some w" "regrant_key E priv w gp = Inr y"
      "released_by_client E priv gp scope = Inr rest" "rel = (h', b64encode y) # rest"
      using Cons.prems(1) unfolding x Some by (rule client_step)
    show ?thesis
    proof (cases "(h, v) = (h', b64encode y)")
      case True
      then show ?thesis using r x Some by auto
    next
      case False
      then show ?thesis using Cons.IH [OF r(3)] Cons.prems(2) r(4) by (metis list.set_intros(2) set_ConsD)
    qed
  qed
qed simp

lemma client_releases_all:
  assumes "released_by_client E priv gp scope = Inr rel" "(h, Some b) \<in> set scope"
  shows "h \<in> fst ` set rel"
  using assms
proof (induction scope arbitrary: rel)
  case (Cons x scope)
  obtain h' c where x: "x = (h', c)" by fastforce
  show ?case
  proof (cases c)
    case None
    then show ?thesis using Cons by (simp add: x)
  next
    case (Some d)
    obtain w y rest where r: "released_by_client E priv gp scope = Inr rest" "rel = (h', b64encode y) # rest"
      using Cons.prems(1) unfolding x Some by (rule client_step)
    then show ?thesis using Cons.IH [OF r(1)] Cons.prems(2) by (auto simp: x)
  qed
qed simp

text \<open>C29. Consent opens exactly the record: once the customer's client has released the keys and the request is
  approved, a read of a record in its scope, before it expires, is the decrypted content together with the
  event that records the read, or the failure to record it.\<close>

theorem consent_opens_the_record:
  assumes "log_ok E db" "service_key_ok E"
    and req: "get_access_request db rid = Some req" "ar_status req = ''pending''" "\<not> ar_expires_at req \<le> now E"
    and approve: "client_approve E rid who priv db = Inr (req', db')" "ar_status req' = ''approved''"
    and grantee: "rsa_pair E (ar_grantee_private_pem req) (ar_grantee_public_pem req)"
    and scope: "one_or_none (is_grant rid h) (access_grant_keys db) \<noteq> None"
    and key: "get_payload_key db (ar_org_id req) h = Some k" "pk_wrap_alg k \<notin> {None, Some []}"
      "b64decode (pk_key_b64 k) = Some w" "unwrap_key E priv w = Inr dek"
    and content: "get_payload db (ar_org_id req) h = Some p" "p_erased_at p = None"
      "decrypt_content E (p_encrypted_blob p) (b64encode dek) (aad (p_enc_alg p) (ar_org_id req) h) = Inr body"
  shows "read_via_grant E rid h db' =
    bind_res (record_consent_event E req' TYPE_READ [(''payload_hash'', JStr h), (''reader'', JStr ''attest_admin'')] db')
      (\<lambda>d. Inr (Some body, d))"
proof -
  let ?gp = "ar_grantee_public_pem req" and ?v = "b64encode (rsa_encrypt E (ar_grantee_public_pem req) dek)"
  obtain rel where rel: "released_by_client E priv ?gp (request_scope db rid) = Inr rel"
    and rec: "record_client_approval E rid who rel db = Inr (req', db')"
    using approve(1) req(1) by (auto simp: client_approve_def bind_res_eq_Inr)
  have sc: "(h, b) \<in> set (request_scope db rid) \<Longrightarrow> b = Some (pk_key_b64 k)" for b
    using req(1) key(1,2) by (auto simp: request_scope_def)
  have regrant: "regrant_key E priv w ?gp = Inr (rsa_encrypt E ?gp dek)"
    using key(4) grantee by (simp add: regrant_key_def wrap_key_def rsa_pair_def)
  have only: "\<forall>v'. (h, v') \<in> set rel \<longrightarrow> v' = ?v"
    using client_releases [OF rel, of h] sc key(3) regrant by fastforce
  obtain g where g: "one_or_none (is_grant rid h) (access_grant_keys db) = Some g" using scope by auto
  then have "g \<in> set (grants_of db rid)" "ag_payload_hash g = h" by (auto simp: grants_of_def is_grant_def dest!: one_or_none_Some)
  then have "(h, Some (pk_key_b64 k)) \<in> set (request_scope db rid)"
    using req(1) key(1,2) by (force simp: request_scope_def)
  then have mem: "(h, ?v) \<in> set rel" using client_releases_all [OF rel, of h] only by force
  let ?d = "add_approval E rid who db"
  obtain now1 d1 where st: "store_released rid rel ?d = (now1, d1)" by fastforce
  have op: "opened rid h ?v d1" using store_released_opens [OF st only] scope mem by simp
  note t = store_released_tables [OF st]
  have new: "\<not> has_approved db rid who"
    using rec req approve(2) by (auto simp: record_client_approval_def split: if_split_asm)
  have id: "ar_id req = rid" using req(1) by (auto simp: get_access_request_def dest!: one_or_none_Some)
  let ?go = "approvals_count d1 rid \<ge> ar_required_approvals req \<and> filter (\<lambda>g. ag_wrapped_key_b64 g = None) (grants_of d1 rid) = []"
  have go: ?go
    using rec req new st approve(2) by (auto simp: record_client_approval_def Let_def bind_res_eq_Inr split: if_split_asm)
  let ?req = "req\<lparr>ar_status := ''approved''\<rparr>" and ?d2 = "update_request (req\<lparr>ar_status := ''approved''\<rparr>) d1"
  have req': "req' = ?req" and ev: "\<exists>n. record_consent_event E ?req TYPE_APPROVAL n ?d2 = Inr db'"
    using rec req new st go by (auto simp: record_client_approval_def Let_def bind_res_eq_Inr)
  from ev obtain n where ev: "record_consent_event E ?req TYPE_APPROVAL n ?d2 = Inr db'" by blast
  have sl: "same_log db ?d2" using t by (simp add: same_log_def update_request_def)
  note c = consent_event(3,5) [OF same_log_ok [OF assms(1) sl] assms(2) ev]
  have "get_access_request d1 rid = Some req" using req(1) t by (simp add: get_access_request_def)
  then have "get_access_request ?d2 rid = Some ?req" using id by (simp add: get_update_request)
  then have get: "get_access_request db' rid = Some ?req" using c(1) by (simp add: get_access_request_def)
  obtain item where item: "one_or_none (is_grant rid h) (access_grant_keys db') = Some item" "ag_wrapped_key_b64 item = Some ?v"
    using op c(2) by (auto simp: opened_def)
  have "get_payload ?d2 (ar_org_id req) h = Some p" using content(1) sl by (simp add: get_payload_def same_log_def)
  then have pay: "get_payload db' (ar_org_id req) h = Some p" by (rule consent_payload_stays [OF _ ev])
  have "unwrap_key E (ar_grantee_private_pem req) (rsa_encrypt E ?gp dek) = Inr dek"
    using grantee by (simp add: unwrap_key_def rsa_pair_def res_of_option_def)
  then show ?thesis using get req(3) item pay content(2,3)
    by (simp add: read_via_grant_def req' res_of_option_def)
qed


section \<open>Witnesses\<close>

text \<open>One record of a customer-key organization and one request for it.\<close>

definition demo_request :: "string \<Rightarrow> string option \<Rightarrow> access_request" where
  "demo_request st tr =
     \<lparr>ar_id = ''r'', ar_org_id = ''o'', ar_requested_by = ''ops'', ar_reason = ''audit'', ar_status = st,
      ar_required_approvals = 1, ar_grantee_public_pem = ''R2'', ar_grantee_private_pem = ''R2'', ar_trace_id = tr,
      ar_created_at = 0, ar_expires_at = 2000000000000000\<rparr>"

definition demo_dek :: bytes where "demo_dek = ''K''"
definition demo_org_key :: bytes where "demo_org_key = ''R1'' @ ''K''"
definition demo_grantee_key :: bytes where "demo_grantee_key = ''R2'' @ ''K''"
definition demo_blob :: bytes where "demo_blob = ''NNNNNNNNNNNN'' @ ''K'' @ aad ''alg'' ''o'' ''h'' @ ''{}''"

definition grant_db :: "string \<Rightarrow> string option \<Rightarrow> string option \<Rightarrow> db" where
  "grant_db st tr released = empty_db
     \<lparr>payloads := [\<lparr>p_org_id = ''o'', p_payload_hash = ''h'',
        p_encrypted_blob = b64encode demo_blob, p_enc_alg = ''alg'',
        p_pii_labels = [], p_erased_at = None, p_created_at = 0\<rparr>],
      payload_keys := [\<lparr>pk_org_id = ''o'', pk_payload_hash = ''h'', pk_key_b64 = b64encode demo_org_key,
        pk_wrap_alg = Some ''rsa''\<rparr>],
      access_requests := [demo_request st tr],
      access_grant_keys := [\<lparr>ag_request_id = ''r'', ag_payload_hash = ''h'', ag_wrapped_key_b64 = released\<rparr>],
      traces := [\<lparr>t_id = ''t'', t_org_id = ''o'', t_policy_version = None, t_root_hash = None, t_created_at = 0\<rparr>]\<rparr>"

lemma grant_db_ok: "access_ok demo_env (grant_db ''pending'' tr released)" "log_ok demo_env (grant_db st tr released)"
proof -
  show l: "log_ok demo_env (grant_db st tr released)" for st
    by (simp add: log_ok_def keys_ok_def trace_ok_def trace_events_def vault_ok_def grant_db_def empty_db_def
        payload_id_def key_id_of_def)
  show "access_ok demo_env (grant_db ''pending'' tr released)"
    by (simp add: access_ok_def l) (simp add: quorum_ok_def approvers_def approvals_of_def grant_db_def empty_db_def demo_request_def)
qed

lemma grant_rows:
  "get_access_request (grant_db st tr x) ''r'' = Some (demo_request st tr)"
  "one_or_none (is_grant ''r'' ''h'') (access_grant_keys (grant_db st tr x)) =
     Some \<lparr>ag_request_id = ''r'', ag_payload_hash = ''h'', ag_wrapped_key_b64 = x\<rparr>"
  "has_approved (grant_db st tr x) ''r'' who = False" "approvals_of (grant_db st tr x) ''r'' = []"
  "\<exists>k. get_payload_key (grant_db st tr x) ''o'' ''h'' = Some k \<and> pk_wrap_alg k = Some ''rsa'' \<and> pk_key_b64 k = b64encode demo_org_key"
  "\<exists>p. get_payload (grant_db st tr x) ''o'' ''h'' = Some p \<and> p_erased_at p = None \<and> p_enc_alg p = ''alg'' \<and>
     p_encrypted_blob p = b64encode demo_blob"
  by (simp_all add: grant_db_def empty_db_def get_access_request_def one_or_none_def demo_request_def is_grant_def
      has_approved_def approvals_of_def get_payload_key_def is_payload_key_def get_payload_def is_payload_def)

lemma demo_opens:
  "decrypt_content demo_env (b64encode demo_blob) (b64encode demo_dek) (aad ''alg'' ''o'' ''h'') = Inr (JObj [])"
proof -
  have "loads ''{}'' = Some (JObj [])" by code_simp
  moreover have "aes_decrypt demo_env demo_dek (take NONCE_BYTES demo_blob) (drop NONCE_BYTES demo_blob) (aad ''alg'' ''o'' ''h'') = Some ''{}''"
    using is_prefix_append [of "''K'' @ aad ''alg'' ''o'' ''h''" "''{}''"]
    by (simp add: demo_env_def demo_dek_def demo_blob_def NONCE_BYTES_def)
  ultimately show ?thesis by (simp add: decrypt_content_def res_of_option_def)
qed

lemma demo_unwraps: "unwrap_key demo_env ''R1'' demo_org_key = Inr demo_dek" "unwrap_key demo_env ''R2'' demo_grantee_key = Inr demo_dek"
  by (simp_all add: unwrap_key_def demo_env_def res_of_option_def demo_org_key_def demo_grantee_key_def demo_dek_def)

lemma demo_not_expired: "\<not> ar_expires_at (demo_request st tr) \<le> now demo_env"
  by (simp add: demo_request_def demo_env_def)

lemma demo_consent:
  assumes "ar_trace_id req = Some ''t''" "ar_org_id req = ''o''" "strip ty \<noteq> []"
  shows "\<exists>db'. record_consent_event demo_env req ty payload (grant_db st tr x) = Inr db'"
proof -
  let ?db = "grant_db st tr x"
  have rows: "trace_events ?db ''t'' = []" "last_event_for_trace ?db ''o'' ''t'' = None" "signing_keys ?db = []"
    "get_trace_by_id ?db ''t'' \<noteq> None" "wrapping_pem ?db ''o'' = None" "orgs ?db = []"
    by (simp_all add: grant_db_def empty_db_def trace_events_def last_event_for_trace_def get_trace_by_id_def
        one_or_none_def wrapping_pem_def get_org_by_id_def order_desc_def)
  have own: "t_org_id tr' = ''o''" if "get_trace_by_id ?db ''t'' = Some tr'" for tr'
    using that by (auto simp: grant_db_def get_trace_by_id_def one_or_none_def)
  have "\<exists>out db'. record_event demo_env ''o'' ''t'' 1 ty ((''request_id'', JStr (ar_id req)) # payload) None ?db = Inr (out, db')"
    by (rule record_event_accepts [OF grant_db_ok(2) assms(3) own _ _ demo_can_sign [OF rows(3)]]) (use rows in simp_all)
  then show ?thesis using assms(1,2) rows by (auto simp: record_consent_event_def locked_next_seq_def)
qed

theorem read_is_consented_and_recorded_witness:
  "\<exists>db' e. read_via_grant demo_env ''r'' ''h'' (grant_db ''approved'' (Some ''t'') (Some (b64encode demo_grantee_key))) =
     Inr (Some (JObj []), db') \<and> events db' = [e] \<and> e_type e = TYPE_READ"
proof -
  let ?db = "grant_db ''approved'' (Some ''t'') (Some (b64encode demo_grantee_key))" and ?req = "demo_request ''approved'' (Some ''t'')"
  have "ar_status ?req = ''approved''" "ar_org_id ?req = ''o''" "ar_trace_id ?req = Some ''t''" "ar_grantee_private_pem ?req = ''R2''"
    by (simp_all add: demo_request_def)
  note r = this
  have "strip TYPE_READ \<noteq> []" by code_simp
  then obtain db' where "record_consent_event demo_env ?req TYPE_READ
      [(''payload_hash'', JStr ''h''), (''reader'', JStr ''attest_admin'')] ?db = Inr db'"
    using demo_consent [of ?req TYPE_READ] r by blast
  moreover obtain p where "get_payload ?db ''o'' ''h'' = Some p" "p_erased_at p = None" "p_enc_alg p = ''alg''"
     "p_encrypted_blob p = b64encode demo_blob" using grant_rows(6) by blast
  ultimately have read: "read_via_grant demo_env ''r'' ''h'' ?db = Inr (Some (JObj []), db')"
    using grant_rows(1,2) [of "''approved''" "Some ''t''" "Some (b64encode demo_grantee_key)"] r demo_not_expired [of "''approved''" "Some ''t''"]
      demo_unwraps(2) demo_opens by (simp add: read_via_grant_def res_of_option_def)
  have "events ?db = []" by (simp add: grant_db_def empty_db_def)
  with read_is_consented_and_recorded [OF grant_db_ok(2) demo_keys_ok(1) read] read grant_rows(1) r(3) show ?thesis by fastforce
qed

theorem approval_needs_quorum_witness:
  "\<exists>req. get_access_request (run_access demo_env [(5, ClientApproval ''r'' ''cfo'' [(''h'', ''QQ=='')])] (grant_db ''pending'' None None)) ''r'' = Some req \<and>
     ar_status req = ''approved'' \<and>
     1 \<le> length (approvers (run_access demo_env [(5, ClientApproval ''r'' ''cfo'' [(''h'', ''QQ=='')])] (grant_db ''pending'' None None)) ''r'')"
proof -
  let ?run = "run_access demo_env [(5, ClientApproval ''r'' ''cfo'' [(''h'', ''QQ=='')])] (grant_db ''pending'' None None)"
  have "\<exists>req. get_access_request ?run ''r'' = Some req \<and> ar_status req = ''approved''"
    by (simp add: access_step_def committed_def record_client_approval_def grant_rows Let_def record_consent_event_def
        get_access_request_def one_or_none_def update_request_def update_where_def grants_of_def approvals_count_def
        approvals_of_def add_approval_def new_uuid_def set_grant_def is_grant_def grant_db_def empty_db_def demo_request_def
        has_approved_def)
  then obtain req where r: "get_access_request ?run ''r'' = Some req" "ar_status req = ''approved''" by blast
  from approval_needs_quorum [OF grant_db_ok(1) demo_keys_ok(1) r] r show ?thesis by auto
qed

theorem refusal_is_final_witness:
  "\<exists>req db1 r. resolve_access_request demo_env ''r'' ''denied'' (grant_db ''pending'' None None) = Inr (req, db1) \<and>
     read_via_grant (demo_env\<lparr>now := 9\<rparr>) ''r'' ''h''
       (run_access demo_env [(5, ClientApproval ''r'' ''cfo'' [(''h'', ''QQ=='')])] db1) = Inr (None, r)"
proof -
  obtain req db1 where r: "resolve_access_request demo_env ''r'' ''denied'' (grant_db ''pending'' None None) = Inr (req, db1)"
    using grant_rows(1) [of "''pending''" None None]
    by (simp add: resolve_access_request_def Let_def record_consent_event_def demo_request_def)
  from refusal_is_final [OF grant_db_ok(1) demo_keys_ok(1) r, of 9 "''h''"] r show ?thesis by blast
qed

theorem consent_opens_the_record_witness:
  "\<exists>req db d. client_approve demo_env ''r'' ''cfo'' ''R1'' (grant_db ''pending'' None None) = Inr (req, db) \<and>
     read_via_grant demo_env ''r'' ''h'' db = Inr (Some (JObj []), d)"
proof -
  let ?db = "grant_db ''pending'' None None" and ?q = "demo_request ''pending'' None"
  obtain k where k: "get_payload_key ?db ''o'' ''h'' = Some k" "pk_wrap_alg k = Some ''rsa''" "pk_key_b64 k = b64encode demo_org_key"
    using grant_rows(5) by blast
  obtain p where p: "get_payload ?db ''o'' ''h'' = Some p" "p_erased_at p = None" "p_enc_alg p = ''alg''"
    "p_encrypted_blob p = b64encode demo_blob" using grant_rows(6) by blast
  have q: "ar_org_id ?q = ''o''" "ar_status ?q = ''pending''" "ar_grantee_public_pem ?q = ''R2''" "ar_grantee_private_pem ?q = ''R2''"
    "ar_id ?q = ''r''" "ar_required_approvals ?q = 1" "ar_trace_id ?q = None" by (simp_all add: demo_request_def)
  have pair: "rsa_pair demo_env (ar_grantee_private_pem ?q) (ar_grantee_public_pem ?q)"
    unfolding q by (simp add: rsa_pair_def demo_env_def)
  have grants: "grants_of ?db ''r'' = [\<lparr>ag_request_id = ''r'', ag_payload_hash = ''h'', ag_wrapped_key_b64 = None\<rparr>]"
    by (simp add: grants_of_def grant_db_def)
  have "\<exists>v. released_by_client demo_env ''R1'' ''R2'' (request_scope ?db ''r'') = Inr [(''h'', v)]"
    using k demo_unwraps(1) pair by (simp add: request_scope_def grant_rows q grants regrant_key_def wrap_key_def rsa_pair_def res_of_option_def)
  then obtain v where v: "released_by_client demo_env ''R1'' ''R2'' (request_scope ?db ''r'') = Inr [(''h'', v)]" by blast
  obtain req db where a: "client_approve demo_env ''r'' ''cfo'' ''R1'' ?db = Inr (req, db)" "ar_status req = ''approved''" "ar_trace_id req = None"
    using v by (simp add: client_approve_def record_client_approval_def grant_rows Let_def record_consent_event_def
        get_access_request_def one_or_none_def update_request_def update_where_def grants_of_def approvals_count_def
        approvals_of_def add_approval_def new_uuid_def set_grant_def is_grant_def grant_db_def empty_db_def demo_request_def
        has_approved_def)
  from consent_opens_the_record [OF grant_db_ok(2) demo_keys_ok(1) grant_rows(1) q(2) demo_not_expired a(1,2) pair, of "''h''" k demo_org_key demo_dek p "JObj []"]
  have "read_via_grant demo_env ''r'' ''h'' db = bind_res (record_consent_event demo_env req TYPE_READ
      [(''payload_hash'', JStr ''h''), (''reader'', JStr ''attest_admin'')] db) (\<lambda>d. Inr (Some (JObj []), d))"
    using grant_rows(2) k p demo_unwraps(1) demo_opens by (simp add: q)
  then show ?thesis using a by (simp add: record_consent_event_def)
qed

text \<open>Erasing a record does not reach the key that was released for it: the service answers no read any more,
  but the key in the grant, which the key stored with the request opens, still decrypts the content that is
  left in the database.\<close>

theorem erased_content_still_opens:
  assumes "crypto_shred_payload E (ar_org_id req) h db = (True, db')"
    and "get_access_request db rid = Some req"
    and "opened rid h (b64encode w) db" "unwrap_key E (ar_grantee_private_pem req) w = Inr dek"
    and "get_payload db (ar_org_id req) h = Some p" "p_erased_at p = None"
    and "decrypt_content E (p_encrypted_blob p) (b64encode dek) (aad (p_enc_alg p) (ar_org_id req) h) = Inr body"
  shows "read_via_grant E rid h db' = Inr (None, db') \<and>
    (\<exists>q. get_access_request db' rid = Some req \<and> opened rid h (b64encode w) db' \<and>
       get_payload db' (ar_org_id req) h = Some q \<and> p_erased_at q \<noteq> None \<and>
       decrypt_content E (p_encrypted_blob q) (b64encode dek) (aad (p_enc_alg q) (ar_org_id req) h) = Inr body)"
proof -
  have db': "db' = db\<lparr>payload_keys := payload_keys db', payloads := update_where (\<lambda>p. is_payload (ar_org_id req) h p \<and> p_erased_at p = None)
      (\<lambda>p. p\<lparr>p_erased_at := Some (truncate_second (now E))\<rparr>) (payloads db)\<rparr>"
    using assms(1) by (auto simp: crypto_shred_payload_def split: option.split_asm)
  have same: "get_access_request db' rid = Some req" "opened rid h (b64encode w) db'"
    using assms(2,3) by (subst db'; simp add: get_access_request_def opened_def)+
  let ?q = "p\<lparr>p_erased_at := Some (truncate_second (now E))\<rparr>"
  have "List.find (is_payload (ar_org_id req) h) (update_where (\<lambda>p. is_payload (ar_org_id req) h p \<and> p_erased_at p = None)
      (\<lambda>p. p\<lparr>p_erased_at := Some (truncate_second (now E))\<rparr>) ps) = Some ?q"
    if "List.find (is_payload (ar_org_id req) h) ps = Some p" for ps
    using that assms(6) by (induction ps) (auto simp: update_where_def is_payload_def split: if_split_asm)
  then have q: "get_payload db' (ar_org_id req) h = Some ?q"
    using assms(5) by (subst db') (simp add: get_payload_def one_or_none_def)
  obtain g where g: "one_or_none (is_grant rid h) (access_grant_keys db') = Some g" "ag_wrapped_key_b64 g = Some (b64encode w)"
    using same(2) by (auto simp: opened_def)
  have "read_via_grant E rid h db' = Inr (None, db')"
    using same(1) g assms(4) q by (simp add: read_via_grant_def res_of_option_def)
  moreover have "decrypt_content E (p_encrypted_blob ?q) (b64encode dek) (aad (p_enc_alg ?q) (ar_org_id req) h) = Inr body"
    using assms(7) by simp
  ultimately show ?thesis using same q by fastforce
qed

theorem erased_content_still_opens_witness:
  "\<exists>db'. crypto_shred_payload demo_env ''o'' ''h'' (grant_db ''approved'' None (Some (b64encode demo_grantee_key))) = (True, db') \<and>
     read_via_grant demo_env ''r'' ''h'' db' = Inr (None, db') \<and> opened ''r'' ''h'' (b64encode demo_grantee_key) db'"
proof -
  let ?db = "grant_db ''approved'' None (Some (b64encode demo_grantee_key))" and ?q = "demo_request ''approved'' None"
  have q: "ar_org_id ?q = ''o''" "ar_grantee_private_pem ?q = ''R2''" by (simp_all add: demo_request_def)
  obtain k where "get_payload_key ?db ''o'' ''h'' = Some k" using grant_rows(5) by blast
  then obtain db' where s: "crypto_shred_payload demo_env (ar_org_id ?q) ''h'' ?db = (True, db')"
    by (simp add: q crypto_shred_payload_def)
  obtain p where p: "get_payload ?db ''o'' ''h'' = Some p" "p_erased_at p = None" "p_enc_alg p = ''alg''"
    "p_encrypted_blob p = b64encode demo_blob" using grant_rows(6) by blast
  have o': "opened ''r'' ''h'' (b64encode demo_grantee_key) ?db" by (simp add: opened_def grant_rows)
  from erased_content_still_opens [OF s grant_rows(1) o', of demo_dek p "JObj []"] p demo_opens demo_unwraps(2) s q
  show ?thesis by auto
qed


end
