(* ===== verification/Merkle.thy ===== *)
theory Merkle
  imports Crypto
begin

text \<open>
  \<^verbatim>\<open>app/crypto/merkle.py\<close>: the Merkle root over a batch of event hashes, inclusion proofs, and
  their verification.  A locale states what the climb along a proof needs of the digest and
  proves that it commits to the leaf; it is interpreted on the digest of the environment.
\<close>

section \<open>Definitions\<close>

text \<open>One turn of the loop: an odd level repeats its last node, then neighbours are hashed.\<close>

definition pad_level :: "bytes list \<Rightarrow> bytes list" where
  "pad_level level = (if length level mod 2 = 1 then level @ [last level] else level)"

fun pair_up :: "env \<Rightarrow> bytes list \<Rightarrow> bytes list" where
  "pair_up E (a # b # level) = digest E (a @ b) # pair_up E level"
| "pair_up E _ = []"

definition next_level :: "env \<Rightarrow> bytes list \<Rightarrow> bytes list" where
  "next_level E level = pair_up E (pad_level level)"

lemma length_pad_level: "length (pad_level l) = 2 * ((length l + 1) div 2)"
  unfolding pad_level_def by (simp; presburger)

lemma length_pair_up: "length (pair_up E l) = length l div 2"
  by (induction E l rule: pair_up.induct) auto

lemma length_next_level: "length (next_level E l) = (length l + 1) div 2"
  by (simp add: next_level_def length_pair_up length_pad_level)

function root_loop :: "env \<Rightarrow> bytes list \<Rightarrow> bytes list" where
  "root_loop E level = (if 1 < length level then root_loop E (next_level E level) else level)"
  by pat_completeness auto
termination
  by (relation "measure (\<lambda>(E, level). length level)") (auto simp: length_next_level)

definition merkle_root :: "env \<Rightarrow> string list \<Rightarrow> string res" where
  "merkle_root E leaf_hexes =
     (if leaf_hexes = [] then Inr (hex (digest E []))
      else bind_res (map_res (\<lambda>h. res_of_option ValueError (fromhex h)) leaf_hexes) (\<lambda>level.
             Inr (hex (root_loop E level ! 0))))"

definition sibling_idx :: "nat \<Rightarrow> nat" where
  "sibling_idx idx = (if idx mod 2 = 1 then idx - 1 else idx + 1)"

function proof_loop :: "env \<Rightarrow> bytes list \<Rightarrow> nat \<Rightarrow> bytes list" where
  "proof_loop E level idx =
     (if 1 < length level
      then (pad_level level ! sibling_idx idx) # proof_loop E (next_level E level) (idx div 2)
      else [])"
  by pat_completeness auto
termination
  by (relation "measure (\<lambda>(E, level, idx). length level)") (auto simp: length_next_level)

declare root_loop.simps [simp del] and proof_loop.simps [simp del]

definition merkle_proof :: "env \<Rightarrow> string list \<Rightarrow> int \<Rightarrow> string list res" where
  "merkle_proof E leaf_hexes index =
     (if leaf_hexes = [] then Inr []
      else if index < 0 \<or> int (length leaf_hexes) \<le> index then Inl IndexError
      else bind_res (map_res (\<lambda>h. res_of_option ValueError (fromhex h)) leaf_hexes) (\<lambda>level.
             Inr (map hex (proof_loop E level (nat index)))))"

text \<open>The climb from a leaf, and the inputs it hashes on the way.\<close>

fun climb :: "(bytes \<Rightarrow> bytes) \<Rightarrow> bytes \<Rightarrow> int \<Rightarrow> bytes list \<Rightarrow> bytes" where
  "climb H current idx [] = current"
| "climb H current idx (s # proof) =
     climb H (if idx mod 2 = 1 then H (s @ current) else H (current @ s)) (idx div 2) proof"

fun climb_inputs :: "(bytes \<Rightarrow> bytes) \<Rightarrow> bytes \<Rightarrow> int \<Rightarrow> bytes list \<Rightarrow> bytes list" where
  "climb_inputs H current idx [] = []"
| "climb_inputs H current idx (s # proof) =
     (let x = (if idx mod 2 = 1 then s @ current else current @ s)
      in x # climb_inputs H (H x) (idx div 2) proof)"

definition verify_merkle_proof :: "env \<Rightarrow> string \<Rightarrow> int \<Rightarrow> string list \<Rightarrow> string \<Rightarrow> bool res" where
  "verify_merkle_proof E leaf_hex index prf root_hex =
     bind_res (res_of_option ValueError (fromhex leaf_hex)) (\<lambda>current.
     bind_res (map_res (\<lambda>h. res_of_option ValueError (fromhex h)) prf) (\<lambda>siblings.
     Inr (hex (climb (digest E) current index siblings) = root_hex)))"

section \<open>Completeness of inclusion proofs\<close>

lemma map_res_fromhex_hex: "map_res (\<lambda>h. res_of_option ValueError (fromhex h)) (map hex bs) = Inr bs"
  by (induction bs) auto

lemma pair_up_nth:
  "2 * k + 1 < length l \<Longrightarrow> pair_up E l ! k = digest E (l ! (2 * k) @ l ! (2 * k + 1))"
proof (induction E l arbitrary: k rule: pair_up.induct)
  case (1 E a b level)
  then show ?case by (cases k) auto
qed auto

lemma next_level_nth:
  assumes "idx < length l"
  shows "next_level E l ! (idx div 2) =
    (if idx mod 2 = 1 then digest E (pad_level l ! (idx - 1) @ pad_level l ! idx)
     else digest E (pad_level l ! idx @ pad_level l ! (idx + 1)))"
proof -
  have "2 * (idx div 2) + 1 < length (pad_level l)"
    using assms by (simp add: length_pad_level) presburger
  then have "next_level E l ! (idx div 2) =
      digest E (pad_level l ! (2 * (idx div 2)) @ pad_level l ! (2 * (idx div 2) + 1))"
    by (simp add: next_level_def pair_up_nth)
  moreover have "idx mod 2 = 1 \<Longrightarrow> 2 * (idx div 2) = idx - 1 \<and> 2 * (idx div 2) + 1 = idx"
    "idx mod 2 \<noteq> 1 \<Longrightarrow> 2 * (idx div 2) = idx \<and> 2 * (idx div 2) + 1 = idx + 1"
    by presburger+
  ultimately show ?thesis by auto
qed

lemma pad_level_nth: "idx < length l \<Longrightarrow> pad_level l ! idx = l ! idx"
  by (simp add: pad_level_def nth_append)

lemma climb_proof_loop:
  "idx < length level \<Longrightarrow>
   climb (digest E) (level ! idx) (int idx) (proof_loop E level idx) = root_loop E level ! 0"
proof (induction E level arbitrary: idx rule: root_loop.induct)
  case (1 E level)
  show ?case
  proof (cases "1 < length level")
    case False
    with "1.prems" have "idx = 0" by simp
    with False show ?thesis by (simp add: proof_loop.simps [of E level] root_loop.simps [of E level])
  next
    case True
    let ?n = "next_level E level"
    have i: "idx div 2 < length ?n"
      using "1.prems" by (simp add: length_next_level)
    have c: "(if int idx mod 2 = 1 then digest E (pad_level level ! sibling_idx idx @ level ! idx)
        else digest E (level ! idx @ pad_level level ! sibling_idx idx)) = ?n ! (idx div 2)"
      using next_level_nth [OF "1.prems"] "1.prems"
      by (auto simp: sibling_idx_def pad_level_nth zmod_int)
    have "climb (digest E) (level ! idx) (int idx) (proof_loop E level idx) =
        climb (digest E) (?n ! (idx div 2)) (int (idx div 2)) (proof_loop E ?n (idx div 2))"
      using True by (subst proof_loop.simps) (simp add: c zdiv_int)
    also have "\<dots> = root_loop E ?n ! 0" by (rule "1.IH" [OF True i])
    also have "\<dots> = root_loop E level ! 0" using True by (subst (2) root_loop.simps) simp
    finally show ?thesis .
  qed
qed

section \<open>The climb commits to the leaf\<close>

text \<open>The interface: a digest of fixed length.  Two climbs of the same length from leaves of the
  same length, at the same index, that end in the same node either started from the same leaf with
  the same siblings or hashed two different inputs to the same digest.\<close>

locale fixed_digest =
  fixes H :: "bytes \<Rightarrow> bytes" and n :: nat
  assumes digest_length: "length (H x) = n"
begin

lemma climb_commits:
  assumes "length a = length b" and "length p = length q" and "climb H a idx p = climb H b idx q"
  shows "a = b \<and> p = q \<or>
    (\<exists>x \<in> set (climb_inputs H a idx p). \<exists>y \<in> set (climb_inputs H b idx q). x \<noteq> y \<and> H x = H y)"
  using assms
proof (induction p arbitrary: a b idx q)
  case Nil
  then show ?case by simp
next
  case (Cons s p)
  then obtain t q' where q: "q = t # q'" by (cases q) auto
  define x where "x = (if idx mod 2 = 1 then s @ a else a @ s)"
  define y where "y = (if idx mod 2 = 1 then t @ b else b @ t)"
  have eq: "climb H (H x) (idx div 2) p = climb H (H y) (idx div 2) q'"
    using Cons.prems(3) by (simp add: q x_def y_def if_distrib)
  have "length p = length q'" using Cons.prems(2) by (simp add: q)
  from Cons.IH [OF _ this eq] have
    "H x = H y \<and> p = q' \<or> (\<exists>u \<in> set (climb_inputs H (H x) (idx div 2) p).
       \<exists>v \<in> set (climb_inputs H (H y) (idx div 2) q'). u \<noteq> v \<and> H u = H v)"
    by (simp add: digest_length)
  then show ?case
  proof
    assume h: "H x = H y \<and> p = q'"
    show ?thesis
    proof (cases "x = y")
      case True
      with Cons.prems(1) have "a = b \<and> s = t" by (auto simp: x_def y_def split: if_splits)
      with h show ?thesis by (simp add: q)
    next
      case False
      with h show ?thesis by (auto simp: q x_def y_def Let_def)
    qed
  next
    assume "\<exists>u \<in> set (climb_inputs H (H x) (idx div 2) p).
       \<exists>v \<in> set (climb_inputs H (H y) (idx div 2) q'). u \<noteq> v \<and> H u = H v"
    then show ?thesis unfolding q climb_inputs.simps Let_def x_def y_def by (meson list.set_intros(2))
  qed
qed

end

interpretation batch_digest: fixed_digest "digest E" 32 for E
  by unfold_locales simp


section \<open>The root commits to the leaves\<close>

fun level_inputs :: "bytes list \<Rightarrow> bytes list" where
  "level_inputs (a # b # level) = (a @ b) # level_inputs level"
| "level_inputs _ = []"

function root_inputs :: "env \<Rightarrow> bytes list \<Rightarrow> bytes list" where
  "root_inputs E level =
     (if 1 < length level then level_inputs (pad_level level) @ root_inputs E (next_level E level)
      else [])"
  by pat_completeness auto
termination
  by (relation "measure (\<lambda>(E, level). length level)") (auto simp: length_next_level)

declare root_inputs.simps [simp del]

lemma pair_up_commits:
  assumes "length l = length m" and "\<forall>x \<in> set l \<union> set m. length x = 32" and "even (length l)"
    and "pair_up E l = pair_up E m"
  shows "l = m \<or> collision E (set (level_inputs l)) (set (level_inputs m))"
  using assms
proof (induction E l arbitrary: m rule: pair_up.induct)
  case (1 E a b level)
  then obtain c d m' where m: "m = c # d # m'"
    by (cases m; cases "tl m") auto
  from 1 have "level = m' \<or> collision E (set (level_inputs level)) (set (level_inputs m'))"
    by (auto simp: m)
  moreover have "digest E (a @ b) = digest E (c @ d)" using 1 by (simp add: m)
  moreover have "a @ b = c @ d \<longleftrightarrow> a = c \<and> b = d" using 1 by (auto simp: m)
  ultimately show ?case by (auto simp: m collision_def)
qed auto

lemma pad_level_inject: "length l = length m \<Longrightarrow> pad_level l = pad_level m \<Longrightarrow> l = m"
  by (auto simp: pad_level_def split: if_splits)

lemma set_pad_level: "set (pad_level l) \<subseteq> set l \<union> (if l = [] then {} else {last l})"
  by (auto simp: pad_level_def)

lemma pad_level_lengths: "\<forall>x \<in> set l. length x = 32 \<Longrightarrow> \<forall>x \<in> set (pad_level l). length x = 32"
  by (cases "l = []") (auto simp: pad_level_def)

lemma next_level_lengths: "\<forall>x \<in> set (next_level E l). length x = 32"
proof -
  have "\<forall>x \<in> set (pair_up E k). length x = 32" for k
    by (induction E k rule: pair_up.induct) auto
  then show ?thesis by (simp add: next_level_def)
qed

lemma next_level_commits:
  assumes "length l = length m" and "\<forall>x \<in> set l \<union> set m. length x = 32"
    and "next_level E l = next_level E m"
  shows "l = m \<or> collision E (set (level_inputs (pad_level l))) (set (level_inputs (pad_level m)))"
proof -
  have "pad_level l = pad_level m \<or>
      collision E (set (level_inputs (pad_level l))) (set (level_inputs (pad_level m)))"
    using assms by (intro pair_up_commits)
      (auto simp: next_level_def length_pad_level dest: pad_level_lengths [rule_format, rotated])
  then show ?thesis using pad_level_inject [OF assms(1)] by blast
qed

lemma collision_mono:
  "collision E A B \<Longrightarrow> A \<subseteq> A' \<Longrightarrow> B \<subseteq> B' \<Longrightarrow> collision E A' B'"
  by (auto simp: collision_def)

lemma root_loop_commits:
  assumes "length l = length m" and "\<forall>x \<in> set l \<union> set m. length x = 32"
    and "root_loop E l = root_loop E m"
  shows "l = m \<or> collision E (set (root_inputs E l)) (set (root_inputs E m))"
  using assms
proof (induction E l arbitrary: m rule: root_loop.induct)
  case (1 E l)
  show ?case
  proof (cases "1 < length l")
    case False
    with "1.prems" show ?thesis by (simp add: root_loop.simps [of E l] root_loop.simps [of E m])
  next
    case True
    let ?l = "next_level E l" and ?m = "next_level E m"
    have sub: "set (level_inputs (pad_level k)) \<subseteq> set (root_inputs E k)"
      "set (root_inputs E (next_level E k)) \<subseteq> set (root_inputs E k)" if "length k = length l" for k
      using True that by (simp_all add: root_inputs.simps [of E k])
    have "root_loop E ?l = root_loop E ?m"
      using True "1.prems" by (simp add: root_loop.simps [of E l] root_loop.simps [of E m])
    then have "?l = ?m \<or> collision E (set (root_inputs E ?l)) (set (root_inputs E ?m))"
      using "1.prems" next_level_lengths by (intro "1.IH" [OF True]) (auto simp: length_next_level)
    then show ?thesis
    proof
      assume "?l = ?m"
      from next_level_commits [OF "1.prems"(1,2) this] show ?thesis
        using sub(1) [of l] sub(1) [of m] "1.prems"(1) by (auto intro: collision_mono)
    next
      assume "collision E (set (root_inputs E ?l)) (set (root_inputs E ?m))"
      then show ?thesis using sub(2) [of l] sub(2) [of m] "1.prems"(1)
        by (auto intro: collision_mono)
    qed
  qed
qed

lemma root_loop_singleton: "level \<noteq> [] \<Longrightarrow> length (root_loop E level) = 1"
proof (induction E level rule: root_loop.induct)
  case (1 E level)
  show ?case
  proof (cases "1 < length level")
    case True
    have "0 < length (next_level E level)"
      using True by (simp add: length_next_level)
    then have "next_level E level \<noteq> []" by simp
    with "1.IH" [OF True] True show ?thesis by (simp add: root_loop.simps [of E level])
  next
    case False
    then have "root_loop E level = level" by (simp add: root_loop.simps [of E level])
    moreover have "length level = 1" using False "1.prems" by (cases level) auto
    ultimately show ?thesis by simp
  qed
qed


lemma map_res_fromhex_iff:
  "map_res (\<lambda>h. res_of_option ValueError (fromhex h)) hs = Inr bs \<longleftrightarrow> map fromhex hs = map Some bs"
  by (induction hs arbitrary: bs) (auto simp: bind_res_eq_Inr)

lemma root_loop_dup:
  assumes "even (length xs)" and "xs \<noteq> []"
  shows "root_loop E (xs @ [x]) = root_loop E (xs @ [x, x])"
proof -
  have "pad_level (xs @ [x]) = xs @ [x, x]" "pad_level (xs @ [x, x]) = xs @ [x, x]"
    using assms by (auto simp: pad_level_def mod_2_eq_odd)
  then show ?thesis using assms
    by (simp add: root_loop.simps [of E "xs @ [x]"] root_loop.simps [of E "xs @ [x, x]"] next_level_def)
qed

section \<open>Properties\<close>

lemma inclusion_proof:
  assumes "map fromhex leaf_hexes = map Some level" and "i < length leaf_hexes"
  shows "\<exists>rt prf. merkle_root E leaf_hexes = Inr rt \<and> merkle_proof E leaf_hexes (int i) = Inr prf
    \<and> verify_merkle_proof E (leaf_hexes ! i) (int i) prf rt = Inr True"
proof -
  have ne: "leaf_hexes \<noteq> []" using assms(2) by auto
  have len: "length level = length leaf_hexes" using assms(1) by (metis length_map)
  have r: "map_res (\<lambda>h. res_of_option ValueError (fromhex h)) leaf_hexes = Inr level"
    using assms(1) by (simp add: map_res_fromhex_iff)
  have leaf: "fromhex (leaf_hexes ! i) = Some (level ! i)"
    using assms len by (metis nth_map)
  have "climb (digest E) (level ! i) (int i) (proof_loop E level i) = root_loop E level ! 0"
    using assms(2) len by (simp add: climb_proof_loop)
  then have "verify_merkle_proof E (leaf_hexes ! i) (int i) (map hex (proof_loop E level i))
      (hex (root_loop E level ! 0)) = Inr True"
    using leaf by (simp add: verify_merkle_proof_def map_res_fromhex_hex)
  then show ?thesis using ne r assms(2) by (simp add: merkle_root_def merkle_proof_def)
qed

text \<open>C16. Completeness of inclusion proofs: for every batch of hexadecimal leaves and every index
  in range, \<^verbatim>\<open>merkle_proof\<close> and \<^verbatim>\<open>merkle_root\<close> return, and the proof of the leaf at that index
  verifies against the root.\<close>

theorem merkle_proof_verifies:
  assumes "map fromhex leaf_hexes = map Some level" and "i < length leaf_hexes"
  shows "\<exists>rt prf. merkle_root E leaf_hexes = Inr rt \<and> merkle_proof E leaf_hexes (int i) = Inr prf
    \<and> verify_merkle_proof E (leaf_hexes ! i) (int i) prf rt = Inr True"
  using assms by (rule inclusion_proof)

theorem merkle_proof_verifies_witness:
  "\<exists>rt prf. merkle_root demo_env [''0a'', ''0b'', ''0c''] = Inr rt
    \<and> merkle_proof demo_env [''0a'', ''0b'', ''0c''] (int 2) = Inr prf
    \<and> verify_merkle_proof demo_env ([''0a'', ''0b'', ''0c''] ! 2) (int 2) prf rt = Inr True"
proof -
  have "map fromhex [''0a'', ''0b'', ''0c''] =
      map Some [[char_of (10::nat)], [char_of (11::nat)], [char_of (12::nat)]]"
    by (simp add: hex_val_def is_digit_def is_fromhex_space_def)
  from merkle_proof_verifies [OF this, of 2] show ?thesis by simp
qed



text \<open>The root of a batch commits to all of its leaves: two batches with the same number of
  32-byte leaves and the same root are the same batch, unless computing the two roots hashed two
  different inputs to the same digest.\<close>

theorem merkle_root_binding:
  assumes "merkle_root E xs = Inr rt" and "merkle_root E ys = Inr rt"
    and "map fromhex xs = map Some ls" and "map fromhex ys = map Some ms"
    and "length xs = length ys" and "\<forall>b \<in> set ls \<union> set ms. length b = 32"
  shows "ls = ms \<or> collision E (set (root_inputs E ls)) (set (root_inputs E ms))"
proof (cases "xs = []")
  case True
  with assms(3-5) show ?thesis by simp
next
  case False
  moreover from False assms(5) have "ys \<noteq> []" by auto
  ultimately have "root_loop E ls ! 0 = root_loop E ms ! 0"
    using assms(1-4) by (auto simp: merkle_root_def map_res_fromhex_iff [symmetric])
  moreover have "ls \<noteq> []" "ms \<noteq> []" using False assms(3-5) by auto
  then have "length (root_loop E ls) = 1" "length (root_loop E ms) = 1"
    by (blast intro: root_loop_singleton)+
  ultimately have "root_loop E ls = root_loop E ms"
    by (metis One_nat_def less_one nth_equalityI)
  moreover have "length ls = length ms" using assms(3-5) by (metis length_map)
  ultimately show ?thesis using root_loop_commits assms(6) by blast
qed

theorem merkle_root_binding_witness:
  "\<exists>rt. merkle_root demo_env [hex (digest demo_env ''a''), hex (digest demo_env ''b'')] = Inr rt
    \<and> ([digest demo_env ''a'', digest demo_env ''b''] = [digest demo_env ''a'', digest demo_env ''b'']
       \<or> collision demo_env
            (set (root_inputs demo_env [digest demo_env ''a'', digest demo_env ''b'']))
            (set (root_inputs demo_env [digest demo_env ''a'', digest demo_env ''b''])))"
proof -
  let ?ls = "[digest demo_env ''a'', digest demo_env ''b'']"
  have m: "map fromhex (map hex ?ls) = map Some ?ls" by simp
  obtain rt where r: "merkle_root demo_env (map hex ?ls) = Inr rt"
    using map_res_fromhex_hex [of ?ls] by (simp add: merkle_root_def)
  from merkle_root_binding [OF r r m m refl] r show ?thesis by simp
qed

text \<open>The number of leaves is not part of the commitment: repeating the last leaf of a batch of
  odd size (of at least three) gives the same root, so the root of a batch is also the root of a
  batch that lists its last event twice.\<close>

theorem merkle_root_duplicate_last:
  assumes "map fromhex xs = map Some ls" and "fromhex x = Some l"
    and "even (length xs)" and "xs \<noteq> []"
  shows "merkle_root E (xs @ [x]) = merkle_root E (xs @ [x, x])"
proof -
  have "map_res (\<lambda>h. res_of_option ValueError (fromhex h)) (xs @ [x]) = Inr (ls @ [l])"
    "map_res (\<lambda>h. res_of_option ValueError (fromhex h)) (xs @ [x, x]) = Inr (ls @ [l, l])"
    using assms(1,2) by (simp_all add: map_res_fromhex_iff)
  moreover have "even (length ls)" "ls \<noteq> []" using assms by (auto dest: arg_cong [where f = length])
  ultimately show ?thesis using root_loop_dup [of ls E l] by (simp add: merkle_root_def)
qed

theorem merkle_root_duplicate_last_witness:
  "merkle_root demo_env ([''0a'', ''0b''] @ [''0c'']) = merkle_root demo_env ([''0a'', ''0b''] @ [''0c'', ''0c''])"
proof -
  have "map fromhex [''0a'', ''0b''] = map Some [[char_of (10::nat)], [char_of (11::nat)]]"
    "fromhex ''0c'' = Some [char_of (12::nat)]"
    by (simp_all add: hex_val_def is_digit_def is_fromhex_space_def)
  from merkle_root_duplicate_last [OF this] show ?thesis by simp
qed

end
