(* ===== verification/Batching.thy ===== *)
theory Batching
  imports EventLog Merkle
begin

text \<open>
  Sealing and anchoring: \<^verbatim>\<open>app/repositories/batches.py\<close>, \<^verbatim>\<open>app/services/batching.py\<close>,
  \<^verbatim>\<open>app/services/anchoring.py\<close> and \<^verbatim>\<open>app/services/anchor_batches.py\<close>.  The timestamp authority is
  a parameter \<open>tsa\<close>: from its URL and the bytes to stamp, a response, or nothing when the request
  fails or the response is not a timestamp response.
\<close>

section \<open>repositories/batches.py\<close>

definition unbatched_events :: "db \<Rightarrow> event list" where
  "unbatched_events db = order_asc e_created_at (filter (\<lambda>e. e_batch_id e = None) (events db))"

definition insert_batch ::
  "env \<Rightarrow> string option \<Rightarrow> string \<Rightarrow> string \<Rightarrow> string list \<Rightarrow> int \<Rightarrow> db \<Rightarrow> batch \<times> db" where
  "insert_batch E org_id rt signature event_ids sealed_at db =
     (let (bid, db) = new_uuid E db;
          b = \<lparr>b_id = bid, b_org_id = org_id, b_root = rt, b_signature = signature,
               b_event_ids = event_ids, b_sealed_at = sealed_at\<rparr>
      in (b, db\<lparr>batches := batches db @ [b]\<rparr>))"

definition assign_events_to_batch :: "string list \<Rightarrow> string \<Rightarrow> db \<Rightarrow> db" where
  "assign_events_to_batch event_ids batch_id db =
     db\<lparr>events :=
          update_where (\<lambda>e. e_id e \<in> set event_ids) (\<lambda>e. e\<lparr>e_batch_id := Some batch_id\<rparr>) (events db)\<rparr>"

definition batch_by_id :: "db \<Rightarrow> string \<Rightarrow> batch option" where
  "batch_by_id db batch_id = one_or_none (\<lambda>b. b_id b = batch_id) (batches db)"

definition batches_for_event_ids :: "db \<Rightarrow> string list \<Rightarrow> batch list" where
  "batches_for_event_ids db event_ids =
     filter (\<lambda>b. \<exists>e \<in> set (events db). e_batch_id e = Some (b_id b) \<and> e_id e \<in> set event_ids)
       (batches db)"

definition anchor_of :: "db \<Rightarrow> string \<Rightarrow> anchor option" where
  "anchor_of db batch_id = one_or_none (\<lambda>a. an_batch_id a = batch_id) (anchors db)"

definition unanchored_batches :: "db \<Rightarrow> batch list" where
  "unanchored_batches db = order_asc b_sealed_at (filter (\<lambda>b. anchor_of db (b_id b) = None) (batches db))"

definition insert_anchor :: "env \<Rightarrow> string \<Rightarrow> string \<Rightarrow> string \<Rightarrow> int \<Rightarrow> db \<Rightarrow> (anchor \<times> db) res" where
  "insert_anchor E batch_id kind token anchored_at db =
     (let (aid, db) = new_uuid E db;
          a = \<lparr>an_id = aid, an_batch_id = batch_id, an_kind = kind, an_token = token,
               an_anchored_at = anchored_at\<rparr>
      in if list_ex (\<lambda>x. an_batch_id x = batch_id) (anchors db) then Inl IntegrityError
         else Inr (a, db\<lparr>anchors := anchors db @ [a]\<rparr>))"

section \<open>batching.py\<close>

record sealed_batch_result =
  sb_batch_id :: string
  sb_root :: string
  sb_signature :: string
  sb_event_count :: nat

text \<open>The batch carries an organization only when all its events have the same one.\<close>

definition single_org :: "event list \<Rightarrow> string option" where
  "single_org es =
     (case remdups (map e_org_id es) of [org_id] \<Rightarrow> Some org_id | _ \<Rightarrow> None)"

definition seal_batch :: "env \<Rightarrow> db \<Rightarrow> (sealed_batch_result option \<times> db) res" where
  "seal_batch E db =
     (let es = unbatched_events db in
      if es = [] then Inr (None, db)
      else
      bind_res (merkle_root E (map e_hash es)) (\<lambda>rt.
      bind_res (sign_message_hex E rt) (\<lambda>signature.
      let (b, db) = insert_batch E (single_org es) rt signature (map e_id es)
                      (truncate_second (now E)) db;
          db = assign_events_to_batch (map e_id es) (b_id b) db
      in Inr (Some \<lparr>sb_batch_id = b_id b, sb_root = rt, sb_signature = signature,
                    sb_event_count = length es\<rparr>, db))))"

section \<open>anchoring.py, anchor\_batches.py\<close>

definition request_tsa_timestamp ::
  "(string \<Rightarrow> bytes \<Rightarrow> bytes option) \<Rightarrow> bytes \<Rightarrow> string \<Rightarrow> bytes res" where
  "request_tsa_timestamp tsa root_bytes url = res_of_option TsaRequestError (tsa url root_bytes)"

definition encode_token_b64 :: "bytes \<Rightarrow> string" where
  "encode_token_b64 token = b64encode token"

definition decode_token_b64 :: "string \<Rightarrow> bytes res" where
  "decode_token_b64 token_b64 = res_of_option ValueError (b64decode token_b64)"

record anchor_result =
  ar_batch_id :: string
  ar_anchor_id :: string
  ar_kind :: string
  ar_anchored_at :: string

definition anchor_batch ::
  "env \<Rightarrow> (string \<Rightarrow> bytes \<Rightarrow> bytes option) \<Rightarrow> string \<Rightarrow> db \<Rightarrow> (anchor_result \<times> db) res" where
  "anchor_batch E tsa batch_id db =
     (case batch_by_id db batch_id of
        None \<Rightarrow> Inl ValueError
      | Some b \<Rightarrow>
          if anchor_of db (b_id b) \<noteq> None then Inl ValueError
          else
          bind_res (res_of_option ValueError (fromhex (b_root b))) (\<lambda>root_bytes.
          bind_res (request_tsa_timestamp tsa root_bytes (tsa_url (the_settings E))) (\<lambda>token_bytes.
          bind_res (insert_anchor E batch_id ''rfc3161'' (encode_token_b64 token_bytes)
                      (truncate_second (now E)) db) (\<lambda>(a, db).
          Inr (\<lparr>ar_batch_id = batch_id, ar_anchor_id = an_id a, ar_kind = ''rfc3161'',
                ar_anchored_at = now_utc_iso E\<rparr>, db)))))"

fun anchor_loop ::
  "env \<Rightarrow> (string \<Rightarrow> bytes \<Rightarrow> bytes option) \<Rightarrow> batch list \<Rightarrow> db \<Rightarrow> (anchor_result list \<times> db) res" where
  "anchor_loop E tsa [] db = Inr ([], db)"
| "anchor_loop E tsa (b # bs) db =
     bind_res (anchor_batch E tsa (b_id b) db) (\<lambda>(r, db).
     bind_res (anchor_loop E tsa bs db) (\<lambda>(rs, db). Inr (r # rs, db)))"

definition anchor_unanchored_batches ::
  "env \<Rightarrow> (string \<Rightarrow> bytes \<Rightarrow> bytes option) \<Rightarrow> db \<Rightarrow> (anchor_result list \<times> db) res" where
  "anchor_unanchored_batches E tsa db = anchor_loop E tsa (unanchored_batches db) db"

section \<open>Lemmas\<close>

text \<open>Changing only the batch of events leaves every trace as it was.\<close>

lemma assign_log_ok: "log_ok E db \<Longrightarrow> log_ok E (assign_events_to_batch ids b db)"
  unfolding assign_events_to_batch_def by (rule annotate_log_ok) (simp_all add: sealed_fields_iff)

lemma seal_batch_Some:
  assumes "seal_batch E db = Inr (Some r, db')"
  obtains b where "unbatched_events db \<noteq> []"
    "merkle_root E (map e_hash (unbatched_events db)) = Inr (sb_root r)"
    "sign_message_hex E (sb_root r) = Inr (sb_signature r)"
    "b = \<lparr>b_id = uuid4 E (draws db), b_org_id = single_org (unbatched_events db), b_root = sb_root r,
          b_signature = sb_signature r, b_event_ids = map e_id (unbatched_events db),
          b_sealed_at = truncate_second (now E)\<rparr>"
    "sb_batch_id r = b_id b" "sb_event_count r = length (unbatched_events db)"
    "db' = assign_events_to_batch (map e_id (unbatched_events db)) (b_id b)
       (db\<lparr>draws := Suc (draws db), batches := batches db @ [b]\<rparr>)"
  using assms
  by (auto simp: seal_batch_def Let_def bind_res_eq_Inr insert_batch_def new_uuid_def
      split: if_splits)

lemma set_unbatched: "set (unbatched_events db) = {e \<in> set (events db). e_batch_id e = None}"
  by (auto simp: unbatched_events_def)

lemma seal_log_ok:
  assumes "log_ok E db" "seal_batch E db = Inr (r, db')"
  shows "log_ok E db'"
proof (cases r)
  case None
  then show ?thesis using assms
    by (auto simp: seal_batch_def Let_def bind_res_eq_Inr split: if_splits prod.splits)
next
  case (Some s)
  with assms(2) have "seal_batch E db = Inr (Some s, db')" by simp
  then obtain b where db': "db' = assign_events_to_batch (map e_id (unbatched_events db)) (b_id b)
       (db\<lparr>draws := Suc (draws db), batches := batches db @ [b]\<rparr>)"
    by (rule seal_batch_Some)
  have "log_ok E (db\<lparr>draws := Suc (draws db), batches := batches db @ [b]\<rparr>)"
    using assms(1) by (rule log_ok_frame) (use assms(1) in \<open>simp_all add: log_ok_def vault_ok_def\<close>)
  then show ?thesis unfolding db' by (rule assign_log_ok)
qed

section \<open>Properties\<close>

lemma log_ok_events: "log_ok E db \<Longrightarrow> e \<in> set (events db) \<Longrightarrow> event_ok E db e"
  by (rule log_okD(1) [where t = "e_trace_id e"]) (simp_all add: trace_events_def)

lemma unbatched_hashes:
  assumes "log_ok E db"
  shows "\<exists>level. map fromhex (map e_hash (unbatched_events db)) = map Some level"
proof -
  have "\<forall>e \<in> set (unbatched_events db). e_hash e = hex (digest E (canonical_bytes (e_envelope e)))"
    using log_ok_events [OF assms] by (auto simp: set_unbatched event_ok_def sha256_hex_def)
  then have "map fromhex (map e_hash (unbatched_events db)) =
      map Some (map (\<lambda>e. digest E (canonical_bytes (e_envelope e))) (unbatched_events db))"
    by (simp add: fromhex_hex)
  then show ?thesis by blast
qed

lemma seal_events:
  assumes "distinct (map e_id (events db))"
    and "ids = map e_id (unbatched_events db)"
  shows "events (assign_events_to_batch ids b db) =
    map (\<lambda>e. if e_batch_id e = None then e\<lparr>e_batch_id := Some b\<rparr> else e) (events db)"
proof -
  have "e_id e \<in> set ids \<longleftrightarrow> e_batch_id e = None" if "e \<in> set (events db)" for e
    using that assms by (auto simp: set_unbatched distinct_map dest: inj_onD)
  then show ?thesis by (simp add: assign_events_to_batch_def update_where_def)
qed

text \<open>C22. Sealing covers every event: a seal that returns a batch leaves no event unbatched, assigns
  exactly the events that had no batch, changes nothing else about any event, and the batch lists
  them in order; the signature verifies over the root; and for every sealed event an inclusion
  proof against the signed root exists and verifies.  The log invariant is kept.\<close>

theorem seal_batch_covers:
  assumes "log_ok E db" "service_key_ok E" "distinct (map e_id (events db))"
    and "seal_batch E db = Inr (Some r, db')"
  shows "log_ok E db' \<and> unbatched_events db' = [] \<and>
    events db' = map (\<lambda>e. if e_batch_id e = None then e\<lparr>e_batch_id := Some (sb_batch_id r)\<rparr> else e) (events db) \<and>
    (\<exists>g. load_public_pem E = Inr g \<and> verify_hex E g (sb_root r) (sb_signature r) = Inr True) \<and>
    (\<exists>b \<in> set (batches db'). b_id b = sb_batch_id r \<and> b_root b = sb_root r \<and>
       b_event_ids b = map e_id (unbatched_events db)) \<and>
    (\<forall>i < length (unbatched_events db). \<exists>prf.
       merkle_proof E (map e_hash (unbatched_events db)) (int i) = Inr prf \<and>
       verify_merkle_proof E (e_hash (unbatched_events db ! i)) (int i) prf (sb_root r) = Inr True)"
proof -
  obtain b where rt: "merkle_root E (map e_hash (unbatched_events db)) = Inr (sb_root r)"
    and sg: "sign_message_hex E (sb_root r) = Inr (sb_signature r)"
    and b: "b = \<lparr>b_id = uuid4 E (draws db), b_org_id = single_org (unbatched_events db),
          b_root = sb_root r, b_signature = sb_signature r,
          b_event_ids = map e_id (unbatched_events db), b_sealed_at = truncate_second (now E)\<rparr>"
    and id: "sb_batch_id r = b_id b"
    and db': "db' = assign_events_to_batch (map e_id (unbatched_events db)) (b_id b)
       (db\<lparr>draws := Suc (draws db), batches := batches db @ [b]\<rparr>)"
    using assms(4) by (rule seal_batch_Some)
  have ev: "events db' = map (\<lambda>e. if e_batch_id e = None then e\<lparr>e_batch_id := Some (sb_batch_id r)\<rparr> else e) (events db)"
    unfolding db' id using assms(3) by (subst seal_events) (simp_all add: unbatched_events_def)
  have "set (unbatched_events db') = {}" unfolding set_unbatched ev by auto
  then have "unbatched_events db' = []" by simp
  moreover have "\<exists>b \<in> set (batches db'). b_id b = sb_batch_id r \<and> b_root b = sb_root r \<and>
       b_event_ids b = map e_id (unbatched_events db)"
    using id by (simp add: db' assign_events_to_batch_def b)
  moreover have "\<exists>prf. merkle_proof E (map e_hash (unbatched_events db)) (int i) = Inr prf \<and>
       verify_merkle_proof E (e_hash (unbatched_events db ! i)) (int i) prf (sb_root r) = Inr True"
    if i: "i < length (unbatched_events db)" for i
  proof -
    obtain level where "map fromhex (map e_hash (unbatched_events db)) = map Some level"
      using unbatched_hashes [OF assms(1)] by blast
    from inclusion_proof [OF this, of i E] rt i show ?thesis by auto
  qed
  moreover have "\<exists>g. load_public_pem E = Inr g \<and> verify_hex E g (sb_root r) (sb_signature r) = Inr True"
    using assms(2) sg by (auto simp: service_key_ok_def)
  ultimately show ?thesis using ev seal_log_ok [OF assms(1,4)] by blast
qed

lemma seal_total:
  assumes "log_ok E db" "unbatched_events db \<noteq> []" "\<And>m. \<exists>s. sign_message_hex E (hex m) = Inr s"
  shows "\<exists>r db'. seal_batch E db = Inr (Some r, db')"
proof -
  obtain level where "map fromhex (map e_hash (unbatched_events db)) = map Some level"
    using unbatched_hashes [OF assms(1)] by blast
  then have "map_res (\<lambda>h. res_of_option ValueError (fromhex h)) (map e_hash (unbatched_events db)) = Inr level"
    by (simp add: map_res_fromhex_iff)
  then obtain m where "merkle_root E (map e_hash (unbatched_events db)) = Inr (hex m)"
    using assms(2) by (simp add: merkle_root_def)
  moreover obtain s where "sign_message_hex E (hex m) = Inr s" using assms(3) by blast
  ultimately show ?thesis using assms(2)
    by (simp add: seal_batch_def Let_def insert_batch_def new_uuid_def)
qed

lemma demo_sign: "\<exists>s. sign_message_hex demo_env (hex m) = Inr s"
  by (simp add: demo_env_def sign_message_hex_def get_signing_provider_def sign_hex_def
      load_private_key_def fromhex_hex Let_def)

theorem seal_batch_covers_witness:
  "\<exists>out db r db'.
     record_event demo_env ''o'' ''t'' 1 ''input'' [(''a'', JInt 1)] None empty_db = Inr (out, db) \<and>
     seal_batch demo_env db = Inr (Some r, db') \<and> log_ok demo_env db' \<and> unbatched_events db' = [] \<and>
     length (events db') = 1"
proof -
  obtain out db where
    r: "record_event demo_env ''o'' ''t'' 1 ''input'' [(''a'', JInt 1)] None empty_db = Inr (out, db)"
    using demo_recorded by blast
  note l = record_event_log [OF log_ok_empty demo_keys_ok(1) r]
  obtain e where e: "events db = [e]" "e_batch_id e = None"
    using l(2) by (auto simp: empty_db_def)
  obtain s db' where s: "seal_batch demo_env db = Inr (Some s, db')"
    using seal_total [OF l(1) _ demo_sign] e by (auto simp: unbatched_events_def order_asc_def)
  from seal_batch_covers [OF l(1) demo_keys_ok(1) _ s] e r s show ?thesis by auto
qed

text \<open>A batch is anchored at most once: after a successful anchoring the stored token decodes to the
  authority's response over the bytes of the batch root, and anchoring the same batch again is
  refused.\<close>

theorem anchor_batch_once:
  assumes "anchor_batch E tsa bid db = Inr (r, db')"
  shows "\<exists>b rb tok a. batch_by_id db bid = Some b \<and> fromhex (b_root b) = Some rb \<and>
    tsa (tsa_url (the_settings E)) rb = Some tok \<and>
    anchor_of db' bid = Some a \<and> decode_token_b64 (an_token a) = Inr tok \<and>
    anchor_batch E tsa bid db' = Inl ValueError"
proof -
  obtain b rb tok where b: "batch_by_id db bid = Some b" and na: "anchor_of db (b_id b) = None"
    and rb: "fromhex (b_root b) = Some rb" and tok: "tsa (tsa_url (the_settings E)) rb = Some tok"
    using assms
    by (auto simp: anchor_batch_def bind_res_eq_Inr request_tsa_timestamp_def split: option.splits if_splits)
  have id: "b_id b = bid" using b by (auto simp: batch_by_id_def dest!: one_or_none_Some)
  obtain a where db': "db' = db\<lparr>draws := Suc (draws db), anchors := anchors db @ [a]\<rparr>"
    and a: "an_batch_id a = bid" "an_token a = b64encode tok"
    using assms b na rb tok
    by (auto simp: anchor_batch_def bind_res_eq_Inr request_tsa_timestamp_def insert_anchor_def
        new_uuid_def Let_def encode_token_b64_def split: if_splits)
  have an: "anchor_of db' bid = Some a"
    using na a id by (simp add: anchor_of_def db' one_or_none_append)
  moreover have "anchor_batch E tsa bid db' = Inl ValueError"
    using b an id by (simp add: anchor_batch_def batch_by_id_def db')
  ultimately show ?thesis using b rb tok a by (simp add: decode_token_b64_def)
qed

theorem anchor_batch_once_witness:
  "\<exists>r db'. anchor_batch demo_env (\<lambda>u x. Some x) ''b''
       (empty_db\<lparr>batches := [\<lparr>b_id = ''b'', b_org_id = None, b_root = ''00'', b_signature = [],
          b_event_ids = [], b_sealed_at = 0\<rparr>]\<rparr>) = Inr (r, db') \<and>
     anchor_batch demo_env (\<lambda>u x. Some x) ''b'' db' = Inl ValueError"
proof -
  obtain r db' where "anchor_batch demo_env (\<lambda>u x. Some x) ''b''
       (empty_db\<lparr>batches := [\<lparr>b_id = ''b'', b_org_id = None, b_root = ''00'', b_signature = [],
          b_event_ids = [], b_sealed_at = 0\<rparr>]\<rparr>) = Inr (r, db')"
    by (simp add: anchor_batch_def batch_by_id_def anchor_of_def empty_db_def insert_anchor_def
        new_uuid_def request_tsa_timestamp_def hex_val_def is_digit_def is_fromhex_space_def Let_def)
  with anchor_batch_once [OF this] show ?thesis by blast
qed

end
