(* ===== verification/Evidence.thy ===== *)
theory Evidence
  imports Batching Approvals SdkStore "HOL-Library.AList"
begin

text \<open>
  \<^verbatim>\<open>services/compliance_summary.py\<close>, \<^verbatim>\<open>services/evidence.py\<close> and \<^verbatim>\<open>bundle/verify.py\<close>: the export of a trace as
  an evidence bundle, and the stand-alone program that an auditor runs on it.  The bundle is a JSON object
  for both sides.  The lemmas say when the verifier accepts an export.
\<close>

section \<open>compliance\_summary.py\<close>

definition count_event_types :: "event list \<Rightarrow> (string \<times> int) list" where
  "count_event_types es =
     foldl (\<lambda>counts e. AList.update (e_type e)
              ((case map_of counts (e_type e) of None \<Rightarrow> 0 | Some n \<Rightarrow> n) + 1) counts) [] es"

text \<open>What the loop over the events appends to each of its lists.\<close>

definition policy_decision_entry :: "event \<times> json option \<Rightarrow> dict option" where
  "policy_decision_entry ec =
     (case ec of
        (e, Some (JObj d)) \<Rightarrow>
          if e_type e = ''policy_decision'' then
            Some [(''seq'', JInt (e_seq e)), (''tier'', dget d ''tier''), (''allowed'', dget d ''allowed''),
                  (''rule_id'', dget d ''rule_id''),
                  (''regulatory_refs'', py_or (dget d ''regulatory_refs'') (JList [])),
                  (''reasons'', py_or (dget d ''reasons'') (JList []))]
          else None
      | _ \<Rightarrow> None)"

definition mitigation_entry :: "event \<times> json option \<Rightarrow> dict option" where
  "mitigation_entry ec =
     (case ec of
        (e, Some (JObj d)) \<Rightarrow>
          if e_type e = ''mitigation''
          then Some [(''seq'', JInt (e_seq e)), (''mitigation_ids'', dget d ''mitigation_ids'')] else None
      | _ \<Rightarrow> None)"

definition erasure_entry :: "event \<times> json option \<Rightarrow> dict option" where
  "erasure_entry ec =
     (case ec of
        (e, Some (JObj d)) \<Rightarrow>
          if e_type e = ''erasure''
          then Some [(''seq'', JInt (e_seq e)), (''target_seq'', dget d ''target_seq''),
                     (''approver_id'', dget d ''approver_id'')]
          else None
      | _ \<Rightarrow> None)"

definition approval_action_entry :: "event \<times> json option \<Rightarrow> dict option" where
  "approval_action_entry ec =
     (case ec of
        (e, Some (JObj d)) \<Rightarrow>
          if e_type e = ''approval_action''
          then Some [(''seq'', JInt (e_seq e)), (''status'', dget d ''status''),
                     (''approver_id'', dget d ''approver_id'')]
          else None
      | _ \<Rightarrow> None)"

definition read_events :: "env \<Rightarrow> db \<Rightarrow> string \<Rightarrow> event list \<Rightarrow> (event \<times> json option) list res" where
  "read_events E db org_id es =
     map_res (\<lambda>e. bind_res (read_payload_content E db org_id (e_payload_hash e)) (\<lambda>c. Inr (e, c))) es"

definition trace_approval_entry :: "approval \<Rightarrow> dict" where
  "trace_approval_entry row =
     [(''approval_id'', JStr (a_id row)), (''status'', JStr (a_status row)),
      (''approver_id'', jopt_str (a_approver_id row)), (''comment'', jopt_str (a_comment row)),
      (''created_at'', JStr (isoformat (a_created_at row)))]"

text \<open>The object that \<^verbatim>\<open>workflow_gate\<close> returns: its keys depend on the branch.\<close>

definition workflow_gate_out :: "gate_status \<Rightarrow> dict" where
  "workflow_gate_out g =
     [(''trace_id'', JStr (gs_trace_id g)), (''workflow_status'', JStr (gs_workflow_status g)),
      (''resume_allowed'', JBool (gs_resume_allowed g)), (''approval_id'', jopt_str (gs_approval_id g)),
      (''approval_status'', jopt_str (gs_approval_status g))] @
     (if gs_approval_status g \<in> {Some ''approved'', Some ''denied''}
      then [(''approver_id'', jopt_str (gs_approver_id g))]
      else [(''policy_tier'', gs_policy_tier g), (''policy_reasons'', gs_policy_reasons g)]) @
     [(''message'', JStr (gs_message g))]"

definition pitch_note :: string where
  "pitch_note =
     ''Attest records institutional policy decisions and human oversight; '' @
     ''it does not certify legal compliance or factual correctness of model output.''"

definition build_compliance_summary :: "env \<Rightarrow> db \<Rightarrow> string \<Rightarrow> string \<Rightarrow> dict res" where
  "build_compliance_summary E db org_id trace_id =
     (let es = events_for_trace db org_id trace_id in
      bind_res (replay_trace E db org_id trace_id) (\<lambda>replay.
      bind_res (workflow_gate E db org_id trace_id) (\<lambda>gate.
      bind_res (read_events E db org_id es) (\<lambda>read.
      let org = get_org_by_id db org_id;
          entries = (\<lambda>f. JList (map JObj (List.map_filter f read)))
      in Inr
        [(''org_id'', JStr org_id),
         (''org_name'', JStr (case org of Some r \<Rightarrow> o_name r | None \<Rightarrow> org_id)),
         (''org_region'', jopt_str (map_option o_region org)),
         (''org_fail_mode'', jopt_str (map_option o_fail_mode org)),
         (''event_count'', JInt (int (length es))),
         (''event_types'', JObj (map (\<lambda>(ty, n). (ty, JInt n)) (count_event_types es))),
         (''all_replay_verified'', JBool (tr_all_verified replay)),
         (''workflow_gate'', JObj (workflow_gate_out gate)),
         (''policy_decisions'', entries policy_decision_entry),
         (''approval_actions'', entries approval_action_entry),
         (''approvals'', JList (map (JObj \<circ> trace_approval_entry) (list_approvals_for_trace db org_id trace_id 50))),
         (''mitigations'', entries mitigation_entry),
         (''erasures'', entries erasure_entry),
         (''pitch_note'', JStr pitch_note)]))))"

section \<open>evidence.py\<close>

definition BUNDLE_SCHEMA_VERSION :: string where
  "BUNDLE_SCHEMA_VERSION = [CHR ''1'', CHR ''.'', CHR ''0'']"

definition serialize_event :: "env \<Rightarrow> db \<Rightarrow> string \<Rightarrow> event \<Rightarrow> dict res" where
  "serialize_event E db org_id e =
     (let payload_row = get_payload db org_id (e_payload_hash e) in
      bind_res (read_payload_content E db org_id (e_payload_hash e)) (\<lambda>body.
      bind_res (res_of_option KeyError (map_of (e_envelope e) ''created_at'')) (\<lambda>created_at.
      Inr
        [(''id'', JStr (e_id e)), (''trace_id'', JStr (e_trace_id e)), (''seq'', JInt (e_seq e)),
         (''type'', JStr (e_type e)), (''payload_hash'', JStr (e_payload_hash e)),
         (''payload'', (case body of Some v \<Rightarrow> v | None \<Rightarrow> JNull)),
         (''payload_erased'', JBool (case payload_row of Some p \<Rightarrow> p_erased_at p \<noteq> None | None \<Rightarrow> False)),
         (''pii_redacted'', jstrs (case payload_row of Some p \<Rightarrow> p_pii_labels p | None \<Rightarrow> [])),
         (''prev_hash'', jopt_str (e_prev_hash e)), (''hash'', JStr (e_hash e)),
         (''signature'', JStr (e_signature e)), (''alg'', dget (e_envelope e) ''alg''),
         (''policy_version'', jopt_str (e_policy_version e)), (''created_at'', created_at),
         (''batch_id'', jopt_str (e_batch_id e))])))"

text \<open>\<^verbatim>\<open>.one()\<close> on the identity of an event.\<close>

definition batch_leaf_hashes :: "db \<Rightarrow> batch \<Rightarrow> string list res" where
  "batch_leaf_hashes db b =
     map_res (\<lambda>event_id. map_sum id e_hash
                (res_of_option NoResultFound (one_or_none (\<lambda>e. e_id e = event_id) (events db))))
       (b_event_ids b)"

definition anchor_data :: "anchor \<Rightarrow> dict" where
  "anchor_data a =
     [(''kind'', JStr (an_kind a)), (''token'', JStr (an_token a)),
      (''anchored_at'', JStr (isoformat (an_anchored_at a)))]"

definition serialize_batch :: "env \<Rightarrow> db \<Rightarrow> batch \<Rightarrow> string set \<Rightarrow> dict res" where
  "serialize_batch E db b trace_event_ids =
     bind_res (batch_leaf_hashes db b) (\<lambda>leaf_hashes.
     let leaf_hash_map = dict_of_pairs (zip (b_event_ids b) (map JStr leaf_hashes)) in
     bind_res
       (map_res (\<lambda>(index, event_id). bind_res (merkle_proof E leaf_hashes (int index)) (\<lambda>p. Inr (event_id, jstrs p)))
          (filter (\<lambda>(index, event_id). event_id \<in> trace_event_ids) (enumerate 0 (b_event_ids b)))) (\<lambda>proofs.
     Inr
       [(''batch_id'', JStr (b_id b)), (''root'', JStr (b_root b)), (''signature'', JStr (b_signature b)),
        (''event_ids'', jstrs (b_event_ids b)), (''leaf_hashes'', JObj leaf_hash_map),
        (''sealed_at'', JStr (isoformat (b_sealed_at b))), (''merkle_proofs'', JObj (dict_of_pairs proofs)),
        (''anchor'', (case anchor_of db (b_id b) of None \<Rightarrow> JNull | Some a \<Rightarrow> JObj (anchor_data a)))]))"

definition replay_event_item :: "event_verify_result \<Rightarrow> dict" where
  "replay_event_item r =
     [(''seq'', JInt (ev_seq r)), (''type'', JStr (ev_type r)), (''verified'', JBool (ev_verified r)),
      (''hash_ok'', JBool (ev_hash_ok r)), (''signature_ok'', JBool (ev_signature_ok r)),
      (''chain_ok'', JBool (ev_chain_ok r))]"

text \<open>The two files that every bundle carries, \<^verbatim>\<open>VERIFY_README\<close> and \<^verbatim>\<open>VERIFY_SCRIPT\<close>, are arguments.\<close>

definition build_evidence_bundle ::
  "env \<Rightarrow> string \<Rightarrow> string \<Rightarrow> db \<Rightarrow> string \<Rightarrow> string \<Rightarrow> dict res" where
  "build_evidence_bundle E readme script db org_id trace_id =
     bind_res (ensure_trace_access db org_id trace_id) (\<lambda>_.
     let es = events_for_trace db org_id trace_id in
     if es = [] then Inl TraceNotFoundError
     else
     bind_res (replay_trace E db org_id trace_id) (\<lambda>replay.
     bind_res (map_res (serialize_event E db org_id) es) (\<lambda>serialized.
     bind_res (map_res (\<lambda>b. serialize_batch E db b (e_id ` set es)) (batches_for_event_ids db (map e_id es)))
       (\<lambda>batch_data.
     let org = get_org_by_id db org_id in
     bind_res (build_compliance_summary E db org_id trace_id) (\<lambda>compliance.
     bind_res (bind_res (get_signing_provider E) (provider_metadata E)) (\<lambda>signing_meta.
     bind_res (load_public_pem E) (\<lambda>public_pem.
     if \<not> utf8_ok public_pem then Inl ValueError
     else
     let exported_at = now_utc_iso E;
         manifest =
           [(''bundle_schema'', JStr BUNDLE_SCHEMA_VERSION), (''product'', JStr ''Attest''),
            (''trace_id'', JStr trace_id), (''exported_at'', JStr exported_at),
            (''org'', JObj
               [(''id'', JStr org_id), (''name'', JStr (case org of Some r \<Rightarrow> o_name r | None \<Rightarrow> org_id)),
                (''region'', jopt_str (map_option o_region org)),
                (''fail_mode'', jopt_str (map_option o_fail_mode org))]),
            (''signing'', JObj signing_meta), (''event_count'', JInt (int (length es))),
            (''batch_count'', JInt (int (length batch_data))),
            (''all_replay_verified'', JBool (tr_all_verified replay))]
     in Inr
       [(''trace_id'', JStr trace_id), (''exported_at'', JStr exported_at),
        (''bundle_schema'', JStr BUNDLE_SCHEMA_VERSION), (''manifest'', JObj manifest),
        (''compliance_summary'', JObj compliance), (''public_key_pem'', JStr public_pem),
        (''replay_summary'', JObj
           [(''all_verified'', JBool (tr_all_verified replay)),
            (''events'', JList (map (JObj \<circ> replay_event_item) (tr_events replay)))]),
        (''events'', JList (map JObj serialized)), (''batches'', JList (map JObj batch_data)),
        (''batch'', (case batch_data of [b] \<Rightarrow> JObj b | _ \<Rightarrow> JNull)),
        (''verification_instructions'', JStr readme), (''verify_script'', JStr script)])))))))"

section \<open>bundle/verify.py\<close>

text \<open>The program reads a file that may hold anything, so its values are JSON, and reading a missing key or a
  value of another type raises.  \<^verbatim>\<open>canonical_bytes\<close>, \<^verbatim>\<open>sha256_hex\<close> and the set of algorithms are textually
  those of the service.\<close>

fun unhex :: "json \<Rightarrow> bytes res" where
  "unhex (JStr s) = res_of_option ValueError (fromhex s)"
| "unhex _ = Inl TypeError"

definition bundle_verify_hex :: "env \<Rightarrow> bytes \<Rightarrow> json \<Rightarrow> json \<Rightarrow> bool res" where
  "bundle_verify_hex E public_pem message_hex signature_hex =
     (case load_pem_public E public_pem of
        None \<Rightarrow> Inl ValueError
      | Some kind \<Rightarrow>
          if kind \<noteq> Ed25519Key then Inr False
          else bind_res (unhex signature_hex) (\<lambda>signature.
               bind_res (unhex message_hex) (\<lambda>message.
               Inr (ed_verify E public_pem message signature))))"

definition bundle_envelope :: "dict \<Rightarrow> dict res" where
  "bundle_envelope ev =
     bind_res (py_sub (JObj ev) ''trace_id'') (\<lambda>trace_id.
     bind_res (py_sub (JObj ev) ''seq'') (\<lambda>seq.
     bind_res (py_sub (JObj ev) ''type'') (\<lambda>ty.
     bind_res (py_sub (JObj ev) ''payload_hash'') (\<lambda>payload_hash.
     bind_res (py_sub (JObj ev) ''created_at'') (\<lambda>created_at.
     Inr [(''alg'', dget ev ''alg''), (''trace_id'', JStr (py_str trace_id)), (''seq'', seq), (''type'', ty),
          (''payload_hash'', payload_hash), (''prev_hash'', dget ev ''prev_hash''),
          (''policy_version'', dget ev ''policy_version''), (''created_at'', created_at)])))))"

text \<open>The climb hashes as \<^verbatim>\<open>verify_merkle_proof\<close> of the service does.\<close>

definition bundle_merkle_proof :: "env \<Rightarrow> json \<Rightarrow> nat \<Rightarrow> json \<Rightarrow> json \<Rightarrow> bool res" where
  "bundle_merkle_proof E leaf_hex index proof root_hex =
     bind_res (unhex leaf_hex) (\<lambda>leaf.
     bind_res (py_iter proof) (\<lambda>items.
     bind_res (map_res unhex items) (\<lambda>siblings.
     Inr (py_eq (JStr (hex (climb (digest E) leaf (int index) siblings))) root_hex))))"

text \<open>The event checks, in the order of the events; \<open>prev_hash\<close> is the hash of the event before.\<close>

fun verify_events :: "env \<Rightarrow> bytes \<Rightarrow> json \<Rightarrow> json list \<Rightarrow> bool res" where
  "verify_events E public_pem prev_hash [] = Inr True"
| "verify_events E public_pem prev_hash (v # vs) =
     bind_res (as_dict v) (\<lambda>ev.
     bind_res (bundle_envelope ev) (\<lambda>envelope.
     bind_res (py_sub v ''hash'') (\<lambda>h.
     let hash_ok = py_eq (JStr (sha256_hex E envelope)) h in
     bind_res (supported_alg (dget ev ''alg'')) (\<lambda>alg_ok.
     bind_res (if alg_ok
               then bind_res (py_sub v ''signature'') (bundle_verify_hex E public_pem h)
               else Inr False) (\<lambda>sig_ok.
     let chain_ok = py_eq (dget ev ''prev_hash'') prev_hash in
     bind_res (verify_events E public_pem h vs) (\<lambda>rest_ok.
     Inr (hash_ok \<and> sig_ok \<and> chain_ok \<and> rest_ok)))))))"

fun hashable :: "json \<Rightarrow> bool" where
  "hashable (JList _) = False"
| "hashable (JObj _) = False"
| "hashable _ = True"

text \<open>\<^verbatim>\<open>{e["id"]: e for e in events}\<close>, the last of equal keys first.\<close>

definition event_by_id :: "dict list \<Rightarrow> (json \<times> dict) list res" where
  "event_by_id evs =
     map_sum id rev
       (map_res (\<lambda>ev. bind_res (py_sub (JObj ev) ''id'') (\<lambda>i. if hashable i then Inr (i, ev) else Inl TypeError)) evs)"

text \<open>\<^verbatim>\<open>batch_event_ids.index(eid)\<close>, None for its \<^verbatim>\<open>ValueError\<close>: the place of an item of a list, or of a
  substring, counted in characters.\<close>

fun item_index :: "json list \<Rightarrow> json \<Rightarrow> nat option" where
  "item_index [] v = None"
| "item_index (x # xs) v = (if py_eq x v then Some 0 else map_option Suc (item_index xs v))"

fun text_index :: "string \<Rightarrow> string \<Rightarrow> nat option" where
  "text_index [] s = (if s = [] then Some 0 else None)"
| "text_index (c # cs) s = (if is_prefix s (c # cs) then Some 0 else map_option Suc (text_index cs s))"

definition py_index :: "json \<Rightarrow> string \<Rightarrow> nat option res" where
  "py_index v s =
     (case v of
        JList xs \<Rightarrow> Inr (item_index xs (JStr s))
      | JStr t \<Rightarrow> Inr (map_option (\<lambda>n. length (code_points (take n t))) (text_index t s))
      | _ \<Rightarrow> Inl AttributeError)"

definition proof_ok :: "env \<Rightarrow> (json \<times> dict) list \<Rightarrow> json \<Rightarrow> json \<Rightarrow> json \<Rightarrow> string \<times> json \<Rightarrow> bool res" where
  "proof_ok E by_id rt batch_event_ids leaf_hash_map eid_proof =
     (case eid_proof of (eid, proof) \<Rightarrow>
       bind_res (py_index batch_event_ids eid) (\<lambda>index.
       case index of
         None \<Rightarrow> Inr False
       | Some i \<Rightarrow>
           bind_res (case map_of by_id (JStr eid) of
                       Some ev \<Rightarrow> map_sum id Some (py_sub (JObj ev) ''hash'')
                     | None \<Rightarrow>
                         map_sum id (\<lambda>v. if v = JNull then None else Some v) (py_get leaf_hash_map eid JNull))
             (\<lambda>ev_hash.
           case ev_hash of
             None \<Rightarrow> Inr False
           | Some h \<Rightarrow> bundle_merkle_proof E h i proof rt)))"

text \<open>\<^verbatim>\<open>verify_anchor\<close> with the package it imports and the certificates as parameters: what a time-stamp response
  says, the roots in a PEM file, and the check of the chain.  Whatever raises inside is the status
  \<open>failed\<close>.\<close>

record tsa_package =
  tsa_installed :: bool
  decode_timestamp_response :: "bytes \<Rightarrow> (bytes \<times> bytes option) option"
  load_pem_certificates :: "bytes \<Rightarrow> bytes list option"
  verify_message :: "bytes \<Rightarrow> bytes list \<Rightarrow> bytes \<Rightarrow> bytes \<Rightarrow> bool option"

definition verify_anchor :: "env \<Rightarrow> tsa_package \<Rightarrow> json \<Rightarrow> json \<Rightarrow> bytes option \<Rightarrow> string" where
  "verify_anchor E L token_b64 root_hex tsa_roots_pem =
     (if \<not> tsa_installed L then ''skipped''
      else
        case (token_b64, root_hex) of
          (JStr b64, JStr rh) \<Rightarrow>
            (case Option.bind (b64decode b64) (\<lambda>t. map_option (Pair t) (decode_timestamp_response L t)) of
               None \<Rightarrow> ''failed''
             | Some (token, imprint, leaf) \<Rightarrow>
                 (case fromhex rh of
                    None \<Rightarrow> ''failed''
                  | Some root_bytes \<Rightarrow>
                      if imprint \<noteq> digest E root_bytes then ''failed''
                      else if tsa_roots_pem \<in> {None, Some []} then ''bound''
                      else
                        (case (leaf, load_pem_certificates L (the tsa_roots_pem)) of
                           (Some cert, Some (r # rs)) \<Rightarrow>
                             if verify_message L cert (r # rs) token root_bytes = Some True then ''trusted''
                             else ''failed''
                         | _ \<Rightarrow> ''failed'')))
        | _ \<Rightarrow> ''failed'')"

definition verify_batch :: "env \<Rightarrow> tsa_package \<Rightarrow> bytes option \<Rightarrow> bytes \<Rightarrow> (json \<times> dict) list \<Rightarrow> json \<Rightarrow> bool res" where
  "verify_batch E L tsa_roots_pem public_pem by_id batch_info =
     bind_res (py_sub batch_info ''root'') (\<lambda>rt.
     bind_res (py_sub batch_info ''event_ids'') (\<lambda>batch_event_ids.
     bind_res (py_get batch_info ''leaf_hashes'' (JObj [])) (\<lambda>leaf_hash_map.
     bind_res (py_get batch_info ''merkle_proofs'' (JObj [])) (\<lambda>proofs.
     bind_res (as_dict proofs) (\<lambda>proofs.
     bind_res (map_res (proof_ok E by_id rt batch_event_ids leaf_hash_map) proofs) (\<lambda>oks.
     bind_res (py_sub batch_info ''signature'') (\<lambda>signature.
     bind_res (bundle_verify_hex E public_pem rt signature) (\<lambda>sig_ok.
     bind_res (py_get batch_info ''anchor'' JNull) (\<lambda>anchor.
     bind_res (if truthy anchor then
                 bind_res (py_get anchor ''token'' JNull) (\<lambda>token.
                 Inr (if truthy token then verify_anchor E L token rt tsa_roots_pem \<noteq> ''failed'' else True))
               else Inr True) (\<lambda>anchor_ok.
     Inr (list_all id oks \<and> sig_ok \<and> anchor_ok)))))))))))"

definition verify_bundle :: "env \<Rightarrow> tsa_package \<Rightarrow> bytes option \<Rightarrow> dict \<Rightarrow> bool res" where
  "verify_bundle E L tsa_roots_pem bundle =
     bind_res (py_sub (JObj bundle) ''public_key_pem'') (\<lambda>pem.
     case pem of
       JStr public_pem \<Rightarrow>
         bind_res (bind_res (py_sub (JObj bundle) ''events'') py_iter) (\<lambda>items.
         bind_res (verify_events E public_pem JNull items) (\<lambda>events_ok.
         let batches = py_or (dget bundle ''batches'') (JList []);
             batches = (if \<not> truthy batches \<and> truthy (dget bundle ''batch'')
                        then JList [dget bundle ''batch''] else batches)
         in
         bind_res (map_res as_dict items) (\<lambda>evs.
         bind_res (event_by_id evs) (\<lambda>by_id.
         bind_res (py_iter batches) (\<lambda>bs.
         bind_res (map_res (verify_batch E L tsa_roots_pem public_pem by_id) bs) (\<lambda>oks.
         Inr (events_ok \<and> list_all id oks)))))))
     | _ \<Rightarrow> Inl AttributeError)"

text \<open>\<^verbatim>\<open>main\<close>, from the texts of the two files to the exit code.\<close>

definition verify_main :: "env \<Rightarrow> tsa_package \<Rightarrow> string \<Rightarrow> bytes option \<Rightarrow> int res" where
  "verify_main E L bundle_text tsa_roots =
     bind_res (res_of_option ValueError (loads bundle_text)) (\<lambda>v.
     bind_res (case v of JObj d \<Rightarrow> Inr d | _ \<Rightarrow> Inl TypeError) (\<lambda>bundle.
     bind_res (verify_bundle E L tsa_roots bundle) (\<lambda>ok. Inr (if ok then 0 else 1))))"

section \<open>Lemmas\<close>

text \<open>What sealing leaves behind: a batch lists events of the log, its root is that of their hashes, and its
  signature verifies under the key of the service.\<close>

definition batch_ok :: "env \<Rightarrow> db \<Rightarrow> batch \<Rightarrow> bool" where
  "batch_ok E db b \<longleftrightarrow>
     (\<exists>es. map e_id es = b_event_ids b \<and> set es \<subseteq> set (events db) \<and> distinct (b_event_ids b) \<and>
        merkle_root E (map e_hash es) = Inr (b_root b)) \<and>
     (\<exists>g. load_public_pem E = Inr g \<and> verify_hex E g (b_root b) (b_signature b) = Inr True)"

definition batches_ok :: "env \<Rightarrow> db \<Rightarrow> bool" where
  "batches_ok E db \<longleftrightarrow> distinct (map e_id (events db)) \<and> (\<forall>b \<in> set (batches db). batch_ok E db b)"

text \<open>The tokens of the anchored batches pass the check of the verifier.\<close>

definition anchors_ok :: "env \<Rightarrow> tsa_package \<Rightarrow> bytes option \<Rightarrow> db \<Rightarrow> bool" where
  "anchors_ok E L roots db \<longleftrightarrow>
     (\<forall>b \<in> set (batches db). \<forall>a. anchor_of db (b_id b) = Some a \<longrightarrow>
        an_token a = [] \<or> verify_anchor E L (JStr (an_token a)) (JStr (b_root b)) roots \<noteq> ''failed'')"

lemma bundle_verify_hex_ok:
  assumes "load_pem_public E g = Some Ed25519Key" "verify_hex E pem h s = Inr True"
  shows "bundle_verify_hex E g (JStr h) (JStr s) = Inr (verify_hex E g h s = Inr True)"
  using assms by (auto simp: bundle_verify_hex_def verify_hex_def load_public_key_def bind_res_eq_Inr)

lemma serialize_event_fields:
  assumes "event_ok E db e" "serialize_event E db org_id e = Inr ev"
  shows "bundle_envelope ev = Inr (e_envelope e)" "map_of ev ''hash'' = Some (JStr (e_hash e))"
    "dget ev ''alg'' = JStr DEFAULT_ALGORITHM" "map_of ev ''signature'' = Some (JStr (e_signature e))"
    "dget ev ''prev_hash'' = jopt_str (e_prev_hash e)" "map_of ev ''id'' = Some (JStr (e_id e))"
proof -
  obtain c where env: "e_envelope e = build_envelope (e_trace_id e) (e_seq e) (e_type e)
      (e_payload_hash e) (e_prev_hash e) (e_policy_version e) (JStr c) (JStr DEFAULT_ALGORITHM)"
    using assms(1) by (auto simp: event_ok_def)
  then have c: "map_of (e_envelope e) ''created_at'' = Some (JStr c)" "dget (e_envelope e) ''alg'' = JStr DEFAULT_ALGORITHM"
    by (simp_all add: build_envelope_def dget_def dget_def_def)
  obtain body pr where ev: "ev =
        [(''id'', JStr (e_id e)), (''trace_id'', JStr (e_trace_id e)), (''seq'', JInt (e_seq e)),
         (''type'', JStr (e_type e)), (''payload_hash'', JStr (e_payload_hash e)),
         (''payload'', body), (''payload_erased'', fst pr), (''pii_redacted'', snd pr),
         (''prev_hash'', jopt_str (e_prev_hash e)), (''hash'', JStr (e_hash e)),
         (''signature'', JStr (e_signature e)), (''alg'', JStr DEFAULT_ALGORITHM),
         (''policy_version'', jopt_str (e_policy_version e)), (''created_at'', JStr c),
         (''batch_id'', jopt_str (e_batch_id e))]"
    using assms(2) c by (auto simp: serialize_event_def Let_def bind_res_eq_Inr)
  show "bundle_envelope ev = Inr (e_envelope e)"
    by (simp add: bundle_envelope_def ev env build_envelope_def py_sub_def dget_def dget_def_def py_str_def)
  show "map_of ev ''hash'' = Some (JStr (e_hash e))" "dget ev ''alg'' = JStr DEFAULT_ALGORITHM"
    "map_of ev ''signature'' = Some (JStr (e_signature e))"
    "dget ev ''prev_hash'' = jopt_str (e_prev_hash e)" "map_of ev ''id'' = Some (JStr (e_id e))"
    by (simp_all add: ev dget_def dget_def_def)
qed

lemma supported_default: "supported_alg (JStr DEFAULT_ALGORITHM) = Inr True"
  by (simp add: is_supported_def SUPPORTED_ALGORITHMS_def DEFAULT_ALGORITHM_def)

lemma py_eq_jopt_str: "py_eq (jopt_str a) (jopt_str b) \<longleftrightarrow> a = b"
  by (cases a; cases b) (auto simp: jopt_str_def)

text \<open>The events of an intact trace pass every check but, possibly, the signature: the bundle carries the key
  of the service alone.\<close>

lemma verify_events_exported:
  assumes "load_public_pem E = Inr g" "load_pem_public E g = Some Ed25519Key"
    and "\<forall>e \<in> set es. event_ok E db e" "chained prev es"
    and "map_res (serialize_event E db org_id) es = Inr evs"
  shows "verify_events E g (jopt_str prev) (map JObj evs) = Inr (\<forall>e \<in> set es. verify_hex E g (e_hash e) (e_signature e) = Inr True)"
  using assms(3-5)
proof (induction es arbitrary: prev evs)
  case (Cons e es)
  obtain ev evs' where ev: "serialize_event E db org_id e = Inr ev" "map_res (serialize_event E db org_id) es = Inr evs'"
    "evs = ev # evs'" using Cons.prems(3) by (auto simp: bind_res_eq_Inr)
  note f = serialize_event_fields [OF _ ev(1)]
  have ok: "event_ok E db e" using Cons.prems(1) by simp
  obtain pem where v: "verify_hex E pem (e_hash e) (e_signature e) = Inr True" using ok by (auto simp: event_ok_def)
  have "verify_events E g (jopt_str (Some (e_hash e))) (map JObj evs') =
      Inr (\<forall>e \<in> set es. verify_hex E g (e_hash e) (e_signature e) = Inr True)"
    using Cons by (intro Cons.IH [OF _ _ ev(2)]) auto
  moreover have "jopt_str (Some (e_hash e)) = JStr (e_hash e)" by (simp add: jopt_str_def)
  moreover have "e_hash e = sha256_hex E (e_envelope e)" "e_prev_hash e = prev" using ok Cons.prems(2) by (auto simp: event_ok_def)
  ultimately show ?case
    using f [OF ok] bundle_verify_hex_ok [OF assms(2) v]
    by (simp add: ev(3) as_dict_def py_sub_def supported_default py_eq_jopt_str
        del: supported_alg.simps)
qed (simp add: jopt_str_def)

lemma bundle_merkle_proof_ok:
  assumes "verify_merkle_proof E h (int i) p rt = Inr True"
  shows "bundle_merkle_proof E (JStr h) i (jstrs p) (JStr rt) = Inr True"
proof -
  obtain leaf sibs where leaf: "fromhex h = Some leaf" and s: "map_res (\<lambda>x. res_of_option ValueError (fromhex x)) p = Inr sibs"
    and r: "hex (climb (digest E) leaf (int i) sibs) = rt"
    using assms by (auto simp: verify_merkle_proof_def bind_res_eq_Inr)
  have "map_res unhex (map JStr p) = Inr sibs" using s
    by (induction p arbitrary: sibs) (auto simp: bind_res_eq_Inr)
  with leaf r show ?thesis by (simp add: bundle_merkle_proof_def jstrs_def)
qed

lemma item_index_distinct:
  "distinct ids \<Longrightarrow> i < length ids \<Longrightarrow> item_index (map JStr ids) (JStr (ids ! i)) = Some i"
proof (induction ids arbitrary: i)
  case (Cons x ids)
  then show ?case by (cases i) (auto simp: nth_Cons)
qed simp

lemma leaf_hashes_ok:
  assumes "distinct (map e_id (events db))" "set es \<subseteq> set (events db)" "map e_id es = b_event_ids b"
  shows "batch_leaf_hashes db b = Inr (map e_hash es)"
proof -
  have "map_res (\<lambda>i. map_sum id e_hash (res_of_option NoResultFound (one_or_none (\<lambda>e. e_id e = i) (events db))))
      (map e_id es) = Inr (map e_hash es)"
    using assms(2)
  proof (induction es)
    case (Cons e es)
    then have "one_or_none (\<lambda>y. e_id y = e_id e) (events db) = Some e"
      using one_or_none_unique [OF assms(1), of e] by simp
    with Cons show ?case by simp
  qed simp
  then show ?thesis by (simp add: batch_leaf_hashes_def assms(3))
qed

text \<open>Each proof that the export puts into a batch passes the check of the verifier.\<close>

lemma proof_ok_exported:
  assumes "log_ok E db" "distinct (map e_id (events db))"
    and bes: "map e_id bes = ids" "set bes \<subseteq> set (events db)" "distinct ids" "merkle_root E (map e_hash bes) = Inr rt"
    and i: "i < length ids" "merkle_proof E (map e_hash bes) (int i) = Inr p"
    and es: "set es \<subseteq> set (events db)" "ids ! i \<in> e_id ` set es" "map_res (serialize_event E db org_id) es = Inr evs"
    and by_id: "event_by_id evs = Inr tbl"
  shows "proof_ok E tbl (JStr rt) (jstrs ids) lm (ids ! i, jstrs p) = Inr True"
proof -
  have inj: "inj_on e_id (set (events db))" using assms(2) by (simp add: distinct_map)
  have idx: "py_index (jstrs ids) (ids ! i) = Inr (Some i)"
    using i(1) bes(3) by (simp add: py_index_def jstrs_def item_index_distinct)
  have tbl: "tbl = rev (map (\<lambda>ev. (the (map_of ev ''id''), ev)) evs)"
    and keys: "\<forall>ev \<in> set evs. \<exists>v. map_of ev ''id'' = Some v"
  proof -
    obtain ps where ps: "map_res (\<lambda>ev. bind_res (py_sub (JObj ev) ''id'') (\<lambda>i. if hashable i then Inr (i, ev) else Inl TypeError)) evs = Inr ps"
      "tbl = rev ps" using by_id unfolding event_by_id_def by (cases "map_res (\<lambda>ev. bind_res (py_sub (JObj ev) ''id'') (\<lambda>i. if hashable i then Inr (i, ev) else Inl TypeError)) evs") auto
    then have "ps = map (\<lambda>ev. (the (map_of ev ''id''), ev)) evs \<and> (\<forall>ev \<in> set evs. \<exists>v. map_of ev ''id'' = Some v)"
      by (induction evs arbitrary: ps tbl) (auto simp: bind_res_eq_Inr py_sub_def split: if_split_asm)
    then show "tbl = rev (map (\<lambda>ev. (the (map_of ev ''id''), ev)) evs)"
      "\<forall>ev \<in> set evs. \<exists>v. map_of ev ''id'' = Some v" using ps(2) by auto
  qed
  have of_event: "\<exists>e \<in> set es. serialize_event E db org_id e = Inr ev \<and> event_ok E db e" if "ev \<in> set evs" for ev
    using map_res_eq_Inr_set [OF es(3) that] es(1) log_ok_events [OF assms(1)] by blast
  obtain e where e: "e \<in> set es" "e_id e = ids ! i" using es(2) by auto
  obtain ev where ev: "ev \<in> set evs" "serialize_event E db org_id e = Inr ev" using map_res_eq_Inr_elem [OF es(3) e(1)] by auto
  have eok: "event_ok E db e" using e(1) es(1) log_ok_events [OF assms(1)] by blast
  have "(JStr (ids ! i), ev) \<in> set tbl"
    using ev serialize_event_fields(6) [OF eok ev(2)] e(2) by (force simp: tbl)
  then obtain ev' where look: "map_of tbl (JStr (ids ! i)) = Some ev'" by (metis not_Some_eq weak_map_of_SomeI)
  then have "(JStr (ids ! i), ev') \<in> set tbl" by (rule map_of_SomeD)
  then have ev': "ev' \<in> set evs" "map_of ev' ''id'' = Some (JStr (ids ! i))" using keys by (auto simp: tbl)
  obtain e' where e': "e' \<in> set es" "serialize_event E db org_id e' = Inr ev'" "event_ok E db e'"
    using of_event [OF ev'(1)] by blast
  have "e_id e' = ids ! i" using serialize_event_fields(6) [OF e'(3,2)] ev'(2) by simp
  moreover have "e_id (bes ! i) = ids ! i" using i(1) by (simp flip: bes(1))
  moreover have "bes ! i \<in> set (events db)" using i(1) bes(2) by (auto simp flip: bes(1))
  ultimately have "e' = bes ! i" using inj e'(1) es(1) by (metis inj_on_def subset_iff)
  then have h: "map_of ev' ''hash'' = Some (JStr (map e_hash bes ! i))"
    using serialize_event_fields(2) [OF e'(3,2)] i(1) by (simp flip: bes(1))
  have "\<forall>e \<in> set bes. e_hash e = hex (digest E (canonical_bytes (e_envelope e)))"
    using log_ok_events [OF assms(1)] bes(2) by (auto simp: event_ok_def sha256_hex_def)
  then have "map fromhex (map e_hash bes) = map Some (map (\<lambda>e. digest E (canonical_bytes (e_envelope e))) bes)"
    by (simp add: fromhex_hex)
  from inclusion_proof [OF this, of i E] i bes(1,4)
  have "verify_merkle_proof E (map e_hash bes ! i) (int i) p rt = Inr True" by auto
  from bundle_merkle_proof_ok [OF this] show ?thesis
    using idx look h by (simp add: proof_ok_def py_sub_def)
qed

lemma verify_batch_exported:
  assumes "log_ok E db" "batches_ok E db" "b \<in> set (batches db)" "anchors_ok E L roots db"
    and g: "load_public_pem E = Inr g" "load_pem_public E g = Some Ed25519Key"
    and es: "set es \<subseteq> set (events db)" "map_res (serialize_event E db org_id) es = Inr evs"
    and by_id: "event_by_id evs = Inr tbl"
    and bd: "serialize_batch E db b (e_id ` set es) = Inr bd"
  shows "verify_batch E L roots g tbl (JObj bd) = Inr True"
proof -
  have bok: "batch_ok E db b" and dist: "distinct (map e_id (events db))" using assms(2,3) by (auto simp: batches_ok_def)
  obtain bes where bes: "map e_id bes = b_event_ids b" "set bes \<subseteq> set (events db)" "distinct (b_event_ids b)"
    "merkle_root E (map e_hash bes) = Inr (b_root b)" using bok by (auto simp: batch_ok_def)
  have sg: "verify_hex E g (b_root b) (b_signature b) = Inr True" using bok g(1) by (auto simp: batch_ok_def)
  define ids where "ids = b_event_ids b"
  have di: "distinct ids" using bes(3) by (simp add: ids_def)
  define sel where "sel = filter (\<lambda>(i, eid). eid \<in> e_id ` set es) (enumerate 0 ids)"
  obtain proofs where pr: "map_res (\<lambda>(i, eid). bind_res (merkle_proof E (map e_hash bes) (int i)) (\<lambda>p. Inr (eid, jstrs p))) sel = Inr proofs"
    and bd_eq: "bd = [(''batch_id'', JStr (b_id b)), (''root'', JStr (b_root b)), (''signature'', JStr (b_signature b)),
        (''event_ids'', jstrs ids), (''leaf_hashes'', JObj (dict_of_pairs (zip ids (map JStr (map e_hash bes))))),
        (''sealed_at'', JStr (isoformat (b_sealed_at b))), (''merkle_proofs'', JObj (dict_of_pairs proofs)),
        (''anchor'', (case anchor_of db (b_id b) of None \<Rightarrow> JNull | Some a \<Rightarrow> JObj (anchor_data a)))]"
    using bd leaf_hashes_ok [OF dist bes(2,1)] by (auto simp: serialize_batch_def Let_def bind_res_eq_Inr sel_def ids_def)
  have fsts: "map fst proofs = map snd sel" using pr
    by (induction sel arbitrary: proofs) (auto simp: bind_res_eq_Inr)
  have "distinct (map snd sel)"
    using di distinct_map_filter [of snd "enumerate 0 ids"] by (simp add: sel_def)
  then have dp: "dict_of_pairs proofs = proofs" using fsts by (intro dict_of_pairs_distinct) simp
  have ok: "proof_ok E tbl (JStr (b_root b)) (jstrs ids) lm x = Inr True" if x: "x \<in> set proofs" for x lm
  proof -
    obtain i eid p where iep: "(i, eid) \<in> set sel" "merkle_proof E (map e_hash bes) (int i) = Inr p" "x = (eid, jstrs p)"
      using map_res_eq_Inr_set [OF pr x] by (auto simp: bind_res_eq_Inr)
    have "i < length ids" "eid = ids ! i" "eid \<in> e_id ` set es" using iep(1) by (auto simp: sel_def in_set_enumerate_eq)
    then show ?thesis
      using proof_ok_exported [OF assms(1) dist bes(1) [folded ids_def] bes(2) di bes(4) _ iep(2) es(1) _ es(2) by_id] iep(3) by simp
  qed
  then have oks: "map_res (proof_ok E tbl (JStr (b_root b)) (jstrs ids) lm) proofs = Inr (map (\<lambda>_. True) proofs)" for lm
    by (intro map_res_Inr)
  have vs: "bundle_verify_hex E g (JStr (b_root b)) (JStr (b_signature b)) = Inr True"
    using bundle_verify_hex_ok [OF g(2) sg] sg by simp
  have anch: "an_token a = [] \<or> verify_anchor E L (JStr (an_token a)) (JStr (b_root b)) roots \<noteq> ''failed''"
    if "anchor_of db (b_id b) = Some a" for a using that assms(3,4) by (auto simp: anchors_ok_def)
  show ?thesis
    using oks vs anch by (cases "anchor_of db (b_id b)")
      (auto simp: verify_batch_def bd_eq py_sub_def py_get_def dget_def_def dp as_dict_def anchor_data_def list_all_iff)
qed

section \<open>Batches stay provable\<close>

lemma batch_ok_frame:
  assumes "batch_ok E db b"
    and "\<And>e. e \<in> set (events db) \<Longrightarrow> f e \<in> set (events db') \<and> e_id (f e) = e_id e \<and> e_hash (f e) = e_hash e"
  shows "batch_ok E db' b"
proof -
  obtain es where es: "map e_id es = b_event_ids b" "set es \<subseteq> set (events db)" "distinct (b_event_ids b)"
    "merkle_root E (map e_hash es) = Inr (b_root b)" using assms(1) by (auto simp: batch_ok_def)
  have "e_id (f e) = e_id e" "e_hash (f e) = e_hash e" "f e \<in> set (events db')" if "e \<in> set es" for e
    using that es(2) assms(2) by auto
  then have "map e_id (map f es) = b_event_ids b" "map e_hash (map f es) = map e_hash es" "set (map f es) \<subseteq> set (events db')"
    using es(1) by (auto simp: comp_def cong: map_cong)
  then show ?thesis using es(3,4) assms(1) unfolding batch_ok_def by metis
qed

lemma record_batches_ok:
  assumes "batches_ok E db" "log_ok E db" "service_key_ok E"
    and "record_event E org_id t seq ty payload pv db = Inr (out, db')" "distinct (map e_id (events db'))"
  shows "batches_ok E db'"
proof -
  note l = record_event_log [OF assms(2-4)]
  obtain e where ev: "events db' = events db @ [e]" using l(2) by blast
  have "batches db' = batches db" using l(5) by (metis db.select_convs(5) db.surjective db.update_convs(3,4,8,9,23))
  then show ?thesis using assms(1,5) batch_ok_frame [where f = id and db' = db' and db = db and E = E]
    by (auto simp: batches_ok_def ev)
qed

lemma distinct_unbatched: "distinct (map e_id (events db)) \<Longrightarrow> distinct (map e_id (unbatched_events db))"
  by (simp add: unbatched_events_def order_asc_def distinct_map_filter distinct_map inj_on_def)

lemma seal_batches_ok:
  assumes "batches_ok E db" "service_key_ok E" "seal_batch E db = Inr (r, db')"
  shows "batches_ok E db'" "anchors db' = anchors db"
proof -
  have "batches_ok E db' \<and> anchors db' = anchors db"
  proof (cases r)
    case None
    then show ?thesis using assms by (auto simp: seal_batch_def Let_def bind_res_eq_Inr split: if_splits prod.splits)
  next
    case (Some s)
    with assms(3) have "seal_batch E db = Inr (Some s, db')" by simp
    then obtain b where rt: "merkle_root E (map e_hash (unbatched_events db)) = Inr (sb_root s)"
      and sg: "sign_message_hex E (sb_root s) = Inr (sb_signature s)"
      and b: "b = \<lparr>b_id = uuid4 E (draws db), b_org_id = single_org (unbatched_events db), b_root = sb_root s,
          b_signature = sb_signature s, b_event_ids = map e_id (unbatched_events db),
          b_sealed_at = truncate_second (now E)\<rparr>"
      and db': "db' = assign_events_to_batch (map e_id (unbatched_events db)) (b_id b)
       (db\<lparr>draws := Suc (draws db), batches := batches db @ [b]\<rparr>)" by (rule seal_batch_Some)
    define f :: "event \<Rightarrow> event" where "f = (\<lambda>e. if e_id e \<in> set (map e_id (unbatched_events db)) then e\<lparr>e_batch_id := Some (b_id b)\<rparr> else e)"
    have ev: "events db' = map f (events db)" by (simp add: db' assign_events_to_batch_def update_where_def f_def)
    have bs: "batches db' = batches db @ [b]" "anchors db' = anchors db" by (simp_all add: db' assign_events_to_batch_def)
    have ids: "map e_id (events db') = map e_id (events db)" by (simp add: ev f_def)
    have dist: "distinct (map e_id (events db))" using assms(1) by (simp add: batches_ok_def)
    have "batch_ok E (db\<lparr>batches := batches db @ [b]\<rparr>) b"
      using rt sg assms(2) distinct_unbatched [OF dist]
      by (auto simp: batch_ok_def b service_key_ok_def set_unbatched intro!: exI [of _ "unbatched_events db"])
    then have "batch_ok E db' b" by (rule batch_ok_frame [where f = f]) (auto simp: ev f_def)
    moreover have "batch_ok E db' x" if "x \<in> set (batches db)" for x
      by (rule batch_ok_frame [where f = f and db = db]) (use assms(1) that in \<open>auto simp: batches_ok_def ev f_def\<close>)
    ultimately show ?thesis using ids dist bs by (auto simp: batches_ok_def)
  qed
  then show "batches_ok E db'" "anchors db' = anchors db" by blast+
qed

text \<open>An authority whose responses carry the digest of what they stamp.\<close>

definition tsa_honest :: "env \<Rightarrow> tsa_package \<Rightarrow> (string \<Rightarrow> bytes \<Rightarrow> bytes option) \<Rightarrow> bool" where
  "tsa_honest E L tsa \<longleftrightarrow>
     (\<forall>url m tok. tsa url m = Some tok \<longrightarrow> (\<exists>leaf. decode_timestamp_response L tok = Some (digest E m, leaf)))"

lemma anchor_anchors_ok:
  assumes "batches_ok E db" "anchors_ok E L None db" "tsa_honest E L tsa" "distinct (map b_id (batches db))"
    and "anchor_batch E tsa bid db = Inr (r, db')"
  shows "anchors_ok E L None db'" "batches_ok E db'"
proof -
  obtain b rb tok a where b: "batch_by_id db bid = Some b" and na: "anchor_of db (b_id b) = None"
    and rb: "fromhex (b_root b) = Some rb" and tok: "tsa (tsa_url (the_settings E)) rb = Some tok"
    and db': "db' = db\<lparr>draws := Suc (draws db), anchors := anchors db @ [a]\<rparr>"
    and a: "an_batch_id a = bid" "an_token a = b64encode tok"
    using assms(5)
    by (auto simp: anchor_batch_def bind_res_eq_Inr request_tsa_timestamp_def insert_anchor_def
        new_uuid_def Let_def encode_token_b64_def split: option.splits if_splits)
  have id: "b_id b = bid" "b \<in> set (batches db)" using b by (auto simp: batch_by_id_def dest!: one_or_none_Some)
  obtain leaf where leaf: "decode_timestamp_response L tok = Some (digest E rb, leaf)"
    using assms(3) tok unfolding tsa_honest_def by blast
  have ok: "verify_anchor E L (JStr (b64encode tok)) (JStr (b_root b)) None \<noteq> ''failed''"
    by (simp add: verify_anchor_def leaf rb)
  have same: "c = b" if "c \<in> set (batches db)" "b_id c = bid" for c
    using assms(4) that id by (auto simp: distinct_map dest: inj_onD)
  show "anchors_ok E L None db'"
    unfolding anchors_ok_def
  proof (intro ballI allI impI)
    fix c x assume c: "c \<in> set (batches db')" and x: "anchor_of db' (b_id c) = Some x"
    show "an_token x = [] \<or> verify_anchor E L (JStr (an_token x)) (JStr (b_root c)) None \<noteq> ''failed''"
    proof (cases "b_id c = bid")
      case True
      with c same have "c = b" by (simp add: db')
      then have "x = a" using x na id(1) a(1) by (simp add: anchor_of_def db' one_or_none_append)
      then show ?thesis using ok \<open>c = b\<close> a(2) by simp
    next
      case False
      then have "anchor_of db (b_id c) = Some x"
        using x a(1) by (auto simp: anchor_of_def db' one_or_none_append split: option.splits if_splits)
      then show ?thesis using c assms(2) by (auto simp: anchors_ok_def db')
    qed
  qed
  show "batches_ok E db'" using assms(1) by (simp add: batches_ok_def batch_ok_def db')
qed

section \<open>What the export needs\<close>

lemma read_events_total:
  assumes "\<forall>e \<in> set es. \<exists>c. read_payload_content E db org_id (e_payload_hash e) = Inr c"
  shows "\<exists>r. read_events E db org_id es = Inr r"
  using assms by (induction es) (auto simp: read_events_def)

lemma policy_summary_total:
  assumes "\<forall>e \<in> set es. \<exists>c. read_payload_content E db org_id (e_payload_hash e) = Inr c"
  shows "\<exists>r. policy_summary_loop E db org_id es = Inr r"
  using assms by (induction es) (auto simp: read_policy_payload_def split: option.splits json.splits)

lemma workflow_gate_total:
  assumes "ensure_trace_access db org_id t = Inr ()"
    and "\<forall>e \<in> set (events_for_trace db org_id t). \<exists>c. read_payload_content E db org_id (e_payload_hash e) = Inr c"
  shows "\<exists>g. workflow_gate E db org_id t = Inr g"
proof -
  obtain p where "policy_summary_from_events E db org_id t = Inr p"
    using policy_summary_total [of "rev (events_for_trace db org_id t)" E db org_id] assms(2)
    by (auto simp: policy_summary_from_events_def)
  then show ?thesis using assms(1) by (auto simp: workflow_gate_def Let_def split: option.splits)
qed

lemma serialize_events_total:
  assumes "\<forall>e \<in> set es. event_ok E db e \<and> (\<exists>c. read_payload_content E db org_id (e_payload_hash e) = Inr c)"
  shows "\<exists>r. map_res (serialize_event E db org_id) es = Inr r"
  using assms
proof (induction es)
  case (Cons e es)
  then obtain c where "read_payload_content E db org_id (e_payload_hash e) = Inr c" by auto
  moreover have "map_of (e_envelope e) ''created_at'' \<noteq> None"
    using Cons.prems by (auto simp: event_ok_def build_envelope_def)
  ultimately have "\<exists>ev. serialize_event E db org_id e = Inr ev" by (auto simp: serialize_event_def Let_def)
  with Cons show ?case by auto
qed simp

lemma serialize_batch_total:
  assumes "log_ok E db" "batches_ok E db" "b \<in> set (batches db)"
  shows "\<exists>r. serialize_batch E db b ids = Inr r"
proof -
  have bok: "batch_ok E db b" and dist: "distinct (map e_id (events db))" using assms(2,3) by (auto simp: batches_ok_def)
  obtain bes where bes: "map e_id bes = b_event_ids b" "set bes \<subseteq> set (events db)" using bok by (auto simp: batch_ok_def)
  have "\<forall>e \<in> set bes. e_hash e = hex (digest E (canonical_bytes (e_envelope e)))"
    using log_ok_events [OF assms(1)] bes(2) by (auto simp: event_ok_def sha256_hex_def)
  then have hx: "map fromhex (map e_hash bes) = map Some (map (\<lambda>e. digest E (canonical_bytes (e_envelope e))) bes)"
    by (simp add: fromhex_hex)
  have len: "length (b_event_ids b) = length bes" by (simp flip: bes(1))
  have "\<exists>p. merkle_proof E (map e_hash bes) (int i) = Inr p" if "i < length bes" for i
    using inclusion_proof [OF hx, of i E] that by auto
  then have "\<exists>r. map_res (\<lambda>(i, eid). bind_res (merkle_proof E (map e_hash bes) (int i)) (\<lambda>p. Inr (eid, jstrs p))) sel = Inr r"
    if "set sel \<subseteq> set (enumerate 0 (b_event_ids b))" for sel
    using that
  proof (induction sel)
    case (Cons x sel)
    then have "fst x < length bes" by (cases x) (auto simp: in_set_enumerate_eq len)
    then obtain p where "merkle_proof E (map e_hash bes) (int (fst x)) = Inr p" using Cons.prems(2) Cons by blast
    then show ?case using Cons by (cases x) auto
  qed simp
  from this [of "filter (\<lambda>(i, eid). eid \<in> ids) (enumerate 0 (b_event_ids b))"]
  show ?thesis using leaf_hashes_ok [OF dist bes(2,1)] by (auto simp: serialize_batch_def Let_def)
qed

lemma event_by_id_total:
  assumes "\<forall>e \<in> set es. event_ok E db e" "map_res (serialize_event E db org_id) es = Inr evs"
  shows "\<exists>tbl. event_by_id evs = Inr tbl"
proof -
  have "\<forall>ev \<in> set evs. \<exists>i. map_of ev ''id'' = Some (JStr i)"
    using map_res_eq_Inr_set [OF assms(2)] assms(1) serialize_event_fields(6) by blast
  then have "\<exists>ps. map_res (\<lambda>ev. bind_res (py_sub (JObj ev) ''id'') (\<lambda>i. if hashable i then Inr (i, ev) else Inl TypeError)) evs = Inr ps"
    by (induction evs) (auto simp: py_sub_def)
  then show ?thesis by (auto simp: event_by_id_def)
qed

section \<open>Properties\<close>

text \<open>C35. An auditor's verdict on an export: for a trace of an intact log, in sealed batches that may be anchored,
  whose contents can be read, the export returns, and the verifier passes the bundle exactly when each
  signature of the trace verifies under the key of the service, the one key the bundle carries.  Hashes,
  links, inclusion proofs, batch signatures and anchors all pass.\<close>

theorem export_verifies_iff_service_key:
  assumes "log_ok E db" "batches_ok E db" "anchors_ok E L roots db" "service_key_ok E"
    and g: "load_public_pem E = Inr g" "load_pem_public E g = Some Ed25519Key" "utf8_ok g"
    and meta: "bind_res (get_signing_provider E) (provider_metadata E) = Inr meta"
    and t: "get_trace_by_id db t = Some tr" "t_org_id tr = org_id" "trace_events db t \<noteq> []"
    and reads: "\<forall>e \<in> set (trace_events db t). \<exists>c. read_payload_content E db org_id (e_payload_hash e) = Inr c"
  shows "\<exists>bundle. build_evidence_bundle E readme script db org_id t = Inr bundle \<and>
    verify_bundle E L roots bundle =
      Inr (\<forall>e \<in> set (trace_events db t). verify_hex E g (e_hash e) (e_signature e) = Inr True)"
proof -
  let ?es = "trace_events db t"
  have tok: "trace_ok E db t" using assms(1) by (simp add: log_ok_def)
  have es: "events_for_trace db org_id t = ?es" by (rule events_for_trace_rows(1) [OF tok t(1,2)])
  have acc: "ensure_trace_access db org_id t = Inr ()" using t by (simp add: ensure_trace_access_def)
  have eok: "\<forall>e \<in> set ?es. event_ok E db e" and ch: "chained None ?es" using tok by (auto simp: trace_ok_def)
  have sub: "set ?es \<subseteq> set (events db)" by (auto simp: trace_events_def)
  obtain rep where rep: "replay_trace E db org_id t = Inr rep"
    using acc es t(3) g(1) verify_event_chain_ok [OF _ g(1) ch, of db t] eok by (auto simp: replay_trace_def Let_def)
  obtain evs where evs: "map_res (serialize_event E db org_id) ?es = Inr evs"
    using serialize_events_total [of ?es E db org_id] eok reads by blast
  obtain tbl where tbl: "event_by_id evs = Inr tbl" using event_by_id_total [OF eok evs] by blast
  define bs where "bs = batches_for_event_ids db (map e_id ?es)"
  have bsub: "set bs \<subseteq> set (batches db)" by (auto simp: bs_def batches_for_event_ids_def)
  have "\<forall>b \<in> set bs. \<exists>r. serialize_batch E db b (e_id ` set ?es) = Inr r"
    using serialize_batch_total [OF assms(1,2)] bsub by blast
  then obtain bds where bds: "map_res (\<lambda>b. serialize_batch E db b (e_id ` set ?es)) bs = Inr bds"
    by (induction bs) auto
  obtain gate where gate: "workflow_gate E db org_id t = Inr gate"
    using workflow_gate_total [OF acc, of E] reads es by auto
  obtain rd where "read_events E db org_id ?es = Inr rd" using read_events_total [OF reads] by blast
  then obtain comp where cmp: "build_compliance_summary E db org_id t = Inr comp"
    using rep gate es by (simp add: build_compliance_summary_def Let_def)
  obtain bd where bld: "build_evidence_bundle E readme script db org_id t = Inr bd"
    and fl: "map_of bd ''public_key_pem'' = Some (JStr g)" "map_of bd ''events'' = Some (JList (map JObj evs))"
      "dget bd ''batches'' = JList (map JObj bds)" "bds = [] \<longrightarrow> dget bd ''batch'' = JNull"
    using acc t(3) rep evs bds cmp meta g(1,3)
    by (simp add: build_evidence_bundle_def Let_def es bs_def dget_def dget_def_def)
  have vb: "verify_batch E L roots g tbl (JObj x) = Inr True" if "x \<in> set bds" for x
    using map_res_eq_Inr_set [OF bds that] bsub verify_batch_exported [OF assms(1,2) _ assms(3) g(1,2) sub evs tbl] by blast
  then have vbs: "map_res (verify_batch E L roots g tbl) (map JObj bds) = Inr (map (\<lambda>_. True) (map JObj bds))"
    by (intro map_res_Inr) auto
  have ve: "verify_events E g JNull (map JObj evs) = Inr (\<forall>e \<in> set ?es. verify_hex E g (e_hash e) (e_signature e) = Inr True)"
    using verify_events_exported [OF g(1,2) eok ch evs] by (simp add: jopt_str_def)
  have ds: "map_res as_dict (map JObj evs) = Inr evs" by (induction evs) (auto simp: as_dict_def)
  have bat: "(if \<not> truthy (py_or (dget bd ''batches'') (JList [])) \<and> truthy (dget bd ''batch'')
      then JList [dget bd ''batch''] else py_or (dget bd ''batches'') (JList [])) = JList (map JObj bds)"
    using fl(3,4) by (cases bds) (simp_all add: py_or_def)
  have "verify_bundle E L roots bd =
      Inr (\<forall>e \<in> set ?es. verify_hex E g (e_hash e) (e_signature e) = Inr True)"
    unfolding verify_bundle_def Let_def bat using fl(1,2) ve ds tbl vbs by (simp add: py_sub_def list_all_iff)
  with bld show ?thesis by blast
qed

text \<open>For the witness: an organization on the key of the service, and one with a key of its own.\<close>

definition demo_tsa :: tsa_package where
  "demo_tsa = \<lparr>tsa_installed = True, decode_timestamp_response = (\<lambda>t. Some (t, None)),
     load_pem_certificates = (\<lambda>p. None), verify_message = (\<lambda>cert roots tok m. None)\<rparr>"

lemma read_payload_cong:
  "payloads db' = payloads db \<Longrightarrow> payload_keys db' = payload_keys db \<Longrightarrow>
   read_payload_content E db' = read_payload_content E db"
proof -
  assume "payloads db' = payloads db" "payload_keys db' = payload_keys db"
  then have same: "get_payload db' = get_payload db" "get_payload_key db' = get_payload_key db"
    by (simp_all add: fun_eq_iff get_payload_def get_payload_key_def)
  show ?thesis unfolding read_payload_content_def same ..
qed

text \<open>A first event on an empty log can be read back.\<close>

lemma first_record:
  assumes "log_ok demo_env db" "events db = []" "payloads db = []" "payload_keys db = []" "orgs db = []" "batches db = []"
    and r: "record_event demo_env ''o'' ''t'' 1 ''input'' [(''a'', JInt 1)] None db = Inr (out, db')"
  shows "\<exists>e sig kid db1. events db' = [e] \<and> trace_events db' ''t'' = [e] \<and> batches_ok demo_env db' \<and>
    (\<exists>c. read_payload_content demo_env db' ''o'' (e_payload_hash e) = Inr c) \<and>
    signing_keys db1 = signing_keys db \<and> sign_event_for_org demo_env db1 ''o'' (e_hash e) = Inr (sig, kid) \<and>
    e_signature e = sig \<and> anchors db' = anchors db \<and> batches db' = []"
proof -
  obtain tr db1 db2 sig kid e where tr: "get_or_create_trace demo_env ''o'' ''t'' None db = Inr (tr, db1)"
    and e: "e = new_event demo_env ''o'' ''t'' 1 ''input'' [(''a'', JInt 1)] None
      (map_option e_hash (last_event_for_trace db1 ''o'' ''t'')) sig kid (uuid4 demo_env (draws db2))"
    and sig: "sign_event_for_org demo_env db1 ''o'' (e_hash e) = Inr (sig, kid)"
    and st: "store_encrypted_payload demo_env ''o'' (e_payload_hash e) (fst (redact_payload [(''a'', JInt 1)]))
      (snd (redact_payload [(''a'', JInt 1)])) db1 = Inr db2"
    and db': "db' = db2\<lparr>draws := Suc (draws db2), events := events db2 @ [e]\<rparr>"
    using r by (rule record_event_Inr) blast
  obtain ts where db1: "db1 = db\<lparr>traces := traces db @ ts\<rparr>" using get_or_create_trace_Inr(3) [OF tr] by blast
  obtain n ps ks where db2: "db2 = db1\<lparr>draws := n, payloads := ps, payload_keys := ks\<rparr>" using store_frame [OF st] by blast
  have ev: "events db' = [e]" "batches db' = []" "anchors db' = anchors db" by (simp_all add: db' db2 db1 assms)
  have red: "fst (redact_payload [(''a'', JInt 1)]) = [(''a'', JInt 1)]" by code_simp
  obtain db3 where "store_encrypted_payload demo_env ''o'' (e_payload_hash e) [(''a'', JInt 1)]
      (snd (redact_payload [(''a'', JInt 1)])) db1 = Inr db3"
    "read_payload_content demo_env db3 ''o'' (e_payload_hash e) = Inr (Some (JObj [(''a'', JInt 1)]))"
    using store_then_read [OF demo_env_ok(1) demo_urandom_ok, of "[(''a'', JInt 1)]" db1 "''o''" "e_payload_hash e"
        "snd (redact_payload [(''a'', JInt 1)])"] assms(3-5)
    by (auto simp: db1 get_payload_def wrapping_pem_def get_org_by_id_def)
  then have "read_payload_content demo_env db2 ''o'' (e_payload_hash e) = Inr (Some (JObj [(''a'', JInt 1)]))"
    using st red by simp
  then have "read_payload_content demo_env db' ''o'' (e_payload_hash e) = Inr (Some (JObj [(''a'', JInt 1)]))"
    using read_payload_cong [of db' db2 demo_env] by (simp add: db')
  moreover have "trace_events db' ''t'' = [e]" "batches_ok demo_env db'" by (simp_all add: trace_events_def ev e batches_ok_def)
  moreover have "signing_keys db1 = signing_keys db" "e_signature e = sig" by (simp_all add: db1 e)
  ultimately show ?thesis using ev sig by blast
qed

lemma demo_key:
  "load_public_pem demo_env = Inr ''G''" "load_pem_public demo_env ''G'' = Some Ed25519Key" "utf8_ok ''G''"
  "\<exists>m. bind_res (get_signing_provider demo_env) (provider_metadata demo_env) = Inr m"
proof -
  show "load_public_pem demo_env = Inr ''G''" "load_pem_public demo_env ''G'' = Some Ed25519Key"
    by (simp_all add: demo_env_def load_public_pem_def get_signing_provider_def Let_def)
  show "utf8_ok ''G''" by (rule ascii_utf8_ok) simp
  have "get_signing_provider demo_env = Inr (LocalPemSigningProvider ''sk'' ''pk'')" "read_file demo_env ''pk'' = Some ''G''"
    by (simp_all add: demo_env_def get_signing_provider_def Let_def)
  then show "\<exists>m. bind_res (get_signing_provider demo_env) (provider_metadata demo_env) = Inr m"
    by (simp add: provider_metadata_def)
qed

theorem export_verifies_iff_service_key_witness:
  "\<exists>out db1 r db2 b1 key db3 out' db4 rep b2.
     record_event demo_env ''o'' ''t'' 1 ''input'' [(''a'', JInt 1)] None empty_db = Inr (out, db1) \<and>
     seal_batch demo_env db1 = Inr (Some r, db2) \<and>
     build_evidence_bundle demo_env ''readme'' ''script'' db2 ''o'' ''t'' = Inr b1 \<and>
     verify_bundle demo_env demo_tsa None b1 = Inr True \<and>
     provision_managed_signing_key demo_env ''o'' empty_db = Inr (key, db3) \<and>
     record_event demo_env ''o'' ''t'' 1 ''input'' [(''a'', JInt 1)] None db3 = Inr (out', db4) \<and>
     replay_trace demo_env db4 ''o'' ''t'' = Inr rep \<and> tr_all_verified rep \<and>
     build_evidence_bundle demo_env ''readme'' ''script'' db4 ''o'' ''t'' = Inr b2 \<and>
     verify_bundle demo_env demo_tsa None b2 = Inr False"
proof -
  obtain m where m: "bind_res (get_signing_provider demo_env) (provider_metadata demo_env) = Inr m" using demo_key(4) by blast
  obtain out db1 where r1: "record_event demo_env ''o'' ''t'' 1 ''input'' [(''a'', JInt 1)] None empty_db = Inr (out, db1)"
    using demo_recorded by blast
  note l1 = record_event_log [OF log_ok_empty demo_keys_ok(1) r1]
  obtain e sig kid d1 where e: "events db1 = [e]" "trace_events db1 ''t'' = [e]" "batches_ok demo_env db1"
      "\<exists>c. read_payload_content demo_env db1 ''o'' (e_payload_hash e) = Inr c" "signing_keys d1 = []"
      "sign_event_for_org demo_env d1 ''o'' (e_hash e) = Inr (sig, kid)" "e_signature e = sig" "anchors db1 = []"
    using first_record [OF log_ok_empty _ _ _ _ _ r1] by (auto simp: empty_db_def)
  have "e_batch_id e = None" using l1(2) e(1) by (auto simp: empty_db_def)
  then obtain r db2 where r2: "seal_batch demo_env db1 = Inr (Some r, db2)"
    using seal_total [OF l1(1) _ demo_sign] e(1) by (auto simp: unbatched_events_def order_asc_def)
  have l2: "log_ok demo_env db2" by (rule seal_log_ok [OF l1(1) r2])
  note s2 = seal_batches_ok [OF e(3) demo_keys_ok(1) r2]
  obtain bid where fr: "traces db2 = traces db1" "payloads db2 = payloads db1" "payload_keys db2 = payload_keys db1"
      "events db2 = update_where (\<lambda>x. e_id x \<in> set (map e_id (unbatched_events db1))) (\<lambda>x. x\<lparr>e_batch_id := Some bid\<rparr>) (events db1)"
    using r2 by (elim seal_batch_Some) (auto simp: assign_events_to_batch_def)
  obtain x where x: "trace_events db2 ''t'' = [e\<lparr>e_batch_id := x\<rparr>]"
  proof -
    have "e_trace_id e = ''t''" using e(2) by (auto simp: trace_events_def filter_eq_Cons_iff)
    then have "\<exists>x. trace_events db2 ''t'' = [e\<lparr>e_batch_id := x\<rparr>]"
      by (cases "e_batch_id e") (auto simp: trace_events_def fr(4) e(1) update_where_def intro: exI [of _ "e_batch_id e"])
    then show ?thesis using that by blast
  qed
  obtain tr where tr: "get_trace_by_id db2 ''t'' = Some tr" "t_org_id tr = ''o''"
    using l1(4) fr(1) by (auto simp: get_trace_by_id_def)
  have an: "anchors_ok demo_env demo_tsa None db2" by (simp add: anchors_ok_def anchor_of_def s2(2) e(8))
  have vf: "verify_hex demo_env ''G'' (e_hash e) (e_signature e) = Inr True"
    using e(5-7) demo_keys_ok(1) demo_key(1)
    by (auto simp: sign_event_for_org_def active_signing_key_def bind_res_eq_Inr service_key_ok_def)
  obtain b1 where b1: "build_evidence_bundle demo_env ''readme'' ''script'' db2 ''o'' ''t'' = Inr b1"
      "verify_bundle demo_env demo_tsa None b1 = Inr True"
    using export_verifies_iff_service_key [OF l2 s2(1) an demo_keys_ok(1) demo_key(1-3) m tr, of "''readme''" "''script''"]
      x e(4) vf read_payload_cong [OF fr(2,3), of demo_env] by auto
  obtain key db3 where p: "provision_managed_signing_key demo_env ''o'' empty_db = Inr (key, db3)"
    by (cases "ed_generate demo_env 0") (simp add: provision_managed_signing_key_def Let_def new_uuid_def empty_db_def)
  note pr = provision_Inr [OF p]
  have l3: "log_ok demo_env db3" by (rule provision_log_ok [OF log_ok_empty demo_keys_ok(2) p])
  have gen: "ed_generate demo_env 0 = (''E0'', ''E0'')" by code_simp
  have key: "active_signing_key d ''o'' = Some key" "sk_private_pem key = Some ''E0''" if "signing_keys d = signing_keys db3" for d
    using that p pr by (auto simp: active_signing_key_def provision_managed_signing_key_def Let_def new_uuid_def empty_db_def
        order_desc_def gen split: if_splits)
  have "can_sign demo_env db3 ''o''"
    using key [of db3] by (auto simp: can_sign_def sign_event_for_org_def sign_hex_def load_private_key_def fromhex_hex demo_env_def)
  then obtain out' db4 where r4: "record_event demo_env ''o'' ''t'' 1 ''input'' [(''a'', JInt 1)] None db3 = Inr (out', db4)"
    using record_event_accepts [OF l3, of "''input''" "''t''" "''o''" 1 "[(''a'', JInt 1)]" None] pr(4)
    by (auto simp: get_trace_by_id_def trace_events_def wrapping_pem_def get_org_by_id_def empty_db_def strip_def is_space_def)
  note l4 = record_event_log [OF l3 demo_keys_ok(1) r4]
  obtain f s k d4 where f: "events db4 = [f]" "trace_events db4 ''t'' = [f]" "batches_ok demo_env db4"
      "\<exists>c. read_payload_content demo_env db4 ''o'' (e_payload_hash f) = Inr c" "signing_keys d4 = signing_keys db3"
      "sign_event_for_org demo_env d4 ''o'' (e_hash f) = Inr (s, k)" "e_signature f = s" "batches db4 = []"
    using first_record [OF l3 _ _ _ _ _ r4] pr(4) by (auto simp: empty_db_def)
  obtain tr4 where tr4: "get_trace_by_id db4 ''t'' = Some tr4" "t_org_id tr4 = ''o''" using l4(4) by blast
  have nv: "verify_hex demo_env ''G'' (e_hash f) (e_signature f) \<noteq> Inr True"
    using f(6,7) key [OF f(5)]
    by (auto simp: sign_event_for_org_def bind_res_eq_Inr sign_hex_def verify_hex_def load_private_key_def load_public_key_def fromhex_hex demo_env_def)
      (drule arg_cong [where f = fromhex], simp add: fromhex_hex)
  obtain b2 where b2: "build_evidence_bundle demo_env ''readme'' ''script'' db4 ''o'' ''t'' = Inr b2"
      "verify_bundle demo_env demo_tsa None b2 = Inr False"
    using export_verifies_iff_service_key [OF l4(1) f(3) _ demo_keys_ok(1) demo_key(1-3) m tr4, of demo_tsa None "''readme''" "''script''"]
      f nv by (auto simp: anchors_ok_def)
  have "trace_ok demo_env db4 ''t''" using l4(1) by (simp add: log_ok_def)
  then have "chained None [f]" "event_ok demo_env db4 f" by (simp_all add: trace_ok_def f(2))
  then have "\<exists>r. verify_event_chain demo_env ''t'' [f] None (Some (resolve_pem db4 ''G'')) = Inr r \<and> tr_all_verified r"
    by (intro verify_event_chain_ok [OF _ demo_key(1)]) auto
  then obtain rep where rep: "replay_trace demo_env db4 ''o'' ''t'' = Inr rep" "tr_all_verified rep"
    using tr4 f(2) events_for_trace_rows(1) [OF _ tr4, of demo_env] l4(1)
    by (auto simp: replay_trace_def ensure_trace_access_def log_ok_def demo_key(1))
  show ?thesis using r1 r2 b1 p r4 rep b2 by blast
qed

end
