(* ===== verification/Api.thy ===== *)
theory Api
  imports SdkApi Orgs AccessReview Evidence
begin

text \<open>
  The customer's routes: \<^verbatim>\<open>api/events.py\<close>, \<^verbatim>\<open>precheck.py\<close>, \<^verbatim>\<open>erasure.py\<close>, \<^verbatim>\<open>approvals.py\<close>, \<^verbatim>\<open>mitigations.py\<close>,
  \<^verbatim>\<open>traces.py\<close>, \<^verbatim>\<open>workqueue.py\<close>, \<^verbatim>\<open>policies.py\<close> and the organization's half of \<^verbatim>\<open>access.py\<close>, with the
  constraints and the shapes of \<^verbatim>\<open>schemas.py\<close>.  A route returns the object it answers with and the database
  it committed, or raises; \<open>raises_as\<close> holds its table of handlers, and what no handler catches is an answer
  500.  Bodies are given as the fields that Pydantic parsed from them; an answer is the object that the route
  builds, before the response model coerces it.
\<close>

section \<open>Handlers\<close>

text \<open>The exceptions that \<^verbatim>\<open>except ValueError\<close> and \<^verbatim>\<open>except OSError\<close> catch, by their base classes.  \<^verbatim>\<open>SigningKeyError\<close>
  is a \<^verbatim>\<open>RuntimeError\<close> and in neither list.\<close>

definition value_errors :: "exn list" where
  "value_errors =
     [ValueError, EventSequenceError, InvalidEventTypeError, ApprovalAlreadyResolvedError,
      PayloadAlreadyErasedError, RemediationRefError, OfflineSegmentError, AccessReviewError, KeyWrappingError,
      PasswordPolicyError, ProfileError, PackError, InvalidOrgSettingsError]"

definition os_errors :: "exn list" where
  "os_errors = [TraceAccessDeniedError, TsaRequestError]"

definition each :: "exn list \<Rightarrow> int \<Rightarrow> (exn \<times> int) list" where
  "each es c = map (\<lambda>e. (e, c)) es"

text \<open>\<^verbatim>\<open>uuid.UUID(value)\<close> in a route, and \<^verbatim>\<open>_parse_uuid\<close>.\<close>

definition parse_uuid :: "string \<Rightarrow> string res" where
  "parse_uuid value = raises_as [(ValueError, 422)] (uuid_of value)"

text \<open>What Pydantic refuses is an answer 422 before the route runs.\<close>

definition valid :: "bool \<Rightarrow> unit res" where
  "valid b = (if b then Inr () else Inl (HTTPException 422))"

definition opt_map :: "('a \<Rightarrow> json) \<Rightarrow> 'a option \<Rightarrow> json" where
  "opt_map f x = (case x of None \<Rightarrow> JNull | Some v \<Rightarrow> f v)"

section \<open>api/events.py and api/precheck.py\<close>

definition EventIn :: "int \<Rightarrow> string \<Rightarrow> bool" where
  "EventIn seq event_type \<longleftrightarrow> 1 \<le> seq \<and> 1 \<le> length event_type"

definition EventOut :: "event_out \<Rightarrow> dict" where
  "EventOut r =
     [(''hash'', JStr (eo_hash r)), (''signature'', JStr (eo_signature r)), (''seq'', JInt (eo_seq r)),
      (''prev_hash'', JStr (eo_prev_hash r)), (''event_id'', JStr (eo_event_id r))]"

definition post_event ::
  "env \<Rightarrow> org \<Rightarrow> string \<Rightarrow> int \<Rightarrow> string \<Rightarrow> dict \<Rightarrow> string option \<Rightarrow> db \<Rightarrow> (dict \<times> db) res" where
  "post_event E org trace_id seq event_type payload policy_version db =
     bind_res (valid (EventIn seq event_type)) (\<lambda>_.
     bind_res (require_onboarded db org) (\<lambda>_.
     bind_res (parse_uuid trace_id) (\<lambda>trace_uuid.
     bind_res (raises_as ([(EventSequenceError, 409), (TraceAccessDeniedError, 403), (InvalidEventTypeError, 422)] @
                          each os_errors 503)
                 (record_event E (o_id org) trace_uuid seq event_type payload policy_version db)) (\<lambda>(r, db).
     Inr (EventOut r, db)))))"

definition PrecheckIn :: "int \<Rightarrow> string \<Rightarrow> bool" where
  "PrecheckIn seq action \<longleftrightarrow> 1 \<le> seq \<and> 1 \<le> length action"

definition PrecheckOut :: "precheck_result \<Rightarrow> dict" where
  "PrecheckOut r =
     [(''trace_id'', JStr (pc_trace_id r)), (''tier'', JStr (tier_str (pc_tier r))),
      (''decision'', JStr (decision_str (pc_decision r))), (''allowed'', JBool (pc_allowed r)),
      (''reasons'', jstrs (pc_reasons r)), (''policy_version'', JStr (pc_policy_version r)),
      (''policy_decision_seq'', JInt (pc_policy_decision_seq r)),
      (''policy_decision_hash'', JStr (pc_policy_decision_hash r)), (''approval_id'', jopt_str (pc_approval_id r)),
      (''rule_id'', jopt_str (pc_rule_id r)), (''regulatory_refs'', jstrs (pc_regulatory_refs r)),
      (''risk_score'', JInt (pc_risk_score r)), (''layer_results'', jobjs (map layer_result_to_dict (pc_layer_results r))),
      (''mitigations'', jstrs (pc_mitigations r)),
      (''policy_tier'', opt_map (JStr \<circ> tier_str) (pc_policy_tier r)),
      (''jurisdictions'', jstrs (pc_jurisdictions r)),
      (''regulatory_findings'', jobjs (pc_regulatory_findings r))]"

definition post_precheck ::
  "env \<Rightarrow> rewriter \<Rightarrow> org \<Rightarrow> string \<Rightarrow> int \<Rightarrow> string \<Rightarrow> dict \<Rightarrow> string option \<Rightarrow> db \<Rightarrow> (dict \<times> db) res" where
  "post_precheck E R org trace_id seq action payload policy_version db =
     bind_res (valid (PrecheckIn seq action)) (\<lambda>_.
     bind_res (require_onboarded db org) (\<lambda>_.
     bind_res (parse_uuid trace_id) (\<lambda>trace_uuid.
     bind_res (raises_as ([(NoActivePolicyError, 409), (TraceAccessDeniedError, 403), (EventSequenceError, 409)] @
                          each os_errors 503)
                 (run_precheck E R org trace_uuid seq action None payload policy_version db)) (\<lambda>(r, db).
     Inr (PrecheckOut r, db)))))"

section \<open>api/erasure.py and api/mitigations.py\<close>

definition ErasureIn :: "int \<Rightarrow> string \<Rightarrow> string \<Rightarrow> bool" where
  "ErasureIn target_seq approver_id reason \<longleftrightarrow> 1 \<le> target_seq \<and> approver_id \<noteq> [] \<and> reason \<noteq> []"

definition ErasureOut :: "erasure_result \<Rightarrow> dict" where
  "ErasureOut r =
     [(''trace_id'', JStr (er_trace_id r)), (''erasure_seq'', JInt (er_erasure_seq r)),
      (''target_seq'', JInt (er_target_seq r)), (''target_payload_hash'', JStr (er_target_payload_hash r)),
      (''hash'', JStr (er_hash r)), (''signature'', JStr (er_signature r))]"

definition post_erasure ::
  "env \<Rightarrow> org \<Rightarrow> string \<Rightarrow> int \<Rightarrow> string \<Rightarrow> string \<Rightarrow> db \<Rightarrow> (dict \<times> db) res" where
  "post_erasure E org trace_id target_seq approver_id reason db =
     bind_res (valid (ErasureIn target_seq approver_id reason)) (\<lambda>_.
     bind_res (parse_uuid trace_id) (\<lambda>trace_uuid.
     bind_res (raises_as ([(TraceAccessDeniedError, 403), (TraceNotFoundError, 404), (ErasureTargetError, 404),
                           (PayloadAlreadyErasedError, 409)] @ each os_errors 503)
                 (erase_event_payload E (o_id org) trace_uuid target_seq approver_id reason db)) (\<lambda>(r, db).
     Inr (ErasureOut r, db))))"

definition MitigateIn :: "int \<Rightarrow> string list \<Rightarrow> bool" where
  "MitigateIn seq mitigation_ids \<longleftrightarrow> 1 \<le> seq \<and> mitigation_ids \<noteq> []"

definition MitigateOut :: "mitigation_result \<Rightarrow> dict" where
  "MitigateOut r =
     [(''trace_id'', JStr (mr_trace_id r)), (''seq'', JInt (mr_seq r)), (''hash'', JStr (mr_hash r)),
      (''mitigation_ids'', jstrs (mr_mitigation_ids r)), (''mitigated_payload'', JObj (mr_mitigated_payload r))]"

definition post_mitigate ::
  "env \<Rightarrow> org \<Rightarrow> string \<Rightarrow> int \<Rightarrow> string list \<Rightarrow> dict \<Rightarrow> int option \<Rightarrow> string option \<Rightarrow> db \<Rightarrow> (dict \<times> db) res" where
  "post_mitigate E org trace_id seq mitigation_ids source_payload policy_decision_seq policy_version db =
     bind_res (valid (MitigateIn seq mitigation_ids)) (\<lambda>_.
     bind_res (parse_uuid trace_id) (\<lambda>trace_uuid.
     bind_res (raises_as ([(TraceAccessDeniedError, 403), (TraceNotFoundError, 404), (EventSequenceError, 409)] @
                          each value_errors 422 @ each os_errors 503)
                 (record_mitigation E (o_id org) trace_uuid seq mitigation_ids source_payload
                    policy_decision_seq policy_version db)) (\<lambda>(r, db).
     Inr (MitigateOut r, db))))"

section \<open>api/approvals.py\<close>

definition ApprovalOut :: "approval \<Rightarrow> dict" where
  "ApprovalOut a =
     [(''id'', JStr (a_id a)), (''trace_id'', JStr (a_trace_id a)), (''event_id'', jopt_str (a_event_id a)),
      (''status'', JStr (a_status a)), (''approver_id'', jopt_str (a_approver_id a)),
      (''approver_kind'', jopt_str (a_approver_kind a)), (''comment'', jopt_str (a_comment a)),
      (''created_at'', JStr (isoformat (a_created_at a))),
      (''resolved_at'', opt_map (JStr \<circ> isoformat) (a_resolved_at a))]"

definition list_approvals_route :: "org \<Rightarrow> string option \<Rightarrow> string option \<Rightarrow> db \<Rightarrow> dict list res" where
  "list_approvals_route org status trace_id db =
     bind_res (case trace_id of None \<Rightarrow> Inr None | Some t \<Rightarrow> map_sum id Some (parse_uuid t)) (\<lambda>trace_uuid.
     Inr (map ApprovalOut (list_approvals db (o_id org) status trace_uuid 50)))"

definition get_approval_route :: "org \<Rightarrow> string \<Rightarrow> db \<Rightarrow> dict res" where
  "get_approval_route org approval_id db =
     bind_res (parse_uuid approval_id) (\<lambda>approval_uuid.
     case get_approval db (o_id org) approval_uuid of
       None \<Rightarrow> Inl (HTTPException 404)
     | Some a \<Rightarrow> Inr (ApprovalOut a))"

definition ApprovalResolveIn :: "string \<Rightarrow> string option \<Rightarrow> bool" where
  "ApprovalResolveIn status approver_id \<longleftrightarrow> status \<in> {''approved'', ''denied''} \<and> approver_id \<noteq> Some []"

text \<open>Who resolves: the signed-in person, else the name that the caller gives.\<close>

record approver =
  apv_id :: string
  apv_kind :: string
  apv_user_id :: "string option"
  apv_display :: "string option"

definition the_approver :: "actor \<Rightarrow> string option \<Rightarrow> approver res" where
  "the_approver ac approver_id =
     (case ac_user ac of
        Some u \<Rightarrow>
          if u_role u \<notin> {''admin'', ''officer''} then Inl (HTTPException 403)
          else Inr \<lparr>apv_id = u_email u, apv_kind = ''authenticated'', apv_user_id = Some (u_id u),
                    apv_display = Some (u_display_name u)\<rparr>
      | None \<Rightarrow>
          (case approver_id of
             None \<Rightarrow> Inl (HTTPException 422)
           | Some a \<Rightarrow>
               if a = [] then Inl (HTTPException 422)
               else Inr \<lparr>apv_id = a, apv_kind = ''asserted'', apv_user_id = None, apv_display = None\<rparr>))"

definition ApprovalResolveOut :: "approval_result \<Rightarrow> dict" where
  "ApprovalResolveOut r =
     [(''approval_id'', JStr (apr_approval_id r)), (''trace_id'', JStr (apr_trace_id r)),
      (''status'', JStr (apr_status r)), (''event_seq'', JInt (apr_event_seq r)),
      (''event_hash'', JStr (apr_event_hash r)), (''resume_allowed'', JBool (apr_resume_allowed r)),
      (''workflow_status'', JStr (apr_workflow_status r))]"

definition resolve_route ::
  "env \<Rightarrow> actor \<Rightarrow> string \<Rightarrow> string \<Rightarrow> string option \<Rightarrow> string option \<Rightarrow> db \<Rightarrow> (dict \<times> db) res" where
  "resolve_route E ac approval_id status approver_id comment db =
     bind_res (valid (ApprovalResolveIn status approver_id)) (\<lambda>_.
     bind_res (parse_uuid approval_id) (\<lambda>approval_uuid.
     bind_res (the_approver ac approver_id) (\<lambda>w.
     bind_res (raises_as ([(ApprovalNotFoundError, 404), (ApprovalAlreadyResolvedError, 409)] @
                          each value_errors 422 @ each os_errors 503)
                 (resolve_approval E (o_id (ac_org ac)) approval_uuid status (apv_id w) (apv_kind w)
                    (apv_user_id w) (apv_display w) comment db)) (\<lambda>(r, db).
     Inr (ApprovalResolveOut r, db)))))"

section \<open>api/traces.py and api/workqueue.py\<close>

definition trace_summary :: "db \<Rightarrow> string \<Rightarrow> trace \<Rightarrow> dict" where
  "trace_summary db org_id t =
     [(''trace_id'', JStr (t_id t)), (''created_at'', JStr (isoformat (t_created_at t))),
      (''policy_version'', JStr (case t_policy_version t of None \<Rightarrow> [] | Some v \<Rightarrow> v)),
      (''event_count'', JInt (int (event_count_for_trace db org_id (t_id t))))]"

definition list_traces :: "db \<Rightarrow> string \<Rightarrow> nat \<Rightarrow> nat \<Rightarrow> dict list" where
  "list_traces db org_id limit offset =
     map (trace_summary db org_id) (list_traces_for_org db org_id limit offset)"

definition get_traces :: "org \<Rightarrow> int \<Rightarrow> int \<Rightarrow> db \<Rightarrow> dict list res" where
  "get_traces org limit offset db =
     bind_res (valid (1 \<le> limit \<and> limit \<le> 200 \<and> 0 \<le> offset)) (\<lambda>_.
     Inr (list_traces db (o_id org) (nat limit) (nat offset)))"

definition trace_gate :: "env \<Rightarrow> org \<Rightarrow> string \<Rightarrow> db \<Rightarrow> dict res" where
  "trace_gate E org trace_id db =
     bind_res (parse_uuid trace_id) (\<lambda>trace_uuid.
     bind_res (raises_as [(TraceAccessDeniedError, 403), (TraceNotFoundError, 404)]
                 (workflow_gate E db (o_id org) trace_uuid)) (\<lambda>g.
     Inr (workflow_gate_out g)))"

definition TraceReplayOut :: "trace_replay_result \<Rightarrow> dict" where
  "TraceReplayOut r =
     [(''trace_id'', JStr (tr_trace_id r)), (''all_verified'', JBool (tr_all_verified r)),
      (''events'', jobjs (map replay_event_item (tr_events r)))]"

definition replay_route :: "env \<Rightarrow> org \<Rightarrow> string \<Rightarrow> db \<Rightarrow> dict res" where
  "replay_route E org trace_id db =
     bind_res (parse_uuid trace_id) (\<lambda>trace_uuid.
     bind_res (raises_as [(TraceAccessDeniedError, 403), (TraceNotFoundError, 404)]
                 (replay_trace E db (o_id org) trace_uuid)) (\<lambda>r.
     Inr (TraceReplayOut r)))"

text \<open>The export as JSON; the texts that the bundle carries are arguments.\<close>

definition export_evidence :: "env \<Rightarrow> string \<Rightarrow> string \<Rightarrow> org \<Rightarrow> string \<Rightarrow> db \<Rightarrow> dict res" where
  "export_evidence E readme script org trace_id db =
     bind_res (parse_uuid trace_id) (\<lambda>trace_uuid.
     raises_as [(TraceAccessDeniedError, 403), (TraceNotFoundError, 404)]
       (build_evidence_bundle E readme script db (o_id org) trace_uuid))"

definition WorkQueueOut :: "workqueue \<Rightarrow> dict" where
  "WorkQueueOut q =
     [(''pending_approvals'', jobjs (wq_pending_approvals q)), (''open_flags'', jobjs (wq_open_flags q)),
      (''rewrite_confirmations'', jobjs (wq_rewrite_confirmations q)),
      (''counts'', JObj
         [(''approvals'', JInt (int (length (wq_pending_approvals q)))),
          (''open_flags'', JInt (int (length (wq_open_flags q)))),
          (''rewrite_confirmations'', JInt (int (length (wq_rewrite_confirmations q)))),
          (''total'', JInt (int (wq_total q)))])]"

definition get_workqueue :: "org \<Rightarrow> db \<Rightarrow> dict" where
  "get_workqueue org db = WorkQueueOut (build_workqueue db (o_id org))"

section \<open>api/policies.py\<close>

definition PolicyOut :: "policy \<Rightarrow> dict" where
  "PolicyOut p =
     (let rules = (case pol_rules p of JObj d \<Rightarrow> d | _ \<Rightarrow> []) in
      [(''id'', JStr (pol_id p)), (''org_id'', JStr (pol_org_id p)), (''name'', JStr (pol_name p)),
       (''version'', JStr (pol_version p)), (''active'', JBool (pol_active p)),
       (''schema_version'', dget rules ''schema_version''), (''engine'', dget rules ''engine''),
       (''rules'', JObj rules)])"

definition get_active_policy_route :: "org \<Rightarrow> db \<Rightarrow> dict res" where
  "get_active_policy_route org db =
     (case get_active_policy db (o_id org) of
        None \<Rightarrow> Inl (HTTPException 404)
      | Some p \<Rightarrow> Inr (PolicyOut p))"

definition InternalPolicyIn :: "string \<Rightarrow> string \<Rightarrow> bool" where
  "InternalPolicyIn name version \<longleftrightarrow> name \<noteq> [] \<and> version \<noteq> [] \<and> length (code_points version) \<le> 32"

definition put_internal_policy ::
  "env \<Rightarrow> org \<Rightarrow> string \<Rightarrow> string \<Rightarrow> dict \<Rightarrow> bool \<Rightarrow> db \<Rightarrow> (dict \<times> db) res" where
  "put_internal_policy E org name version rules activate db =
     bind_res (valid (InternalPolicyIn name version)) (\<lambda>_.
     case upsert_policy E (o_id org) name version (JObj rules) activate db of
       (p, db) \<Rightarrow> Inr (PolicyOut p, db))"

definition PolicyPreviewOut :: "preview_result \<Rightarrow> dict" where
  "PolicyPreviewOut r =
     [(''status'', JStr (pv_status r)), (''error'', jopt_str (pv_error r)),
      (''tier'', opt_map (JStr \<circ> tier_str) (pv_tier r)), (''policy_tier'', opt_map (JStr \<circ> tier_str) (pv_policy_tier r)),
      (''decision'', opt_map (JStr \<circ> decision_str) (pv_decision r)), (''allowed'', opt_map JBool (pv_allowed r)),
      (''reasons'', jstrs (pv_reasons r)), (''rule_id'', jopt_str (pv_rule_id r)),
      (''findings'', jobjs (pv_findings r)), (''jurisdictions'', jstrs (pv_jurisdictions r)),
      (''remediation_preview'', opt_map JObj (pv_remediation_preview r)), (''recorded'', JBool False)]"

definition preview_policy ::
  "env \<Rightarrow> org \<Rightarrow> string \<Rightarrow> dict \<Rightarrow> string option \<Rightarrow> dict option \<Rightarrow> db \<Rightarrow> dict res" where
  "preview_policy E org action out policy_version candidate_rules db =
     bind_res (valid (action \<noteq> [])) (\<lambda>_.
     bind_res
       (case candidate_rules of
          Some rules \<Rightarrow>
            Inr (rules, case policy_version of Some v \<Rightarrow> if v = [] then ''candidate'' else v | None \<Rightarrow> ''candidate'')
        | None \<Rightarrow>
            (case chosen_policy db (o_id org) policy_version of
               None \<Rightarrow> Inl (HTTPException 404)
             | Some p \<Rightarrow> Inr (case pol_rules p of JObj d \<Rightarrow> d | _ \<Rightarrow> [], pol_version p)))
       (\<lambda>(rules, version).
     bind_res (raises_as [] (preview E db org action out version (JObj rules))) (\<lambda>r.
     Inr (PolicyPreviewOut r))))"

definition pack_out :: "regulation_pack \<Rightarrow> bool option \<Rightarrow> string option \<Rightarrow> dict" where
  "pack_out p enabled enforcement =
     (let doc = (case rp_rules p of JObj d \<Rightarrow> d | _ \<Rightarrow> []);
          rules = dget_def doc ''rules'' (JList [])
      in [(''id'', JStr (rp_id p)), (''code'', JStr (rp_code p)), (''jurisdiction'', JStr (rp_jurisdiction p)),
          (''name'', JStr (rp_name p)), (''version'', JStr (rp_version p)), (''instrument'', JStr (rp_instrument p)),
          (''instrument_notes'', jopt_str (rp_instrument_notes p)), (''source_url'', jopt_str (rp_source_url p)),
          (''effective_date'', jopt_str (rp_effective_date p)),
          (''verification_status'', JStr (rp_verification_status p)), (''reviewed_by'', jopt_str (rp_reviewed_by p)),
          (''rule_count'', JInt (case rules of JList xs \<Rightarrow> int (length xs) | _ \<Rightarrow> 0)),
          (''enabled'', opt_map JBool enabled), (''enforcement'', jopt_str enforcement)])"

definition get_available_packs :: "string option \<Rightarrow> db \<Rightarrow> dict list" where
  "get_available_packs jurisdiction db = map (\<lambda>p. pack_out p None None) (list_packs db jurisdiction)"

definition get_my_packs :: "org \<Rightarrow> db \<Rightarrow> dict list" where
  "get_my_packs org db =
     map (\<lambda>(p, s). pack_out p (Some (op_enabled s)) (Some (op_enforcement s))) (org_subscriptions db (o_id org))"

definition decision_out :: "policy_decision_summary \<Rightarrow> dict" where
  "decision_out d =
     [(''trace_id'', JStr (ds_trace_id d)), (''seq'', JInt (ds_seq d)), (''action'', JStr (ds_action d)),
      (''tier'', JStr (ds_tier d)), (''policy_tier'', JStr (ds_policy_tier d)), (''allowed'', JBool (ds_allowed d)),
      (''policy_version'', jopt_str (ds_policy_version d)), (''jurisdictions'', jstrs (ds_jurisdictions d)),
      (''findings'', jobjs (ds_findings d)), (''event_hash'', JStr (ds_event_hash d)),
      (''created_at'', JStr (isoformat (ds_created_at d))), (''status'', jopt_str (ds_status d)),
      (''output_seq'', jopt_int (ds_output_seq d)), (''output_hash'', jopt_str (ds_output_hash d)),
      (''remediation'', opt_map JObj (ds_remediation d)), (''remediation_of'', jopt_int (ds_remediation_of d)),
      (''remediated_by_seq'', jopt_int (ds_remediated_by_seq d))]"

definition get_decisions :: "org \<Rightarrow> bool \<Rightarrow> int \<Rightarrow> db \<Rightarrow> dict list" where
  "get_decisions org flagged_only limit db =
     map decision_out
       (take (nat (max 1 (min limit 200)))
         (order_desc ds_created_at
           (filter (\<lambda>d. ds_org_id d = o_id org \<and> (flagged_only \<longrightarrow> ds_tier d \<in> {''orange'', ''red''}))
              (summaries db))))"

text \<open>Counting by key; SQL leaves the order of the groups open, here it is that of first occurrence.\<close>

definition count_by :: "string list \<Rightarrow> (string \<times> int) list" where
  "count_by ks = map (\<lambda>k. (k, int (count_list ks k))) (dict_keys ks)"

definition get_compliance_summary :: "org \<Rightarrow> db \<Rightarrow> dict" where
  "get_compliance_summary org db =
     (let rows = filter (\<lambda>d. ds_org_id d = o_id org) (summaries db);
          by_tier = count_by (map ds_tier rows);
          tier_count = (\<lambda>t. case map_of by_tier t of Some n \<Rightarrow> n | None \<Rightarrow> 0);
          by_jurisdiction = count_by (concat (map ds_jurisdictions rows));
          unverified = filter (\<lambda>(p, s). op_enabled s \<and> rp_verification_status p = ''unverified'')
                         (org_subscriptions db (o_id org))
      in [(''decisions_total'', JInt (sum_list (map snd by_tier))),
          (''flagged_total'', JInt (tier_count ''orange'' + tier_count ''red'')),
          (''by_tier'', JObj (map (\<lambda>(k, n). (k, JInt n)) by_tier)),
          (''by_jurisdiction'', JObj (map (\<lambda>(k, n). (k, JInt n)) by_jurisdiction)),
          (''applied_jurisdictions'',
             jstrs (case get_profile db (o_id org) of None \<Rightarrow> [] | Some p \<Rightarrow> sort (pr_jurisdictions p))),
          (''unverified_packs'', JInt (int (length unverified))),
          (''active_policy_version'', jopt_str (map_option pol_version (get_active_policy db (o_id org))))])"

definition profile_summary :: "db \<Rightarrow> org \<Rightarrow> dict res" where
  "profile_summary db org =
     (let profile = get_profile db (o_id org) in
      bind_res (mandatory_packs db (o_id org)) (\<lambda>packs.
      Inr
        [(''org_id'', JStr (o_id org)), (''configured'', JBool (profile \<noteq> None)),
         (''jurisdictions'', jstrs (case profile of None \<Rightarrow> [] | Some p \<Rightarrow> pr_jurisdictions p)),
         (''sectors'', jstrs (case profile of None \<Rightarrow> [] | Some p \<Rightarrow> pr_sectors p)),
         (''updated_at'', opt_map (\<lambda>p. JStr (isoformat (pr_updated_at p))) profile),
         (''updated_by'', (case profile of None \<Rightarrow> JNull | Some p \<Rightarrow> jopt_str (pr_updated_by p))),
         (''mandatory_pack_codes'', jstrs (map rp_code packs)),
         (''pending_changes'', JInt (int (length (pending_change_requests db (Some (o_id org))))))]))"

definition get_org_profile :: "org \<Rightarrow> db \<Rightarrow> dict res" where
  "get_org_profile org db = raises_as [] (profile_summary db org)"

definition OrgProfileIn :: "string list \<Rightarrow> string list \<Rightarrow> bool" where
  "OrgProfileIn jurisdictions sectors \<longleftrightarrow> jurisdictions \<noteq> [] \<and> sectors \<noteq> []"

definition or_else :: "string option \<Rightarrow> string \<Rightarrow> string" where
  "or_else v d = (case v of None \<Rightarrow> d | Some s \<Rightarrow> if s = [] then d else s)"

text \<open>The profile is committed before the answer is built: an answer 500 leaves it changed.\<close>

definition put_org_profile ::
  "env \<Rightarrow> org \<Rightarrow> string list \<Rightarrow> string list \<Rightarrow> string option \<Rightarrow> string option \<Rightarrow> db \<Rightarrow> dict res \<times> db" where
  "put_org_profile E org jurisdictions sectors reason updated_by db =
     (case bind_res (valid (OrgProfileIn jurisdictions sectors)) (\<lambda>_.
           raises_as (each value_errors 400)
             (set_profile E (o_id org) jurisdictions sectors (or_else updated_by ''customer'') (or_else reason [])
                False db)) of
        Inl e \<Rightarrow> (Inl e, db)
      | Inr (outcome, db) \<Rightarrow>
          (bind_res (raises_as [] (profile_summary db org)) (\<lambda>profile.
           Inr (case outcome of
                  Requested request \<Rightarrow>
                    [(''applied'', JBool False), (''pending_approval'', JBool True),
                     (''removed'', jstrs (cr_removed request)), (''request_id'', JStr (cr_id request)),
                     (''message'', JStr (''Removing a jurisdiction or sector needs Attest's approval. Your '' @
                        ''current obligations remain in force until it is reviewed.'')),
                     (''profile'', JObj profile)]
                | Applied _ \<Rightarrow>
                    [(''applied'', JBool True), (''pending_approval'', JBool False), (''removed'', jstrs []),
                     (''request_id'', JNull),
                     (''message'', JStr ''Profile updated. Rulebooks have been applied automatically.''),
                     (''profile'', JObj profile)])), db))"

section \<open>api/access.py: the organization's side\<close>

text \<open>\<^verbatim>\<open>date_trunc("day", t)\<close> and \<^verbatim>\<open>strftime\<close>, of an instant in UTC.\<close>

definition day_of :: "int \<Rightarrow> int" where
  "day_of t = t div 86400000000"

definition day_text :: "int \<Rightarrow> string" where
  "day_text d = take 10 (isoformat (d * 86400000000))"

definition daily_counts :: "int \<Rightarrow> nat \<Rightarrow> event list \<Rightarrow> json" where
  "daily_counts first_day n es =
     jobjs (map (\<lambda>i. let d = first_day + int i in
                     [(''day'', JStr (day_text d)),
                      (''count'', JInt (int (length (filter (\<lambda>e. day_of (e_created_at e) = d) es))))]) [0..<n])"

definition last_at :: "event list \<Rightarrow> json" where
  "last_at es = opt_map (\<lambda>e. JStr (isoformat (e_created_at e))) (first (order_desc e_created_at es))"

definition org_overview :: "env \<Rightarrow> org \<Rightarrow> db \<Rightarrow> dict" where
  "org_overview E org db =
     (let es = filter (\<lambda>e. e_org_id e = o_id org) (events db);
          pem = (case o_wrapping_public_pem org of Some p \<Rightarrow> p | None \<Rightarrow> [])
      in [(''org_id'', JStr (o_id org)), (''name'', JStr (o_name org)),
          (''confidentiality_mode'', JStr (o_confidentiality_mode org)),
          (''wrapping_key_fingerprint'', (if pem = [] then JNull else JStr (hex (digest E pem)))),
          (''signing_key_id'', jopt_str (map_option sk_key_id (active_signing_key db (o_id org)))),
          (''total_events'', JInt (int (length es))), (''last_event_at'', last_at es),
          (''pending_requests'',
             JInt (int (length (filter (\<lambda>r. ar_org_id r = o_id org \<and> ar_status r = ''pending'') (access_requests db))))),
          (''daily'', daily_counts (day_of (now E) - 13) 14 es),
          (''active_policy_version'', jopt_str (map_option pol_version (get_active_policy db (o_id org)))),
          (''jurisdictions_adopted'',
             jstrs (sorted_set (map (rp_jurisdiction \<circ> fst) (filter (op_enabled \<circ> snd) (org_subscriptions db (o_id org)))))),
          (''requires_profile'', JBool (o_requires_profile org))])"

definition event_meta :: "event \<Rightarrow> dict" where
  "event_meta e =
     [(''seq'', JInt (e_seq e)), (''type'', JStr (e_type e)), (''payload_hash'', JStr (e_payload_hash e)),
      (''hash'', JStr (e_hash e)), (''created_at'', JStr (isoformat (e_created_at e)))]"

definition org_trace_events :: "org \<Rightarrow> string \<Rightarrow> db \<Rightarrow> dict list res" where
  "org_trace_events org trace_id db =
     bind_res (parse_uuid trace_id) (\<lambda>t.
     let es = events_for_trace db (o_id org) t in
     if es = [] then Inl (HTTPException 404) else Inr (map event_meta es))"

definition set_confidentiality :: "org \<Rightarrow> string \<Rightarrow> db \<Rightarrow> (dict \<times> db) res" where
  "set_confidentiality org wrapping_public_pem db =
     bind_res (valid (wrapping_public_pem \<noteq> [])) (\<lambda>_.
     bind_res (raises_as [] (enable_customer_key_mode (o_id org) wrapping_public_pem db)) (\<lambda>(_, db).
     Inr ([(''org_id'', JStr (o_id org)), (''confidentiality_mode'', JStr ''customer_key'')], db)))"

definition provision_signing_key :: "env \<Rightarrow> org \<Rightarrow> db \<Rightarrow> (dict \<times> db) res" where
  "provision_signing_key E org db =
     bind_res (raises_as [] (provision_managed_signing_key E (o_id org) db)) (\<lambda>(key, db).
     Inr ([(''key_id'', JStr (sk_key_id key)), (''public_pem'', JStr (sk_public_pem key))], db))"

definition AccessRequestOut :: "db \<Rightarrow> access_request \<Rightarrow> dict" where
  "AccessRequestOut db req =
     [(''request_id'', JStr (ar_id req)), (''org_id'', JStr (ar_org_id req)), (''status'', JStr (ar_status req)),
      (''reason'', JStr (ar_reason req)), (''required_approvals'', JInt (ar_required_approvals req)),
      (''approvals'', JInt (approvals_count db (ar_id req))),
      (''grantee_public_pem'', JStr (ar_grantee_public_pem req)),
      (''expires_at'', JStr (isoformat (ar_expires_at req))), (''requested_by'', JStr (ar_requested_by req)),
      (''trace_id'', jopt_str (ar_trace_id req))]"

definition list_requests :: "org \<Rightarrow> string option \<Rightarrow> db \<Rightarrow> dict list" where
  "list_requests org status db = map (AccessRequestOut db) (list_access_requests db (o_id org) status)"

definition owned_request :: "db \<Rightarrow> string \<Rightarrow> org \<Rightarrow> access_request res" where
  "owned_request db request_id org =
     bind_res (parse_uuid request_id) (\<lambda>rid.
     case get_access_request db rid of
       None \<Rightarrow> Inl (HTTPException 404)
     | Some req \<Rightarrow> if ar_org_id req \<noteq> o_id org then Inl (HTTPException 404) else Inr req)"

definition request_detail :: "org \<Rightarrow> string \<Rightarrow> db \<Rightarrow> dict res" where
  "request_detail org request_id db =
     bind_res (owned_request db request_id org) (\<lambda>req.
     Inr (AccessRequestOut db req @
       [(''scope'', jobjs (map (\<lambda>(h, k). [(''payload_hash'', JStr h), (''wrapped_key_for_org'', jopt_str k)])
                             (request_scope db (ar_id req))))]))"

definition approve_request ::
  "env \<Rightarrow> org \<Rightarrow> string \<Rightarrow> string \<Rightarrow> (string \<times> string) list \<Rightarrow> db \<Rightarrow> (dict \<times> db) res" where
  "approve_request E org request_id approver_id released_keys db =
     bind_res (valid (approver_id \<noteq> [])) (\<lambda>_.
     bind_res (owned_request db request_id org) (\<lambda>req.
     bind_res (raises_as [] (record_client_approval E (ar_id req) approver_id released_keys db)) (\<lambda>(req, db).
     Inr (AccessRequestOut db req, db))))"

definition resolve_request :: "env \<Rightarrow> org \<Rightarrow> string \<Rightarrow> string \<Rightarrow> db \<Rightarrow> (dict \<times> db) res" where
  "resolve_request E org request_id status db =
     bind_res (valid (status \<in> {''denied'', ''revoked''})) (\<lambda>_.
     bind_res (owned_request db request_id org) (\<lambda>req.
     bind_res (raises_as [] (resolve_access_request E (ar_id req) status db)) (\<lambda>(req, db).
     Inr (AccessRequestOut db req, db))))"

section \<open>The customer's requests\<close>

text \<open>The requests that may change the database, as the body of each is read; \<open>PostResolve\<close> is the one that asks
  who is calling.\<close>

datatype customer_call =
    PostEvent string int string dict "string option"
  | PostPrecheck string int string dict "string option"
  | PostGate string dict "string option" "string option" "int option"
  | PostErasure string int string string
  | PostMitigate string int "string list" dict "int option" "string option"
  | PostResolve string string "string option" "string option"
  | PutPolicy string string dict bool
  | PutProfile "string list" "string list" "string option" "string option"
  | PatchOrg "string option" "string option" "int option"
  | PostConfidentiality string
  | PostSigningKey
  | PostDevice string string "string option"
  | PostReplay string "dict list"
  | PostApproveRequest string string "(string \<times> string) list"
  | PostResolveRequest string string

text \<open>What the routes share: the answer is dropped here, and an exception leaves the database as it was.\<close>

definition answered :: "db \<Rightarrow> ('a \<times> db) res \<Rightarrow> 'a res \<times> db" where
  "answered db r = (case r of Inl e \<Rightarrow> (Inl e, db) | Inr (x, db') \<Rightarrow> (Inr x, db'))"

fun customer_route ::
  "env \<Rightarrow> rewriter \<Rightarrow> (string \<Rightarrow> int option) \<Rightarrow> actor \<Rightarrow> customer_call \<Rightarrow> db \<Rightarrow> dict res \<times> db" where
  "customer_route E R fromiso ac (PostEvent t n ty p v) db = answered db (post_event E (ac_org ac) t n ty p v db)"
| "customer_route E R fromiso ac (PostPrecheck t n a p v) db = answered db (post_precheck E R (ac_org ac) t n a p v db)"
| "customer_route E R fromiso ac (PostGate a out t v r) db =
     answered db (map_sum id (map_prod GateOut id) (gate_endpoint E R (ac_org ac) a out t v r db))"
| "customer_route E R fromiso ac (PostErasure t n who why) db = answered db (post_erasure E (ac_org ac) t n who why db)"
| "customer_route E R fromiso ac (PostMitigate t n ms p s v) db =
     answered db (post_mitigate E (ac_org ac) t n ms p s v db)"
| "customer_route E R fromiso ac (PostResolve i st who c) db = answered db (resolve_route E ac i st who c db)"
| "customer_route E R fromiso ac (PutPolicy n v rules act) db =
     answered db (put_internal_policy E (ac_org ac) n v rules act db)"
| "customer_route E R fromiso ac (PutProfile js ss why who) db = put_org_profile E (ac_org ac) js ss why who db"
| "customer_route E R fromiso ac (PatchOrg reg fm days) db = answered db (patch_org_settings (ac_org ac) reg fm days db)"
| "customer_route E R fromiso ac (PostConfidentiality pem) db = answered db (set_confidentiality (ac_org ac) pem db)"
| "customer_route E R fromiso ac PostSigningKey db = answered db (provision_signing_key E (ac_org ac) db)"
| "customer_route E R fromiso ac (PostDevice i pem l) db = answered db (register_sdk_device E (ac_org ac) i pem l db)"
| "customer_route E R fromiso ac (PostReplay i items) db =
     answered db (replay_offline_segment E R fromiso (ac_org ac) i items db)"
| "customer_route E R fromiso ac (PostApproveRequest i who ks) db =
     answered db (approve_request E (ac_org ac) i who ks db)"
| "customer_route E R fromiso ac (PostResolveRequest i st) db = answered db (resolve_request E (ac_org ac) i st db)"

record credentials =
  cd_api_key :: "string option"
  cd_authorization :: "string option"
  cd_cookie :: "string option"

text \<open>The dependency of the route, then the route.\<close>

definition caller :: "env \<Rightarrow> credentials \<Rightarrow> customer_call \<Rightarrow> db \<Rightarrow> actor res" where
  "caller E c call db =
     (case call of
        PostResolve _ _ _ _ \<Rightarrow> get_actor E db (cd_api_key c) (cd_authorization c) (cd_cookie c)
      | _ \<Rightarrow>
          map_sum id (\<lambda>r. \<lparr>ac_org = r, ac_user = None\<rparr>)
            (get_authenticated_org E db ''POST'' (cd_api_key c) (cd_authorization c) (cd_cookie c)))"

definition customer_request ::
  "env \<Rightarrow> rewriter \<Rightarrow> (string \<Rightarrow> int option) \<Rightarrow> credentials \<Rightarrow> customer_call \<Rightarrow> db \<Rightarrow> dict res \<times> db" where
  "customer_request E R fromiso c call db =
     (case caller E c call db of
        Inl e \<Rightarrow> (Inl e, db)
      | Inr ac \<Rightarrow> customer_route E R fromiso ac call db)"

text \<open>And the requests that read.\<close>

datatype customer_query =
    GetTraces int int
  | GetTraceEvents string
  | GetDecisions bool int
  | GetComplianceSummary
  | GetApprovals "string option" "string option"
  | GetApproval string
  | GetWorkqueue
  | GetPolicy
  | GetMyPacks
  | GetProfile
  | GetOverview
  | GetRequests "string option"
  | GetBundle

fun customer_read :: "env \<Rightarrow> org \<Rightarrow> customer_query \<Rightarrow> db \<Rightarrow> dict list res" where
  "customer_read E org (GetTraces l n) db = get_traces org l n db"
| "customer_read E org (GetTraceEvents t) db = org_trace_events org t db"
| "customer_read E org (GetDecisions fl l) db = Inr (get_decisions org fl l db)"
| "customer_read E org GetComplianceSummary db = Inr [get_compliance_summary org db]"
| "customer_read E org (GetApprovals st t) db = list_approvals_route org st t db"
| "customer_read E org (GetApproval i) db = map_sum id (\<lambda>d. [d]) (get_approval_route org i db)"
| "customer_read E org GetWorkqueue db = Inr [get_workqueue org db]"
| "customer_read E org GetPolicy db = map_sum id (\<lambda>d. [d]) (get_active_policy_route org db)"
| "customer_read E org GetMyPacks db = Inr (get_my_packs org db)"
| "customer_read E org GetProfile db = map_sum id (\<lambda>d. [d]) (get_org_profile org db)"
| "customer_read E org GetOverview db = Inr [org_overview E org db]"
| "customer_read E org (GetRequests st) db = Inr (list_requests org st db)"
| "customer_read E org GetBundle db = map_sum id (\<lambda>d. [d]) (offline_bundle org db)"

end
