(* ===== verification/Tenancy.thy ===== *)
theory Tenancy
  imports Api
begin

text \<open>
  What the organizations that share the service cannot do to each other.  \<open>rows_of B db\<close> is the database as one
  organization sees it: the rows of the tables that the customer's routes write, cut down to those of \<open>B\<close>.  The
  writes of another organization leave it as it is, and the answers of \<open>B\<close> are computed from it alone.
\<close>

definition requests_of :: "string \<Rightarrow> db \<Rightarrow> string set" where
  "requests_of B db = ar_id ` {r \<in> set (access_requests db). ar_org_id r = B}"

definition rows_of :: "string \<Rightarrow> db \<Rightarrow> db" where
  "rows_of B db = db\<lparr>
     orgs := filter (\<lambda>r. o_id r = B) (orgs db),
     policies := filter (\<lambda>p. pol_org_id p = B) (policies db),
     traces := filter (\<lambda>t. t_org_id t = B) (traces db),
     events := filter (\<lambda>e. e_org_id e = B) (events db),
     approvals := filter (\<lambda>a. a_org_id a = B) (approvals db),
     payloads := filter (\<lambda>p. p_org_id p = B) (payloads db),
     payload_keys := filter (\<lambda>k. pk_org_id k = B) (payload_keys db),
     access_requests := filter (\<lambda>r. ar_org_id r = B) (access_requests db),
     access_approvals := filter (\<lambda>a. aa_request_id a \<in> requests_of B db) (access_approvals db),
     access_grant_keys := filter (\<lambda>g. ag_request_id g \<in> requests_of B db) (access_grant_keys db),
     org_regulation_packs := filter (\<lambda>s. op_org_id s = B) (org_regulation_packs db),
     org_profiles := filter (\<lambda>p. pr_org_id p = B) (org_profiles db),
     profile_change_requests := filter (\<lambda>r. cr_org_id r = B) (profile_change_requests db),
     summaries := filter (\<lambda>s. ds_org_id s = B) (summaries db),
     signing_keys := filter (\<lambda>k. sk_org_id k = B) (signing_keys db),
     sdk_devices := filter (\<lambda>d. dv_org_id d = B) (sdk_devices db),
     draws := 0\<rparr>"

section \<open>Writes\<close>

text \<open>\<open>spares B db db'\<close>: the step wrote no row of \<open>B\<close>, and it kept the identifiers of the requests.\<close>

definition spares :: "string \<Rightarrow> db \<Rightarrow> db \<Rightarrow> bool" where
  "spares B db db' \<longleftrightarrow> rows_of B db' = rows_of B db \<and>
     map (\<lambda>r. (ar_id r, ar_org_id r)) (access_requests db') = map (\<lambda>r. (ar_id r, ar_org_id r)) (access_requests db)"

named_theorems spared

lemma spares_refl [simp]: "spares B db db"
  by (simp add: spares_def)

lemma spares_trans: "spares B db db1 \<Longrightarrow> spares B db1 db' \<Longrightarrow> spares B db db'"
  by (simp add: spares_def)

lemma filter_spared: "(\<And>r. r \<in> set rows \<Longrightarrow> P r \<Longrightarrow> \<not> Q r \<and> \<not> Q (f r)) \<Longrightarrow> filter Q (update_where P f rows) = filter Q rows"
  by (induction rows) (auto simp: update_where_def)

lemma filter_minus: "(\<And>r. Q r \<Longrightarrow> P r) \<Longrightarrow> filter Q (filter P rows) = filter Q rows"
  by (induction rows) auto

lemma spares_rows:
  assumes "access_requests db' = access_requests db"
    and "filter (\<lambda>r. o_id r = B) (orgs db') = filter (\<lambda>r. o_id r = B) (orgs db)"
    "filter (\<lambda>p. pol_org_id p = B) (policies db') = filter (\<lambda>p. pol_org_id p = B) (policies db)"
    "filter (\<lambda>t. t_org_id t = B) (traces db') = filter (\<lambda>t. t_org_id t = B) (traces db)"
    "filter (\<lambda>e. e_org_id e = B) (events db') = filter (\<lambda>e. e_org_id e = B) (events db)"
    "filter (\<lambda>a. a_org_id a = B) (approvals db') = filter (\<lambda>a. a_org_id a = B) (approvals db)"
    "filter (\<lambda>p. p_org_id p = B) (payloads db') = filter (\<lambda>p. p_org_id p = B) (payloads db)"
    "filter (\<lambda>k. pk_org_id k = B) (payload_keys db') = filter (\<lambda>k. pk_org_id k = B) (payload_keys db)"
    "filter (\<lambda>s. op_org_id s = B) (org_regulation_packs db') = filter (\<lambda>s. op_org_id s = B) (org_regulation_packs db)"
    "filter (\<lambda>p. pr_org_id p = B) (org_profiles db') = filter (\<lambda>p. pr_org_id p = B) (org_profiles db)"
    "filter (\<lambda>r. cr_org_id r = B) (profile_change_requests db') = filter (\<lambda>r. cr_org_id r = B) (profile_change_requests db)"
    "filter (\<lambda>s. ds_org_id s = B) (summaries db') = filter (\<lambda>s. ds_org_id s = B) (summaries db)"
    "filter (\<lambda>k. sk_org_id k = B) (signing_keys db') = filter (\<lambda>k. sk_org_id k = B) (signing_keys db)"
    "filter (\<lambda>d. dv_org_id d = B) (sdk_devices db') = filter (\<lambda>d. dv_org_id d = B) (sdk_devices db)"
    and "access_approvals db' = access_approvals db" "access_grant_keys db' = access_grant_keys db"
    "batches db' = batches db" "anchors db' = anchors db" "regulation_packs db' = regulation_packs db"
    "users db' = users db" "login_codes db' = login_codes db" "auth_sessions db' = auth_sessions db"
  shows "spares B db db'"
  using assms by (simp add: spares_def rows_of_def requests_of_def)

lemma get_or_create_spares [spared]:
  "get_or_create_trace E A t pv db = Inr (tr, db') \<Longrightarrow> A \<noteq> B \<Longrightarrow> spares B db db'"
  by (auto simp: get_or_create_trace_def Let_def intro!: spares_rows split: option.splits if_splits)

lemma store_spares [spared]:
  "store_encrypted_payload E A h c ls db = Inr db' \<Longrightarrow> A \<noteq> B \<Longrightarrow> spares B db db'"
proof (cases "get_payload db A h")
  case None
  assume "store_encrypted_payload E A h c ls db = Inr db'" "A \<noteq> B"
  with None show ?thesis
    by (elim store_new) (auto simp: payload_id_def key_id_of_def intro!: spares_rows)
qed (simp add: store_encrypted_payload_def)

lemma record_event_spares [spared]:
  assumes "record_event E A t seq ty p pv db = Inr (out, db')" "A \<noteq> B"
  shows "spares B db db'"
proof -
  obtain tr db1 db2 sig kid e where "get_or_create_trace E A t pv db = Inr (tr, db1)"
    "e = new_event E A t seq ty p pv (map_option e_hash (last_event_for_trace db1 A t)) sig kid (uuid4 E (draws db2))"
    "store_encrypted_payload E A (e_payload_hash e) (fst (redact_payload p)) (snd (redact_payload p)) db1 = Inr db2"
    "db' = db2\<lparr>draws := Suc (draws db2), events := events db2 @ [e]\<rparr>"
    by (rule record_event_Inr [OF assms(1)])
  moreover have "spares B db2 (db2\<lparr>draws := Suc (draws db2), events := events db2 @ [e]\<rparr>)" if "e_org_id e \<noteq> B" for e db2
    using that by (intro spares_rows) simp_all
  moreover have "e_org_id e = A" using calculation(2) by simp
  ultimately show ?thesis using assms(2) by (metis spared spares_trans)
qed

lemma shred_spares [spared]:
  "crypto_shred_payload E A h db = (b, db') \<Longrightarrow> A \<noteq> B \<Longrightarrow> spares B db db'"
  by (auto simp: crypto_shred_payload_def is_payload_def is_payload_key_def simp del: filter_filter
      intro!: spares_rows filter_spared filter_minus split: option.splits)

lemma create_approval_spares [spared]:
  "create_approval E A t e db = (a, db') \<Longrightarrow> A \<noteq> B \<Longrightarrow> spares B db db'"
  by (auto simp: create_approval_def new_uuid_def Let_def intro!: spares_rows)

lemma resolve_row_spares [spared]:
  "a_org_id a \<noteq> B \<Longrightarrow> spares B db (resolve_approval_row a st who k c t db)"
  by (auto simp: resolve_approval_row_def intro!: spares_rows filter_spared)

lemma summary_spares [spared]:
  "ds_org_id s \<noteq> B \<Longrightarrow> spares B db (db\<lparr>draws := n, summaries := summaries db @ [s]\<rparr>)"
  by (intro spares_rows) simp_all

lemma draws_spares [spared, simp]: "spares B db (db\<lparr>draws := n\<rparr>)"
  by (intro spares_rows) simp_all

section \<open>The operations of the services\<close>

lemma fail_closed_spares [spared]:
  assumes "fail_closed_response E org t seq a v d db = Inr (r, db')" "o_id org \<noteq> B"
  shows "spares B db db'"
proof (rule fail_closed_Inr [OF assms(1)])
  fix tr db1 ev db2 a' payload
  assume a: "get_or_create_trace E (o_id org) t (Some v) db = Inr (tr, db1)"
    "record_event E (o_id org) t seq ''policy_decision'' payload (Some v) db1 = Inr (ev, db2)"
    "create_approval E (o_id org) t (Some (eo_event_id ev)) db2 = (a', db')"
  have "spares B db db2"
    by (rule spares_trans [OF get_or_create_spares [OF a(1)] record_event_spares [OF a(2)]]) (rule assms(2))+
  then show "spares B db db'" by (rule spares_trans) (rule create_approval_spares [OF a(3) assms(2)])
qed

lemma judged_spares [spared]:
  assumes "judged E R org t seq a rof p pol f db out = Inr (r, db')" "o_id org \<noteq> B"
  shows "spares B db db'"
proof -
  obtain findings rplan ev db1 where *:
    "evaluate_packs db (o_id org) a p f = Inr findings"
    "the_plan E R db org a pol p f out (map pack_finding_to_dict findings)
       (derive_status (po_allowed out) (tier_str (combined_tier (po_tier out) findings))
         (map pack_finding_to_dict findings)) (po_allowed out) = Inr rplan"
    "record_event E (o_id org) t seq ''policy_decision''
       (decision_payload org a pol f out (combined_tier (po_tier out) findings) (po_allowed out)
         findings rplan rof) (Some (pol_version pol)) db = Inr (ev, db1)"
    using assms(1) by (auto simp: judged_def Let_def bind_res_eq_Inr tier_allows_action_def)
  have "spares B db1 db'"
    using assms *
    by (cases "combined_tier (po_tier out) findings \<in> set TIERS_REQUIRING_APPROVAL")
      (auto simp: judged_def Let_def tier_allows_action_def new_uuid_def create_approval_def
        TIERS_REQUIRING_APPROVAL_def intro!: spares_rows)
  then show ?thesis using record_event_spares [OF *(3) assms(2)] by (rule spares_trans [rotated])
qed

lemma precheck_spares [spared]:
  assumes "run_precheck E R org t seq a rof p pv db = Inr (r, db')" "o_id org \<noteq> B"
  shows "spares B db db'"
proof -
  obtain pol tr db1 f where 1: "get_or_create_trace E (o_id org) t (Some (pol_version pol)) db = Inr (tr, db1)"
    and "(\<exists>d. fail_closed_response E org t seq a (pol_version pol) d db1 = Inr (r, db')) \<or>
      (\<exists>out. judged E R org t seq a rof p pol f db1 out = Inr (r, db'))"
    by (rule run_precheck_Inr [OF assms(1)]) blast
  then have "spares B db1 db'" using assms(2) by (auto intro: fail_closed_spares judged_spares)
  with get_or_create_spares [OF 1 assms(2)] show ?thesis by (rule spares_trans)
qed

lemma summaries_spares:
  "filter (\<lambda>s. ds_org_id s = B) rows = filter (\<lambda>s. ds_org_id s = B) (summaries db) \<Longrightarrow> spares B db (db\<lparr>summaries := rows\<rparr>)"
  by (intro spares_rows) simp_all

lemma gate_spares [spared]:
  assumes "run_gate E R org a out tid pv rem db = Inr (v, db')" "o_id org \<noteq> B"
  shows "spares B db db'"
proof (rule run_gate_Inr [OF assms(1)], goal_cases)
  case (1 rs t db0 tr db1 decision db2 ev db3)
  have "spares B db db0" using 1(2) by (auto simp: new_uuid_def split: option.splits)
  moreover have "spares B db0 db1" using 1(3) assms(2) by (rule spared)
  moreover have "spares B db1 db2"
    using 1(4) assms(2) by (cases decision) (auto intro: precheck_spares)
  moreover have "spares B db2 db3" using 1(5) assms(2) by (auto intro: record_event_spares)
  moreover have "spares B db3 db'"
  proof (cases decision)
    case None
    then show ?thesis using 1(10) by simp
  next
    case (Some d)
    have "ds_org_id r = o_id org" if "rs = Some r" for r
      using 1(1) that by (auto simp: validate_remediates_def is_decision_def dest!: one_or_none_Some
          split: option.splits if_splits)
    moreover have "filter (\<lambda>s. ds_org_id s = B) (update_where (is_decision A t n) f rows) =
        filter (\<lambda>s. ds_org_id s = B) rows" if "\<And>s. ds_org_id (f s) = ds_org_id s" "A \<noteq> B" for A t n f rows
      using that by (intro filter_spared) (auto simp: is_decision_def)
    ultimately show ?thesis using 1(10) Some assms(2)
      by (auto simp: Let_def intro!: summaries_spares split: option.splits if_splits)
  qed
  ultimately show ?thesis by (blast intro: spares_trans)
qed

lemma erase_spares [spared]:
  assumes "erase_event_payload E A t n who why db = Inr (r, db')" "A \<noteq> B"
  shows "spares B db db'"
  by (rule erase_Inr [OF assms(1)]) (rule spares_trans [OF shred_spares record_event_spares], (assumption | rule assms(2))+)

lemma mitigation_spares [spared]:
  "record_mitigation E A t n ms p s v db = Inr (r, db') \<Longrightarrow> A \<noteq> B \<Longrightarrow> spares B db db'"
  by (auto simp: record_mitigation_def bind_res_eq_Inr Let_def split: prod.splits if_splits intro: record_event_spares)

lemma resolve_spares [spared]:
  assumes "resolve_approval E A i st who k u d c db = Inr (r, db')" "A \<noteq> B"
  shows "spares B db db'"
proof (rule resolve_Inr [OF assms(1)], goal_cases)
  case (1 a seq out)
  have "a_org_id a = A" using 1(2) by (auto simp: get_approval_def dest!: one_or_none_Some)
  then show ?thesis using spares_trans [OF resolve_row_spares record_event_spares [OF 1(4)]] assms(2) by blast
qed

lemma policy_spares [spared]:
  "upsert_policy E A n v rules act db = (p, db') \<Longrightarrow> A \<noteq> B \<Longrightarrow> spares B db db'"
  by (auto simp: upsert_policy_def Let_def new_uuid_def intro!: spares_rows filter_spared split: option.splits if_splits)

lemma subscribe_spares [spared]:
  "subscribe_org E A code en enf db = Inr (row, db') \<Longrightarrow> A \<noteq> B \<Longrightarrow> spares B db db'"
  by (auto simp: subscribe_org_def Let_def is_subscription_def intro!: spares_rows filter_spared
      split: option.splits if_splits)

lemma subscribe_all_spares [spared]:
  "subscribe_all E A codes db = Inr db' \<Longrightarrow> A \<noteq> B \<Longrightarrow> spares B db db'"
  by (induction codes arbitrary: db) (auto simp: bind_res_eq_Inr intro: subscribe_spares spares_trans)

lemma subscriptions_spares:
  "filter (\<lambda>s. op_org_id s = B) rows = filter (\<lambda>s. op_org_id s = B) (org_regulation_packs db) \<Longrightarrow>
   spares B db (db\<lparr>org_regulation_packs := rows\<rparr>)"
  by (intro spares_rows) simp_all

lemma reconcile_spares [spared]:
  assumes "reconcile_packs E A db = Inr (r, db')" "A \<noteq> B"
  shows "spares B db db'"
proof -
  obtain ps where ps: "mandatory_packs db A = Inr ps"
    using assms(1) by (auto simp: reconcile_packs_def bind_res_eq_Inr)
  let ?gone = "\<lambda>s. list_ex (\<lambda>c. case current_row db A c of None \<Rightarrow> False | Some r \<Rightarrow> is_subscription A (op_pack_id r) s)
     (filter (\<lambda>c. c \<notin> set (dict_keys (map rp_code ps))) (dict_keys (sub_codes db A)))"
  obtain codes db1 where s: "subscribe_all E A codes db = Inr db1"
    and db': "db' = db1\<lparr>org_regulation_packs := filter (\<lambda>s. \<not> ?gone s) (org_regulation_packs db1)\<rparr>"
    using assms(1) ps unfolding reconcile_packs_def Let_def sub_codes_def [symmetric] current_row_def [symmetric]
    by (auto simp: bind_res_eq_Inr)
  have "filter (\<lambda>s. op_org_id s = B) (filter (\<lambda>s. \<not> ?gone s) rows) = filter (\<lambda>s. op_org_id s = B) rows" for rows
    using assms(2) by (intro filter_minus) (auto simp: list_ex_iff is_subscription_def split: option.splits)
  then have "spares B db1 db'" unfolding db' by (rule subscriptions_spares)
  with subscribe_all_spares [OF s assms(2)] show ?thesis by (rule spares_trans)
qed

lemma apply_profile_spares [spared]:
  assumes "apply_profile E A js ss who db = Inr (p, db')" "A \<noteq> B"
  shows "spares B db db'"
proof -
  obtain rows cs where "filter (\<lambda>p. pr_org_id p = B) rows = filter (\<lambda>p. pr_org_id p = B) (org_profiles db)"
    "reconcile_packs E A (db\<lparr>org_profiles := rows\<rparr>) = Inr (cs, db')"
  proof (cases "get_profile db A")
    case None
    then show ?thesis using assms by (auto simp: apply_profile_def bind_res_eq_Inr Let_def intro: that [rotated])
  next
    case (Some q)
    have "filter (\<lambda>p. pr_org_id p = B) (update_where (is_profile A) f rows) = filter (\<lambda>p. pr_org_id p = B) rows"
      if "\<And>p. pr_org_id (f p) = pr_org_id p" for f rows
      using that assms(2) by (intro filter_spared) (auto simp: is_profile_def)
    then show ?thesis using assms Some by (auto simp: apply_profile_def bind_res_eq_Inr Let_def intro: that [rotated])
  qed
  note r = this
  from r(1) have "spares B db (db\<lparr>org_profiles := rows\<rparr>)" by (intro spares_rows) simp_all
  then show ?thesis by (rule spares_trans) (rule reconcile_spares [OF r(2) assms(2)])
qed

lemma set_profile_spares [spared]:
  assumes "set_profile E A js ss who why b db = Inr (r, db')" "A \<noteq> B"
  shows "spares B db db'"
proof (cases r)
  case (Applied p)
  then show ?thesis using assms
    by (auto simp: set_profile_def bind_res_eq_Inr Let_def split: prod.splits if_splits intro: apply_profile_spares)
next
  case (Requested q)
  then show ?thesis using assms
    by (auto simp: set_profile_def bind_res_eq_Inr Let_def new_uuid_def split: if_splits intro!: spares_rows)
qed

section \<open>Keys, settings, devices and offline segments\<close>

lemma provision_spares [spared]:
  assumes "provision_managed_signing_key E A db = Inr (k, db')" "A \<noteq> B"
  shows "spares B db db'"
proof -
  have "sk_org_id k = A"
    using assms(1) by (auto simp: provision_managed_signing_key_def Let_def new_uuid_def split: prod.splits if_splits)
  then show ?thesis using assms(2) by (subst provision_Inr(4) [OF assms(1)]) (auto intro!: spares_rows filter_spared)
qed

lemma update_org_spares [spared]:
  "(\<And>r. o_id (f r) = o_id r) \<Longrightarrow> A \<noteq> B \<Longrightarrow> spares B db (update_org A f db)"
  by (auto simp: update_org_def intro!: spares_rows filter_spared)

lemma settings_spares [spared]:
  "update_org_settings A reg fm days db = Inr (r, db') \<Longrightarrow> A \<noteq> B \<Longrightarrow> spares B db db'"
  by (auto simp: update_org_settings_def repo_update_org_settings_def bind_res_eq_Inr assign_def Let_def
      intro!: update_org_spares split: option.splits)

lemma customer_key_spares [spared]:
  "enable_customer_key_mode A pem db = Inr (r, db') \<Longrightarrow> A \<noteq> B \<Longrightarrow> spares B db db'"
  by (auto simp: enable_customer_key_mode_def Let_def intro!: update_org_spares split: option.splits)

lemma touch_spares [spared]: "A \<noteq> B \<Longrightarrow> spares B db (touch_device E A i db)"
  by (auto simp: touch_device_def is_device_def intro!: spares_rows filter_spared)

lemma register_spares [spared]:
  "register_device E A i pem l db = Inr (d, db') \<Longrightarrow> A \<noteq> B \<Longrightarrow> spares B db db'"
  by (auto simp: register_device_def Let_def new_uuid_def split: option.splits if_splits
      intro!: touch_spares intro: spares_rows)

lemma mark_deferred_spares [spared]: "A \<noteq> B \<Longrightarrow> spares B db (mark_deferred f A t n o' d s db)"
  by (auto simp: mark_deferred_def is_event_def intro!: spares_rows filter_spared)

lemma graft_item_spares [spared]:
  assumes "graft_item E R f org d ic db = Inr (r, db')" "o_id org \<noteq> B"
  shows "spares B db db'"
proof -
  obtain a out tid v db1 t n o' s where "run_gate E R org a out tid None None db = Inr (v, db1)"
    "db' = mark_deferred f (o_id org) t n o' d s db1"
    using assms(1) by (auto simp: graft_item_def bind_res_eq_Inr Let_def split: prod.splits)
  then show ?thesis using assms(2) by (metis gate_spares mark_deferred_spares spares_trans)
qed

lemma graft_items_spares [spared]:
  "graft_items E R f org d ics db = Inr (rs, db') \<Longrightarrow> o_id org \<noteq> B \<Longrightarrow> spares B db db'"
  by (induction ics arbitrary: db rs) (auto simp: bind_res_eq_Inr intro: graft_item_spares spares_trans)

lemma graft_segment_spares [spared]:
  "graft_offline_segment E R f org d items db = Inr (rs, db') \<Longrightarrow> o_id org \<noteq> B \<Longrightarrow> spares B db db'"
  by (auto simp: graft_offline_segment_def bind_res_eq_Inr split: option.splits if_splits
      intro: spares_trans [OF graft_items_spares touch_spares])

section \<open>The organization's side of a consent request\<close>

lemma requests_of_ids:
  "requests_of B db = fst ` {x \<in> set (map (\<lambda>r. (ar_id r, ar_org_id r)) (access_requests db)). snd x = B}"
  by (auto simp: requests_of_def image_iff)

lemma spares_ids:
  assumes "spares B db db'"
  shows "requests_of B db' = requests_of B db" "map ar_id (access_requests db') = map ar_id (access_requests db)"
proof -
  let ?id = "\<lambda>r. (ar_id r, ar_org_id r)"
  have m: "map ?id (access_requests db') = map ?id (access_requests db)" using assms by (simp add: spares_def)
  have "map fst (map ?id rs) = map ar_id rs" for rs by simp
  then show "map ar_id (access_requests db') = map ar_id (access_requests db)" using m by metis
  show "requests_of B db' = requests_of B db" unfolding requests_of_ids m ..
qed

lemma consent_event_spares [spared]:
  assumes "record_consent_event E req ty p db = Inr db'" "ar_org_id req \<noteq> B"
  shows "spares B db db'"
  using assms by (auto simp: record_consent_event_def bind_res_eq_Inr intro: record_event_spares split: option.splits)

lemma add_approval_spares [spared]:
  "rid \<notin> requests_of B db \<Longrightarrow> spares B db (add_approval E rid who db)"
  by (simp add: add_approval_def new_uuid_def spares_def rows_of_def requests_of_def)

lemma set_grant_spares [spared]:
  "rid \<notin> requests_of B db \<Longrightarrow> spares B db (set_grant rid h w db)"
proof -
  assume rid: "rid \<notin> requests_of B db"
  have "filter (\<lambda>g. ag_request_id g \<in> requests_of B db) (update_where (is_grant rid h) f gs) =
      filter (\<lambda>g. ag_request_id g \<in> requests_of B db) gs" if "\<And>g. ag_request_id (f g) = ag_request_id g" for f gs
    using that rid by (intro filter_spared) (auto simp: is_grant_def)
  then show ?thesis by (simp add: set_grant_def spares_def rows_of_def requests_of_def)
qed

lemma store_released_spares [spared]:
  "store_released rid ks db = (hs, db') \<Longrightarrow> rid \<notin> requests_of B db \<Longrightarrow> spares B db db'"
proof (induction ks arbitrary: db hs)
  case (Cons k ks)
  obtain h w where k: "k = (h, w)" by (cases k)
  have "spares B db (set_grant rid h w db)" using Cons.prems(2) by (rule set_grant_spares)
  then show ?case using Cons.prems Cons.IH k spares_ids(1) [of B db "set_grant rid h w db"]
    by (auto split: if_splits prod.splits intro: spares_trans)
qed simp

lemma update_request_spares [spared]:
  assumes "distinct (map ar_id (access_requests db))" "get_access_request db rid = Some r"
    and "ar_id q = ar_id r" "ar_org_id q = ar_org_id r" "ar_org_id r \<noteq> B"
  shows "spares B db (update_request q db)"
proof -
  let ?rs = "access_requests db"
  have r: "r \<in> set ?rs" using assms(2) by (auto simp: get_access_request_def dest!: one_or_none_Some)
  have only: "s = r" if "s \<in> set ?rs" "ar_id s = ar_id r" for s
    using that r assms(1) by (auto simp: distinct_map dest: inj_onD)
  then have ids: "map (\<lambda>r. (ar_id r, ar_org_id r)) (update_where (\<lambda>s. ar_id s = ar_id q) (\<lambda>_. q) ?rs) =
      map (\<lambda>r. (ar_id r, ar_org_id r)) ?rs"
    using assms(3,4) by (auto simp: update_where_def)
  then have "requests_of B (update_request q db) = requests_of B db"
    unfolding requests_of_ids update_request_def by (simp del: set_map)
  moreover have "filter (\<lambda>s. ar_org_id s = B) (update_where (\<lambda>s. ar_id s = ar_id q) (\<lambda>_. q) ?rs) = filter (\<lambda>s. ar_org_id s = B) ?rs"
    using only assms(3-5) by (intro filter_spared) auto
  ultimately show ?thesis using ids by (simp add: spares_def rows_of_def update_request_def)
qed

lemma not_requests_of:
  assumes "distinct (map ar_id (access_requests db))" "get_access_request db rid = Some r" "ar_org_id r \<noteq> B"
  shows "rid \<notin> requests_of B db"
  using assms by (auto simp: requests_of_def get_access_request_def distinct_map dest!: one_or_none_Some dest: inj_onD)

lemma client_approval_spares [spared]:
  assumes "record_client_approval E rid who ks db = Inr (q, db')" "distinct (map ar_id (access_requests db))"
    and "get_access_request db rid = Some r" "ar_org_id r \<noteq> B"
  shows "spares B db db'"
proof (cases "ar_status r \<noteq> ''pending'' \<or> has_approved db rid who")
  case True
  then have "db' = db" using assms(1,3) by (cases "ar_status r = ''pending''") (simp_all add: record_client_approval_def)
  then show ?thesis by simp
next
  case False
  let ?db1 = "add_approval E rid who db"
  obtain hs db2 where st: "store_released rid ks ?db1 = (hs, db2)" by fastforce
  have rid: "rid \<notin> requests_of B db" using not_requests_of [OF assms(2-4)] .
  then have 1: "spares B db ?db1" by (rule add_approval_spares)
  have "rid \<notin> requests_of B ?db1" using rid spares_ids(1) [OF 1] by simp
  then have 2: "spares B ?db1 db2" using st by (rule store_released_spares [rotated])
  have r2: "access_requests db2 = access_requests db"
    using store_released_tables [OF st] by simp
  then have u: "spares B db2 (update_request (r\<lparr>ar_status := ''approved''\<rparr>) db2)"
    using assms(2-4) by (intro update_request_spares [of _ rid r]) (simp_all add: get_access_request_def)
  obtain q' db3 ty p where "record_consent_event E q' ty p db3 = Inr db'" "ar_org_id q' = ar_org_id r"
    "db3 = db2 \<or> db3 = update_request (r\<lparr>ar_status := ''approved''\<rparr>) db2"
    using assms(1,3) False st
    by (auto simp: record_client_approval_def Let_def bind_res_eq_Inr split: if_splits)
  note c = this
  have "spares B db2 db3" using c(3) u by auto
  then have "spares B db2 db'" by (rule spares_trans) (rule consent_event_spares [OF c(1)], use c(2) assms(4) in simp)
  with 1 2 show ?thesis by (blast intro: spares_trans)
qed

lemma resolve_request_spares [spared]:
  assumes "resolve_access_request E rid st db = Inr (q, db')" "distinct (map ar_id (access_requests db))"
    and "get_access_request db rid = Some r" "ar_org_id r \<noteq> B"
  shows "spares B db db'"
proof (cases "ar_status r = st")
  case False
  have "spares B db (update_request (r\<lparr>ar_status := st\<rparr>) db)"
    using assms(2-4) by (intro update_request_spares) simp_all
  moreover obtain ty p where "record_consent_event E (r\<lparr>ar_status := st\<rparr>) ty p (update_request (r\<lparr>ar_status := st\<rparr>) db) = Inr db'"
    using assms(1,3) False by (auto simp: resolve_access_request_def Let_def bind_res_eq_Inr split: if_splits)
  then have "spares B (update_request (r\<lparr>ar_status := st\<rparr>) db) db'" by (rule consent_event_spares) (use assms(4) in simp)
  ultimately show ?thesis by (rule spares_trans)
qed (use assms in \<open>auto simp: resolve_access_request_def split: if_splits\<close>)

section \<open>The routes\<close>

lemma owned_request_Inr:
  "owned_request db i org = Inr q \<longleftrightarrow> (\<exists>rid. parse_uuid i = Inr rid \<and> get_access_request db rid = Some q \<and> ar_org_id q = o_id org)"
  by (auto simp: owned_request_def bind_res_eq_Inr split: option.splits if_splits)

lemma get_request_id: "get_access_request db rid = Some q \<Longrightarrow> ar_id q = rid"
  by (auto simp: get_access_request_def dest!: one_or_none_Some)

lemma answered_db: "answered db r = (a, db') \<Longrightarrow> db' = db \<or> (\<exists>x. r = Inr (x, db'))"
  by (auto simp: answered_def split: sum.splits prod.splits)

lemma routes_spare:
  assumes "o_id org \<noteq> B"
  shows "post_event E org t n ty p v db = Inr (x, db') \<Longrightarrow> spares B db db'"
    "post_precheck E R org t n act p v db = Inr (x, db') \<Longrightarrow> spares B db db'"
    "gate_endpoint E R org act p tr v rem db = Inr (g, db') \<Longrightarrow> spares B db db'"
    "post_erasure E org t n who why db = Inr (x, db') \<Longrightarrow> spares B db db'"
    "post_mitigate E org t n ms p rem v db = Inr (x, db') \<Longrightarrow> spares B db db'"
    "put_internal_policy E org nm vs p b db = Inr (x, db') \<Longrightarrow> spares B db db'"
    "patch_org_settings org reg fm days db = Inr (x, db') \<Longrightarrow> spares B db db'"
    "set_confidentiality org pem db = Inr (x, db') \<Longrightarrow> spares B db db'"
    "provision_signing_key E org db = Inr (x, db') \<Longrightarrow> spares B db db'"
    "register_sdk_device E org i pem l db = Inr (x, db') \<Longrightarrow> spares B db db'"
    "replay_offline_segment E R f org i items db = Inr (x, db') \<Longrightarrow> spares B db db'"
  using assms
  by (auto simp: bind_res_eq_Inr post_event_def post_precheck_def gate_endpoint_def post_erasure_def post_mitigate_def
      put_internal_policy_def patch_org_settings_def set_confidentiality_def provision_signing_key_def
      register_sdk_device_def replay_offline_segment_def split: prod.splits sum.splits if_splits
      intro: record_event_spares precheck_spares gate_spares erase_spares mitigation_spares policy_spares
        settings_spares customer_key_spares provision_spares register_spares graft_segment_spares)

lemma resolve_route_spares:
  "resolve_route E ac i st who c db = Inr (x, db') \<Longrightarrow> o_id (ac_org ac) \<noteq> B \<Longrightarrow> spares B db db'"
  by (auto simp: bind_res_eq_Inr resolve_route_def intro: resolve_spares)

lemma request_routes_spare:
  assumes "distinct (map ar_id (access_requests db))" "o_id org \<noteq> B"
  shows "approve_request E org i who ks db = Inr (x, db') \<Longrightarrow> spares B db db'"
    "resolve_request E org i st db = Inr (x, db') \<Longrightarrow> spares B db db'"
  using assms(2) get_request_id
  by (auto simp: approve_request_def resolve_request_def bind_res_eq_Inr owned_request_Inr
      intro: client_approval_spares [OF _ assms(1)] resolve_request_spares [OF _ assms(1)])

lemma route_spares:
  assumes "distinct (map ar_id (access_requests db))" "o_id (ac_org ac) \<noteq> B"
    and "customer_route E R f ac call db = (a, db')"
  shows "spares B db db'"
proof (cases call)
  case (PutProfile js ss why who)
  then show ?thesis using assms(2,3)
    by (auto simp: put_org_profile_def bind_res_eq_Inr split: sum.splits prod.splits intro: set_profile_spares)
next
  case (PostGate act p tr v rem)
  then show ?thesis using assms(3)
    by (cases "gate_endpoint E R (ac_org ac) act p tr v rem db")
      (auto dest!: answered_db intro: routes_spare(3) [OF assms(2)])
qed (insert assms(3), simp_all, (drule answered_db, elim disjE exE, simp,
  erule routes_spare [OF assms(2)] resolve_route_spares [OF _ assms(2)] request_routes_spare [OF assms(1,2)])+)

section \<open>Reads\<close>

lemma one_or_none_filter: "\<forall>r. P r \<longrightarrow> Q r \<Longrightarrow> one_or_none P (filter Q rows) = one_or_none P rows"
  by (induction rows) (auto simp: one_or_none_def)

lemma filter_own: "\<forall>r. Q r \<longrightarrow> P r \<Longrightarrow> filter Q (filter P rows) = filter Q rows"
  by (rule filter_minus) simp

lemma rows_of_simps [simp]:
  "orgs (rows_of B db) = filter (\<lambda>r. o_id r = B) (orgs db)"
  "policies (rows_of B db) = filter (\<lambda>p. pol_org_id p = B) (policies db)"
  "traces (rows_of B db) = filter (\<lambda>t. t_org_id t = B) (traces db)"
  "events (rows_of B db) = filter (\<lambda>e. e_org_id e = B) (events db)"
  "approvals (rows_of B db) = filter (\<lambda>a. a_org_id a = B) (approvals db)"
  "access_requests (rows_of B db) = filter (\<lambda>r. ar_org_id r = B) (access_requests db)"
  "access_approvals (rows_of B db) = filter (\<lambda>a. aa_request_id a \<in> requests_of B db) (access_approvals db)"
  "regulation_packs (rows_of B db) = regulation_packs db"
  "org_regulation_packs (rows_of B db) = filter (\<lambda>s. op_org_id s = B) (org_regulation_packs db)"
  "org_profiles (rows_of B db) = filter (\<lambda>p. pr_org_id p = B) (org_profiles db)"
  "profile_change_requests (rows_of B db) = filter (\<lambda>r. cr_org_id r = B) (profile_change_requests db)"
  "summaries (rows_of B db) = filter (\<lambda>s. ds_org_id s = B) (summaries db)"
  "signing_keys (rows_of B db) = filter (\<lambda>k. sk_org_id k = B) (signing_keys db)"
  by (simp_all add: rows_of_def)

lemma subscriptions_own: "org_subscriptions (rows_of B db) B = org_subscriptions db B"
proof -
  have own: "concat (map (\<lambda>s. if op_pack_id s = i \<and> op_org_id s = B then [(p, s)] else []) (filter (\<lambda>s. op_org_id s = B) rows)) =
      concat (map (\<lambda>s. if op_pack_id s = i \<and> op_org_id s = B then [(p, s)] else []) rows)" for i rows and p :: regulation_pack
    by (induction rows) auto
  show ?thesis by (simp add: org_subscriptions_def own)
qed

lemma approvals_of_own:
  "r \<in> set (access_requests db) \<Longrightarrow> ar_org_id r = B \<Longrightarrow> approvals_count (rows_of B db) (ar_id r) = approvals_count db (ar_id r)"
proof -
  assume "r \<in> set (access_requests db)" "ar_org_id r = B"
  then have "ar_id r \<in> requests_of B db" by (auto simp: requests_of_def)
  then have own: "filter (\<lambda>a. aa_request_id a = ar_id r) (filter (\<lambda>a. aa_request_id a \<in> requests_of B db) rows) =
      filter (\<lambda>a. aa_request_id a = ar_id r) rows" for rows by (intro filter_minus) auto
  show ?thesis by (simp add: approvals_count_def approvals_of_def own del: filter_filter)
qed

lemma queries_own [simp]:
  "list_traces_for_org (rows_of B db) B l n = list_traces_for_org db B l n"
  "event_count_for_trace (rows_of B db) B t = event_count_for_trace db B t"
  "events_for_trace (rows_of B db) B t = events_for_trace db B t"
  "list_approvals (rows_of B db) B st tr k = list_approvals db B st tr k"
  "get_approval (rows_of B db) B i = get_approval db B i"
  "get_active_policy (rows_of B db) B = get_active_policy db B"
  "active_signing_key (rows_of B db) B = active_signing_key db B"
  "get_profile (rows_of B db) B = get_profile db B"
  "list_access_requests (rows_of B db) B st = list_access_requests db B st"
  unfolding list_traces_for_org_def event_count_for_trace_def events_for_trace_def list_approvals_def get_approval_def
    get_active_policy_def active_signing_key_def get_profile_def list_access_requests_def rows_of_simps
  by (simp_all add: filter_own one_or_none_filter of_trace_def is_profile_def del: filter_filter)

lemma pending_own [simp]: "pending_change_requests (rows_of B db) (Some B) = pending_change_requests db (Some B)"
  by (simp add: pending_change_requests_def filter_own del: filter_filter)

lemma workqueue_own [simp]: "build_workqueue (rows_of B db) B = build_workqueue db B"
proof -
  have "decision_context (rows_of B db) B t = decision_context db B t" "open_flags (rows_of B db) B = open_flags db B" for t
    by (simp_all add: decision_context_def open_flags_def filter_own del: filter_filter)
  then show ?thesis by (simp add: build_workqueue_def approval_row_def [abs_def] filter_own del: filter_filter)
qed

lemma mandatory_own [simp]: "mandatory_packs (rows_of B db) B = mandatory_packs db B"
  by (simp add: mandatory_packs_def split: option.split)

lemma customer_read_own:
  assumes "B = o_id org"
  shows "customer_read E org q (rows_of B db) = customer_read E org q db"
proof (cases q)
  case (GetRequests st)
  have "AccessRequestOut (rows_of B db) r = AccessRequestOut db r" if "r \<in> set (list_access_requests db B st)" for r
    using that by (auto simp: AccessRequestOut_def list_access_requests_def approvals_of_own)
  then show ?thesis using GetRequests assms by (auto simp: list_requests_def)
qed (simp_all add: assms get_traces_def list_traces_def trace_summary_def [abs_def] org_trace_events_def get_decisions_def
    get_compliance_summary_def subscriptions_own list_approvals_route_def get_approval_route_def get_workqueue_def
    get_active_policy_route_def get_my_packs_def get_org_profile_def profile_summary_def mandatory_own
    org_overview_def offline_bundle_def Let_def)

section \<open>Who may write\<close>

definition session_of :: "env \<Rightarrow> credentials \<Rightarrow> db \<Rightarrow> user option" where
  "session_of E c db = session_user E db (bearer_token (cd_authorization c) (cd_cookie c))"

definition no_key :: "credentials \<Rightarrow> bool" where
  "no_key c \<longleftrightarrow> cd_api_key c \<in> {None, Some []}"

lemma session_token: "session_of E c db = Some u \<Longrightarrow> bearer_token (cd_authorization c) (cd_cookie c) \<noteq> []"
  by (auto simp: session_of_def session_user_def)

lemma caller_session:
  assumes "session_of E c db = Some u"
  shows "caller E c (PostResolve i st who comment) db = Inr ac \<Longrightarrow> ac_user ac = Some u \<and> o_id (ac_org ac) = u_org_id u"
    "\<lbrakk>u_role u = ''viewer''; no_key c; \<And>i st who comment. call \<noteq> PostResolve i st who comment\<rbrakk> \<Longrightarrow>
      caller E c call db = Inl (HTTPException 403)"
  using assms session_token [OF assms]
  by (auto simp: caller_def get_actor_def session_of_def org_by_id_def no_key_def get_authenticated_org_def Let_def
      split: option.splits customer_call.splits dest: one_or_none_Some)

lemma caller_error: "caller E c call db = Inl e \<Longrightarrow> e \<in> {HTTPException 401, HTTPException 403}"
  by (cases call) (auto simp: caller_def get_actor_def get_authenticated_org_def Let_def split: option.splits if_splits)

lemma parse_uuid_error: "parse_uuid i = Inl e \<Longrightarrow> e \<in> {HTTPException 422, HTTPException 500}"
  by (auto simp: parse_uuid_def raises_as_def split: sum.splits option.splits exn.splits if_splits)

definition read_only :: "credentials \<Rightarrow> customer_call \<Rightarrow> bool" where
  "read_only c call \<longleftrightarrow> (case call of PostResolve _ _ _ _ \<Rightarrow> True | _ \<Rightarrow> no_key c)"

lemma viewer_route:
  assumes "ac_user ac = Some u" "u_role u = ''viewer''"
  shows "\<exists>n \<in> {403, 422, 500}. resolve_route E ac i st who comment db = Inl (HTTPException n)"
proof (cases "ApprovalResolveIn st who \<and> (\<exists>aid. parse_uuid i = Inr aid)")
  case True
  then show ?thesis using assms by (auto simp: resolve_route_def valid_def the_approver_def)
next
  case False
  then show ?thesis by (cases "parse_uuid i") (auto simp: resolve_route_def valid_def dest: parse_uuid_error)
qed

lemma resolve_route_Inr:
  assumes "resolve_route E ac i st who comment db = Inr (out, db')"
  obtains aid w r where "uuid_of i = Inr aid" "the_approver ac who = Inr w"
    "resolve_approval E (o_id (ac_org ac)) aid st (apv_id w) (apv_kind w) (apv_user_id w) (apv_display w) comment db = Inr (r, db')"
  using assms by (auto simp: resolve_route_def bind_res_eq_Inr parse_uuid_def)

lemma resolved_row:
  assumes "resolve_approval E A aid st who k uid disp c db = Inr (r, db')"
  shows "\<exists>a. get_approval db' A aid = Some a \<and> a_status a = st \<and> a_approver_id a = Some who \<and> a_approver_kind a = Some k"
proof (rule resolve_Inr [OF assms], goal_cases)
  case (1 a seq out)
  have "get_approval db' A aid = get_approval (resolve_approval_row a st who k c (truncate_second (now E)) db) A aid"
    using record_event_approvals [OF 1(4)] by (simp add: get_approval_def)
  then show ?case by (simp add: get_approval_resolved [OF 1(2)])
qed

lemma cannot_sign:
  assumes "active_signing_key db A = None" "signing_backend_of (the_settings E) = Local"
    and "read_file E (signing_private_key_path (the_settings E)) = None"
  shows "sign_event_for_org E db A m = Inl SigningKeyError"
  using assms by (simp add: sign_event_for_org_def sign_message_hex_def get_signing_provider_def res_of_option_def Let_def)

section \<open>Properties\<close>

text \<open>C7. Organizations do not write each other's rows: when a request to a customer route changes any row that belongs
  to an organization, in any of the tables that these routes write, the caller was authenticated as that very
  organization (the identifiers of access requests are a primary key).\<close>

theorem tenant_writes_isolated:
  assumes "distinct (map ar_id (access_requests db))"
    and "customer_request E R fromiso c call db = (ans, db')" "rows_of B db' \<noteq> rows_of B db"
  shows "\<exists>ac. caller E c call db = Inr ac \<and> o_id (ac_org ac) = B"
proof (cases "caller E c call db")
  case (Inl e)
  then show ?thesis using assms(2,3) by (simp add: customer_request_def)
next
  case (Inr ac)
  then have "customer_route E R fromiso ac call db = (ans, db')" using assms(2) by (simp add: customer_request_def)
  then have "o_id (ac_org ac) = B" using route_spares [OF assms(1)] assms(3) unfolding spares_def by metis
  with Inr show ?thesis by blast
qed

theorem tenant_writes_isolated_witness:
  "\<exists>a db'. customer_request demo_env demo_rewriter (\<lambda>_. None) \<lparr>cd_api_key = Some ''key'', cd_authorization = None, cd_cookie = None\<rparr>
      (PatchOrg None None (Some 30)) (empty_db\<lparr>orgs := [sample_org ''a'' (hash_api_key demo_env ''key'')]\<rparr>) = (a, db') \<and>
    (\<exists>ac. caller demo_env \<lparr>cd_api_key = Some ''key'', cd_authorization = None, cd_cookie = None\<rparr> (PatchOrg None None (Some 30))
       (empty_db\<lparr>orgs := [sample_org ''a'' (hash_api_key demo_env ''key'')]\<rparr>) = Inr ac \<and> o_id (ac_org ac) = ''a'')"
proof -
  let ?db = "empty_db\<lparr>orgs := [sample_org ''a'' (hash_api_key demo_env ''key'')]\<rparr>"
  let ?c = "\<lparr>cd_api_key = Some ''key'', cd_authorization = None, cd_cookie = None\<rparr>"
  let ?call = "PatchOrg None None (Some 30)"
  obtain a db' where r: "customer_request demo_env demo_rewriter (\<lambda>_. None) ?c ?call ?db = (a, db')" by fastforce
  have "caller demo_env ?c ?call ?db = Inr \<lparr>ac_org = sample_org ''a'' (hash_api_key demo_env ''key''), ac_user = None\<rparr>"
    by (simp add: caller_def get_authenticated_org_def resolve_org_def sample_org_def)
  then have "orgs db' = [(sample_org ''a'' (hash_api_key demo_env ''key''))\<lparr>o_retention_days_payload := 30\<rparr>]"
    using r by (auto simp: customer_request_def answered_def patch_org_settings_def OrgSettingsUpdate_def sample_org_def
        update_org_settings_def checked_def repo_update_org_settings_def org_by_id_def assign_def update_org_def update_where_def
        Let_def)
  then have "orgs (rows_of ''a'' db') \<noteq> orgs (rows_of ''a'' ?db)" by (simp add: sample_org_def)
  then have "rows_of ''a'' db' \<noteq> rows_of ''a'' ?db" by metis
  with tenant_writes_isolated [of ?db, OF _ r this] r show ?thesis by (auto simp: empty_db_def)
qed


text \<open>C9. The approver on record is the person who was signed in: when a resolution is accepted, the row names the
  email address of the session's user, as authenticated, and that user is an officer or an administrator,
  whatever the body claims; the name in the body is used, and marked as asserted, only without a session.\<close>

theorem approver_is_signed_in:
  assumes "customer_request E R fromiso c (PostResolve i st who comment) db = (Inr out, db')"
  shows "\<exists>ac aid a. caller E c (PostResolve i st who comment) db = Inr ac \<and> uuid_of i = Inr aid \<and>
    get_approval db' (o_id (ac_org ac)) aid = Some a \<and> a_status a = st \<and>
    (case session_of E c db of
       Some u \<Rightarrow> a_approver_id a = Some (u_email u) \<and> a_approver_kind a = Some ''authenticated'' \<and>
         u_role u \<in> {''admin'', ''officer''} \<and> u_org_id u = o_id (ac_org ac)
     | None \<Rightarrow> a_approver_id a = who \<and> a_approver_kind a = Some ''asserted'')"
proof -
  obtain ac where ac: "caller E c (PostResolve i st who comment) db = Inr ac"
    and rt: "resolve_route E ac i st who comment db = Inr (out, db')"
    using assms by (auto simp: customer_request_def answered_def split: sum.splits prod.splits)
  obtain aid w r where w: "uuid_of i = Inr aid" "the_approver ac who = Inr w"
    and r: "resolve_approval E (o_id (ac_org ac)) aid st (apv_id w) (apv_kind w) (apv_user_id w) (apv_display w) comment db = Inr (r, db')"
    by (rule resolve_route_Inr [OF rt])
  obtain a where a: "get_approval db' (o_id (ac_org ac)) aid = Some a" "a_status a = st" "a_approver_id a = Some (apv_id w)"
    "a_approver_kind a = Some (apv_kind w)" using resolved_row [OF r] by blast
  show ?thesis
  proof (cases "session_of E c db")
    case None
    then have "ac_user ac = None" using ac
      by (auto simp: caller_def get_actor_def session_of_def Let_def split: option.splits if_splits)
    then show ?thesis using ac w a None by (auto simp: the_approver_def split: option.splits if_splits)
  next
    case (Some u)
    then show ?thesis using ac w a caller_session(1) [OF Some ac]
      by (auto simp: the_approver_def split: option.splits if_splits)
  qed
qed

text \<open>C10. A viewer only reads: with the session of a viewer, and no API key, no request of a customer changes the
  database, and each is answered with an error.  The resolution of an approval prefers the session, so there
  the API key does not help a viewer either.\<close>

theorem viewer_writes_nothing:
  assumes "session_of E c db = Some u" "u_role u = ''viewer''" "read_only c call"
  shows "\<exists>n \<in> {401, 403, 422, 500}. customer_request E R fromiso c call db = (Inl (HTTPException n), db)"
proof (cases "caller E c call db")
  case (Inl e)
  then show ?thesis using caller_error [OF Inl] by (auto simp: customer_request_def)
next
  case (Inr ac)
  then obtain i st who comment where call: "call = PostResolve i st who comment"
    using caller_session(2) [OF assms(1,2)] assms(3) by (cases call) (auto simp: read_only_def)
  have "ac_user ac = Some u" using caller_session(1) [OF assms(1)] Inr call by blast
  then obtain n where n: "n \<in> {403, 422, 500}" "resolve_route E ac i st who comment db = Inl (HTTPException n)"
    using viewer_route [OF _ assms(2)] by metis
  then have "customer_request E R fromiso c call db = (Inl (HTTPException n), db)"
    using Inr call by (simp add: customer_request_def answered_def)
  with n(1) show ?thesis by (intro bexI [of _ n]) auto
qed

text \<open>C12. A service that has lost its signing key answers an event that it would otherwise accept with 500: the handler
  that would turn this into 503 "signing key unavailable" is for \<^verbatim>\<open>OSError\<close>, and the signing provider raises
  a \<^verbatim>\<open>RuntimeError\<close>.\<close>

theorem missing_key_answers_500:
  assumes "active_signing_key db (o_id org) = None" "signing_backend_of (the_settings E) = Local"
    and "read_file E (signing_private_key_path (the_settings E)) = None"
    and "require_onboarded db org = Inr ()" "EventIn seq ty" "strip ty \<noteq> []" "uuid_of trace_id = Inr t"
    and "\<forall>x. get_trace_by_id db t = Some x \<longrightarrow> t_org_id x = o_id org"
    and "seq = (case last_event_for_trace db (o_id org) t of None \<Rightarrow> 1 | Some l \<Rightarrow> e_seq l + 1)"
  shows "post_event E org trace_id seq ty p v db = Inl (HTTPException 500)"
proof -
  obtain tr db1 where tr: "get_or_create_trace E (o_id org) t v db = Inr (tr, db1)"
    and db1: "\<exists>ts. db1 = db\<lparr>traces := ts\<rparr>"
  proof (cases "get_trace_by_id db t")
    case None
    then show ?thesis by (auto simp: get_or_create_trace_def Let_def intro!: that)
  next
    case (Some x)
    then show ?thesis using assms(8) by (auto simp: get_or_create_trace_def intro!: that [of x db] exI [of _ "traces db"])
  qed
  have s: "last_event_for_trace db1 (o_id org) t = last_event_for_trace db (o_id org) t"
    "\<And>m. sign_event_for_org E db1 (o_id org) m = Inl SigningKeyError"
    using db1 cannot_sign [OF _ assms(2,3)] assms(1)
    by (auto simp: last_event_for_trace_def active_signing_key_def)
  have "ty \<noteq> []" using assms(6) by (auto simp: strip_def)
  then have "record_event E (o_id org) t seq ty p v db = Inl SigningKeyError"
    using assms(6,9) tr s by (simp add: record_event_def Let_def split_beta)
  then show ?thesis using assms(4,5,7)
    by (simp add: post_event_def valid_def parse_uuid_def raises_as_def each_def os_errors_def)
qed

section \<open>Witnesses\<close>

definition route_id :: string where "route_id = ''00000000-0000-0000-0000-000000000001''"

lemma route_id: "uuid_of route_id = Inr route_id"
  by code_simp

definition session_credentials :: credentials where
  "session_credentials = \<lparr>cd_api_key = None, cd_authorization = None, cd_cookie = Some ''token''\<rparr>"

text \<open>Alice of \<open>o\<close> is signed in with the given role, and one approval is open.\<close>

definition signed_in :: "string \<Rightarrow> db" where
  "signed_in role = empty_db\<lparr>orgs := [sample_org ''o'' ''h''], users := [demo_user\<lparr>u_role := role\<rparr>],
     auth_sessions := [demo_session ''s'' (sha256_text demo_env ''token'')],
     approvals := [(demo_approval 1 ''pending'')\<lparr>a_id := route_id\<rparr>]\<rparr>"

lemma signed_in_session: "session_of demo_env session_credentials (signed_in role) = Some (demo_user\<lparr>u_role := role\<rparr>)"
  by (simp add: session_of_def session_user_def session_credentials_def bearer_token_def live_session_def enabled_user_def
      signed_in_def demo_session_def demo_user_def demo_env_def)

theorem viewer_writes_nothing_witness:
  "\<exists>n \<in> {401, 403, 422, 500}. customer_request demo_env demo_rewriter (\<lambda>_. None) session_credentials PostSigningKey
     (signed_in ''viewer'') = (Inl (HTTPException n), signed_in ''viewer'')"
  by (rule viewer_writes_nothing [OF signed_in_session]) (simp_all add: read_only_def no_key_def session_credentials_def)

theorem missing_key_answers_500_witness:
  "post_event (demo_env\<lparr>read_file := \<lambda>_. None\<rparr>) (demo_org ''standard'' None) route_id 1 ''x'' [] None empty_db =
     Inl (HTTPException 500)"
proof (rule missing_key_answers_500)
  show "uuid_of route_id = Inr route_id" by (rule route_id)
  show "strip ''x'' \<noteq> []" by code_simp
  show "require_onboarded empty_db (demo_org ''standard'' None) = Inr ()"
    by (simp add: require_onboarded_def demo_org_def)
qed (simp_all add: active_signing_key_def empty_db_def demo_env_def EventIn_def get_trace_by_id_def last_event_for_trace_def)

lemma resolves_first:
  assumes "log_ok demo_env db" "approvals db = [a]" "a_id a = i" "a_org_id a = A" "a_status a = ''pending''"
    and "get_trace_by_id db (a_trace_id a) = None" "trace_events db (a_trace_id a) = []" "signing_keys db = []"
    and "wrapping_pem db A = None"
  shows "\<exists>r db'. resolve_approval demo_env A i ''approved'' who k uid disp None db = Inr (r, db')"
proof -
  let ?t = "a_trace_id a"
  let ?db1 = "resolve_approval_row a ''approved'' who k None (truncate_second (now demo_env)) db"
  let ?p = "approval_payload i ''approved'' who k None uid disp"
  have ok: "log_ok demo_env ?db1" by (rule resolve_row_log_ok [OF assms(1)])
  have "\<exists>out db'. record_event demo_env A ?t 1 ''approval_action'' ?p None ?db1 = Inr (out, db')"
  proof (rule record_event_accepts [OF ok])
    show "strip ''approval_action'' \<noteq> []" by code_simp
    show "can_sign demo_env ?db1 A" by (rule demo_can_sign) (simp add: resolve_approval_row_def assms(8))
  qed (use assms(6,7,9) in \<open>simp_all add: get_trace_by_id_def trace_events_def wrapping_pem_def
      get_org_by_id_def resolve_approval_row_def\<close>)
  then obtain out db' where rec: "record_event demo_env A ?t 1 ''approval_action'' ?p None ?db1 = Inr (out, db')" by blast
  note l = record_event_log [OF ok demo_keys_ok(1) rec]
  have es: "events_for_trace ?db1 A ?t = []"
    using assms(7) by (auto simp: events_for_trace_def resolve_approval_row_def trace_events_def filter_empty_conv of_trace_def)
  have ap: "approvals db' = [a\<lparr>a_status := ''approved'', a_approver_id := Some who, a_approver_kind := Some k,
      a_comment := None, a_resolved_at := Some (truncate_second (now demo_env))\<rparr>]"
    using record_event_approvals [OF rec] assms(2) by (simp add: resolve_approval_row_def update_where_def)
  have "\<exists>g. workflow_gate demo_env db' A ?t = Inr g"
    using l(4) ap assms(4)
    by (auto simp: workflow_gate_def ensure_trace_access_def list_approvals_for_trace_eq trace_approvals_def order_desc_def)
  then show ?thesis using rec es assms(2-5)
    by (auto simp: resolve_approval_def APPROVAL_STATUSES_def get_approval_def Let_def)
qed

theorem approver_is_signed_in_witness:
  "\<exists>out db' a. customer_request demo_env demo_rewriter (\<lambda>_. None) session_credentials
      (PostResolve route_id ''approved'' (Some ''someone else'') None) (signed_in ''officer'') = (Inr out, db') \<and>
    get_approval db' ''o'' route_id = Some a \<and> a_approver_id a = Some ''a@b'' \<and> a_approver_kind a = Some ''authenticated''"
proof -
  let ?db = "signed_in ''officer''"
  let ?call = "PostResolve route_id ''approved'' (Some ''someone else'') None"
  let ?u = "demo_user\<lparr>u_role := ''officer''\<rparr>"
  let ?ac = "\<lparr>ac_org = sample_org ''o'' ''h'', ac_user = Some ?u\<rparr>"
  have c: "caller demo_env session_credentials ?call ?db = Inr ?ac"
    using signed_in_session [of "''officer''"] session_token [OF signed_in_session]
    by (simp add: caller_def get_actor_def session_of_def session_credentials_def org_by_id_def signed_in_def
        sample_org_def demo_user_def Let_def)
  have "\<exists>r db'. resolve_approval demo_env ''o'' route_id ''approved'' (u_email ?u) ''authenticated''
      (Some (u_id ?u)) (Some (u_display_name ?u)) None ?db = Inr (r, db')"
  proof (rule resolves_first [where a = "(demo_approval 1 ''pending'')\<lparr>a_id := route_id\<rparr>"])
    show "log_ok demo_env ?db" by (rule log_ok_same [OF log_ok_empty]) (simp_all add: signed_in_def)
  qed (simp_all add: signed_in_def empty_db_def demo_approval_def get_trace_by_id_def trace_events_def wrapping_pem_def
      get_org_by_id_def sample_org_def)
  then obtain r db' where r: "resolve_approval demo_env ''o'' route_id ''approved'' (u_email ?u) ''authenticated''
      (Some (u_id ?u)) (Some (u_display_name ?u)) None ?db = Inr (r, db')" by blast
  have req: "customer_request demo_env demo_rewriter (\<lambda>_. None) session_credentials ?call ?db = (Inr (ApprovalResolveOut r), db')"
    using c r route_id
    by (simp add: customer_request_def resolve_route_def valid_def ApprovalResolveIn_def parse_uuid_def the_approver_def
        answered_def raises_as_def) (simp add: sample_org_def demo_user_def)
  from approver_is_signed_in [OF req] req c route_id signed_in_session [of "''officer''"]
  show ?thesis by (auto simp: sample_org_def demo_user_def)
qed

end
