(* ===== verification/AdminApi.thy ===== *)
theory AdminApi
  imports Api
begin

text \<open>
  The routes of the operator, \<^verbatim>\<open>api/admin.py\<close> and the administrator's half of \<^verbatim>\<open>api/access.py\<close>: the system's
  health, organizations, regulation packs, requests to shed obligations, access requests and the verification
  of any trace.  All of them sit behind \<open>require_admin\<close>.  The routes of the regulation watch are not here.
\<close>

section \<open>Health\<close>

definition signing_backend_name :: "env \<Rightarrow> string res" where
  "signing_backend_name E =
     (case bind_res (get_signing_provider E) (provider_metadata E) of
        Inl e \<Rightarrow> if e = SigningKeyError then Inr ''unavailable'' else Inl e
      | Inr d \<Rightarrow> Inr (py_str (dget_def d ''backend'' (JStr ''unknown''))))"

definition org_events_on :: "db \<Rightarrow> string \<Rightarrow> int \<Rightarrow> int" where
  "org_events_on db org_id d =
     int (length (filter (\<lambda>e. e_org_id e = org_id \<and> day_of (e_created_at e) = d) (events db)))"

definition org_events_since :: "db \<Rightarrow> int \<Rightarrow> string \<Rightarrow> int" where
  "org_events_since db first_day org_id =
     int (length (filter (\<lambda>e. e_org_id e = org_id \<and> first_day \<le> day_of (e_created_at e)) (events db)))"

text \<open>The twelve organizations with most events in the window, else the twelve newest; the rows of the first come in
  the order of the table.\<close>

definition overview_orgs :: "db \<Rightarrow> int \<Rightarrow> org list" where
  "overview_orgs db first_day =
     (let by_org = dict_keys (map e_org_id (filter (\<lambda>e. first_day \<le> day_of (e_created_at e)) (events db)));
          active_ids = take 12 (sort_key (\<lambda>i. - org_events_since db first_day i) by_org)
      in if active_ids \<noteq> [] then filter (\<lambda>r. o_id r \<in> set active_ids) (orgs db)
         else take 12 (order_desc o_created_at (orgs db)))"

definition org_activity :: "db \<Rightarrow> int \<Rightarrow> org \<Rightarrow> dict" where
  "org_activity db first_day r =
     [(''id'', JStr (o_id r)), (''name'', JStr (o_name r)),
      (''confidentiality_mode'', JStr (o_confidentiality_mode r)),
      (''events_today'', JInt (org_events_on db (o_id r) (first_day + 11))),
      (''daily'', daily_counts first_day 12 (filter (\<lambda>e. e_org_id e = o_id r) (events db)))]"

definition stats :: "env \<Rightarrow> db \<Rightarrow> dict res" where
  "stats E db =
     bind_res (raises_as [] (signing_backend_name E)) (\<lambda>backend.
     let anchored = int (length (anchors db));
         total_batches = int (length (batches db));
         last_anchor = first (order_desc an_anchored_at (anchors db));
         first_day = day_of (now E) - 11
     in Inr
       [(''signing_backend'', JStr backend), (''anchored_batches'', JInt anchored),
        (''pending_batches'', JInt (max 0 (total_batches - anchored))),
        (''last_anchor_at'', opt_map (\<lambda>a. JStr (isoformat (an_anchored_at a))) last_anchor),
        (''unbatched_events'', JInt (int (length (filter (\<lambda>e. e_batch_id e = None) (events db))))),
        (''events_24h'',
           JInt (int (length (filter (\<lambda>e. now E - 86400000000 \<le> e_created_at e) (events db))))),
        (''pending_requests'',
           JInt (int (length (filter (\<lambda>r. ar_status r = ''pending'') (access_requests db))))),
        (''orgs'', jobjs (map (org_activity db first_day) (overview_orgs db first_day)))])"

section \<open>Organizations\<close>

text \<open>\<^verbatim>\<open>ILIKE\<close>, on ASCII: \<^verbatim>\<open>%\<close> is any text, \<^verbatim>\<open>_\<close> any character, and a backslash takes the next character as it is.\<close>

fun like :: "string \<Rightarrow> string \<Rightarrow> bool" where
  "like [] s = (s = [])"
| "like (p # ps) s =
     (if p = CHR ''%'' then list_ex (\<lambda>n. like ps (drop n s)) [0..<Suc (length s)]
      else case s of
             [] \<Rightarrow> False
           | c # cs \<Rightarrow>
               if p = CHR ''_'' then like ps cs
               else if p = CHR 0x5C then (case ps of [] \<Rightarrow> False | q # qs \<Rightarrow> q = c \<and> like qs cs)
               else p = c \<and> like ps cs)"

definition ilike :: "string \<Rightarrow> string \<Rightarrow> bool" where
  "ilike s pattern \<longleftrightarrow> like (lower pattern) (lower s)"

definition list_orgs :: "string option \<Rightarrow> int \<Rightarrow> db \<Rightarrow> dict list" where
  "list_orgs q limit db =
     (let matches =
            (case q of
               None \<Rightarrow> (\<lambda>r. True)
             | Some s \<Rightarrow>
                 if s = [] then (\<lambda>r. True)
                 else let needle = ''%'' @ strip s @ ''%''
                      in (\<lambda>r. ilike (o_id r) needle \<or> ilike (o_name r) needle))
      in map (\<lambda>r. org_out r (get_profile db (o_id r)))
           (take (nat (max 1 (min limit 500))) (order_desc o_created_at (filter matches (orgs db)))))"

section \<open>Regulation packs\<close>

text \<open>The bundled packs of \<^verbatim>\<open>regulation_packs.py\<close> are the argument \<open>packs\<close>.\<close>

fun seed_builtin_packs :: "env \<Rightarrow> dict list \<Rightarrow> db \<Rightarrow> (regulation_pack list \<times> db) res" where
  "seed_builtin_packs E [] db = Inr ([], db)"
| "seed_builtin_packs E (doc # docs) db =
     bind_res (upsert_pack E doc db) (\<lambda>(p, db).
     bind_res (seed_builtin_packs E docs db) (\<lambda>(ps, db).
     Inr (p # ps, db)))"

definition admin_pack_out :: "regulation_pack \<Rightarrow> dict" where
  "admin_pack_out p = pack_out p None None"

definition seed_packs :: "env \<Rightarrow> dict list \<Rightarrow> db \<Rightarrow> (dict list \<times> db) res" where
  "seed_packs E packs db =
     bind_res (raises_as [] (seed_builtin_packs E packs db)) (\<lambda>(ps, db). Inr (map admin_pack_out ps, db))"

definition list_regulation_packs :: "string option \<Rightarrow> db \<Rightarrow> dict list" where
  "list_regulation_packs jurisdiction db = map admin_pack_out (list_packs db jurisdiction)"

definition pack_coverage :: "string list \<Rightarrow> db \<Rightarrow> dict" where
  "pack_coverage expected db =
     (let have = map rp_code (regulation_packs db);
          missing = filter (\<lambda>code. code \<notin> set have) expected
      in [(''expected'', JInt (int (length expected))),
          (''seeded'', JInt (int (length expected) - int (length missing))),
          (''missing'', jstrs missing), (''complete'', JBool (missing = []))])"

definition list_org_packs :: "string \<Rightarrow> db \<Rightarrow> dict list" where
  "list_org_packs org_id db =
     map (\<lambda>(p, s). pack_out p (Some (op_enabled s)) (Some (op_enforcement s))) (org_subscriptions db org_id)"

definition subscribe_org_to_pack ::
  "env \<Rightarrow> string \<Rightarrow> string \<Rightarrow> bool \<Rightarrow> string \<Rightarrow> db \<Rightarrow> (dict \<times> db) res" where
  "subscribe_org_to_pack E org_id pack_code enabled enforcement db =
     bind_res (valid (pack_code \<noteq> [] \<and> enforcement = ''advisory'')) (\<lambda>_.
     case org_by_id db org_id of
       None \<Rightarrow> Inl (HTTPException 404)
     | Some _ \<Rightarrow>
         bind_res (raises_as [(PackError, 400)] (subscribe_org E org_id pack_code enabled enforcement db)) (\<lambda>(_, db).
         case latest_pack_by_code db pack_code of
           None \<Rightarrow> Inl (HTTPException 500)
         | Some pack \<Rightarrow> Inr (admin_pack_out pack, db)))"

definition reconcile_org_packs :: "env \<Rightarrow> string \<Rightarrow> db \<Rightarrow> (dict \<times> db) res" where
  "reconcile_org_packs E org_id db =
     (case org_by_id db org_id of
        None \<Rightarrow> Inl (HTTPException 404)
      | Some _ \<Rightarrow>
          bind_res (raises_as [] (reconcile_packs E org_id db)) (\<lambda>((added, removed), db).
          Inr ([(''org_id'', JStr org_id), (''added'', jstrs added), (''removed'', jstrs removed)], db)))"

section \<open>Requests to shed obligations\<close>

definition change_request_out :: "profile_change_request \<Rightarrow> dict" where
  "change_request_out r =
     [(''id'', JStr (cr_id r)), (''org_id'', JStr (cr_org_id r)), (''requested_by'', JStr (cr_requested_by r)),
      (''reason'', JStr (cr_reason r)), (''removed'', jstrs (cr_removed r)),
      (''proposed_jurisdictions'', jstrs (cr_proposed_jurisdictions r)),
      (''proposed_sectors'', jstrs (cr_proposed_sectors r)), (''status'', JStr (cr_status r)),
      (''created_at'', JStr (isoformat (cr_created_at r)))]"

definition list_profile_changes :: "db \<Rightarrow> dict list" where
  "list_profile_changes db = map change_request_out (pending_change_requests db None)"

definition decide_profile_change :: "env \<Rightarrow> string \<Rightarrow> bool \<Rightarrow> db \<Rightarrow> (dict \<times> db) res" where
  "decide_profile_change E request_id approve db =
     bind_res (parse_uuid request_id) (\<lambda>rid.
     bind_res (raises_as [(ProfileError, 404)] (decide_change_request E rid approve ''attest_admin'' db)) (\<lambda>(req, db).
     Inr (change_request_out req, db)))"

section \<open>Access requests\<close>

definition AccessRequestCreateIn :: "string list \<Rightarrow> string \<Rightarrow> int \<Rightarrow> int \<Rightarrow> bool" where
  "AccessRequestCreateIn payload_hashes reason required_approvals ttl_seconds \<longleftrightarrow>
     payload_hashes \<noteq> [] \<and> reason \<noteq> [] \<and> 1 \<le> required_approvals \<and> 1 \<le> ttl_seconds"

definition file_access_request ::
  "env \<Rightarrow> string \<Rightarrow> string list \<Rightarrow> string \<Rightarrow> int \<Rightarrow> int \<Rightarrow> db \<Rightarrow> (dict \<times> db) res" where
  "file_access_request E org_id payload_hashes reason required_approvals ttl_seconds db =
     bind_res (valid (AccessRequestCreateIn payload_hashes reason required_approvals ttl_seconds)) (\<lambda>_.
     bind_res (raises_as [] (create_access_request E org_id ''attest_admin'' payload_hashes reason
                               required_approvals ttl_seconds db)) (\<lambda>(req, db).
     Inr (AccessRequestOut db req, db)))"

text \<open>The event of the read is committed before the answer is built; a body that is not an object is refused by the
  response model.\<close>

definition read_record_via_grant :: "env \<Rightarrow> string \<Rightarrow> string \<Rightarrow> db \<Rightarrow> dict res \<times> db" where
  "read_record_via_grant E request_id payload_hash db =
     (case bind_res (parse_uuid request_id) (\<lambda>rid. raises_as [] (read_via_grant E rid payload_hash db)) of
        Inl e \<Rightarrow> (Inl e, db)
      | Inr (None, db') \<Rightarrow> (Inl (HTTPException 403), db)
      | Inr (Some body, db') \<Rightarrow>
          (case body of
             JNull \<Rightarrow> (Inl (HTTPException 403), db)
           | JObj d \<Rightarrow> (Inr [(''payload_hash'', JStr payload_hash), (''content'', JObj d)], db')
           | _ \<Rightarrow> (Inl (HTTPException 500), db')))"

definition list_all_requests :: "string option \<Rightarrow> string option \<Rightarrow> db \<Rightarrow> dict list" where
  "list_all_requests org_id status db =
     map (AccessRequestOut db)
       (take 200 (order_desc ar_created_at
         (filter (\<lambda>r. (case org_id of None \<Rightarrow> True | Some i \<Rightarrow> ar_org_id r = i) \<and>
                      (case status of None \<Rightarrow> True | Some s \<Rightarrow> ar_status r = s)) (access_requests db))))"

definition admin_request_detail :: "string \<Rightarrow> db \<Rightarrow> dict res" where
  "admin_request_detail request_id db =
     bind_res (parse_uuid request_id) (\<lambda>rid.
     case get_access_request db rid of
       None \<Rightarrow> Inl (HTTPException 404)
     | Some req \<Rightarrow>
         Inr (AccessRequestOut db req @
           [(''scope'', jobjs (map (\<lambda>g. [(''payload_hash'', JStr (ag_payload_hash g)),
                                          (''released'', JBool (ag_wrapped_key_b64 g \<noteq> None))])
                                (grants_of db rid)))]))"

section \<open>Any trace, without its content\<close>

definition admin_event_out :: "event \<Rightarrow> dict" where
  "admin_event_out e =
     [(''seq'', JInt (e_seq e)), (''type'', JStr (e_type e)), (''payload_hash'', JStr (e_payload_hash e)),
      (''hash'', JStr (e_hash e)), (''prev_hash'', jopt_str (e_prev_hash e)),
      (''created_at'', JStr (isoformat (e_created_at e)))]"

definition trace_events_route :: "string \<Rightarrow> db \<Rightarrow> dict list res" where
  "trace_events_route trace_id db =
     bind_res (parse_uuid trace_id) (\<lambda>tid.
     let es = order_asc e_seq (filter (\<lambda>e. e_trace_id e = tid) (events db))
     in if es = [] then Inl (HTTPException 404) else Inr (map admin_event_out es))"

definition trace_replay :: "env \<Rightarrow> string \<Rightarrow> db \<Rightarrow> dict res" where
  "trace_replay E trace_id db =
     bind_res (parse_uuid trace_id) (\<lambda>tid.
     case get_trace_by_id db tid of
       None \<Rightarrow> Inl (HTTPException 404)
     | Some trace \<Rightarrow>
         bind_res (raises_as [(TraceNotFoundError, 404)] (replay_trace E db (t_org_id trace) tid)) (\<lambda>r.
         Inr (TraceReplayOut r)))"

section \<open>The operator's requests\<close>

text \<open>The requests that may write, behind the key.\<close>

datatype admin_call =
    CreateOrgCall string string string "string option"
  | RotateKeyCall string
  | RequireOnboardingCall string bool
  | SeedPacks
  | SubscribeOrg string string bool string
  | ReconcileOrg string
  | DecideProfileChange string bool
  | FileAccessRequest string "string list" string int int
  | ReadRecord string string

fun admin_route :: "env \<Rightarrow> dict list \<Rightarrow> admin_call \<Rightarrow> db \<Rightarrow> dict list res \<times> db" where
  "admin_route E packs (CreateOrgCall i n r k) db =
     answered db (map_sum id (map_prod (\<lambda>d. [d]) id) (admin_create_org E i n r k db))"
| "admin_route E packs (RotateKeyCall i) db = answered db (map_sum id (map_prod (\<lambda>d. [d]) id) (rotate_org_key E i db))"
| "admin_route E packs (RequireOnboardingCall i b) db =
     answered db (map_sum id (map_prod (\<lambda>d. [d]) id) (set_require_onboarding i b db))"
| "admin_route E packs SeedPacks db = answered db (seed_packs E packs db)"
| "admin_route E packs (SubscribeOrg i c en enf) db =
     answered db (map_sum id (map_prod (\<lambda>d. [d]) id) (subscribe_org_to_pack E i c en enf db))"
| "admin_route E packs (ReconcileOrg i) db =
     answered db (map_sum id (map_prod (\<lambda>d. [d]) id) (reconcile_org_packs E i db))"
| "admin_route E packs (DecideProfileChange i b) db =
     answered db (map_sum id (map_prod (\<lambda>d. [d]) id) (decide_profile_change E i b db))"
| "admin_route E packs (FileAccessRequest i hs why n ttl) db =
     answered db (map_sum id (map_prod (\<lambda>d. [d]) id) (file_access_request E i hs why n ttl db))"
| "admin_route E packs (ReadRecord i h) db = map_prod (map_sum id (\<lambda>d. [d])) id (read_record_via_grant E i h db)"

definition admin_request :: "env \<Rightarrow> dict list \<Rightarrow> string \<Rightarrow> string \<Rightarrow> admin_call \<Rightarrow> db \<Rightarrow> dict list res \<times> db" where
  "admin_request E packs admin_api_key x_admin_key call db =
     (case require_admin admin_api_key x_admin_key of
        Inl e \<Rightarrow> (Inl e, db)
      | Inr _ \<Rightarrow> admin_route E packs call db)"

end
