(* ===== verification/SdkEvents.thy ===== *)
theory SdkEvents
  imports Api
begin

text \<open>
  The other methods of \<^verbatim>\<open>attest_sdk/attest.py\<close>, below \<open>gate\<close>: the local precheck, the events that go through the
  flush buffer, and the plain calls of the service.  \<open>FlushBuffer\<close> has the threads of the buffer; here it is the
  list of the items that wait in it, which \<open>flush\<close> hands over in order, as the worker does.
\<close>

section \<open>The client\<close>

record flush_item =
  fi_kind :: string
  fi_payload :: dict

record events_client =
  ec_enable_local_precheck :: bool
  ec_enable_buffer :: bool
  ec_fail_mode :: string
  ec_bundle :: "policy_bundle option"
  ec_trace_seq :: "string \<rightharpoonup> int"
  ec_buffer :: "flush_item list option"
  ec_stopped :: bool
  ec_errors :: "string list"

definition new_events_client :: "bool \<Rightarrow> bool \<Rightarrow> string \<Rightarrow> events_client" where
  "new_events_client enable_local_precheck enable_buffer fail_mode =
     \<lparr>ec_enable_local_precheck = enable_local_precheck, ec_enable_buffer = enable_buffer,
      ec_fail_mode = fail_mode, ec_bundle = None, ec_trace_seq = Map.empty,
      ec_buffer = (if enable_buffer then Some [] else None), ec_stopped = False, ec_errors = []\<rparr>"

text \<open>\<^verbatim>\<open>requests.post\<close> or \<^verbatim>\<open>requests.get\<close>, \<^verbatim>\<open>raise_for_status\<close> and \<^verbatim>\<open>json\<close>.\<close>

definition call :: "'w net \<Rightarrow> string \<Rightarrow> dict \<Rightarrow> (events_client \<times> 'w, reply) act" where
  "call net path body = (\<lambda>(c, w). case net path body w of (r, w') \<Rightarrow> (Inr r, (c, w')))"

definition raise_for_status :: "reply \<Rightarrow> reply res" where
  "raise_for_status r = (if reply_ok r then Inr r else Inl RequestException)"

definition call_json :: "'w net \<Rightarrow> string \<Rightarrow> dict \<Rightarrow> (events_client \<times> 'w, json) act" where
  "call_json net path body =
     bind_act (call net path body) (\<lambda>r. lift_res (bind_res (raise_for_status r) reply_json))"

definition the_state :: "(events_client \<times> 'w, events_client) act" where
  "the_state = (\<lambda>(c, w). (Inr c, (c, w)))"

definition change :: "(events_client \<Rightarrow> events_client) \<Rightarrow> (events_client \<times> 'w, unit) act" where
  "change f = (\<lambda>(c, w). (Inr (), (f c, w)))"

section \<open>Sequence numbers\<close>

definition new_trace :: "env \<Rightarrow> nat \<Rightarrow> string" where
  "new_trace E n = uuid4 E n"

definition seq_of :: "events_client \<Rightarrow> string \<Rightarrow> int" where
  "seq_of c trace_id = (case ec_trace_seq c trace_id of None \<Rightarrow> 0 | Some n \<Rightarrow> n)"

definition client_next_seq :: "events_client \<Rightarrow> string \<Rightarrow> int" where
  "client_next_seq c trace_id = seq_of c trace_id + 1"

definition note_seq :: "string \<Rightarrow> int \<Rightarrow> events_client \<Rightarrow> events_client" where
  "note_seq trace_id seq c = c\<lparr>ec_trace_seq := (ec_trace_seq c)(trace_id \<mapsto> max (seq_of c trace_id) seq)\<rparr>"

section \<open>The local precheck\<close>

definition load_policy_bundle :: "'w net \<Rightarrow> bool \<Rightarrow> (events_client \<times> 'w, policy_bundle) act" where
  "load_policy_bundle net force =
     bind_act the_state (\<lambda>c.
     case (ec_bundle c, force) of
       (Some b, False) \<Rightarrow> return_act b
     | _ \<Rightarrow>
         bind_act (call net ''/v1/policies/active'' []) (\<lambda>r.
         bind_act (lift_res
           (case bind_res (bind_res (raise_for_status r) reply_json) as_dict of
              Inl e \<Rightarrow>
                if e \<in> {RequestException, ValueError, KeyError} then Inr (bundle_default (ec_fail_mode c)) else Inl e
            | Inr body \<Rightarrow> Inr (bundle_from_api_response body (ec_fail_mode c)))) (\<lambda>b.
         bind_act (change (ec_bundle_update (\<lambda>_. Some b))) (\<lambda>_.
         return_act b))))"

definition client_evaluate_local :: "'w net \<Rightarrow> string \<Rightarrow> dict \<Rightarrow> (events_client \<times> 'w, dict) act" where
  "client_evaluate_local net action payload =
     bind_act (load_policy_bundle net False) (\<lambda>b.
     lift_res (map_sum id local_evaluation_to_dict (bundle_evaluate b action payload)))"

definition precheck_body :: "string \<Rightarrow> int \<Rightarrow> string \<Rightarrow> dict \<Rightarrow> string option \<Rightarrow> dict" where
  "precheck_body trace_id seq action payload policy_version =
     [(''trace_id'', JStr trace_id), (''seq'', JInt seq), (''action'', JStr action), (''payload'', JObj payload),
      (''policy_version'', jopt_str policy_version)]"

definition client_precheck ::
  "'w net \<Rightarrow> string \<Rightarrow> int \<Rightarrow> string \<Rightarrow> dict \<Rightarrow> string option \<Rightarrow> (events_client \<times> 'w, json) act" where
  "client_precheck net trace_id seq action payload policy_version =
     call_json net ''/v1/precheck'' (precheck_body trace_id seq action payload policy_version)"

definition enqueue :: "flush_item \<Rightarrow> (events_client \<times> 'w, unit) act" where
  "enqueue item = (\<lambda>(c, w).
     if ec_stopped c then (Inl RuntimeError, (c, w))
     else (Inr (), (c\<lparr>ec_buffer := map_option (\<lambda>q. q @ [item]) (ec_buffer c)\<rparr>, w)))"

definition local_result :: "local_evaluation \<Rightarrow> string \<Rightarrow> int \<Rightarrow> policy_bundle \<Rightarrow> dict" where
  "local_result e trace_id seq b =
     dset (local_evaluation_to_dict e @
       [(''trace_id'', JStr trace_id), (''policy_version'', JStr (pb_version b)), (''escalated'', JBool False),
        (''approval_id'', JNull), (''policy_decision_seq'', JInt seq), (''policy_decision_hash'', JStr [])])
       ''local_only'' (JBool True)"

text \<open>An escalated answer that is not an object does not take the two marks.\<close>

definition escalated :: "json \<Rightarrow> dict res" where
  "escalated j =
     (case j of
        JObj d \<Rightarrow> Inr (dset (dset d ''local_only'' (JBool False)) ''escalated'' (JBool True))
      | _ \<Rightarrow> Inl TypeError)"

definition precheck_smart ::
  "'w net \<Rightarrow> string \<Rightarrow> int \<Rightarrow> string \<Rightarrow> dict \<Rightarrow> string option \<Rightarrow> bool \<Rightarrow> (events_client \<times> 'w, json) act" where
  "precheck_smart net trace_id seq action payload policy_version buffer_policy_decision =
     bind_act (change (note_seq trace_id seq)) (\<lambda>_.
     bind_act the_state (\<lambda>c.
     if \<not> ec_enable_local_precheck c then client_precheck net trace_id seq action payload policy_version
     else
       bind_act (load_policy_bundle net False) (\<lambda>b.
       bind_act (lift_res (bundle_evaluate b action payload)) (\<lambda>local.
       if needs_server_escalation local then
         bind_act (client_precheck net trace_id seq action payload policy_version) (\<lambda>j.
         lift_res (map_sum id JObj (escalated j)))
       else
         let result = local_result local trace_id seq b in
         if buffer_policy_decision \<and> ec_buffer c \<noteq> None then
           bind_act (enqueue \<lparr>fi_kind = ''precheck'',
                              fi_payload = precheck_body trace_id seq action payload policy_version\<rparr>) (\<lambda>_.
           return_act (JObj (result @ [(''policy_decision_buffered'', JBool True)])))
         else return_act (JObj result)))))"

section \<open>Events\<close>

definition event_body :: "string \<Rightarrow> int \<Rightarrow> string \<Rightarrow> dict \<Rightarrow> string option \<Rightarrow> dict" where
  "event_body trace_id seq event_type payload policy_version =
     [(''trace_id'', JStr trace_id), (''seq'', JInt seq), (''type'', JStr event_type), (''payload'', JObj payload),
      (''policy_version'', jopt_str policy_version)]"

definition buffered_receipt :: "int \<Rightarrow> dict" where
  "buffered_receipt seq =
     [(''hash'', JStr []), (''signature'', JStr []), (''seq'', JInt seq), (''prev_hash'', JStr []),
      (''buffered'', JBool True)]"

definition client_record_event ::
  "'w net \<Rightarrow> string \<Rightarrow> int \<Rightarrow> string \<Rightarrow> dict \<Rightarrow> string option \<Rightarrow> bool option \<Rightarrow> (events_client \<times> 'w, json) act" where
  "client_record_event net trace_id seq event_type payload policy_version buffered =
     bind_act the_state (\<lambda>c.
     let use_buffer = (case buffered of None \<Rightarrow> ec_enable_buffer c | Some b \<Rightarrow> b);
         body = event_body trace_id seq event_type payload policy_version
     in bind_act (change (note_seq trace_id seq)) (\<lambda>_.
        if use_buffer \<and> ec_buffer c \<noteq> None then
          bind_act (enqueue \<lparr>fi_kind = ''event'', fi_payload = body\<rparr>) (\<lambda>_.
          return_act (JObj (buffered_receipt seq)))
        else call_json net ''/v1/event'' body))"

section \<open>The plain calls\<close>

definition client_workflow_gate :: "'w net \<Rightarrow> string \<Rightarrow> (events_client \<times> 'w, json) act" where
  "client_workflow_gate net trace_id = call_json net (''/v1/trace/'' @ trace_id @ ''/gate'') []"

definition client_resolve_approval ::
  "'w net \<Rightarrow> string \<Rightarrow> string \<Rightarrow> string \<Rightarrow> string option \<Rightarrow> (events_client \<times> 'w, json) act" where
  "client_resolve_approval net approval_id status approver_id comment =
     call_json net (''/v1/approvals/'' @ approval_id @ ''/resolve'')
       [(''status'', JStr status), (''approver_id'', JStr approver_id), (''comment'', jopt_str comment)]"

definition client_mitigate ::
  "'w net \<Rightarrow> string \<Rightarrow> int \<Rightarrow> string list \<Rightarrow> dict \<Rightarrow> int option \<Rightarrow> string option \<Rightarrow> (events_client \<times> 'w, json) act" where
  "client_mitigate net trace_id seq mitigation_ids source_payload policy_decision_seq policy_version =
     call_json net ''/v1/mitigate''
       [(''trace_id'', JStr trace_id), (''seq'', JInt seq), (''mitigation_ids'', jstrs mitigation_ids),
        (''source_payload'', JObj source_payload), (''policy_decision_seq'', jopt_int policy_decision_seq),
        (''policy_version'', jopt_str policy_version)]"

section \<open>Flushing\<close>

text \<open>Each kind has its route; an item of another kind is dropped.\<close>

definition flush_item_call :: "'w net \<Rightarrow> flush_item \<Rightarrow> (events_client \<times> 'w, unit) act" where
  "flush_item_call net item =
     (if fi_kind item = ''event'' then
        bind_act (call net ''/v1/event'' (fi_payload item)) (\<lambda>r. lift_res (map_sum id (\<lambda>_. ()) (raise_for_status r)))
      else if fi_kind item = ''precheck'' then
        bind_act (call net ''/v1/precheck'' (fi_payload item)) (\<lambda>r. lift_res (map_sum id (\<lambda>_. ()) (raise_for_status r)))
      else return_act ())"

text \<open>An item that fails leaves its error, whose text \<open>err\<close> gives, and is not put back.\<close>

fun flush_loop :: "'w net \<Rightarrow> (exn \<Rightarrow> string) \<Rightarrow> flush_item list \<Rightarrow> events_client \<times> 'w \<Rightarrow> int \<times> (events_client \<times> 'w)" where
  "flush_loop net err [] s = (0, s)"
| "flush_loop net err (item # items) s =
     (case flush_item_call net item s of
        (Inr _, s') \<Rightarrow> (case flush_loop net err items s' of (n, s'') \<Rightarrow> (n + 1, s''))
      | (Inl e, (c, w)) \<Rightarrow> flush_loop net err items (c\<lparr>ec_errors := ec_errors c @ [err e]\<rparr>, w))"

definition flush :: "'w net \<Rightarrow> (exn \<Rightarrow> string) \<Rightarrow> events_client \<times> 'w \<Rightarrow> int \<times> (events_client \<times> 'w)" where
  "flush net err s =
     (case s of (c, w) \<Rightarrow>
        (case ec_buffer c of
           None \<Rightarrow> (0, s)
         | Some items \<Rightarrow> flush_loop net err items (c\<lparr>ec_buffer := Some []\<rparr>, w)))"

definition close_client :: "'w net \<Rightarrow> (exn \<Rightarrow> string) \<Rightarrow> events_client \<times> 'w \<Rightarrow> events_client \<times> 'w" where
  "close_client net err s =
     (case s of (c, w) \<Rightarrow>
        if ec_buffer c = None then s else snd (flush net err (c\<lparr>ec_stopped := True\<rparr>, w)))"

definition buffer_errors :: "events_client \<Rightarrow> string list" where
  "buffer_errors c = (if ec_buffer c = None then [] else ec_errors c)"

section \<open>The service\<close>

text \<open>The two routes of a flush and the policy, for the organization of the API key; \<open>read\<close> is Pydantic's reading of
  a body, and \<open>rest\<close> answers every other path.\<close>

type_synonym body_reader = "dict \<Rightarrow> (string \<times> int \<times> string \<times> dict \<times> string option) option"

definition events_service ::
  "env \<Rightarrow> rewriter \<Rightarrow> body_reader \<Rightarrow> body_reader \<Rightarrow> (int \<Rightarrow> json) \<Rightarrow> db net \<Rightarrow> org \<Rightarrow> db net" where
  "events_service E R read_event read_precheck detail rest org path body db =
     (if path = ''/v1/event'' then
        (case read_event body of
           None \<Rightarrow> (Reply 422 (Some (JObj [(''detail'', detail 422)])), db)
         | Some (t, n, ty, p, v) \<Rightarrow> answer detail db (post_event E org t n ty p v db))
      else if path = ''/v1/precheck'' then
        (case read_precheck body of
           None \<Rightarrow> (Reply 422 (Some (JObj [(''detail'', detail 422)])), db)
         | Some (t, n, a, p, v) \<Rightarrow> answer detail db (post_precheck E R org t n a p v db))
      else if path = ''/v1/policies/active'' then
        answer detail db (map_sum id (\<lambda>d. (d, db)) (get_active_policy_route org db))
      else rest path body db)"

section \<open>Lemmas\<close>

lemma bind_act_apply [simp]:
  "bind_act m f s = (case m s of (Inl e, s') \<Rightarrow> (Inl e, s') | (Inr x, s') \<Rightarrow> f x s')"
  by (simp add: bind_act_def)

lemma events_act_simps [simp]:
  "return_act x s = (Inr x, s)" "lift_res r s = (r, s)" "the_state (c, w) = (Inr c, (c, w))"
  "change f (c, w) = (Inr (), (f c, w))"
  "call net path body (c, w) = (case net path body w of (r, w') \<Rightarrow> (Inr r, (c, w')))"
  by (simp_all add: return_act_def lift_res_def the_state_def change_def call_def)

text \<open>An event that skips a number is refused, and the database keeps.\<close>

lemma skipping_event_refused:
  assumes "uuid_of trace_id = Inr t" "last_event_for_trace db (o_id org) t = None" "n \<noteq> 1"
  shows "\<exists>e. post_event E org trace_id n ty p v db = Inl (HTTPException e) \<and> 400 \<le> e \<and> e < 600"
proof -
  have last: "last_event_for_trace db1 (o_id org) t = None"
    if "get_or_create_trace E (o_id org) t v db = Inr (tr, db1)" for tr db1
    using get_or_create_trace_Inr(3) [OF that] assms(2) by (auto simp: last_event_for_trace_def)
  have "\<exists>e. record_event E (o_id org) t n ty p v db = Inl e \<and>
      e \<in> {InvalidEventTypeError, EventSequenceError, TraceAccessDeniedError}"
  proof (cases "get_or_create_trace E (o_id org) t v db")
    case (Inl e)
    then show ?thesis
      by (auto simp: record_event_def get_or_create_trace_def Let_def split: option.splits if_splits)
  next
    case (Inr x)
    then show ?thesis using last [of "fst x" "snd x"] assms(3) by (cases x) (auto simp: record_event_def Let_def)
  qed
  then show ?thesis
    using assms(1) by (auto simp: post_event_def valid_def require_onboarded_def parse_uuid_def raises_as_def each_def os_errors_def
      bind_res_def)
qed

lemma flush_one_refused:
  assumes "ec_buffer c = Some [\<lparr>fi_kind = ''event'', fi_payload = body\<rparr>]" "net ''/v1/event'' body w = (r, w)" "\<not> reply_ok r"
  shows "flush net err (c, w) = (0, (c\<lparr>ec_buffer := Some [], ec_errors := ec_errors c @ [err RequestException]\<rparr>, w))"
  using assms by (simp add: flush_def flush_item_call_def raise_for_status_def)

lemma local_allowed: "\<not> needs_server_escalation e \<Longrightarrow> dget (local_result e t n b) ''allowed'' = JBool True"
  by (simp add: needs_server_escalation_def local_result_def local_evaluation_to_dict_def dget_def dget_def_def)

lemma error_reply: "400 \<le> n \<Longrightarrow> n < 600 \<Longrightarrow> \<exists>r. answer detail db (Inl (HTTPException n)) = (r, db) \<and> \<not> reply_ok r"
  by (auto simp: answer_def reply_ok_def)

section \<open>Properties\<close>

text \<open>C11. The usage of the README loses the output it records: on a new trace, a local precheck that passes at number 1
  tells the caller to go on and sends nothing; the event is then given number 2, and the flush has it refused,
  whatever it contains.  Nothing of it is in the database or left in the buffer, \<open>flush\<close> reports 0, and the
  only sign is one more line in \<open>buffer_errors\<close>.\<close>

theorem local_precheck_loses_output:
  assumes "ec_enable_local_precheck c" "ec_bundle c = Some b" "ec_buffer c = Some []" "\<not> ec_stopped c"
    and "ec_trace_seq c trace_id = None"
    and "bundle_evaluate b action payload = Inr local" "\<not> needs_server_escalation local"
    and "uuid_of trace_id = Inr t" "last_event_for_trace db (o_id org) t = None"
    and "\<And>n ty p v. read_event (event_body trace_id n ty p v) \<in> {None, Some (trace_id, n, ty, p, v)}"
    and "net = events_service E R read_event read_precheck detail rest org"
  shows "\<exists>d c1 receipt c2 c3.
    precheck_smart net trace_id 1 action payload v False (c, db) = (Inr (JObj d), (c1, db)) \<and> dget d ''allowed'' = JBool True \<and>
    client_record_event net trace_id (client_next_seq c1 trace_id) ty out v' (Some True) (c1, db) = (Inr receipt, (c2, db)) \<and>
    flush net err (c2, db) = (0, (c3, db)) \<and> ec_buffer c3 = Some [] \<and>
    buffer_errors c3 = ec_errors c @ [err RequestException]"
proof -
  let ?c1 = "note_seq trace_id 1 c"
  let ?body = "event_body trace_id 2 ty out v'"
  let ?c2 = "(note_seq trace_id 2 ?c1)\<lparr>ec_buffer := Some [\<lparr>fi_kind = ''event'', fi_payload = ?body\<rparr>]\<rparr>"
  have n: "client_next_seq ?c1 trace_id = 2"
    using assms(5) by (simp add: client_next_seq_def seq_of_def note_seq_def)
  have pre: "precheck_smart net trace_id 1 action payload v False (c, db) = (Inr (JObj (local_result local trace_id 1 b)), (?c1, db))"
    using assms(1-7) by (simp add: precheck_smart_def load_policy_bundle_def note_seq_def Let_def)
  have rec: "client_record_event net trace_id 2 ty out v' (Some True) (?c1, db) = (Inr (JObj (buffered_receipt 2)), (?c2, db))"
    using assms(3,4) by (simp add: client_record_event_def enqueue_def note_seq_def Let_def)
  have "\<exists>r. net ''/v1/event'' ?body db = (r, db) \<and> \<not> reply_ok r"
  proof (cases "read_event ?body")
    case None
    then show ?thesis by (simp add: assms(11) events_service_def reply_ok_def)
  next
    case (Some x)
    then have "x = (trace_id, 2, ty, out, v')" using assms(10) [of 2 ty out v'] by simp
    moreover obtain e where "post_event E org trace_id 2 ty out v' db = Inl (HTTPException e)" "400 \<le> e" "e < 600"
      using skipping_event_refused [OF assms(8,9), of 2 E ty out v'] by auto
    ultimately show ?thesis using Some error_reply [of e detail db] by (simp add: assms(11) events_service_def)
  qed
  then obtain r where r: "net ''/v1/event'' ?body db = (r, db)" "\<not> reply_ok r" by blast
  have fl: "flush net err (?c2, db) = (0, (?c2\<lparr>ec_buffer := Some [], ec_errors := ec_errors ?c2 @ [err RequestException]\<rparr>, db))"
    using r by (intro flush_one_refused) simp_all
  show ?thesis using pre rec fl local_allowed [OF assms(7)] n
    by (intro exI [of _ "local_result local trace_id 1 b"] exI [of _ ?c1] exI [of _ "JObj (buffered_receipt 2)"]
        exI [of _ ?c2] exI [of _ "?c2\<lparr>ec_buffer := Some [], ec_errors := ec_errors ?c2 @ [err RequestException]\<rparr>"])
      (simp add: buffer_errors_def note_seq_def)
qed

definition reads_exactly :: body_reader where
  "reads_exactly body =
     (case (dget body ''trace_id'', dget body ''seq'', dget body ''type'', dget body ''payload'', dget body ''policy_version'') of
        (JStr t, JInt n, JStr ty, JObj p, v) \<Rightarrow> Some (t, n, ty, p, case v of JStr s \<Rightarrow> Some s | _ \<Rightarrow> None)
      | _ \<Rightarrow> None)"

definition green_client :: events_client where
  "green_client = (new_events_client True True ''deny_on_error'')\<lparr>ec_bundle := Some (bundle_default ''deny_on_error'')\<rparr>"

definition sample_trace :: string where "sample_trace = ''00000000-0000-0000-0000-000000000002''"

theorem local_precheck_loses_output_witness:
  "\<exists>d c1 receipt c2 c3.
    precheck_smart (events_service demo_env demo_rewriter reads_exactly reads_exactly (\<lambda>_. JNull) (\<lambda>_ _ db. (Reply 404 None, db))
      (demo_org ''standard'' None)) sample_trace 1 ''model_completion'' [(''citations'', JInt 2)] None False (green_client, empty_db) =
        (Inr (JObj d), (c1, empty_db)) \<and> dget d ''allowed'' = JBool True \<and>
    client_record_event (events_service demo_env demo_rewriter reads_exactly reads_exactly (\<lambda>_. JNull)
      (\<lambda>_ _ db. (Reply 404 None, db)) (demo_org ''standard'' None)) sample_trace (client_next_seq c1 sample_trace)
        ''model_completion'' [] None (Some True) (c1, empty_db) = (Inr receipt, (c2, empty_db)) \<and>
    flush (events_service demo_env demo_rewriter reads_exactly reads_exactly (\<lambda>_. JNull)
      (\<lambda>_ _ db. (Reply 404 None, db)) (demo_org ''standard'' None)) (\<lambda>_. ''409'') (c2, empty_db) = (0, (c3, empty_db)) \<and>
    ec_buffer c3 = Some [] \<and> buffer_errors c3 = ec_errors green_client @ [''409'']"
proof -
  have "case bundle_evaluate (bundle_default ''deny_on_error'') ''model_completion'' [(''citations'', JInt 2)] of
      Inl _ \<Rightarrow> False | Inr l \<Rightarrow> \<not> needs_server_escalation l"
    by code_simp
  then obtain l where l: "bundle_evaluate (bundle_default ''deny_on_error'') ''model_completion'' [(''citations'', JInt 2)] = Inr l"
    "\<not> needs_server_escalation l" by (auto split: sum.splits)
  show ?thesis
  proof (rule local_precheck_loses_output [OF _ _ _ _ _ l, where t = sample_trace])
    show "uuid_of sample_trace = Inr sample_trace" by code_simp
    show "reads_exactly (event_body sample_trace n ty p v) \<in> {None, Some (sample_trace, n, ty, p, v)}" for n ty p v
      by (cases v) (simp_all add: reads_exactly_def event_body_def dget_def dget_def_def jopt_str_def)
  qed (simp_all add: green_client_def new_events_client_def last_event_for_trace_def empty_db_def)
qed

end
