(* ===== verification/FlushBuffer.thy ===== *)
theory FlushBuffer
  imports Prelude "HOL-Library.Multiset"
begin

text \<open>
  \<^verbatim>\<open>attest_sdk/buffer.py\<close>: the queue that a background worker empties, as a step relation.  Any number of
  threads may be inside \<^verbatim>\<open>enqueue\<close>, \<^verbatim>\<open>close\<close> and \<^verbatim>\<open>flush_sync\<close> at once; a step is one operation on the queue,
  one check or write of \<^verbatim>\<open>_stopped\<close>, or one call of \<^verbatim>\<open>flush_fn\<close>, which returns or raises.
\<close>

section \<open>The buffer\<close>

text \<open>The worker waits in \<^verbatim>\<open>get\<close>, handles what it got (None is the signal to end), or has ended.\<close>

datatype 'i worker = Waiting | Handling "'i option" | Ended

text \<open>\<open>fb_putting\<close> are the arguments of the calls of \<^verbatim>\<open>put\<close> that have not returned yet, \<open>fb_flushing\<close> the running
  calls of \<^verbatim>\<open>flush_sync\<close>, each with the item it handles and its count.  The last three fields are history: the
  items that \<^verbatim>\<open>enqueue\<close> did not refuse, and those for which \<^verbatim>\<open>flush_fn\<close> returned or raised.\<close>

record 'i flush_buffer =
  fb_queue :: "'i option list"
  fb_max_queue :: int
  fb_errors :: "string list"
  fb_stopped :: bool
  fb_worker :: "'i worker"
  fb_putting :: "'i option list"
  fb_flushing :: "('i option \<times> nat) list"
  fb_accepted :: "'i list"
  fb_delivered :: "'i list"
  fb_failed :: "'i list"

definition new_buffer :: "int \<Rightarrow> 'i flush_buffer" where
  "new_buffer max_queue =
     \<lparr>fb_queue = [], fb_max_queue = max_queue, fb_errors = [], fb_stopped = False, fb_worker = Waiting,
      fb_putting = [], fb_flushing = [], fb_accepted = [], fb_delivered = [], fb_failed = []\<rparr>"

text \<open>\<^verbatim>\<open>queue.Queue(maxsize)\<close> has no bound when \<^verbatim>\<open>maxsize\<close> is not positive.\<close>

definition has_room :: "'i flush_buffer \<Rightarrow> bool" where
  "has_room b \<longleftrightarrow> fb_max_queue b \<le> 0 \<or> int (length (fb_queue b)) < fb_max_queue b"

datatype 'i fb_action =
    EnqueueCheck 'i | EnqueueRefused 'i | CloseStop | FlushStart
  | Put "'i option"
  | WorkerGet | WorkerEnd | WorkerDone 'i | WorkerFailed 'i string
  | FlushGet 'i | FlushSignal nat | FlushEmpty nat | FlushDone 'i | FlushFailed 'i string

inductive fb_step :: "'i flush_buffer \<Rightarrow> 'i fb_action \<Rightarrow> 'i flush_buffer \<Rightarrow> bool" where
  enqueue_check:
    "\<not> fb_stopped b \<Longrightarrow>
     fb_step b (EnqueueCheck i) (b\<lparr>fb_putting := fb_putting b @ [Some i], fb_accepted := fb_accepted b @ [i]\<rparr>)"
| enqueue_refused: "fb_stopped b \<Longrightarrow> fb_step b (EnqueueRefused i) b"
| close_stop: "fb_step b CloseStop (b\<lparr>fb_stopped := True, fb_putting := fb_putting b @ [None]\<rparr>)"
| flush_start: "fb_step b FlushStart (b\<lparr>fb_flushing := fb_flushing b @ [(None, 0)]\<rparr>)"
| put:
    "fb_putting b = xs @ x # ys \<Longrightarrow> has_room b \<Longrightarrow>
     fb_step b (Put x) (b\<lparr>fb_putting := xs @ ys, fb_queue := fb_queue b @ [x]\<rparr>)"
| worker_get:
    "fb_worker b = Waiting \<Longrightarrow> fb_queue b = x # q \<Longrightarrow>
     fb_step b WorkerGet (b\<lparr>fb_worker := Handling x, fb_queue := q\<rparr>)"
| worker_end: "fb_worker b = Handling None \<Longrightarrow> fb_step b WorkerEnd (b\<lparr>fb_worker := Ended\<rparr>)"
| worker_done:
    "fb_worker b = Handling (Some i) \<Longrightarrow>
     fb_step b (WorkerDone i) (b\<lparr>fb_worker := Waiting, fb_delivered := fb_delivered b @ [i]\<rparr>)"
| worker_failed:
    "fb_worker b = Handling (Some i) \<Longrightarrow>
     fb_step b (WorkerFailed i e)
       (b\<lparr>fb_worker := Waiting, fb_failed := fb_failed b @ [i], fb_errors := fb_errors b @ [e]\<rparr>)"
| flush_get:
    "fb_flushing b = xs @ (None, n) # ys \<Longrightarrow> fb_queue b = Some i # q \<Longrightarrow>
     fb_step b (FlushGet i) (b\<lparr>fb_flushing := xs @ (Some i, n) # ys, fb_queue := q\<rparr>)"
| flush_signal:
    "fb_flushing b = xs @ (None, n) # ys \<Longrightarrow> fb_queue b = None # q \<Longrightarrow>
     fb_step b (FlushSignal n) (b\<lparr>fb_flushing := xs @ ys, fb_queue := q\<rparr>)"
| flush_empty:
    "fb_flushing b = xs @ (None, n) # ys \<Longrightarrow> fb_queue b = [] \<Longrightarrow>
     fb_step b (FlushEmpty n) (b\<lparr>fb_flushing := xs @ ys\<rparr>)"
| flush_done:
    "fb_flushing b = xs @ (Some i, n) # ys \<Longrightarrow>
     fb_step b (FlushDone i)
       (b\<lparr>fb_flushing := xs @ (None, n + 1) # ys, fb_delivered := fb_delivered b @ [i]\<rparr>)"
| flush_failed:
    "fb_flushing b = xs @ (Some i, n) # ys \<Longrightarrow>
     fb_step b (FlushFailed i e)
       (b\<lparr>fb_flushing := xs @ (None, n) # ys, fb_failed := fb_failed b @ [i], fb_errors := fb_errors b @ [e]\<rparr>)"

inductive_cases fb_stepE: "fb_step b a b'"

inductive fb_run :: "'i flush_buffer \<Rightarrow> 'i fb_action list \<Rightarrow> 'i flush_buffer \<Rightarrow> bool" where
  fb_nil: "fb_run b [] b"
| fb_cons: "fb_step b a b' \<Longrightarrow> fb_run b' as b'' \<Longrightarrow> fb_run b (a # as) b''"

inductive_simps fb_run_Nil [simp]: "fb_run b [] b'"
inductive_simps fb_run_Cons: "fb_run b (a # as) b'"

lemma run_keeps:
  "fb_run b as b' \<Longrightarrow> (\<And>b a b'. a \<in> set as \<Longrightarrow> fb_step b a b' \<Longrightarrow> P b \<Longrightarrow> P b') \<Longrightarrow> P b \<Longrightarrow> P b'"
  by (induction rule: fb_run.induct) auto

lemma run_append: "fb_run b (xs @ ys) b'' \<longleftrightarrow> (\<exists>b'. fb_run b xs b' \<and> fb_run b' ys b'')"
  by (induction xs arbitrary: b) (auto simp: fb_run_Cons)

section \<open>Nothing is lost or duplicated\<close>

definition item :: "'i option \<Rightarrow> 'i multiset" where
  "item x = (case x of None \<Rightarrow> {#} | Some i \<Rightarrow> {#i#})"

definition items :: "'i option list \<Rightarrow> 'i multiset" where
  "items xs = sum_list (map item xs)"

lemma items_simps [simp]:
  "item None = {#}" "item (Some i) = {#i#}" "items [] = {#}" "items (x # xs) = item x + items xs"
  "items (xs @ ys) = items xs + items ys"
  by (simp_all add: items_def item_def)

lemma items_signals [simp]: "items (replicate k None) = {#}"
  by (induction k) simp_all

fun handled :: "'i worker \<Rightarrow> 'i multiset" where
  "handled (Handling x) = item x"
| "handled w = {#}"

definition in_flight :: "'i flush_buffer \<Rightarrow> 'i multiset" where
  "in_flight b = items (fb_putting b) + items (fb_queue b) + handled (fb_worker b) + items (map fst (fb_flushing b))"

definition conserved :: "'i flush_buffer \<Rightarrow> bool" where
  "conserved b \<longleftrightarrow>
     mset (fb_accepted b) = in_flight b + mset (fb_delivered b) + mset (fb_failed b) \<and>
     length (fb_errors b) = length (fb_failed b) \<and>
     (fb_max_queue b > 0 \<longrightarrow> int (length (fb_queue b)) \<le> fb_max_queue b)"

lemma new_buffer_conserved: "conserved (new_buffer m)"
  by (simp add: conserved_def in_flight_def new_buffer_def)

lemma step_conserved:
  assumes "fb_step b a b'" "conserved b"
  shows "conserved b'"
  using assms by cases (auto simp: conserved_def in_flight_def has_room_def)

lemma run_conserved: "fb_run b as b' \<Longrightarrow> conserved b \<Longrightarrow> conserved b'"
  by (erule run_keeps) (rule step_conserved)

section \<open>Runs without new calls end\<close>

fun is_call :: "'i fb_action \<Rightarrow> bool" where
  "is_call (EnqueueCheck i) = True"
| "is_call (EnqueueRefused i) = True"
| "is_call CloseStop = True"
| "is_call FlushStart = True"
| "is_call a = False"

fun worker_work :: "'i worker \<Rightarrow> nat" where
  "worker_work (Handling x) = 2"
| "worker_work w = 0"

text \<open>The steps that are left at most: four for an item not yet put, three for one in the queue.\<close>

definition work :: "'i flush_buffer \<Rightarrow> nat" where
  "work b = 4 * length (fb_putting b) + 3 * length (fb_queue b) + worker_work (fb_worker b) +
     sum_list (map (\<lambda>(x, n). if x = None then 1 else 3) (fb_flushing b))"

lemma step_work: "fb_step b a b' \<Longrightarrow> \<not> is_call a \<Longrightarrow> work b' < work b"
  by (erule fb_step.cases) (auto simp: work_def)

lemma run_work: "fb_run b as b' \<Longrightarrow> list_all (Not \<circ> is_call) as \<Longrightarrow> length as + work b' \<le> work b"
  by (induction rule: fb_run.induct) (auto dest: step_work)

definition quiescent :: "'i flush_buffer \<Rightarrow> bool" where
  "quiescent b \<longleftrightarrow> (\<forall>a b'. fb_step b a b' \<longrightarrow> is_call a)"

lemma quiescentD:
  assumes "quiescent b"
  shows "fb_flushing b = []" "fb_worker b = Waiting \<and> fb_queue b = [] \<or> fb_worker b = Ended"
    "has_room b \<Longrightarrow> fb_putting b = []"
proof -
  have no: "\<not> fb_step b a b'" if "\<not> is_call a" for a b' using assms that by (auto simp: quiescent_def)
  show "fb_flushing b = []"
  proof (rule ccontr)
    assume "fb_flushing b \<noteq> []"
    then obtain x n ys where f: "fb_flushing b = [] @ (x, n) # ys" by (metis append_Nil list.exhaust surj_pair)
    show False
    proof (cases x)
      case (Some i)
      with flush_done [of b "[]" i n ys] f no show False by (metis is_call.simps(13))
    next
      case None
      show False
      proof (cases "fb_queue b")
        case Nil
        with flush_empty [of b "[]" n ys] f None no show False by (metis is_call.simps(12))
      next
        case (Cons y q)
        show False
        proof (cases y)
          case (Some i)
          with flush_get [of b "[]" n ys i q] f None Cons no show False by (metis is_call.simps(10))
        next
          case y: None
          with flush_signal [of b "[]" n ys q] f None Cons no show False by (metis is_call.simps(11))
        qed
      qed
    qed
  qed
  show "fb_worker b = Waiting \<and> fb_queue b = [] \<or> fb_worker b = Ended"
  proof (cases "fb_worker b")
    case Waiting
    then show ?thesis using worker_get [OF Waiting] no [of WorkerGet] by (cases "fb_queue b") auto
  next
    case (Handling x)
    then show ?thesis using worker_end no [of WorkerEnd] worker_done no [of "WorkerDone (the x)"] by (cases x) force+
  qed simp
  show "fb_putting b = []" if "has_room b"
  proof (cases "fb_putting b")
    case (Cons x ys)
    then show ?thesis using put [of b "[]" x ys] that no [of "Put x"] by simp
  qed
qed

section \<open>Order\<close>

text \<open>Nobody puts an item after the first signal of \<^verbatim>\<open>close\<close> is put.\<close>

definition orderly :: "'i fb_action list \<Rightarrow> bool" where
  "orderly as \<longleftrightarrow> (\<exists>xs ys. as = xs @ ys \<and> Put None \<notin> set xs \<and> (\<forall>i. Put (Some i) \<notin> set ys))"

definition before_signal :: "'i flush_buffer \<Rightarrow> bool" where
  "before_signal b \<longleftrightarrow> None \<notin> set (fb_queue b) \<and> fb_worker b \<noteq> Handling None \<and> fb_worker b \<noteq> Ended"

text \<open>The signals are behind the items, and no item is left once the worker has taken a signal.\<close>

definition ending :: "'i worker \<Rightarrow> bool" where
  "ending w \<longleftrightarrow> w = Handling None \<or> w = Ended"

definition signal_last :: "'i option list \<Rightarrow> 'i worker \<Rightarrow> bool" where
  "signal_last q w \<longleftrightarrow> (\<exists>xs k. q = map Some xs @ replicate k None \<and> (ending w \<longrightarrow> xs = []))"

lemma step_before_signal: "fb_step b a b' \<Longrightarrow> a \<noteq> Put None \<Longrightarrow> before_signal b \<Longrightarrow> before_signal b'"
  by (erule fb_step.cases) (auto simp: before_signal_def; metis option.exhaust)+

lemma before_signal_last:
  assumes "before_signal b"
  shows "signal_last (fb_queue b) (fb_worker b)"
proof -
  have "map (Some \<circ> the) (fb_queue b) = fb_queue b"
  proof (rule map_idI)
    fix x assume "x \<in> set (fb_queue b)"
    then have "x \<noteq> None" using assms unfolding before_signal_def by metis
    then show "(Some \<circ> the) x = x" by simp
  qed
  then show ?thesis using assms unfolding signal_last_def before_signal_def ending_def
    by (intro exI [of _ "map the (fb_queue b)"] exI [of _ 0]) simp
qed

lemma signal_last_worker: "signal_last q w \<Longrightarrow> \<not> ending w' \<or> ending w \<Longrightarrow> signal_last q w'"
  by (auto simp: signal_last_def)

lemma signal_last_put:
  assumes "signal_last q w"
  shows "signal_last (q @ [None]) w"
proof -
  obtain xs k where "q = map Some xs @ replicate k None" "ending w \<longrightarrow> xs = []"
    using assms by (auto simp: signal_last_def)
  then show ?thesis unfolding signal_last_def
    by (intro exI [of _ xs] exI [of _ "Suc k"]) (simp add: replicate_append_same)
qed

lemma signal_last_get:
  assumes "signal_last (x # q) w"
  shows "signal_last q w" "signal_last q (Handling x)"
proof -
  obtain xs k where q: "x # q = map Some xs @ replicate k None" "ending w \<longrightarrow> xs = []"
    using assms by (auto simp: signal_last_def)
  have "\<exists>ys j. q = map Some ys @ replicate j None \<and> (x = None \<longrightarrow> ys = []) \<and> (xs = [] \<longrightarrow> ys = [])"
  proof (cases xs)
    case Nil
    then show ?thesis using q by (cases k) (auto intro: exI [of _ "[]"])
  next
    case (Cons y ys)
    then show ?thesis using q by (intro exI [of _ ys] exI [of _ k]) auto
  qed
  then show "signal_last q w" "signal_last q (Handling x)"
    using q(2) by (auto simp: signal_last_def ending_def)
qed

lemma step_signal_last:
  assumes "fb_step b a b'" "\<forall>i. a \<noteq> Put (Some i)" "signal_last (fb_queue b) (fb_worker b)"
  shows "signal_last (fb_queue b') (fb_worker b')"
  using assms(1)
proof cases
  case (put xs x ys)
  then show ?thesis using assms(2,3) by (cases x) (simp_all add: signal_last_put)
qed (use assms(3) in \<open>auto simp: ending_def intro: signal_last_get signal_last_worker\<close>)

lemma orderly_run:
  assumes "fb_run (new_buffer m) as b" "orderly as"
  shows "signal_last (fb_queue b) (fb_worker b)"
proof -
  obtain xs ys where as: "as = xs @ ys" "Put None \<notin> set xs" "\<forall>i. Put (Some i) \<notin> set ys"
    using assms(2) by (auto simp: orderly_def)
  then obtain b1 where b1: "fb_run (new_buffer m) xs b1" "fb_run b1 ys b" using assms(1) by (auto simp: run_append)
  from b1(1) have "before_signal b1"
    by (rule run_keeps) (use as(2) step_before_signal in \<open>auto simp: before_signal_def new_buffer_def\<close>)
  then have "signal_last (fb_queue b1) (fb_worker b1)" by (rule before_signal_last)
  with b1(2) show ?thesis by (elim run_keeps) (use as(3) step_signal_last in metis)
qed

section \<open>Properties\<close>

text \<open>C38. In every history of the buffer, whatever threads enqueue, flush and close it and whenever the sender
  fails: each item that was not refused is exactly once in transit, delivered or failed; there is one error per
  failed item; and the queue never exceeds its bound.\<close>

theorem flush_buffer_conserves:
  assumes "fb_run (new_buffer m) as b"
  shows "mset (fb_accepted b) = in_flight b + mset (fb_delivered b) + mset (fb_failed b) \<and>
    length (fb_errors b) = length (fb_failed b) \<and> (0 < m \<longrightarrow> int (length (fb_queue b)) \<le> m)"
proof -
  have "fb_max_queue b = m"
    by (rule run_keeps [OF assms]) (auto elim: fb_step.cases simp: new_buffer_def)
  then show ?thesis using run_conserved [OF assms new_buffer_conserved] by (simp add: conserved_def)
qed

text \<open>A flush that runs beside the worker delivers the second item before the first.\<close>

theorem flush_buffer_conserves_witness:
  "\<exists>b. fb_run (new_buffer 10) [EnqueueCheck 1, Put (Some 1), EnqueueCheck 2, Put (Some 2), WorkerGet, FlushStart,
      FlushGet 2, FlushDone 2, WorkerDone (1::nat)] b \<and>
    fb_delivered b = [2, 1] \<and> mset (fb_accepted b) = in_flight b + mset (fb_delivered b) + mset (fb_failed b)"
proof -
  have "\<exists>b. fb_run (new_buffer 10) [EnqueueCheck 1, Put (Some 1), EnqueueCheck 2, Put (Some 2), WorkerGet, FlushStart,
      FlushGet 2, FlushDone 2, WorkerDone (1::nat)] b \<and> fb_delivered b = [2, 1]"
    apply (intro exI conjI)
     apply (rule fb_cons, rule enqueue_check, simp add: new_buffer_def)
     apply (rule fb_cons, rule put [where xs = "[]" and ys = "[]"], simp add: new_buffer_def, simp add: new_buffer_def has_room_def)
     apply (rule fb_cons, rule enqueue_check, simp add: new_buffer_def)
     apply (rule fb_cons, rule put [where xs = "[]" and ys = "[]"], simp add: new_buffer_def, simp add: new_buffer_def has_room_def)
     apply (rule fb_cons, rule worker_get [where x = "Some 1" and q = "[Some 2]"], simp add: new_buffer_def, simp add: new_buffer_def)
     apply (rule fb_cons, rule flush_start)
     apply (rule fb_cons, rule flush_get [where xs = "[]" and ys = "[]" and n = 0 and q = "[]"], simp add: new_buffer_def, simp add: new_buffer_def)
     apply (rule fb_cons, rule flush_done [where xs = "[]" and ys = "[]" and n = 0], simp add: new_buffer_def)
     apply (rule fb_cons, rule worker_done, simp add: new_buffer_def)
     apply (rule fb_nil)
    apply (simp add: new_buffer_def)
    done
  then show ?thesis using flush_buffer_conserves by blast
qed

text \<open>C39. From any point of any history, the buffer makes at most \<open>work b\<close> further steps unless somebody calls it
  again, and a point where it makes none is reached.  There every call of \<^verbatim>\<open>flush_sync\<close> has returned; and if no
  item was put after the signal of \<^verbatim>\<open>close\<close> and no caller waits for room, every item that was not refused has been
  delivered or has failed.\<close>

theorem flush_buffer_settles:
  assumes "fb_run (new_buffer m) as b"
  shows "(\<forall>bs b'. fb_run b bs b' \<and> list_all (Not \<circ> is_call) bs \<longrightarrow> length bs \<le> work b) \<and>
    (\<exists>bs b'. fb_run b bs b' \<and> list_all (Not \<circ> is_call) bs \<and> quiescent b') \<and>
    (quiescent b \<longrightarrow> fb_flushing b = [] \<and>
       (orderly as \<and> fb_putting b = [] \<longrightarrow> mset (fb_accepted b) = mset (fb_delivered b) + mset (fb_failed b)))"
proof (intro conjI allI impI; (elim conjE)?)
  show "length bs \<le> work b" if "fb_run b bs b'" "list_all (Not \<circ> is_call) bs" for bs b'
    using run_work [OF that] by simp
  show "\<exists>bs b'. fb_run b bs b' \<and> list_all (Not \<circ> is_call) bs \<and> quiescent b'"
  proof (induction "work b" arbitrary: b rule: less_induct)
    case less
    show ?case
    proof (cases "quiescent b")
      case True
      then show ?thesis by (intro exI [of _ "[]"] exI [of _ b]) simp
    next
      case False
      then obtain a b' where a: "fb_step b a b'" "\<not> is_call a" by (auto simp: quiescent_def)
      from less [OF step_work [OF a]] obtain bs b'' where
        "fb_run b' bs b''" "list_all (Not \<circ> is_call) bs" "quiescent b''" by blast
      then show ?thesis using a by (intro exI [of _ "a # bs"] exI [of _ b'']) (auto intro: fb_cons)
    qed
  qed
  assume s: "quiescent b"
  show "fb_flushing b = []" by (rule quiescentD(1) [OF s])
  assume o: "orderly as" and p: "fb_putting b = []"
  obtain xs k where q: "fb_queue b = map Some xs @ replicate k None" "ending (fb_worker b) \<longrightarrow> xs = []"
    using orderly_run [OF assms o] by (auto simp: signal_last_def)
  have "items (fb_queue b) = {#}" using quiescentD(2) [OF s] q by (auto simp: ending_def)
  then have "in_flight b = {#}" using quiescentD(1,2) [OF s] p by (auto simp: in_flight_def)
  then show "mset (fb_accepted b) = mset (fb_delivered b) + mset (fb_failed b)"
    using run_conserved [OF assms new_buffer_conserved] by (simp add: conserved_def)
qed

text \<open>An item that is put after the signal of \<^verbatim>\<open>close\<close> stays in the queue for good: \<^verbatim>\<open>enqueue\<close> had checked
  \<^verbatim>\<open>_stopped\<close> before \<^verbatim>\<open>close\<close> set it, and the worker had ended before the item arrived.\<close>

theorem flush_buffer_settles_witness:
  "\<exists>b. fb_run (new_buffer 10) [EnqueueCheck (1::nat), CloseStop, Put None, WorkerGet, WorkerEnd, FlushStart,
      FlushEmpty 0, Put (Some 1)] b \<and>
    quiescent b \<and> fb_accepted b = [1] \<and> fb_delivered b = [] \<and> fb_failed b = [] \<and> fb_queue b = [Some 1] \<and>
    fb_flushing b = []"
proof -
  let ?b = "(new_buffer 10)\<lparr>fb_queue := [Some (1::nat)], fb_stopped := True, fb_worker := Ended, fb_accepted := [1]\<rparr>"
  have r: "fb_run (new_buffer 10) [EnqueueCheck (1::nat), CloseStop, Put None, WorkerGet, WorkerEnd, FlushStart,
      FlushEmpty 0, Put (Some 1)] ?b"
    apply (rule fb_cons, rule enqueue_check, simp add: new_buffer_def)
    apply (rule fb_cons, rule close_stop)
    apply (rule fb_cons, rule put [where xs = "[Some 1]" and ys = "[]"], simp add: new_buffer_def, simp add: new_buffer_def has_room_def)
    apply (rule fb_cons, rule worker_get [where x = None and q = "[]"], simp add: new_buffer_def, simp add: new_buffer_def)
    apply (rule fb_cons, rule worker_end, simp add: new_buffer_def)
    apply (rule fb_cons, rule flush_start)
    apply (rule fb_cons, rule flush_empty [where xs = "[]" and ys = "[]"], simp add: new_buffer_def, simp add: new_buffer_def)
    apply (rule fb_cons, rule put [where xs = "[]" and ys = "[]"], simp add: new_buffer_def, simp add: new_buffer_def has_room_def)
    apply (simp add: new_buffer_def)
    done
  have s: "quiescent ?b" by (auto simp: quiescent_def new_buffer_def elim!: fb_step.cases)
  then have "fb_flushing ?b = []" using flush_buffer_settles [OF r] by blast
  with r s show ?thesis by (intro exI [of _ ?b]) (simp add: new_buffer_def)
qed

end
