(* ===== verification/RateLimit.thy ===== *)
theory RateLimit
  imports Prelude
begin

text \<open>
  \<^verbatim>\<open>middleware/rate_limit.py\<close>: the limiter in front of every route, one sliding window per value of the
  \<^verbatim>\<open>x-api-key\<close> header.  Times are the readings of \<^verbatim>\<open>time.monotonic\<close>, in ticks.
\<close>

section \<open>The limiter\<close>

definition EXEMPT_PATHS :: "string list" where
  "EXEMPT_PATHS = [''/health'', ''/docs'', ''/openapi.json'', ''/redoc'']"

record rate_limit_middleware =
  max_requests :: int
  window_seconds :: int

text \<open>\<^verbatim>\<open>defaultdict(deque)\<close>: a key without a bucket has the empty one.\<close>

type_synonym hits = "string \<Rightarrow> int list"

record http_request =
  hr_path :: string
  hr_api_key :: "string option"

definition bucket_key :: "http_request \<Rightarrow> string" where
  "bucket_key r = (case hr_api_key r of None \<Rightarrow> ''anonymous'' | Some k \<Rightarrow> k)"

fun expire :: "int \<Rightarrow> int \<Rightarrow> int list \<Rightarrow> int list" where
  "expire window t [] = []"
| "expire window t (h # hs) = (if t - h > window then expire window t hs else h # hs)"

text \<open>Whether the request reaches the route; otherwise it is answered 429.\<close>

definition dispatch :: "rate_limit_middleware \<Rightarrow> int \<Rightarrow> http_request \<Rightarrow> hits \<Rightarrow> bool \<times> hits" where
  "dispatch M t r hits =
     (if hr_path r \<in> set EXEMPT_PATHS then (True, hits)
      else
        let api_key = bucket_key r;
            bucket = expire (window_seconds M) t (hits api_key)
        in if int (length bucket) \<ge> max_requests M then (False, hits(api_key := bucket))
           else (True, hits(api_key := bucket @ [t])))"

section \<open>Histories\<close>

fun serve_all :: "rate_limit_middleware \<Rightarrow> (int \<times> http_request) list \<Rightarrow> hits \<Rightarrow> bool list" where
  "serve_all M [] hits = []"
| "serve_all M ((t, r) # rs) hits = (case dispatch M t r hits of (ok, hits') \<Rightarrow> ok # serve_all M rs hits')"

text \<open>The admitted requests under a key in a closed interval of time.\<close>

definition admitted :: "string \<Rightarrow> int \<Rightarrow> int \<Rightarrow> (int \<times> http_request) list \<Rightarrow> bool list \<Rightarrow> nat" where
  "admitted key T T' rs oks =
     length (filter (\<lambda>((t, r), ok). ok \<and> hr_path r \<notin> set EXEMPT_PATHS \<and> bucket_key r = key \<and> T \<le> t \<and> t \<le> T') (zip rs oks))"

section \<open>Lemmas\<close>

lemma expire_suffix: "\<exists>pre. hs = pre @ expire w t hs \<and> (\<forall>h \<in> set pre. t - h > w)"
proof (induction hs)
  case (Cons h hs)
  then obtain pre where pre: "hs = pre @ expire w t hs" "\<forall>h \<in> set pre. t - h > w" by blast
  show ?case
  proof (cases "t - h > w")
    case True
    then show ?thesis using pre by (intro exI [of _ "h # pre"]) auto
  next
    case False
    then show ?thesis by (intro exI [of _ "[]"]) simp
  qed
qed simp

definition in_span :: "int \<Rightarrow> int \<Rightarrow> int list \<Rightarrow> nat" where
  "in_span T T' hs = length (filter (\<lambda>h. T \<le> h \<and> h \<le> T') hs)"

lemma in_span_simps [simp]:
  "in_span T T' [] = 0" "in_span T T' (xs @ ys) = in_span T T' xs + in_span T T' ys"
  "in_span T T' (h # hs) = (if T \<le> h \<and> h \<le> T' then Suc (in_span T T' hs) else in_span T T' hs)"
  by (simp_all add: in_span_def)

lemma in_span_le: "in_span T T' hs \<le> length hs"
  by (simp add: in_span_def)

text \<open>What expires is older than the window, so nothing of an interval that ends within the window is lost.\<close>

lemma in_span_expire:
  assumes "t \<le> T'" "T' \<le> T + w"
  shows "in_span T T' (expire w t hs) = in_span T T' hs" "length (expire w t hs) \<le> length hs"
proof -
  obtain pre where pre: "hs = pre @ expire w t hs" "\<forall>h \<in> set pre. t - h > w" using expire_suffix by blast
  have "in_span T T' pre = 0" using pre(2) assms by (auto simp: in_span_def filter_empty_conv)
  then show "in_span T T' (expire w t hs) = in_span T T' hs" using pre(1) by (metis add_0 in_span_simps(2))
  show "length (expire w t hs) \<le> length hs" by (subst (2) pre(1)) simp
qed

lemma admitted_Cons:
  "admitted key T T' ((t, r) # rs) (ok # oks) =
     (if ok \<and> hr_path r \<notin> set EXEMPT_PATHS \<and> bucket_key r = key \<and> T \<le> t \<and> t \<le> T' then 1 else 0) +
     admitted key T T' rs oks"
  by (simp add: admitted_def)

lemma admitted_late: "\<forall>x \<in> set rs. T' < fst x \<Longrightarrow> admitted key T T' rs oks = 0"
  by (force simp: admitted_def filter_empty_conv dest: set_zip_leftD)

text \<open>What is in the bucket counts against what may still be admitted.\<close>

lemma admitted_bound:
  assumes "T' \<le> T + window_seconds M" "sorted (map fst rs)" "int (length (hits key)) \<le> max_requests M"
  shows "int (in_span T T' (hits key)) + int (admitted key T T' rs (serve_all M rs hits)) \<le> max_requests M"
  using assms(2,3)
proof (induction rs arbitrary: hits)
  case Nil
  then show ?case using in_span_le [of T T' "hits key"] by (simp add: admitted_def)
next
  case (Cons x rs)
  obtain t r where x: "x = (t, r)" by fastforce
  obtain ok hits' where d: "dispatch M t r hits = (ok, hits')" by fastforce
  show ?case
  proof (cases "t \<le> T'")
    case False
    then have "\<forall>y \<in> set (x # rs). T' < fst y" using Cons.prems(1) x by force
    then show ?thesis using Cons.prems(2) in_span_le [of T T' "hits key"] by (simp add: admitted_late)
  next
    case True
    note e = in_span_expire [OF True assms(1), of "hits key"]
    have IH: "int (length (hits' key)) \<le> max_requests M \<Longrightarrow>
        int (in_span T T' (hits' key)) + int (admitted key T T' rs (serve_all M rs hits')) \<le> max_requests M"
      using Cons by simp
    have "int (length (hits' key)) \<le> max_requests M \<and>
        in_span T T' (hits' key) = in_span T T' (hits key) +
          (if ok \<and> hr_path r \<notin> set EXEMPT_PATHS \<and> bucket_key r = key \<and> T \<le> t then 1 else 0)"
      using d Cons.prems(2) e True by (auto simp: dispatch_def Let_def split: if_splits)
    then show ?thesis using IH True by (simp add: x d admitted_Cons split: if_splits)
  qed
qed

section \<open>Properties\<close>

text \<open>C40. Whatever arrives, in order of time: within any interval no longer than the window, the limiter lets at
  most \<open>max_requests\<close> requests under one key through, those for the exempt paths aside.\<close>

theorem rate_limit_bound:
  assumes "0 \<le> max_requests M" "sorted (map fst rs)" "T' \<le> T + window_seconds M"
  shows "int (admitted key T T' rs (serve_all M rs (\<lambda>_. []))) \<le> max_requests M"
  using admitted_bound [OF assms(3,2), of "\<lambda>_. []" key] assms(1) by simp

text \<open>The limit holds per value of a header that the caller chooses: requests with ever new values are all let
  through.\<close>

theorem rate_limit_bound_witness:
  "int (admitted ''k'' 0 60 [(0, \<lparr>hr_path = ''/v1/gate'', hr_api_key = Some ''k''\<rparr>),
          (60, \<lparr>hr_path = ''/v1/gate'', hr_api_key = Some ''k''\<rparr>)]
      (serve_all \<lparr>max_requests = 1, window_seconds = 60\<rparr>
         [(0, \<lparr>hr_path = ''/v1/gate'', hr_api_key = Some ''k''\<rparr>),
          (60, \<lparr>hr_path = ''/v1/gate'', hr_api_key = Some ''k''\<rparr>)] (\<lambda>_. []))) \<le> 1 \<and>
   serve_all \<lparr>max_requests = 1, window_seconds = 60\<rparr>
         [(0, \<lparr>hr_path = ''/v1/gate'', hr_api_key = Some ''k''\<rparr>),
          (60, \<lparr>hr_path = ''/v1/gate'', hr_api_key = Some ''k''\<rparr>),
          (60, \<lparr>hr_path = ''/v1/auth/login'', hr_api_key = Some ''a''\<rparr>),
          (60, \<lparr>hr_path = ''/v1/auth/login'', hr_api_key = Some ''b''\<rparr>)] (\<lambda>_. []) = [True, False, True, True]"
proof
  have "sorted (map fst [(0::int, \<lparr>hr_path = ''/v1/gate'', hr_api_key = Some ''k''\<rparr>),
      (60, \<lparr>hr_path = ''/v1/gate'', hr_api_key = Some ''k''\<rparr>)])" by simp
  from rate_limit_bound [OF _ this, of "\<lparr>max_requests = 1, window_seconds = 60\<rparr>" 60 0 "''k''"]
  show "int (admitted ''k'' 0 60 [(0, \<lparr>hr_path = ''/v1/gate'', hr_api_key = Some ''k''\<rparr>),
          (60, \<lparr>hr_path = ''/v1/gate'', hr_api_key = Some ''k''\<rparr>)]
      (serve_all \<lparr>max_requests = 1, window_seconds = 60\<rparr>
         [(0, \<lparr>hr_path = ''/v1/gate'', hr_api_key = Some ''k''\<rparr>),
          (60, \<lparr>hr_path = ''/v1/gate'', hr_api_key = Some ''k''\<rparr>)] (\<lambda>_. []))) \<le> 1" by simp
qed (simp add: dispatch_def EXEMPT_PATHS_def bucket_key_def)

end
