(* ===== verification/Spec2Isabelle.thy ===== *)
theory Spec2Isabelle
  imports Tenancy AdminApi SdkEvents FlushBuffer RateLimit
begin

text \<open>
  A verification development for Attest, the audit service under \<^verbatim>\<open>src/app\<close>: AI outputs of a
  regulated institution are judged by the institution's own policy and by regulation packs,
  recorded as signed, hash-linked events, sealed into signed Merkle batches and anchored with a
  time-stamping authority, while personal data is redacted before storage and content is encrypted
  and can be crypto-shredded.

  \<^bold>\<open>How the code is modelled.\<close>  JSON values are the datatype \<open>json\<close>, objects association lists in
  insertion order, Python strings their UTF-8 bytes.  Every exception is a value of \<open>exn\<close>, and every
  function that may raise returns \<open>exn + 'a\<close>.  The database is the record \<open>db\<close>, a list of rows per
  table of \<^verbatim>\<open>db/models.py\<close>; a service function takes the database and returns it updated; a request
  that raises leaves it unchanged (\<open>get_db\<close>).  Time, randomness, files, the configuration and the
  cryptographic primitives are fields of the record \<open>env\<close>; what the proofs need of them
  (signatures made with a key verify under its public key, decryption inverts encryption) are named
  hypotheses with a concrete instance, \<open>demo_env\<close>.  Collision resistance is never assumed: binding
  theorems conclude that contents agree or that two given inputs collide.

  \<^bold>\<open>Theories.\<close>
  \<^item> \<open>Prelude\<close>: exceptions and the result monad, bytes, hexadecimal, Python string operations.
  \<^item> \<open>Json\<close>: values, \<^verbatim>\<open>dumps\<close>, \<^verbatim>\<open>loads\<close>, floats, truth values, and that parsing inverts printing.
  \<^item> \<open>Codec\<close>: base64 and ISO timestamps.
  \<^item> \<open>Crypto\<close>: \<^verbatim>\<open>app/crypto\<close>: canonical bytes, hashing, signing, key wrapping, the signing providers.
  \<^item> \<open>Merkle\<close>: \<^verbatim>\<open>crypto/merkle.py\<close>: every inclusion proof verifies; roots and proofs bind their leaves.
  \<^item> \<open>Pii\<close>: \<^verbatim>\<open>services/pii.py\<close> and the detectors, with the regular expressions run by a matcher.
  \<^item> \<open>Models\<close>: \<^verbatim>\<open>db/models.py\<close>, the queries, and the locales of a service and of a permanent condition.
  \<^item> \<open>Policy\<close>: \<^verbatim>\<open>services/policy\<close> and \<^verbatim>\<open>services/verdict.py\<close>: features, layers, rules, packs, verdict.
  \<^item> \<open>PayloadStore\<close>: \<^verbatim>\<open>services/payload_store.py\<close>: encryption at rest, customer-key mode, shredding.
  \<^item> \<open>EventLog\<close>: \<^verbatim>\<open>services/events.py\<close>, \<^verbatim>\<open>envelope\<close>, \<^verbatim>\<open>org_signing\<close>, \<^verbatim>\<open>verification\<close>, \<^verbatim>\<open>replay\<close>, \<^verbatim>\<open>erasure\<close>
    and the repositories they use; the invariant \<open>log_ok\<close> of the log.
  \<^item> \<open>Batching\<close>: \<^verbatim>\<open>services/batching.py\<close>, \<^verbatim>\<open>anchoring.py\<close>, \<^verbatim>\<open>anchor_batches.py\<close>.
  \<^item> \<open>Remediation\<close>: \<^verbatim>\<open>services/mitigation.py\<close>, \<^verbatim>\<open>remediation.py\<close>, \<^verbatim>\<open>rewrite.py\<close>.
  \<^item> \<open>Approvals\<close>: \<^verbatim>\<open>services/approvals.py\<close>, \<^verbatim>\<open>workflow.py\<close>, \<^verbatim>\<open>workqueue.py\<close>.
  \<^item> \<open>Gate\<close>: \<^verbatim>\<open>services/precheck.py\<close>, \<^verbatim>\<open>gate.py\<close>, \<^verbatim>\<open>policy_preview.py\<close>, \<^verbatim>\<open>repositories/policies.py\<close>.
  \<^item> \<open>Offline\<close>: \<^verbatim>\<open>services/offline.py\<close>: devices, verification and grafting of buffered segments.
  \<^item> \<open>SdkPolicy\<close>: \<^verbatim>\<open>attest_sdk/policy\<close> and the bundle of \<^verbatim>\<open>attest_sdk/offline.py\<close>: evaluation on the client.
  \<^item> \<open>SdkStore\<close>: \<^verbatim>\<open>attest_sdk/store.py\<close>, \<^verbatim>\<open>device.py\<close>: the encrypted queue, shown to refine a list, and the keys.
  \<^item> \<open>SdkClient\<close>: \<^verbatim>\<open>attest_sdk/attest.py\<close>, \<^verbatim>\<open>gate.py\<close>: the gate call, the offline fallback, the replay,
    auto-remediation.  The state of a client is explicit, the network a function over a state of its own.
  \<^item> \<open>Profile\<close>: \<^verbatim>\<open>services/org_profile.py\<close>, \<^verbatim>\<open>regulation_packs.py\<close>, \<^verbatim>\<open>onboarding.py\<close> and the codes of \<^verbatim>\<open>domain\<close>.
  \<^item> \<open>SdkApi\<close>: \<^verbatim>\<open>api/sdk.py\<close>, \<^verbatim>\<open>api/gate.py\<close>: the endpoints as one service over the database, which interprets
    the locale that the client's lemmas were proved in; what the client reports is in the log.
  \<^item> \<open>HumanAuth\<close>: \<^verbatim>\<open>services/human_auth.py\<close>, \<^verbatim>\<open>auth.py\<close>, \<^verbatim>\<open>api/deps.py\<close>, \<^verbatim>\<open>api/humans.py\<close>: codes, passwords,
    sessions; bounds on what a guesser can try, over any history of requests.
  \<^item> \<open>AccessReview\<close>: \<^verbatim>\<open>services/access_review.py\<close>, \<^verbatim>\<open>consent_events.py\<close>, \<^verbatim>\<open>attest_sdk/consent.py\<close>: requests for
    access, quorum, released keys, reads and their trail, over any history of operations.
  \<^item> \<open>Evidence\<close>: \<^verbatim>\<open>services/evidence.py\<close>, \<^verbatim>\<open>compliance_summary.py\<close> and the verifier \<^verbatim>\<open>bundle/verify.py\<close>
    that an exported bundle carries: which exports it accepts.
  \<^item> \<open>Orgs\<close>: \<^verbatim>\<open>services/orgs.py\<close>, \<^verbatim>\<open>repositories/orgs.py\<close>, \<^verbatim>\<open>api/orgs.py\<close>: the directory of organizations, its
    invariant over any history, and the rotation of keys.
  \<^item> \<open>Api\<close>: the customer's routes of \<^verbatim>\<open>app/api\<close> with the shapes of \<^verbatim>\<open>schemas.py\<close>, and a request as one function of the
    credentials and the call; \<open>AdminApi\<close>: the operator's, \<^verbatim>\<open>api/admin.py\<close>.
  \<^item> \<open>Tenancy\<close>: what the tenants and the roles of the service cannot do: write another's rows, be answered from
    them, resolve under another's name, or write as a viewer.
  \<^item> \<open>SdkEvents\<close>: the rest of \<^verbatim>\<open>attest_sdk/attest.py\<close>: local precheck, numbering, buffered events, flush; run against
    the service.
  \<^item> \<open>FlushBuffer\<close>: \<^verbatim>\<open>attest_sdk/buffer.py\<close> as a step relation: conservation, and that it comes to rest.
  \<^item> \<open>RateLimit\<close>: \<^verbatim>\<open>middleware/rate_limit.py\<close>: the bound on what it lets through.

  \<^bold>\<open>Bounds and fuel.\<close>  \<^verbatim>\<open>json.loads\<close> recurses with a fuel of the length of its input plus one, shown to be
  enough for every printed value.  Sequence numbers are integers checked against the 32-bit column
  at insertion.

  \<^bold>\<open>Not modelled.\<close>  The regulation watcher, \<^verbatim>\<open>services/reg_watch.py\<close>, its tables and its routes: fetching regulators'
  pages and comparing their text; \<^verbatim>\<open>main.py\<close>, the static lists of \<^verbatim>\<open>domain\<close>, the zip container of an export and the
  scripts; the coercions of response models; and the exchange with the time-stamping authority and the model
  API, which are parameters.
\<close>

end
